(* ===== verification/Prelude.thy ===== *)
theory Prelude
  imports Complex_Main "HOL-Library.AList" "HOL-Library.Multiset"
begin

text \<open>
  What the component theories share: the exceptions of the modelled Python code as values, the
  Python values the code passes around (\<open>pyval\<close>), dictionaries in insertion order, and the
  list and map lemmas the component proofs rest on.

  A call that may raise returns \<open>py_error + 'a\<close>: \<open>Inl\<close> is the exception that leaves the call,
  \<open>Inr\<close> its value. A dictionary is an association list in insertion order: \<open>AList.update\<close> keeps
  the position of a known key and appends a new one, as a Python dictionary does;
  \<open>AList.delete\<close> is \<open>dict.pop(key, None)\<close>. A Python set whose iteration order can be observed is
  a list without duplicates, one whose order cannot be observed is an Isabelle set.
\<close>

named_theorems result_simps \<open>rewriting of exception values\<close>
named_theorems dict_simps \<open>lookups after dictionary updates\<close>

section \<open>Exceptions as values\<close>

datatype py_error =
    KeyError
  | TypeError
  | ValueError
  | IndexError
  | AttributeError
  | RuntimeError
  | ValidationError
  | DbInterfaceError
  | DbSerializationError
  | ExtractionError
  | FileNotFoundError
  | NoFreeWorker
  | OSError
  | QueryConversionException
  | IntegrityError
  | SQLAlchemyError

type_synonym 'a result = "py_error + 'a"

definition bindE :: "'e + 'a \<Rightarrow> ('a \<Rightarrow> 'e + 'b) \<Rightarrow> 'e + 'b" where
  "bindE r f = (case r of Inl e \<Rightarrow> Inl e | Inr a \<Rightarrow> f a)"

lemma bindE_Inl [simp, result_simps]: "bindE (Inl e) f = Inl e"
  by (simp add: bindE_def)

lemma bindE_Inr [simp, result_simps]: "bindE (Inr a) f = f a"
  by (simp add: bindE_def)

lemma bindE_eq_Inr [result_simps]: "bindE r f = Inr b \<longleftrightarrow> (\<exists>a. r = Inr a \<and> f a = Inr b)"
  by (cases r) auto

lemma bindE_eq_Inl [result_simps]:
  "bindE r f = Inl e \<longleftrightarrow> r = Inl e \<or> (\<exists>a. r = Inr a \<and> f a = Inl e)"
  by (cases r) auto

fun mapE :: "('a \<Rightarrow> 'e + 'b) \<Rightarrow> 'a list \<Rightarrow> 'e + 'b list" where
  "mapE f [] = Inr []"
| "mapE f (x # xs) = bindE (f x) (\<lambda>y. bindE (mapE f xs) (\<lambda>ys. Inr (y # ys)))"

lemma mapE_Inr_iff: "mapE f xs = Inr ys \<longleftrightarrow> list_all2 (\<lambda>x y. f x = Inr y) xs ys"
  by (induction xs arbitrary: ys) (auto simp: result_simps list_all2_Cons1)

lemma mapE_all_Inr: "(\<And>x. x \<in> set xs \<Longrightarrow> f x = Inr (g x)) \<Longrightarrow> mapE f xs = Inr (map g xs)"
  by (induction xs) auto

lemma mapE_Inr_map:
  "mapE f xs = Inr ys \<Longrightarrow> (\<And>x y. f x = Inr y \<Longrightarrow> h y = g x) \<Longrightarrow> map h ys = map g xs"
  by (induction xs arbitrary: ys) (auto simp: result_simps)

text \<open>A loop whose passes may raise\<close>

fun foldE :: "('a \<Rightarrow> 'b \<Rightarrow> 'b result) \<Rightarrow> 'a list \<Rightarrow> 'b \<Rightarrow> 'b result" where
  "foldE f [] b = Inr b"
| "foldE f (x # xs) b = bindE (f x b) (foldE f xs)"

text \<open>Every pass of a loop keeps \<open>P\<close>, moves on by \<open>R\<close> and establishes \<open>Q\<close> for its element.\<close>

lemma foldE_loop:
  assumes "foldE f xs b = Inr b'" "P b"
    and "\<And>x b b'. x \<in> set xs \<Longrightarrow> P b \<Longrightarrow> f x b = Inr b' \<Longrightarrow> P b' \<and> R b b' \<and> Q x b'"
    and refl: "\<And>b. R b b" and trans: "\<And>a b c. R a b \<Longrightarrow> R b c \<Longrightarrow> R a c" and keep: "\<And>x b c. Q x b \<Longrightarrow> R b c \<Longrightarrow> Q x c"
  shows "P b' \<and> R b b' \<and> (\<forall>x\<in>set xs. Q x b')"
  using assms(1-3)
proof (induction xs arbitrary: b)
  case (Cons x xs)
  then obtain b1 where b1: "f x b = Inr b1" "foldE f xs b1 = Inr b'"
    by (auto simp: result_simps)
  have first: "P b1" "R b b1" "Q x b1"
    using Cons.prems(3) [OF _ Cons.prems(2) b1(1)] by simp_all
  have rest: "P b' \<and> R b1 b' \<and> (\<forall>x\<in>set xs. Q x b')"
    by (rule Cons.IH [OF b1(2) first(1)], rule Cons.prems(3)) simp_all
  then show ?case
    using trans [OF first(2)] keep [OF first(3)] by auto
qed (use refl in simp)

lemma foldE_pure: "foldE (\<lambda>x b. Inr (g x b)) xs b = Inr (fold g xs b)"
  by (induction xs arbitrary: b) simp_all

lemma foldE_append: "foldE f (xs @ ys) b = bindE (foldE f xs b) (foldE f ys)"
  by (induction xs arbitrary: b) (simp_all add: bindE_def split: sum.splits)

lemma foldE_invariant:
  assumes "foldE f xs b = Inr b'" "P b" and "\<And>x b b'. f x b = Inr b' \<Longrightarrow> P b \<Longrightarrow> P b'"
  shows "P b'"
  using assms(1,2) by (induction xs arbitrary: b) (auto simp: result_simps intro: assms(3))

text \<open>A loop that collects in a list\<close>

lemma foldE_appends:
  assumes "\<And>x acc. x \<in> set xs \<Longrightarrow> f x acc = Inr (acc @ g x)"
  shows "foldE f xs acc = Inr (acc @ concat (map g xs))"
  using assms by (induction xs arbitrary: acc) simp_all

lemma foldE_filters:
  assumes "\<And>x acc. x \<in> set xs \<Longrightarrow> f x acc = Inr (if P x then acc @ [x] else acc)"
  shows "foldE f xs acc = Inr (acc @ filter P xs)"
  using assms by (induction xs arbitrary: acc) simp_all

lemma foldE_collects:
  assumes "\<And>x. x \<in> set xs \<Longrightarrow> \<exists>ys. set ys = S x \<and> (\<forall>acc. f x acc = Inr (acc @ ys))"
  shows "\<exists>ys. set ys = (\<Union>x\<in>set xs. S x) \<and> (\<forall>acc. foldE f xs acc = Inr (acc @ ys))"
  using assms
proof (induction xs)
  case (Cons x xs)
  obtain ys where ys: "set ys = S x" "\<forall>acc. f x acc = Inr (acc @ ys)"
    using Cons.prems [of x] by auto
  obtain zs where "set zs = (\<Union>x\<in>set xs. S x)" "\<forall>acc. foldE f xs acc = Inr (acc @ zs)"
    using Cons by auto
  then have "set (ys @ zs) = (\<Union>y\<in>set (x # xs). S y) \<and> (\<forall>acc. foldE f (x # xs) acc = Inr (acc @ (ys @ zs)))"
    using ys by simp
  then show ?case
    by (rule exI)
qed simp

lemma foldE_total:
  assumes "P b" "\<And>x b. x \<in> set xs \<Longrightarrow> P b \<Longrightarrow> \<exists>b'. f x b = Inr b' \<and> P b'"
  shows "\<exists>b'. foldE f xs b = Inr b' \<and> P b'"
  using assms
proof (induction xs arbitrary: b)
  case (Cons x xs)
  obtain b' where b': "f x b = Inr b'" "P b'"
    using Cons.prems by (meson list.set_intros(1))
  then obtain b'' where "foldE f xs b' = Inr b''" "P b''"
    using Cons.IH [of b'] Cons.prems(2) by (meson list.set_intros(2))
  then show ?case
    using b'(1) by simp
qed simp

lemma mapE_returns: "(\<And>x. x \<in> set xs \<Longrightarrow> \<exists>y. f x = Inr y) \<Longrightarrow> \<exists>ys. mapE f xs = Inr ys"
  by (induction xs) fastforce+

definition is_ok :: "'e + 'a \<Rightarrow> bool" where
  "is_ok r = (case r of Inl _ \<Rightarrow> False | Inr _ \<Rightarrow> True)"

lemma is_ok_simps [simp]: "is_ok (Inr a)" "\<not> is_ok (Inl e)"
  by (simp_all add: is_ok_def)

lemma is_ok_iff: "is_ok r \<longleftrightarrow> (\<exists>a. r = Inr a)"
  by (cases r) auto

section \<open>Python values\<close>

text \<open>
  The values that analysis results are made of. \<open>PVersion\<close> is an object of the package
  \<open>semver\<close>, represented by its text \<open>str(version)\<close>.
\<close>

datatype pyval =
    PNone
  | PBool bool
  | PInt int
  | PFloat real
  | PStr string
  | PBytes string
  | PVersion string
  | PTuple "pyval list"
  | PList "pyval list"
  | PDict "(string \<times> pyval) list"

type_synonym pydict = "(string \<times> pyval) list"
type_synonym timestamp = real

text \<open>Truth value of an object: \<open>if x\<close>, \<open>x or y\<close>.\<close>

fun truthy :: "pyval \<Rightarrow> bool" where
  "truthy PNone = False"
| "truthy (PBool b) = b"
| "truthy (PInt i) = (i \<noteq> 0)"
| "truthy (PFloat x) = (x \<noteq> 0)"
| "truthy (PStr s) = (s \<noteq> [])"
| "truthy (PBytes s) = (s \<noteq> [])"
| "truthy (PVersion s) = True"
| "truthy (PTuple xs) = (xs \<noteq> [])"
| "truthy (PList xs) = (xs \<noteq> [])"
| "truthy (PDict d) = (d \<noteq> [])"

text \<open>\<open>d[k]\<close> on a dictionary, and \<open>v[k]\<close> with a string key on any value.\<close>

definition dict_item :: "(string \<times> 'a) list \<Rightarrow> string \<Rightarrow> 'a result" where
  "dict_item d k = (case map_of d k of None \<Rightarrow> Inl KeyError | Some v \<Rightarrow> Inr v)"

fun subscript :: "pyval \<Rightarrow> string \<Rightarrow> pyval result" where
  "subscript (PDict d) k = dict_item d k"
| "subscript _ k = Inl TypeError"

text \<open>Substring test \<open>s in t\<close> on strings.\<close>

fun starts_with :: "'a list \<Rightarrow> 'a list \<Rightarrow> bool" where
  "starts_with [] t = True"
| "starts_with (c # s) [] = False"
| "starts_with (c # s) (d # t) = (c = d \<and> starts_with s t)"

fun substring_of :: "'a list \<Rightarrow> 'a list \<Rightarrow> bool" where
  "substring_of s [] = (s = [])"
| "substring_of s (d # t) = (starts_with s (d # t) \<or> substring_of s t)"

lemma starts_with_iff: "starts_with s t \<longleftrightarrow> (\<exists>r. t = s @ r)"
  by (induction s t rule: starts_with.induct) auto

lemma substring_of_iff: "substring_of s t \<longleftrightarrow> (\<exists>p r. t = p @ s @ r)"
proof (induction t)
  case Nil
  then show ?case by simp
next
  case (Cons d t)
  have "(\<exists>p r. d # t = p @ s @ r) \<longleftrightarrow> (\<exists>r. d # t = s @ r) \<or> (\<exists>p r. t = p @ s @ r)"
    by (metis append_Cons append_Nil list.exhaust list.inject)
  then show ?case
    using Cons by (simp add: starts_with_iff)
qed

text \<open>\<open>s in v\<close> for a string \<open>s\<close>: keys of a dictionary, elements of a list, substrings.\<close>

fun py_contains :: "string \<Rightarrow> pyval \<Rightarrow> bool result" where
  "py_contains s (PDict d) = Inr (map_of d s \<noteq> None)"
| "py_contains s (PList xs) = Inr (PStr s \<in> set xs)"
| "py_contains s (PTuple xs) = Inr (PStr s \<in> set xs)"
| "py_contains s (PStr t) = Inr (substring_of s t)"
| "py_contains s _ = Inl TypeError"

text \<open>\<open>for x in v\<close>\<close>

fun py_iter :: "pyval \<Rightarrow> pyval list result" where
  "py_iter (PList xs) = Inr xs"
| "py_iter (PTuple xs) = Inr xs"
| "py_iter (PDict d) = Inr (map (PStr \<circ> fst) d)"
| "py_iter (PStr s) = Inr (map (\<lambda>c. PStr [c]) s)"
| "py_iter (PBytes s) = Inr (map (\<lambda>c. PInt (of_char c)) s)"
| "py_iter _ = Inl TypeError"

section \<open>Dictionaries in insertion order\<close>

lemma dict_item_Inr [dict_simps]: "dict_item d k = Inr v \<longleftrightarrow> map_of d k = Some v"
  by (simp add: dict_item_def split: option.splits)

lemma dict_item_Inl [dict_simps]: "dict_item d k = Inl e \<longleftrightarrow> map_of d k = None \<and> e = KeyError"
  by (auto simp: dict_item_def split: option.splits)

lemma map_of_update [simp, dict_simps]: "map_of (AList.update k v d) = (map_of d)(k \<mapsto> v)"
  by (rule update_conv')

lemma map_of_delete [simp, dict_simps]: "map_of (AList.delete k d) = (map_of d)(k := None)"
  by (rule delete_conv')

lemma keys_update: "map fst (AList.update k v d) = (if k \<in> fst ` set d then map fst d else map fst d @ [k])"
  by (induction d) auto

lemma distinct_keys_update [simp]: "distinct (map fst d) \<Longrightarrow> distinct (map fst (AList.update k v d))"
  by (auto simp: keys_update)

lemma set_update_subset: "set (AList.update k v d) \<subseteq> insert (k, v) (set d)"
  by (induction d) auto

lemma dom_map_of_iff: "map_of d k \<noteq> None \<longleftrightarrow> k \<in> fst ` set d"
  by (simp add: map_of_eq_None_iff)

lemma sum_list_alist_update:
  fixes f :: "'v \<Rightarrow> 'a :: comm_monoid_add"
  shows "map_of d k = Some v \<Longrightarrow>
     sum_list (map (\<lambda>x. f (snd x)) (AList.update k v' d)) + f v = sum_list (map (\<lambda>x. f (snd x)) d) + f v'"
  by (induction d) (auto simp: ac_simps)

lemma sum_list_alist_new:
  fixes f :: "'v \<Rightarrow> 'a :: comm_monoid_add"
  shows "map_of d k = None \<Longrightarrow>
     sum_list (map (\<lambda>x. f (snd x)) (AList.update k v d)) = sum_list (map (\<lambda>x. f (snd x)) d) + f v"
  by (induction d) (auto simp: ac_simps split: if_splits)

lemma sum_list_alist_delete:
  fixes f :: "'v \<Rightarrow> 'a :: comm_monoid_add"
  assumes "distinct (map fst d)" "map_of d k = Some v"
  shows "sum_list (map (\<lambda>x. f (snd x)) (AList.delete k d)) + f v = sum_list (map (\<lambda>x. f (snd x)) d)"
  using assms
proof (induction d)
  case (Cons x d)
  obtain k' w where x: "x = (k', w)"
    by (cases x)
  show ?case
  proof (cases "k' = k")
    case True
    then have "AList.delete k d = d"
      using Cons.prems by (simp add: x delete_idem)
    then show ?thesis
      using Cons.prems True by (simp add: x add.commute)
  next
    case False
    then show ?thesis
      using Cons by (auto simp: x add.assoc)
  qed
qed simp

text \<open>\<open>d.setdefault(k, v)\<close> followed by a change of the stored value.\<close>

definition dict_modify :: "'k \<Rightarrow> 'v \<Rightarrow> ('v \<Rightarrow> 'v) \<Rightarrow> ('k \<times> 'v) list \<Rightarrow> ('k \<times> 'v) list" where
  "dict_modify k v0 f d =
     AList.update k (f (case map_of d k of None \<Rightarrow> v0 | Some v \<Rightarrow> v)) d"

lemma map_of_dict_modify [dict_simps]:
  "map_of (dict_modify k v0 f d) =
     (map_of d)(k \<mapsto> f (case map_of d k of None \<Rightarrow> v0 | Some v \<Rightarrow> v))"
  by (simp add: dict_modify_def)

section \<open>Lists\<close>

text \<open>\<open>xs.remove(x)\<close>: the first occurrence is removed; a missing element raises \<open>ValueError\<close>.\<close>

definition list_remove :: "'a \<Rightarrow> 'a list \<Rightarrow> 'a list result" where
  "list_remove x xs = (if x \<in> set xs then Inr (remove1 x xs) else Inl ValueError)"

text \<open>\<open>xs.pop()\<close>: the last element and the rest.\<close>

definition list_pop :: "'a list \<Rightarrow> ('a \<times> 'a list) result" where
  "list_pop xs = (if xs = [] then Inl IndexError else Inr (last xs, butlast xs))"

lemma list_pop_snoc [simp]: "list_pop (xs @ [x]) = Inr (x, xs)"
  by (simp add: list_pop_def)

lemma list_pop_Inr: "list_pop xs = Inr (x, ys) \<longleftrightarrow> xs = ys @ [x]"
  by (cases xs rule: rev_cases) (auto simp: list_pop_def)

lemma list_pop_Inl: "list_pop xs = Inl e \<longleftrightarrow> xs = [] \<and> e = IndexError"
  by (auto simp: list_pop_def)

text \<open>The pages of a list\<close>

lemma concat_first_pages: "concat (map (\<lambda>i. take n (drop (n * i) v)) [0..<k]) = take (n * k) v"
proof (induction k)
  case (Suc k)
  then show ?case
    using take_add [of "n * k" n v] by (simp add: add.commute)
qed simp

lemma concat_pages:
  assumes "0 < n"
  shows "concat (map (\<lambda>i. take n (drop (n * i) v)) [0..<(length v + n - 1) div n]) = v"
proof -
  have "length v \<le> n * ((length v + n - 1) div n)"
    using dividend_less_div_times [OF assms, of "length v + n - 1"] by (simp add: mult.commute)
  then show ?thesis
    by (simp add: concat_first_pages)
qed

end
