(* ===== verification/Helpers.thy ===== *)
theory Helpers
  imports Prelude "HOL-Library.Char_ord" "HOL-Library.List_Lexorder" "HOL-Library.Sublist"
begin

text \<open>
  The pure functions of \<^verbatim>\<open>src/src/helperFunctions\<close> that the other components call: conversions
  (\<^verbatim>\<open>data_conversion.py\<close>), UIDs (\<^verbatim>\<open>uid.py\<close>), comparisons of collections
  (\<^verbatim>\<open>compare_sets.py\<close>), virtual file paths (\<^verbatim>\<open>virtual_file_path.py\<close>), relative paths
  (\<^verbatim>\<open>fileSystem.py\<close>) and the checks of \<^verbatim>\<open>web_interface.py\<close>. A character stands for a code
  point below 256; strings are compared by code points, as the lexicographic order of the library
  does. SHA-256 is the parameter \<open>sha\<close>.
\<close>

section \<open>Splitting and joining\<close>

text \<open>\<open>s.split(c)\<close> for a one-character separator, and \<open>c.join(xs)\<close>.\<close>

fun py_split :: "char \<Rightarrow> string \<Rightarrow> string list" where
  "py_split c [] = [[]]"
| "py_split c (x # xs) =
     (if x = c then [] # py_split c xs
      else (case py_split c xs of [] \<Rightarrow> [[x]] | y # ys \<Rightarrow> (x # y) # ys))"

fun py_join :: "string \<Rightarrow> string list \<Rightarrow> string" where
  "py_join sep [] = []"
| "py_join sep [x] = x"
| "py_join sep (x # y # ys) = x @ sep @ py_join sep (y # ys)"

text \<open>\<open>s.split(c, maxsplit=n)\<close>\<close>

fun py_split_max :: "char \<Rightarrow> nat \<Rightarrow> string \<Rightarrow> string list" where
  "py_split_max c 0 s = [s]"
| "py_split_max c (Suc n) s =
     (let a = takeWhile (\<lambda>x. x \<noteq> c) s; b = dropWhile (\<lambda>x. x \<noteq> c) s
      in if b = [] then [s] else a # py_split_max c n (tl b))"

text \<open>\<open>xs[k:]\<close> for an integer \<open>k\<close>: a negative index counts from the end.\<close>

definition slice_from :: "int \<Rightarrow> 'a list \<Rightarrow> 'a list" where
  "slice_from k xs = (if 0 \<le> k then drop (nat k) xs else drop (length xs - nat (- k)) xs)"

section \<open>Characters and numbers\<close>

definition lower_char :: "char \<Rightarrow> char" where
  "lower_char c =
     (if CHR ''A'' \<le> c \<and> c \<le> CHR ''Z'' \<or> CHR 0xC0 \<le> c \<and> c \<le> CHR 0xDE \<and> c \<noteq> CHR 0xD7
      then char_of (of_char c + 32 :: nat) else c)"

definition py_lower :: "string \<Rightarrow> string" where
  "py_lower s = map lower_char s"

fun nat_str :: "nat \<Rightarrow> string" where
  "nat_str n = (if n < 10 then [''0123456789'' ! n] else nat_str (n div 10) @ [''0123456789'' ! (n mod 10)])"

declare nat_str.simps [simp del]

definition is_digit_char :: "char \<Rightarrow> bool" where
  "is_digit_char c \<longleftrightarrow> c \<in> set ''0123456789''"

definition is_hex_char :: "char \<Rightarrow> bool" where
  "is_hex_char c \<longleftrightarrow> c \<in> set ''abcdef0123456789''"

text \<open>Identifiers, and the white space and word characters of regular expressions below code point 256\<close>

definition char_between :: "char \<times> char \<Rightarrow> char \<Rightarrow> bool" where
  "char_between = (\<lambda>(lo, hi) c. lo \<le> c \<and> c \<le> hi)"

definition is_name_start :: "char \<Rightarrow> bool" where
  "is_name_start c \<longleftrightarrow> c = CHR ''_'' \<or> char_between (CHR ''a'', CHR ''z'') c \<or> char_between (CHR ''A'', CHR ''Z'') c"

definition is_ident_char :: "char \<Rightarrow> bool" where
  "is_ident_char c \<longleftrightarrow> is_name_start c \<or> is_digit_char c"

definition is_space :: "char \<Rightarrow> bool" where
  "is_space c \<longleftrightarrow> (of_char c :: nat) \<in> set ([9..<14] @ [28..<33] @ [133, 160])"

definition is_word_char :: "char \<Rightarrow> bool" where
  "is_word_char c \<longleftrightarrow> is_ident_char c \<or>
     (of_char c :: nat) \<in> set ([170, 178, 179, 181, 185, 186] @ [188..<191] @ [192..<215] @ [216..<247] @ [248..<256])"

text \<open>\<open>s.replace(old, new)\<close> for a text \<open>old\<close> that is not empty\<close>

function py_replace :: "string \<Rightarrow> string \<Rightarrow> string \<Rightarrow> string" where
  "py_replace old new [] = []"
| "py_replace old new (c # s) =
     (if old \<noteq> [] \<and> starts_with old (c # s) then new @ py_replace old new (drop (length old) (c # s))
      else c # py_replace old new s)"
  by pat_completeness auto
termination
  by (relation "measure (\<lambda>(old, new, s). length s)") (auto simp: neq_Nil_conv)

text \<open>A value that may be \<open>None\<close> in a format string\<close>

definition fmt :: "string option \<Rightarrow> string" where
  "fmt x = (case x of None \<Rightarrow> ''None'' | Some s \<Rightarrow> s)"

section \<open>data_conversion.py\<close>

text \<open>The argument of \<open>make_bytes\<close> is bytes, a string or a list of integers.\<close>

datatype bytes_like = Bytes string | Str string | Ints "int list"

definition utf8_char :: "char \<Rightarrow> string" where
  "utf8_char c = (let n = of_char c :: nat in
     if n < 128 then [c] else [char_of (192 + n div 64), char_of (128 + n mod 64)])"

fun make_bytes :: "bytes_like \<Rightarrow> string result" where
  "make_bytes (Bytes b) = Inr b"
| "make_bytes (Str s) = Inr (concat (map utf8_char s))"
| "make_bytes (Ints is) =
     (if list_all (\<lambda>i. 0 \<le> i \<and> i < 256) is then Inr (map (\<lambda>i. char_of (nat i)) is) else Inl ValueError)"

definition convert_uid_list_to_compare_id :: "string list \<Rightarrow> string" where
  "convert_uid_list_to_compare_id uid_list = py_join '';'' (sort uid_list)"

definition convert_compare_id_to_list :: "string \<Rightarrow> string list" where
  "convert_compare_id_to_list compare_id = py_split (CHR '';'') compare_id"

definition normalize_compare_id :: "string \<Rightarrow> string" where
  "normalize_compare_id compare_id =
     (let uids = convert_compare_id_to_list compare_id in convert_uid_list_to_compare_id uids)"

definition get_value_of_first_key :: "(string \<times> 'v) list \<Rightarrow> 'v option" where
  "get_value_of_first_key d =
     (case sort (map fst d) of [] \<Rightarrow> None | k # _ \<Rightarrow> map_of d k)"

definition none_to_none :: "string option \<Rightarrow> string option" where
  "none_to_none input_data = (if input_data = Some ''None'' then None else input_data)"

definition convert_str_to_bool :: "pyval \<Rightarrow> bool result" where
  "convert_str_to_bool v = (case v of
       PStr string \<Rightarrow>
         (let lower = py_lower string in
          if lower \<in> set [''1'', ''true'', ''t'', ''yes'', ''y''] then Inr True
          else if lower \<in> set [''0'', ''false'', ''f'', ''no'', ''n''] then Inr False
          else Inl ValueError)
     | _ \<Rightarrow> Inl ValueError)"

section \<open>uid.py\<close>

definition create_uid :: "(string \<Rightarrow> string) \<Rightarrow> bytes_like \<Rightarrow> string result" where
  "create_uid sha input_data =
     bindE (make_bytes input_data) (\<lambda>b. Inr (sha b @ ''_'' @ nat_str (length b)))"

text \<open>The regular expression \<^verbatim>\<open>[a-f0-9]{64}_[0-9]+\<close> has to match the whole string.\<close>

definition is_uid :: "pyval \<Rightarrow> bool" where
  "is_uid v = (case v of
       PStr s \<Rightarrow> length (take 64 s) = 64 \<and> list_all is_hex_char (take 64 s) \<and>
         (case drop 64 s of
            [] \<Rightarrow> False
          | c # n \<Rightarrow> c = CHR ''_'' \<and> n \<noteq> [] \<and> list_all is_digit_char n)
     | _ \<Rightarrow> False)"

definition is_list_of_uids :: "pyval \<Rightarrow> bool" where
  "is_list_of_uids v = (case v of PList xs \<Rightarrow> xs \<noteq> [] \<and> list_all is_uid xs | _ \<Rightarrow> False)"

section \<open>compare_sets.py\<close>

fun remove_duplicates_from_unhashable_loop :: "'a list \<Rightarrow> 'a list \<Rightarrow> 'a list" where
  "remove_duplicates_from_unhashable_loop result [] = result"
| "remove_duplicates_from_unhashable_loop result (element # rest) =
     remove_duplicates_from_unhashable_loop
       (if element \<notin> set result then result @ [element] else result) rest"

definition remove_duplicates_from_unhashable :: "'a list \<Rightarrow> 'a list" where
  "remove_duplicates_from_unhashable xs = remove_duplicates_from_unhashable_loop [] xs"

definition substring_is_in_list :: "string \<Rightarrow> string list \<Rightarrow> bool" where
  "substring_is_in_list string substring_list = list_ex (\<lambda>substring. substring_of substring string) substring_list"

definition iter_element_and_rest :: "'a list \<Rightarrow> ('a \<times> 'a list) list" where
  "iter_element_and_rest xs = map (\<lambda>element. (element, filter (\<lambda>e. e \<noteq> element) xs)) xs"

section \<open>virtual_file_path.py\<close>

type_synonym vfp_dict = "(string \<times> string list) list"

definition get_paths_for_all_parents :: "vfp_dict \<Rightarrow> string set" where
  "get_paths_for_all_parents d = (\<Union>(_, vfp_list)\<in>set d. set vfp_list)"

definition get_some_vfp :: "vfp_dict \<Rightarrow> string option result" where
  "get_some_vfp d = (case d of
       [] \<Rightarrow> Inr None
     | (_, vfp_list) # _ \<Rightarrow> (case vfp_list of [] \<Rightarrow> Inl IndexError | p # _ \<Rightarrow> Inr (Some p)))"

definition filter_vpf_dict :: "vfp_dict \<Rightarrow> string set \<Rightarrow> vfp_dict" where
  "filter_vpf_dict d parent_uids = filter (\<lambda>(k, v). k \<in> parent_uids) d"

section \<open>fileSystem.py\<close>

text \<open>
  A path is its list of parts, an absolute one with \<open>True\<close>. \<open>path.relative_to(base)\<close> removes the
  parts of \<open>base\<close> or raises \<open>ValueError\<close>; the exception ends the \<open>with suppress\<close> block.
\<close>

type_synonym path = "bool \<times> string list"

fun relative_to :: "path \<Rightarrow> path \<Rightarrow> path result" where
  "relative_to (a, ps) (b, bs) =
     (if a = b \<and> starts_with bs ps then Inr (False, drop (length bs) ps) else Inl ValueError)"

text \<open>\<open>str\<close> of a path: a relative path without parts is a dot.\<close>

fun path_str :: "path \<Rightarrow> string" where
  "path_str (True, ps) = ''/'' @ py_join ''/'' ps"
| "path_str (False, ps) = (if ps = [] then ''.'' else py_join ''/'' ps)"

definition get_relative_object_path :: "path \<Rightarrow> path \<Rightarrow> string" where
  "get_relative_object_path path offset_path =
     (let path = (case relative_to path offset_path of
            Inl _ \<Rightarrow> path
          | Inr path' \<Rightarrow> (case relative_to path' (False, [''fact_extracted'']) of
               Inl _ \<Rightarrow> path' | Inr path'' \<Rightarrow> path''))
      in if fst path then path_str path else ''/'' @ path_str path)"

section \<open>web_interface.py\<close>

definition DES_PW_LEN :: nat where
  "DES_PW_LEN = 13"

definition PW_SCHEME_INDICATORS :: "string list" where
  "PW_SCHEME_INDICATORS = [''$1$'', ''$2$'', ''$2a$'', ''$2y$'', ''$5$'', ''$6$'', ''$y$'', ''$pbkdf2'']"

definition password_is_legal :: "string \<Rightarrow> bool" where
  "password_is_legal pw =
     (if pw = [] \<or> length pw = DES_PW_LEN then False
      else \<not> list_ex (\<lambda>indicator. starts_with indicator pw) PW_SCHEME_INDICATORS)"

definition cap_length_of_element :: "string \<Rightarrow> int \<Rightarrow> string" where
  "cap_length_of_element hid_element maximum =
     (if int (length hid_element) > maximum
      then ''~'' @ slice_from (- (maximum - 1)) hid_element else hid_element)"

section \<open>Lemmas\<close>

lemma py_split_nonempty [simp]: "py_split c s \<noteq> []"
  by (induction s) (auto split: list.splits)

lemma py_split_no_sep: "\<forall>x\<in>set (py_split c s). c \<notin> set x"
  by (induction s) (auto split: list.splits)

lemma py_split_single: "c \<notin> set x \<Longrightarrow> py_split c x = [x]"
  by (induction x) auto

lemma py_split_append_sep: "c \<notin> set x \<Longrightarrow> py_split c (x @ c # s) = x # py_split c s"
  by (induction x) auto

lemma py_join_Cons: "ys \<noteq> [] \<Longrightarrow> py_join sep (x # ys) = x @ sep @ py_join sep ys"
  by (cases ys) auto

lemma py_split_join:
  assumes "xs \<noteq> []" "\<forall>x\<in>set xs. c \<notin> set x"
  shows "py_split c (py_join [c] xs) = xs"
  using assms
  by (induction xs rule: induct_list012) (auto simp: py_split_single py_split_append_sep)

lemma py_join_split: "py_join [c] (py_split c s) = s"
proof (induction s)
  case Nil
  then show ?case by simp
next
  case (Cons x s)
  then show ?case
    by (cases "py_split c s" rule: remdups_adj.cases) (auto simp: py_join_Cons)
qed

lemma sort_eq_Nil [simp]: "sort xs = [] \<longleftrightarrow> xs = []"
  by (metis length_0_conv length_sort)

lemma compare_id_roundtrip:
  assumes "uids \<noteq> []" "\<forall>u\<in>set uids. CHR '';'' \<notin> set u"
  shows "convert_compare_id_to_list (convert_uid_list_to_compare_id uids) = sort uids"
  using assms unfolding convert_compare_id_to_list_def convert_uid_list_to_compare_id_def
  by (subst py_split_join) auto

lemma normalize_compare_id_idem:
  "normalize_compare_id (normalize_compare_id c) = normalize_compare_id c"
proof -
  have "convert_compare_id_to_list (normalize_compare_id c) = sort (convert_compare_id_to_list c)"
    unfolding normalize_compare_id_def Let_def
    by (rule compare_id_roundtrip) (auto simp: convert_compare_id_to_list_def py_split_no_sep)
  then show ?thesis
    by (simp add: normalize_compare_id_def [of "normalize_compare_id c"])
      (simp add: normalize_compare_id_def convert_uid_list_to_compare_id_def Let_def sorted_sort_id)
qed

lemma digit_char: "n < 10 \<Longrightarrow> is_digit_char (''0123456789'' ! n)"
  unfolding is_digit_char_def by (rule nth_mem) simp

lemma nat_str_digits: "nat_str n \<noteq> [] \<and> list_all is_digit_char (nat_str n)"
proof (induction n rule: nat_str.induct)
  case (1 n)
  then show ?case
    by (subst (1 2) nat_str.simps) (auto simp: digit_char)
qed

lemma remove_duplicates_loop:
  "distinct r \<Longrightarrow> distinct (remove_duplicates_from_unhashable_loop r xs) \<and>
     set (remove_duplicates_from_unhashable_loop r xs) = set r \<union> set xs"
  by (induction xs arbitrary: r) auto

lemma remove_duplicates_from_unhashable_spec:
  "distinct (remove_duplicates_from_unhashable xs)"
  "set (remove_duplicates_from_unhashable xs) = set xs"
  using remove_duplicates_loop [of "[]" xs]
  by (auto simp: remove_duplicates_from_unhashable_def)

lemma filter_vpf_dict_lookup:
  "map_of (filter_vpf_dict d U) k = (if k \<in> U then map_of d k else None)"
  by (induction d) (auto simp: filter_vpf_dict_def)

lemma cap_length_bound:
  assumes "2 \<le> m"
  shows "int (length (cap_length_of_element s m)) \<le> m"
  using assms by (auto simp: cap_length_of_element_def slice_from_def)

end
