(* ===== verification/Redis_Interface.thy ===== *)
theory Redis_Interface
  imports Helpers
begin

text \<open>
  \<^verbatim>\<open>src/src/storage/redis_interface.py\<close>: values and queues in a Redis server, through which front end and
  back end communicate. A pickled value that is larger than \<open>chunk_size\<close> is split into chunks that
  are stored under random keys, and a meta value lists these keys. The server, \<open>pickle\<close> and \<open>random\<close>
  are parameters; \<open>redis_laws\<close> states the documented behaviour of the commands that are used
  (\<open>r_lrange\<close> only observes a list). The state is the server and the number of random draws so far;
  drawing a key may go on forever, which is \<open>None\<close>.
\<close>

record ('s, 'v) redis_env =
  chunk_size :: nat
  r_set :: "string \<Rightarrow> string \<Rightarrow> 's \<Rightarrow> 's"
  r_get :: "string \<Rightarrow> 's \<Rightarrow> string option"
  r_delete :: "string \<Rightarrow> 's \<Rightarrow> 's"
  r_exists :: "string \<Rightarrow> 's \<Rightarrow> bool"
  r_rpush :: "string \<Rightarrow> string \<Rightarrow> 's \<Rightarrow> 's"
  r_lpop :: "string \<Rightarrow> 's \<Rightarrow> string option \<times> 's"
  r_lrange :: "string \<Rightarrow> 's \<Rightarrow> string list"
  r_dumps :: "'v \<Rightarrow> string"
  r_loads :: "string \<Rightarrow> 'v result"
  r_randint :: "nat \<Rightarrow> nat"

section \<open>Operations\<close>

definition REDIS_MAX_VALUE_SIZE :: nat where "REDIS_MAX_VALUE_SIZE = 512000000"

definition CHUNK_MAGIC :: string where "CHUNK_MAGIC = ''$CHUNKED$''"

definition SEPARATOR :: char where "SEPARATOR = CHR ''#''"

definition chunk_key :: "nat \<Rightarrow> string" where
  "chunk_key n = ''chunk_'' @ nat_str n"

partial_function (option) get_new_chunk_key ::
  "('s, 'v) redis_env \<Rightarrow> 's \<Rightarrow> nat \<Rightarrow> (string \<times> nat) option" where
  "get_new_chunk_key env s n =
     (let key = chunk_key (r_randint env n)
      in if \<not> r_exists env key s then Some (key, Suc n) else get_new_chunk_key env s (Suc n))"

text \<open>\<open>value[chunk_size * index : chunk_size * (index + 1)]\<close> for every index below the rounded up quotient\<close>

definition chunks_of :: "nat \<Rightarrow> string \<Rightarrow> string list" where
  "chunks_of n v = map (\<lambda>i. take n (drop (n * i) v)) [0..<(length v + n - 1) div n]"

fun store_chunks_loop ::
  "('s, 'v) redis_env \<Rightarrow> string list \<Rightarrow> string \<Rightarrow> 's \<Rightarrow> nat \<Rightarrow> (string \<times> 's \<times> nat) option" where
  "store_chunks_loop env [] meta_key s n = Some (meta_key, s, n)"
| "store_chunks_loop env (chunk # cs) meta_key s n =
     (case get_new_chunk_key env s n of
        None \<Rightarrow> None
      | Some (key, n') \<Rightarrow> store_chunks_loop env cs (meta_key @ SEPARATOR # key) (r_set env key chunk s) n')"

definition store_chunks :: "('s, 'v) redis_env \<Rightarrow> string \<Rightarrow> 's \<Rightarrow> nat \<Rightarrow> (string \<times> 's \<times> nat) option" where
  "store_chunks env v s n = store_chunks_loop env (chunks_of (chunk_size env) v) CHUNK_MAGIC s n"

definition split_if_necessary :: "('s, 'v) redis_env \<Rightarrow> string \<Rightarrow> 's \<Rightarrow> nat \<Rightarrow> (string \<times> 's \<times> nat) option" where
  "split_if_necessary env v s n = (if length v > chunk_size env then store_chunks env v s n else Some (v, s, n))"

definition redis_pop :: "('s, 'v) redis_env \<Rightarrow> string \<Rightarrow> 's \<Rightarrow> string option \<times> 's" where
  "redis_pop env key s = (r_get env key s, r_delete env key s)"

definition fetch :: "('s, 'v) redis_env \<Rightarrow> bool \<Rightarrow> string \<Rightarrow> 's \<Rightarrow> string option \<times> 's" where
  "fetch env delete key s = (if delete then redis_pop env key s else (r_get env key s, s))"

fun combine_chunks_loop :: "('s, 'v) redis_env \<Rightarrow> bool \<Rightarrow> string list \<Rightarrow> 's \<Rightarrow> string option list \<times> 's" where
  "combine_chunks_loop env delete [] s = ([], s)"
| "combine_chunks_loop env delete (key # keys) s =
     (case fetch env delete key s of (v, s1) \<Rightarrow>
       (case combine_chunks_loop env delete keys s1 of (vs, s2) \<Rightarrow> (v # vs, s2)))"

text \<open>\<open>b''.join\<close> raises \<open>TypeError\<close> when a chunk is missing.\<close>

definition chunk_refs :: "string \<Rightarrow> string list" where
  "chunk_refs meta_key = tl (py_split SEPARATOR meta_key)"

definition combine_chunks :: "('s, 'v) redis_env \<Rightarrow> bool \<Rightarrow> string \<Rightarrow> 's \<Rightarrow> string result \<times> 's" where
  "combine_chunks env delete meta_key s =
     (case combine_chunks_loop env delete (chunk_refs meta_key) s of
        (vs, s') \<Rightarrow> (if None \<in> set vs then Inl TypeError else Inr (concat (map the vs)), s'))"

definition combine_if_split ::
  "('s, 'v) redis_env \<Rightarrow> bool \<Rightarrow> string option \<Rightarrow> 's \<Rightarrow> 'v option result \<times> 's" where
  "combine_if_split env delete v s = (case v of
       None \<Rightarrow> (Inr None, s)
     | Some b \<Rightarrow>
         (case (if starts_with CHUNK_MAGIC b then combine_chunks env delete b s else (Inr b, s)) of
            (r, s') \<Rightarrow> (bindE r (\<lambda>b'. bindE (r_loads env b') (\<lambda>x. Inr (Some x))), s')))"

definition redis_set :: "('s, 'v) redis_env \<Rightarrow> string \<Rightarrow> 'v \<Rightarrow> 's \<Rightarrow> nat \<Rightarrow> ('s \<times> nat) option" where
  "redis_set env key x s n =
     map_option (\<lambda>(v, s', n'). (r_set env key v s', n')) (split_if_necessary env (r_dumps env x) s n)"

definition redis_get :: "('s, 'v) redis_env \<Rightarrow> string \<Rightarrow> bool \<Rightarrow> 's \<Rightarrow> 'v option result \<times> 's" where
  "redis_get env key delete s = (case fetch env delete key s of (v, s') \<Rightarrow> combine_if_split env delete v s')"

definition queue_put :: "('s, 'v) redis_env \<Rightarrow> string \<Rightarrow> 'v \<Rightarrow> 's \<Rightarrow> nat \<Rightarrow> ('s \<times> nat) option" where
  "queue_put env key x s n =
     map_option (\<lambda>(v, s', n'). (r_rpush env key v s', n')) (split_if_necessary env (r_dumps env x) s n)"

definition queue_get :: "('s, 'v) redis_env \<Rightarrow> string \<Rightarrow> 's \<Rightarrow> 'v option result \<times> 's" where
  "queue_get env key s = (case r_lpop env key s of (v, s') \<Rightarrow> combine_if_split env True v s')"

section \<open>The commands of the server\<close>

text \<open>Pushing to a key that holds a string is an error of the server and is left open.\<close>

definition redis_laws :: "('s, 'v) redis_env \<Rightarrow> bool" where
  "redis_laws env \<longleftrightarrow>
     (\<forall>k k' v s. r_get env k (r_set env k' v s) = (if k = k' then Some v else r_get env k s) \<and>
        r_lrange env k (r_set env k' v s) = (if k = k' then [] else r_lrange env k s)) \<and>
     (\<forall>k k' s. r_get env k (r_delete env k' s) = (if k = k' then None else r_get env k s) \<and>
        r_lrange env k (r_delete env k' s) = (if k = k' then [] else r_lrange env k s)) \<and>
     (\<forall>k s. r_exists env k s \<longleftrightarrow> r_get env k s \<noteq> None \<or> r_lrange env k s \<noteq> []) \<and>
     (\<forall>k k' v s. r_get env k' s = None \<longrightarrow> r_get env k (r_rpush env k' v s) = r_get env k s \<and>
        r_lrange env k (r_rpush env k' v s) = (if k = k' then r_lrange env k s @ [v] else r_lrange env k s)) \<and>
     (\<forall>k k' s. r_get env k' s = None \<longrightarrow>
        fst (r_lpop env k' s) = (case r_lrange env k' s of [] \<Rightarrow> None | v # _ \<Rightarrow> Some v) \<and>
        r_get env k (snd (r_lpop env k' s)) = r_get env k s \<and>
        r_lrange env k (snd (r_lpop env k' s)) = (if k = k' then tl (r_lrange env k s) else r_lrange env k s))"

text \<open>The pickle of a value is read back, and begins with an opcode byte, never with a dollar sign.\<close>

definition picklable :: "('s, 'v) redis_env \<Rightarrow> 'v \<Rightarrow> bool" where
  "picklable env x \<longleftrightarrow> r_loads env (r_dumps env x) = Inr x \<and> \<not> starts_with CHUNK_MAGIC (r_dumps env x)"

lemma redis_simps:
  assumes "redis_laws env"
  shows "r_get env k (r_set env k' v s) = (if k = k' then Some v else r_get env k s)"
    "r_lrange env k (r_set env k' v s) = (if k = k' then [] else r_lrange env k s)"
    "r_get env k (r_delete env k' s) = (if k = k' then None else r_get env k s)"
    "r_lrange env k (r_delete env k' s) = (if k = k' then [] else r_lrange env k s)"
    "r_exists env k s \<longleftrightarrow> r_get env k s \<noteq> None \<or> r_lrange env k s \<noteq> []"
    "r_get env k' s = None \<Longrightarrow> r_get env k (r_rpush env k' v s) = r_get env k s"
    "r_get env k' s = None \<Longrightarrow>
       r_lrange env k (r_rpush env k' v s) = (if k = k' then r_lrange env k s @ [v] else r_lrange env k s)"
    "r_get env k' s = None \<Longrightarrow> fst (r_lpop env k' s) = (case r_lrange env k' s of [] \<Rightarrow> None | v # _ \<Rightarrow> Some v)"
    "r_get env k' s = None \<Longrightarrow> r_get env k (snd (r_lpop env k' s)) = r_get env k s"
    "r_get env k' s = None \<Longrightarrow>
       r_lrange env k (snd (r_lpop env k' s)) = (if k = k' then tl (r_lrange env k s) else r_lrange env k s)"
  using assms unfolding redis_laws_def by blast+


section \<open>Splitting and combining\<close>

lemma chunks_of_concat: "0 < n \<Longrightarrow> concat (chunks_of n v) = v"
  unfolding chunks_of_def by (rule concat_pages)

lemma digit_inj: "a < 10 \<Longrightarrow> b < 10 \<Longrightarrow> ''0123456789'' ! a = ''0123456789'' ! b \<Longrightarrow> a = b"
  using nth_eq_iff_index_eq [of "''0123456789''" a b] by simp

lemma nat_str_inj: "nat_str m = nat_str n \<Longrightarrow> m = n"
proof (induction m arbitrary: n rule: less_induct)
  case (less m)
  have ne: "nat_str k \<noteq> []" for k
    using nat_str_digits [of k] by blast
  note eq = less.prems [unfolded nat_str.simps [of m] nat_str.simps [of n]]
  show ?case
  proof (cases "m < 10 \<or> n < 10")
    case True
    then show ?thesis
      using eq ne ne [THEN not_sym] by (auto dest: digit_inj split: if_splits)
  next
    case False
    then have "nat_str (m div 10) = nat_str (n div 10)" "''0123456789'' ! (m mod 10) = ''0123456789'' ! (n mod 10)"
      using eq by simp_all
    then have "m div 10 = n div 10" "m mod 10 = n mod 10"
      using less.IH [of "m div 10" "n div 10"] False by (auto intro: digit_inj)
    then show ?thesis
      by (metis div_mult_mod_eq)
  qed
qed

lemma chunk_key_inj [simp]: "chunk_key m = chunk_key n \<longleftrightarrow> m = n"
  by (auto simp: chunk_key_def dest: nat_str_inj)

lemma chunk_key_no_separator: "SEPARATOR \<notin> set (chunk_key n)"
proof -
  have "\<not> is_digit_char SEPARATOR" "SEPARATOR \<notin> set ''chunk_''"
    by (simp_all add: is_digit_char_def SEPARATOR_def)
  moreover have "\<forall>c\<in>set (nat_str n). is_digit_char c"
    using nat_str_digits [of n] by (simp add: list_all_iff)
  ultimately show ?thesis
    unfolding chunk_key_def set_append by blast
qed

lemma py_split_append: "c \<notin> set x \<Longrightarrow> py_split c (x @ c # y) = x # py_split c y"
  by (induction x) auto

lemma chunk_refs_meta:
  assumes "\<forall>k\<in>set keys. SEPARATOR \<notin> set k"
  shows "chunk_refs (CHUNK_MAGIC @ concat (map (\<lambda>k. SEPARATOR # k) keys)) = keys"
proof -
  have "py_split SEPARATOR (x @ concat (map (\<lambda>k. SEPARATOR # k) keys)) = x # keys" if "SEPARATOR \<notin> set x" for x
    using that assms
  proof (induction keys arbitrary: x)
    case Nil
    then show ?case
      by (simp add: py_split_single)
  next
    case (Cons k keys)
    then show ?case
      by (simp add: py_split_append)
  qed
  moreover have "SEPARATOR \<notin> set CHUNK_MAGIC"
    by (simp add: CHUNK_MAGIC_def SEPARATOR_def)
  ultimately show ?thesis
    unfolding chunk_refs_def by (metis list.sel(3))
qed

lemma new_chunk_key:
  "get_new_chunk_key env s n = Some (key, n') \<Longrightarrow> \<not> r_exists env key s \<and> key \<in> range chunk_key"
proof -
  assume "get_new_chunk_key env s n = Some (key, n')"
  then have "\<not> r_exists env (fst (key, n')) s \<and> fst (key, n') \<in> range chunk_key"
  proof (rule get_new_chunk_key.raw_induct [rotated, where P = "\<lambda>env s n y. \<not> r_exists env (fst y) s \<and> fst y \<in> range chunk_key"])
    fix g and env :: "('a, 'b) redis_env" and s n y
    assume "\<And>env s n y. g env s n = Some y \<Longrightarrow> \<not> r_exists env (fst y) s \<and> fst y \<in> range chunk_key"
      and "(let key = chunk_key (r_randint env n) in if \<not> r_exists env key s then Some (key, Suc n) else g env s (Suc n)) = Some y"
    then show "\<not> r_exists env (fst y) s \<and> fst y \<in> range chunk_key"
      by (auto simp: Let_def split: if_splits)
  qed
  then show ?thesis
    by simp
qed

text \<open>Storing chunks adds fresh keys and nothing else.\<close>

lemma store_chunks_loop_spec:
  assumes laws: "redis_laws env" and "store_chunks_loop env cs meta_key s n = Some (m, s', n')"
  shows "\<exists>keys. length keys = length cs \<and> distinct keys \<and> set keys \<subseteq> range chunk_key \<and>
     (\<forall>k\<in>set keys. r_get env k s = None \<and> r_lrange env k s = []) \<and>
     m = meta_key @ concat (map (\<lambda>k. SEPARATOR # k) keys) \<and>
     (\<forall>k. r_lrange env k s' = r_lrange env k s) \<and>
     (\<forall>k. r_get env k s' = (case map_of (zip keys cs) k of Some c \<Rightarrow> Some c | None \<Rightarrow> r_get env k s))"
  using assms(2)
proof (induction cs arbitrary: meta_key s n)
  case (Cons chunk cs)
  obtain key n1 where key: "get_new_chunk_key env s n = Some (key, n1)"
    and rest: "store_chunks_loop env cs (meta_key @ SEPARATOR # key) (r_set env key chunk s) n1 = Some (m, s', n')"
    using Cons.prems by (auto split: option.splits)
  have new: "r_get env key s = None" "r_lrange env key s = []" "key \<in> range chunk_key"
    using new_chunk_key [OF key] redis_simps(5) [OF laws] by auto
  obtain keys where keys: "length keys = length cs" "distinct keys" "set keys \<subseteq> range chunk_key"
    "\<forall>k\<in>set keys. r_get env k (r_set env key chunk s) = None \<and> r_lrange env k (r_set env key chunk s) = []"
    "m = (meta_key @ SEPARATOR # key) @ concat (map (\<lambda>k. SEPARATOR # k) keys)"
    "\<forall>k. r_lrange env k s' = r_lrange env k (r_set env key chunk s)"
    "\<forall>k. r_get env k s' = (case map_of (zip keys cs) k of Some c \<Rightarrow> Some c | None \<Rightarrow> r_get env k (r_set env key chunk s))"
    using Cons.IH [OF rest] by blast
  have fresh: "key \<notin> set keys"
    using keys(4) by (auto simp: redis_simps [OF laws])
  then have "map_of (zip keys cs) key = None"
    using keys(1) by (simp add: map_of_zip_is_None)
  then have "\<forall>k. r_get env k s' = (case map_of (zip (key # keys) (chunk # cs)) k of Some c \<Rightarrow> Some c | None \<Rightarrow> r_get env k s)"
    using keys(7) by (auto simp: redis_simps [OF laws] split: option.splits)
  moreover have "\<forall>k\<in>set (key # keys). r_get env k s = None \<and> r_lrange env k s = []"
    using keys(4) new fresh by (auto simp: redis_simps [OF laws] split: if_splits)
  moreover have "\<forall>k. r_lrange env k s' = r_lrange env k s"
    using keys(6) new by (simp add: redis_simps [OF laws])
  ultimately show ?case
    using keys(1-3,5) new(3) fresh by (intro exI [of _ "key # keys"]) simp
qed auto

text \<open>What a stored text stands for: itself, or the chunks it refers to\<close>

definition stored :: "('s, 'v) redis_env \<Rightarrow> 's \<Rightarrow> string \<Rightarrow> string \<Rightarrow> string list \<Rightarrow> bool" where
  "stored env s v b keys \<longleftrightarrow>
     (keys = [] \<and> v = b \<and> \<not> starts_with CHUNK_MAGIC v \<or>
      starts_with CHUNK_MAGIC v \<and> chunk_refs v = keys \<and> distinct keys \<and> set keys \<subseteq> range chunk_key \<and>
      (\<exists>cs. length cs = length keys \<and> concat cs = b \<and> (\<forall>i<length keys. r_get env (keys ! i) s = Some (cs ! i))))"

lemma split_if_necessary_spec:
  assumes laws: "redis_laws env" and pos: "0 < chunk_size env" and plain: "\<not> starts_with CHUNK_MAGIC b"
    and split: "split_if_necessary env b s n = Some (v, s', n')"
  shows "\<exists>keys. stored env s' v b keys \<and> (\<forall>k\<in>set keys. r_get env k s = None \<and> r_lrange env k s = []) \<and>
     (\<forall>k. r_lrange env k s' = r_lrange env k s) \<and> (\<forall>k. k \<notin> set keys \<longrightarrow> r_get env k s' = r_get env k s) \<and>
     length keys \<le> length (chunks_of (chunk_size env) b)"
proof (cases "length b > chunk_size env")
  case False
  then show ?thesis
    using split plain by (intro exI [of _ "[]"]) (auto simp: split_if_necessary_def stored_def)
next
  case True
  let ?cs = "chunks_of (chunk_size env) b"
  have "store_chunks_loop env ?cs CHUNK_MAGIC s n = Some (v, s', n')"
    using split True by (simp add: split_if_necessary_def store_chunks_def)
  from store_chunks_loop_spec [OF laws this] obtain keys where
    keys: "length keys = length ?cs" "distinct keys" "set keys \<subseteq> range chunk_key"
    "\<forall>k\<in>set keys. r_get env k s = None \<and> r_lrange env k s = []"
    "v = CHUNK_MAGIC @ concat (map (\<lambda>k. SEPARATOR # k) keys)"
    "\<forall>k. r_lrange env k s' = r_lrange env k s"
    "\<forall>k. r_get env k s' = (case map_of (zip keys ?cs) k of Some c \<Rightarrow> Some c | None \<Rightarrow> r_get env k s)"
    by blast
  have refs: "chunk_refs v = keys"
    unfolding keys(5) by (rule chunk_refs_meta) (use keys(3) chunk_key_no_separator in blast)
  have "r_get env (keys ! i) s' = Some (?cs ! i)" if "i < length keys" for i
    using that keys(1,2,7) map_of_zip_nth [of keys ?cs i] by simp
  moreover have "starts_with CHUNK_MAGIC v"
    by (auto simp: keys(5) starts_with_iff)
  ultimately have "stored env s' v b keys"
    using refs keys(1-3) chunks_of_concat [OF pos, of b] unfolding stored_def
    by (intro disjI2 conjI exI [of _ ?cs]) auto
  moreover have "r_get env k s' = r_get env k s" if "k \<notin> set keys" for k
    using that keys(1,7) by (simp add: map_of_zip_is_None [THEN iffD2])
  ultimately show ?thesis
    using keys(4,6) keys(1) [THEN eq_imp_le] by blast
qed

lemma combine_loop_delete:
  assumes laws: "redis_laws env" and "combine_chunks_loop env True keys s = (vs, s')" "distinct keys"
  shows "vs = map (\<lambda>k. r_get env k s) keys \<and>
     (\<forall>k. r_get env k s' = (if k \<in> set keys then None else r_get env k s)) \<and>
     (\<forall>k. r_lrange env k s' = (if k \<in> set keys then [] else r_lrange env k s))"
  using assms(2,3)
proof (induction keys arbitrary: s vs s')
  case (Cons key keys)
  obtain ws where ws: "combine_chunks_loop env True keys (r_delete env key s) = (ws, s')" "vs = r_get env key s # ws"
    using Cons.prems(1) by (auto simp: fetch_def redis_pop_def split: prod.splits)
  from Cons.IH [OF ws(1)] Cons.prems(2) show ?case
    using ws(2) by (auto simp: redis_simps [OF laws])
qed simp

lemma combine_loop_keep: "combine_chunks_loop env False keys s = (map (\<lambda>k. r_get env k s) keys, s)"
  by (induction keys) (simp_all add: fetch_def)

text \<open>Reading a stored text gives the value back; with \<open>delete\<close> its chunks are removed.\<close>

lemma combine_stored:
  assumes laws: "redis_laws env" "picklable env x" and st: "stored env s v (r_dumps env x) keys"
  shows "\<exists>s'. combine_if_split env delete (Some v) s = (Inr (Some x), s') \<and>
     (\<not> delete \<longrightarrow> s' = s) \<and>
     (delete \<longrightarrow> (\<forall>k. r_get env k s' = (if k \<in> set keys then None else r_get env k s)) \<and>
        (\<forall>k. r_lrange env k s' = (if k \<in> set keys then [] else r_lrange env k s)))"
proof (cases "starts_with CHUNK_MAGIC v")
  case False
  then show ?thesis
    using st laws(2) by (auto simp: stored_def combine_if_split_def picklable_def)
next
  case True
  then obtain cs where cs: "chunk_refs v = keys" "distinct keys" "length cs = length keys" "concat cs = r_dumps env x"
    "\<forall>i<length keys. r_get env (keys ! i) s = Some (cs ! i)"
    using st by (auto simp: stored_def)
  have vals: "map (\<lambda>k. r_get env k s) keys = map Some cs"
    using cs(3,5) by (auto intro!: nth_equalityI)
  obtain vs s' where loop: "combine_chunks_loop env delete keys s = (vs, s')"
    by fastforce
  have vs: "vs = map Some cs"
    using loop combine_loop_delete [OF laws(1) _ cs(2), of s vs s'] combine_loop_keep [of env keys s] vals
    by (cases delete) auto
  have "None \<notin> set vs" "concat (map the vs) = r_dumps env x"
    using cs(4) by (auto simp: vs comp_def)
  then have "combine_if_split env delete (Some v) s = (Inr (Some x), s')"
    using True laws(2) by (simp add: combine_if_split_def combine_chunks_def cs(1) loop picklable_def)
  moreover have "\<not> delete \<longrightarrow> s' = s"
    using loop combine_loop_keep [of env keys s] by auto
  moreover have "(\<forall>k. r_get env k s' = (if k \<in> set keys then None else r_get env k s)) \<and>
      (\<forall>k. r_lrange env k s' = (if k \<in> set keys then [] else r_lrange env k s))" if delete
    using combine_loop_delete [OF laws(1) _ cs(2), of s vs s'] loop that by simp
  ultimately show ?thesis
    by (intro exI [of _ s']) blast
qed



section \<open>Drawing a key ends\<close>

text \<open>Every number of the range is drawn again and again, and some key of the range is free.\<close>

definition fair_draws :: "('s, 'v) redis_env \<Rightarrow> bool" where
  "fair_draws env \<longleftrightarrow> (\<forall>n. \<forall>d\<le>9999. \<exists>m\<ge>n. r_randint env m = d)"

definition free_draws :: "('s, 'v) redis_env \<Rightarrow> 's \<Rightarrow> nat set" where
  "free_draws env s = {d. d \<le> 9999 \<and> \<not> r_exists env (chunk_key d) s}"

lemma get_new_chunk_key_returns:
  assumes "n \<le> m" "\<not> r_exists env (chunk_key (r_randint env m)) s"
  shows "\<exists>r. get_new_chunk_key env s n = Some r"
  using assms(1)
proof (induction "m - n" arbitrary: n)
  case 0
  then have "n = m"
    by simp
  then show ?case
    using assms(2) by (subst get_new_chunk_key.simps) (simp add: Let_def)
next
  case (Suc d)
  then have "\<exists>r. get_new_chunk_key env s (Suc n) = Some r"
    by (intro Suc.hyps) auto
  then show ?case
    by (subst get_new_chunk_key.simps) (simp add: Let_def)
qed

lemma store_chunks_returns:
  assumes laws: "redis_laws env" and fair: "fair_draws env" and "length cs \<le> card (free_draws env s)"
  shows "\<exists>r. store_chunks_loop env cs meta_key s n = Some r"
  using assms(3)
proof (induction cs arbitrary: meta_key s n)
  case (Cons c cs)
  have fin: "finite (free_draws env t)" for t
    by (rule finite_subset [of _ "{..9999}"]) (auto simp: free_draws_def)
  have "free_draws env s \<noteq> {}"
    using Cons.prems by auto
  then obtain d m where "d \<in> free_draws env s" "n \<le> m" "r_randint env m = d"
    using fair unfolding fair_draws_def free_draws_def by blast
  then obtain key n' where key: "get_new_chunk_key env s n = Some (key, n')"
    using get_new_chunk_key_returns [of n m env s] by (auto simp: free_draws_def)
  obtain d' where d': "key = chunk_key d'"
    using new_chunk_key [OF key] by auto
  have "free_draws env s \<subseteq> insert d' (free_draws env (r_set env key c s))"
    by (auto simp: free_draws_def redis_simps [OF laws] d')
  then have "card (free_draws env s) \<le> card (insert d' (free_draws env (r_set env key c s)))"
    using fin by (intro card_mono) auto
  also have "\<dots> \<le> Suc (card (free_draws env (r_set env key c s)))"
    using fin by (simp add: card_insert_if)
  finally have "card (free_draws env s) \<le> Suc (card (free_draws env (r_set env key c s)))" .
  then have "length cs \<le> card (free_draws env (r_set env key c s))"
    using Cons.prems by simp
  then show ?case
    using Cons.IH key by simp
qed simp

lemma split_returns:
  assumes "redis_laws env" "fair_draws env" "length (chunks_of (chunk_size env) b) \<le> card (free_draws env s)"
  shows "\<exists>v s' n'. split_if_necessary env b s n = Some (v, s', n')"
  using store_chunks_returns [OF assms(1,2)] assms(3)
  by (fastforce simp: split_if_necessary_def store_chunks_def)


lemma redis_set_get:
  assumes laws: "redis_laws env" "picklable env x" "fair_draws env" and pos: "0 < chunk_size env"
    and enough: "length (chunks_of (chunk_size env) (r_dumps env x)) \<le> card (free_draws env s)"
    and key: "key \<notin> range chunk_key" "r_lrange env key s = []"
  shows "\<exists>s' n' s''. redis_set env key x s n = Some (s', n') \<and>
     redis_get env key False s' = (Inr (Some x), s') \<and>
     redis_get env key True s' = (Inr (Some x), s'') \<and>
     (\<forall>k. r_get env k s'' = (if k = key then None else r_get env k s) \<and> r_lrange env k s'' = r_lrange env k s)"
proof -
  obtain v s1 n' where split: "split_if_necessary env (r_dumps env x) s n = Some (v, s1, n')"
    using split_returns [OF laws(1,3) enough] by blast
  have "\<not> starts_with CHUNK_MAGIC (r_dumps env x)"
    using laws(2) by (simp add: picklable_def)
  from split_if_necessary_spec [OF laws(1) pos this split] obtain keys where
    keys: "stored env s1 v (r_dumps env x) keys" "\<forall>k\<in>set keys. r_get env k s = None \<and> r_lrange env k s = []"
    "\<forall>k. r_lrange env k s1 = r_lrange env k s" "\<forall>k. k \<notin> set keys \<longrightarrow> r_get env k s1 = r_get env k s"
    by blast
  let ?s' = "r_set env key v s1"
  have nk: "key \<notin> set keys"
    using keys(1) key(1) by (auto simp: stored_def)
  have stored_frame: "stored env t v (r_dumps env x) keys" if "\<forall>k\<in>set keys. r_get env k t = r_get env k s1" for t
    using keys(1) that unfolding stored_def by (metis nth_mem)
  have st: "stored env ?s' v (r_dumps env x) keys" "stored env (r_delete env key ?s') v (r_dumps env x) keys"
    using nk by (auto intro!: stored_frame simp: redis_simps [OF laws(1)])
  obtain s'' where del: "combine_if_split env True (Some v) (r_delete env key ?s') = (Inr (Some x), s'')"
      "\<forall>k. r_get env k s'' = (if k \<in> set keys then None else r_get env k (r_delete env key ?s'))"
      "\<forall>k. r_lrange env k s'' = (if k \<in> set keys then [] else r_lrange env k (r_delete env key ?s'))"
    using combine_stored [OF laws(1,2) st(2), of True] by auto
  have "redis_set env key x s n = Some (?s', n')"
    by (simp add: redis_set_def split)
  moreover have "redis_get env key False ?s' = (Inr (Some x), ?s')"
    using combine_stored [OF laws(1,2) st(1), of False] by (auto simp: redis_get_def fetch_def redis_simps [OF laws(1)])
  moreover have "redis_get env key True ?s' = (Inr (Some x), s'')"
    using del(1) by (simp add: redis_get_def fetch_def redis_pop_def redis_simps [OF laws(1)])
  moreover have "r_get env k s'' = (if k = key then None else r_get env k s) \<and> r_lrange env k s'' = r_lrange env k s" for k
    using del(2,3) keys(2-4) key(2) nk by (auto simp: redis_simps [OF laws(1)])
  ultimately show ?thesis
    by blast
qed

text \<open>
  C18. A value that is stored under a key is read back unchanged, however large it is: storing returns
  as long as there are enough free chunk keys, reading without deleting changes nothing, and reading
  with deleting leaves no trace, neither the value nor any of its chunks; other keys are not touched.
\<close>

theorem redis_roundtrip:
  assumes laws: "redis_laws env" "picklable env x" "fair_draws env" and pos: "0 < chunk_size env"
    and enough: "length (chunks_of (chunk_size env) (r_dumps env x)) \<le> card (free_draws env s)"
    and key: "key \<notin> range chunk_key" "r_lrange env key s = []"
  shows "\<exists>s' n' s''. redis_set env key x s n = Some (s', n') \<and>
     redis_get env key False s' = (Inr (Some x), s') \<and>
     redis_get env key True s' = (Inr (Some x), s'') \<and>
     (\<forall>k. r_get env k s'' = (if k = key then None else r_get env k s) \<and> r_lrange env k s'' = r_lrange env k s)"
  using assms by (rule redis_set_get)

section \<open>Queues\<close>

text \<open>
  The contract of the queues: what is put is appended to the content of that queue, getting removes
  and returns the first element, and the other queues are not affected. The state of all queues
  together has to be consistent (\<open>ok\<close>).
\<close>

datatype ('k, 'v) queue_op = Put 'k 'v | Get 'k

fun op_key :: "('k, 'v) queue_op \<Rightarrow> 'k" where
  "op_key (Put k v) = k"
| "op_key (Get k) = k"

fun op_valid :: "('v \<Rightarrow> bool) \<Rightarrow> ('k, 'v) queue_op \<Rightarrow> bool" where
  "op_valid P (Put k v) = P v"
| "op_valid P (Get k) = True"

text \<open>The specification: first in, first out\<close>

fun fifo_run :: "('k, 'v) queue_op list \<Rightarrow> ('k \<Rightarrow> 'v list) \<Rightarrow> 'v option list" where
  "fifo_run [] q = []"
| "fifo_run (Put k v # xs) q = fifo_run xs (q(k := q k @ [v]))"
| "fifo_run (Get k # xs) q = (case q k of [] \<Rightarrow> None | v # _ \<Rightarrow> Some v) # fifo_run xs (q(k := tl (q k)))"

fun run_ops ::
  "('k \<Rightarrow> 'v \<Rightarrow> 's \<Rightarrow> 's option) \<Rightarrow> ('k \<Rightarrow> 's \<Rightarrow> 'v option result \<times> 's) \<Rightarrow>
   ('k, 'v) queue_op list \<Rightarrow> 's \<Rightarrow> ('v option result list \<times> 's) option" where
  "run_ops put get [] s = Some ([], s)"
| "run_ops put get (Put k v # xs) s = Option.bind (put k v s) (run_ops put get xs)"
| "run_ops put get (Get k # xs) s =
     (case get k s of (r, s') \<Rightarrow> map_option (\<lambda>(rs, s''). (r # rs, s'')) (run_ops put get xs s'))"

locale message_queues =
  fixes ok :: "'c \<Rightarrow> 's \<Rightarrow> bool" and valid :: "'c \<Rightarrow> 'v \<Rightarrow> bool" and names :: "'c \<Rightarrow> 'k set" and content :: "'c \<Rightarrow> 's \<Rightarrow> 'k \<Rightarrow> 'v list"
    and put :: "'c \<Rightarrow> 'k \<Rightarrow> 'v \<Rightarrow> 's \<Rightarrow> 's option" and get :: "'c \<Rightarrow> 'k \<Rightarrow> 's \<Rightarrow> 'v option result \<times> 's"
  assumes put_law: "ok c s \<Longrightarrow> k \<in> names c \<Longrightarrow> valid c v \<Longrightarrow> put c k v s = Some s' \<Longrightarrow>
      ok c s' \<and> (\<forall>k'\<in>names c. content c s' k' = (if k' = k then content c s k @ [v] else content c s k'))"
    and get_law: "ok c s \<Longrightarrow> k \<in> names c \<Longrightarrow> get c k s = (r, s') \<Longrightarrow>
      ok c s' \<and> r = Inr (case content c s k of [] \<Rightarrow> None | v # _ \<Rightarrow> Some v) \<and>
      (\<forall>k'\<in>names c. content c s' k' = (if k' = k then tl (content c s k) else content c s k'))"
begin

lemma fifo_cong: "op_key ` set xs \<subseteq> K \<Longrightarrow> (\<forall>k\<in>K. q k = q' k) \<Longrightarrow> fifo_run xs q = fifo_run xs q'"
  by (induction xs q arbitrary: q' rule: fifo_run.induct) auto

lemma run_refines_fifo:
  "ok c s \<Longrightarrow> op_key ` set xs \<subseteq> names c \<Longrightarrow> list_all (op_valid (valid c)) xs \<Longrightarrow> run_ops (put c) (get c) xs s = Some (rs, s') \<Longrightarrow>
     rs = map Inr (fifo_run xs (content c s)) \<and> ok c s'"
proof (induction "put c" "get c" xs s arbitrary: rs rule: run_ops.induct)
  case (2 k v xs s)
  obtain s1 where s1: "put c k v s = Some s1" "run_ops (put c) (get c) xs s1 = Some (rs, s')"
    using 2(5) by (auto simp: bind_eq_Some_conv)
  then have law: "ok c s1" "\<forall>k'\<in>names c. content c s1 k' = ((content c s)(k := content c s k @ [v])) k'"
    using put_law [OF 2(2) _ _ s1(1)] 2(3,4) by auto
  have xs: "op_key ` set xs \<subseteq> names c"
    using 2(3) by auto
  show ?case
    using 2(1) [OF s1(1) law(1) xs _ s1(2)] 2(4) fifo_cong [OF xs law(2)] by (simp add: fun_upd_def)
next
  case (3 k xs s)
  obtain r s1 where g: "get c k s = (r, s1)"
    by fastforce
  then obtain rs1 where rs1: "run_ops (put c) (get c) xs s1 = Some (rs1, s')" "rs = r # rs1"
    using 3(5) by auto
  have law: "ok c s1" "r = Inr (case content c s k of [] \<Rightarrow> None | v # _ \<Rightarrow> Some v)"
      "\<forall>k'\<in>names c. content c s1 k' = ((content c s)(k := tl (content c s k))) k'"
    using get_law [OF 3(2) _ g] 3(3) by auto
  have xs: "op_key ` set xs \<subseteq> names c"
    using 3(3) by auto
  show ?case
    using 3(1) [OF g [symmetric] law(1) xs _ rs1(1)] 3(4) fifo_cong [OF xs law(3)] law(2) rs1(2) by (simp add: fun_upd_def)
qed auto

end


text \<open>The entries of a queue\<close>

definition entry_refs :: "string \<Rightarrow> string list" where
  "entry_refs v = (if starts_with CHUNK_MAGIC v then chunk_refs v else [])"

definition entry_ok :: "('s, 'v) redis_env \<Rightarrow> 's \<Rightarrow> string \<Rightarrow> bool" where
  "entry_ok env s v \<longleftrightarrow> (\<exists>x. picklable env x \<and> stored env s v (r_dumps env x) (entry_refs v))"

definition entry_value :: "('s, 'v) redis_env \<Rightarrow> 's \<Rightarrow> string \<Rightarrow> 'v option" where
  "entry_value env s v = (case fst (combine_if_split env False (Some v) s) of Inr x \<Rightarrow> x | Inl _ \<Rightarrow> None)"

definition queue_refs :: "('s, 'v) redis_env \<Rightarrow> 's \<Rightarrow> string \<Rightarrow> string list" where
  "queue_refs env s q = concat (map entry_refs (r_lrange env q s))"

text \<open>Consistent queues: every entry can be read, and no two entries share a chunk.\<close>

definition queues_ok :: "('s, 'v) redis_env \<times> string list \<Rightarrow> 's \<times> nat \<Rightarrow> bool" where
  "queues_ok = (\<lambda>(env, qs) (s, n). redis_laws env \<and> 0 < chunk_size env \<and>
     distinct qs \<and> set qs \<inter> range chunk_key = {} \<and>
     (\<forall>q\<in>set qs. r_get env q s = None \<and> list_all (entry_ok env s) (r_lrange env q s)) \<and>
     distinct (concat (map (queue_refs env s) qs)))"

definition queue_names :: "('s, 'v) redis_env \<times> string list \<Rightarrow> string set" where
  "queue_names c = set (snd c)"

definition queue_content :: "('s, 'v) redis_env \<times> string list \<Rightarrow> 's \<times> nat \<Rightarrow> string \<Rightarrow> 'v list" where
  "queue_content c st q = map (\<lambda>v. the (entry_value (fst c) (fst st) v)) (r_lrange (fst c) q (fst st))"

definition put_message :: "('s, 'v) redis_env \<times> string list \<Rightarrow> string \<Rightarrow> 'v \<Rightarrow> 's \<times> nat \<Rightarrow> ('s \<times> nat) option" where
  "put_message c q x st = queue_put (fst c) q x (fst st) (snd st)"

definition get_message :: "('s, 'v) redis_env \<times> string list \<Rightarrow> string \<Rightarrow> 's \<times> nat \<Rightarrow> 'v option result \<times> 's \<times> nat" where
  "get_message c q st = (case queue_get (fst c) q (fst st) of (r, s') \<Rightarrow> (r, s', snd st))"

lemma stored_refs: "stored env s v b keys \<Longrightarrow> keys = entry_refs v"
  by (auto simp: stored_def entry_refs_def)

lemma stored_present: "stored env s v b keys \<Longrightarrow> k \<in> set keys \<Longrightarrow> r_get env k s \<noteq> None"
  by (auto simp: stored_def in_set_conv_nth)

lemma stored_frame:
  assumes "stored env s v b keys" "\<forall>k\<in>set keys. r_get env k t = r_get env k s"
  shows "stored env t v b keys"
  using assms unfolding stored_def by (metis nth_mem)

lemma entry_value_stored:
  assumes "redis_laws env" "picklable env x" "stored env s v (r_dumps env x) keys"
  shows "entry_value env s v = Some x"
  using combine_stored [OF assms, of False] by (auto simp: entry_value_def)

lemma entry_frame:
  assumes "redis_laws env" "entry_ok env s v" "\<forall>k\<in>set (entry_refs v). r_get env k t = r_get env k s"
  shows "entry_ok env t v" "entry_value env t v = entry_value env s v"
proof -
  obtain x where p: "picklable env x" and x: "stored env s v (r_dumps env x) (entry_refs v)"
    using assms(2) by (auto simp: entry_ok_def)
  from x have t: "stored env t v (r_dumps env x) (entry_refs v)"
    using assms(3) by (rule stored_frame)
  then show "entry_ok env t v"
    using p by (auto simp: entry_ok_def)
  show "entry_value env t v = entry_value env s v"
    using entry_value_stored [OF assms(1) p] x t by simp
qed

lemma entry_present: "entry_ok env s v \<Longrightarrow> k \<in> set (entry_refs v) \<Longrightarrow> r_get env k s \<noteq> None"
  using stored_present unfolding entry_ok_def by metis

lemma mset_concat_change:
  assumes "distinct qs" "q \<in> set qs" "mset (g' q) + A = mset (g q) + B" "\<And>p. p \<noteq> q \<Longrightarrow> g' p = g p"
  shows "mset (concat (map g' qs)) + A = mset (concat (map g qs)) + B"
  using assms(1,2)
proof (induction qs)
  case (Cons p qs)
  show ?case
  proof (cases "p = q")
    case True
    then have same: "map g' qs = map g qs"
      using Cons.prems True by (intro map_cong refl assms(4)) auto
    have "mset (concat (map g' (p # qs))) + A = (mset (g' q) + A) + mset (concat (map g' qs))"
      by (simp only: list.map concat.simps mset_append True ac_simps)
    also have "\<dots> = mset (concat (map g (p # qs))) + B"
      unfolding assms(3) same by (simp add: True ac_simps)
    finally show ?thesis .
  next
    case False
    then show ?thesis
      using Cons assms(4) by (simp add: ac_simps)
  qed
qed simp


lemma queues_put:
  assumes ok: "queues_ok c st" and q: "q \<in> queue_names c" and valid: "picklable (fst c) x"
    and put: "put_message c q x st = Some st'"
  shows "queues_ok c st' \<and> (\<forall>p\<in>queue_names c. queue_content c st' p =
     (if p = q then queue_content c st q @ [x] else queue_content c st p))"
proof -
  obtain env qs s n where c: "c = (env, qs)" "st = (s, n)"
    by (cases c, cases st)
  have laws: "redis_laws env" "picklable env x" "0 < chunk_size env"
    and qs: "distinct qs" "q \<in> set qs" "set qs \<inter> range chunk_key = {}" "distinct (concat (map (queue_refs env s) qs))"
    and entries: "\<And>p. p \<in> set qs \<Longrightarrow> r_get env p s = None \<and> list_all (entry_ok env s) (r_lrange env p s)"
    using ok q valid by (auto simp: queues_ok_def queue_names_def c)
  obtain v s1 n' where split: "split_if_necessary env (r_dumps env x) s n = Some (v, s1, n')"
    and st': "st' = (r_rpush env q v s1, n')"
    using put by (auto simp: put_message_def queue_put_def c)
  have "\<not> starts_with CHUNK_MAGIC (r_dumps env x)"
    using laws(2) by (simp add: picklable_def)
  from split_if_necessary_spec [OF laws(1,3) this split] obtain keys where
    keys: "stored env s1 v (r_dumps env x) keys" "\<forall>k\<in>set keys. r_get env k s = None \<and> r_lrange env k s = []"
    "\<forall>k. r_lrange env k s1 = r_lrange env k s" "\<forall>k. k \<notin> set keys \<longrightarrow> r_get env k s1 = r_get env k s"
    by blast
  have refs: "entry_refs v = keys" "set keys \<subseteq> range chunk_key"
    using stored_refs [OF keys(1)] keys(1) by (auto simp: stored_def)
  have qnone: "r_get env p s1 = None" if "p \<in> set qs" for p
    using entries [OF that] keys(4) refs(2) qs(3) that by (metis disjoint_iff subsetD)
  let ?s2 = "r_rpush env q v s1"
  have get2: "r_get env k ?s2 = r_get env k s1" for k
    using qnone [OF qs(2)] by (simp add: redis_simps(6) [OF laws(1)])
  have range2: "r_lrange env p ?s2 = (if p = q then r_lrange env q s @ [v] else r_lrange env p s)" for p
    using qnone [OF qs(2)] keys(3) by (simp add: redis_simps(7) [OF laws(1)])
  have old: "entry_ok env ?s2 w \<and> entry_value env ?s2 w = entry_value env s w" if "entry_ok env s w" for w
  proof -
    have "\<forall>k\<in>set (entry_refs w). r_get env k ?s2 = r_get env k s"
      using entry_present [OF that] keys(2,4) get2 by metis
    then show ?thesis
      using entry_frame [OF laws(1) that] by blast
  qed
  have new: "stored env ?s2 v (r_dumps env x) keys"
    using keys(1) by (rule stored_frame) (simp add: get2)
  then have new_ok: "entry_ok env ?s2 v" "entry_value env ?s2 v = Some x"
    using refs laws(2) entry_value_stored [OF laws(1,2) new] by (auto simp: entry_ok_def)
  have "mset (concat (map (queue_refs env ?s2) qs)) + {#} = mset (concat (map (queue_refs env s) qs)) + mset keys"
    by (rule mset_concat_change [OF qs(1,2)]) (simp_all add: queue_refs_def range2 refs(1))
  then have "mset (concat (map (queue_refs env ?s2) qs)) = mset (concat (map (queue_refs env s) qs) @ keys)"
    by (simp only: mset_append add.right_neutral)
  moreover have "distinct (concat (map (queue_refs env s) qs) @ keys)"
  proof -
    have "k \<notin> set keys" if "k \<in> set (queue_refs env s p)" "p \<in> set qs" for k p
      using that entries [OF that(2)] keys(2) entry_present by (fastforce simp: queue_refs_def list_all_iff)
    then show ?thesis
      using qs(4) keys(1) by (auto simp: stored_def)
  qed
  ultimately have "distinct (concat (map (queue_refs env ?s2) qs))"
    using mset_eq_imp_distinct_iff by blast
  moreover have "list_all (entry_ok env ?s2) (r_lrange env p ?s2)" if "p \<in> set qs" for p
    using entries [OF that] old new_ok by (auto simp: range2 list_all_iff)
  ultimately have "queues_ok c st'"
    using laws qs qnone get2 by (simp add: queues_ok_def c st')
  moreover have "queue_content c st' p = (if p = q then queue_content c st q @ [x] else queue_content c st p)"
    if "p \<in> set qs" for p
    using entries [OF that] old new_ok by (auto simp: queue_content_def c st' range2 list_all_iff)
  ultimately show ?thesis
    by (simp add: queue_names_def c)
qed


lemma queues_get:
  assumes ok: "queues_ok c st" and q: "q \<in> queue_names c" and got: "get_message c q st = (r, st')"
  shows "queues_ok c st' \<and> r = Inr (case queue_content c st q of [] \<Rightarrow> None | v # _ \<Rightarrow> Some v) \<and>
     (\<forall>p\<in>queue_names c. queue_content c st' p = (if p = q then tl (queue_content c st q) else queue_content c st p))"
proof -
  obtain env qs s n where c: "c = (env, qs)" "st = (s, n)"
    by (cases c, cases st)
  have laws: "redis_laws env" "0 < chunk_size env"
    and qs: "distinct qs" "q \<in> set qs" "set qs \<inter> range chunk_key = {}" "distinct (concat (map (queue_refs env s) qs))"
    and entries: "\<And>p. p \<in> set qs \<Longrightarrow> r_get env p s = None \<and> list_all (entry_ok env s) (r_lrange env p s)"
    using ok q by (auto simp: queues_ok_def queue_names_def c)
  obtain h s1 where pop: "r_lpop env q s = (h, s1)"
    by fastforce
  have qnone: "r_get env q s = None"
    using entries [OF qs(2)] by blast
  have h: "h = (case r_lrange env q s of [] \<Rightarrow> None | v # _ \<Rightarrow> Some v)" and get1: "\<And>k. r_get env k s1 = r_get env k s"
    and range1: "\<And>p. r_lrange env p s1 = (if p = q then tl (r_lrange env q s) else r_lrange env p s)"
    using redis_simps(8-10) [OF laws(1) qnone] pop by (metis fst_conv, metis snd_conv, metis snd_conv)
  show ?thesis
  proof (cases "r_lrange env q s")
    case Nil
    then have res: "r = Inr None" "st' = (s1, n)"
      using got h pop by (auto simp: get_message_def queue_get_def combine_if_split_def c)
    have same: "r_lrange env p s1 = r_lrange env p s" for p
      using range1 Nil by simp
    have "entry_ok env s1 w \<longleftrightarrow> entry_ok env s w" "entry_value env s1 w = entry_value env s w" if "entry_ok env s w" for w
      using entry_frame [OF laws(1) that, of s1] get1 that by auto
    then have "queue_content c st' p = queue_content c st p" "list_all (entry_ok env s1) (r_lrange env p s1)" if "p \<in> set qs" for p
      using entries [OF that] by (auto simp: queue_content_def c res same list_all_iff)
    moreover have "queue_refs env s1 = queue_refs env s"
      by (simp add: queue_refs_def same fun_eq_iff)
    ultimately show ?thesis
      using ok Nil by (auto simp: queues_ok_def queue_names_def c res get1 queue_content_def)
  next
    case (Cons v vs)
    obtain x where p: "picklable env x" and x: "stored env s v (r_dumps env x) (entry_refs v)"
      using entries [OF qs(2)] by (auto simp: Cons entry_ok_def)
    from x have x1: "stored env s1 v (r_dumps env x) (entry_refs v)"
      by (rule stored_frame) (simp add: get1)
    obtain s2 where com: "combine_if_split env True (Some v) s1 = (Inr (Some x), s2)"
      and get2: "\<forall>k. r_get env k s2 = (if k \<in> set (entry_refs v) then None else r_get env k s1)"
      and range2: "\<forall>k. r_lrange env k s2 = (if k \<in> set (entry_refs v) then [] else r_lrange env k s1)"
      using combine_stored [OF laws(1) p x1, of True] by auto
    have res: "r = Inr (Some x)" "st' = (s2, n)"
      using got h pop com by (auto simp: get_message_def queue_get_def Cons c)
    have refs: "set (entry_refs v) \<subseteq> range chunk_key"
      using x by (auto simp: stored_def)
    have lr: "r_lrange env p s2 = (if p = q then vs else r_lrange env p s)" if "p \<in> set qs" for p
      using that refs qs(3) range1 range2 Cons by auto
    let ?g = "queue_refs env s"
    let ?g' = "\<lambda>p. if p = q then concat (map entry_refs vs) else queue_refs env s p"
    have g2: "map (queue_refs env s2) qs = map ?g' qs"
      using lr by (auto simp: queue_refs_def)
    have "mset (concat (map ?g' qs)) + mset (entry_refs v) = mset (concat (map ?g qs)) + {#}"
      by (rule mset_concat_change [OF qs(1,2)]) (simp_all add: queue_refs_def Cons)
    then have "mset (concat (map ?g' qs) @ entry_refs v) = mset (concat (map ?g qs))"
      by (simp only: mset_append add.right_neutral)
    then have dist: "distinct (concat (map ?g' qs) @ entry_refs v)"
      using qs(4) mset_eq_imp_distinct_iff by blast
    have keep: "entry_ok env s2 w \<and> entry_value env s2 w = entry_value env s w"
      if "w \<in> set (r_lrange env p s2)" "p \<in> set qs" for w p
    proof -
      have ok': "entry_ok env s w"
        using that lr [OF that(2)] entries [OF that(2)] entries [OF qs(2)] Cons by (auto simp: list_all_iff split: if_splits)
      have "set (entry_refs w) \<subseteq> set (concat (map ?g' qs))"
        using that lr [OF that(2)] by (fastforce simp: queue_refs_def split: if_splits)
      then have "\<forall>k\<in>set (entry_refs w). r_get env k s2 = r_get env k s"
        using dist get1 get2 by auto
      then show ?thesis
        using entry_frame [OF laws(1) ok'] by blast
    qed
    have "queues_ok c st'"
      using laws qs(1,3) dist keep entries get1 get2 unfolding queues_ok_def c res prod.case g2
      by (auto simp: list_all_iff)
    moreover have "queue_content c st' p = (if p = q then tl (queue_content c st q) else queue_content c st p)" if "p \<in> set qs" for p
      using keep [OF _ that] lr [OF that] Cons by (auto simp: queue_content_def c res)
    moreover have "entry_value env s v = Some x"
      using entry_value_stored [OF laws(1) p x] .
    ultimately show ?thesis
      by (simp add: queue_names_def res queue_content_def c Cons)
  qed
qed

interpretation redis_queues: message_queues queues_ok "\<lambda>c. picklable (fst c)" queue_names queue_content put_message get_message
  by unfold_locales (rule queues_put queues_get, assumption+)+


text \<open>Putting uses up at most as many chunk keys as it has chunks, getting gives keys back.\<close>

lemma free_draws_finite: "finite (free_draws env s)"
  by (rule finite_subset [of _ "{..9999}"]) (auto simp: free_draws_def)

lemma put_free:
  assumes ok: "queues_ok (env, qs) (s, n)" and q: "q \<in> set qs" and valid: "picklable env x"
    and put: "put_message (env, qs) q x (s, n) = Some (s', n')"
  shows "card (free_draws env s) \<le> card (free_draws env s') + length (chunks_of (chunk_size env) (r_dumps env x))"
proof -
  have laws: "redis_laws env" "picklable env x" "0 < chunk_size env" "q \<notin> range chunk_key" "r_get env q s = None"
    using ok q valid by (auto simp: queues_ok_def)
  obtain v s1 where split: "split_if_necessary env (r_dumps env x) s n = Some (v, s1, n')"
    and s': "s' = r_rpush env q v s1"
    using put by (auto simp: put_message_def queue_put_def)
  have "\<not> starts_with CHUNK_MAGIC (r_dumps env x)"
    using laws(2) by (simp add: picklable_def)
  from split_if_necessary_spec [OF laws(1,3) this split] obtain keys where
    keys: "stored env s1 v (r_dumps env x) keys" "\<forall>k. r_lrange env k s1 = r_lrange env k s"
    "\<forall>k. k \<notin> set keys \<longrightarrow> r_get env k s1 = r_get env k s"
    "length keys \<le> length (chunks_of (chunk_size env) (r_dumps env x))"
    by blast
  have "q \<notin> set keys"
    using keys(1) laws(4) by (auto simp: stored_def)
  then have "r_get env q s1 = None"
    using keys(3) laws(5) by simp
  then have "free_draws env s \<subseteq> free_draws env s' \<union> {d. chunk_key d \<in> set keys}"
    using keys(2,3) laws(4) by (auto simp: free_draws_def s' redis_simps [OF laws(1)])
  moreover have "card {d. chunk_key d \<in> set keys} \<le> length keys"
  proof -
    have "chunk_key ` {d. chunk_key d \<in> set keys} \<subseteq> set keys" "inj_on chunk_key {d. chunk_key d \<in> set keys}"
      by (auto intro: inj_onI)
    then have "card {d. chunk_key d \<in> set keys} \<le> card (set keys)"
      by (metis List.finite_set card_inj_on_le)
    then show ?thesis
      using card_length le_trans by blast
  qed
  moreover have "finite {d. chunk_key d \<in> set keys}"
    by (rule finite_imageD [of chunk_key]) (auto intro: inj_onI finite_subset [of _ "set keys"])
  ultimately show ?thesis
    using card_mono [of "free_draws env s' \<union> {d. chunk_key d \<in> set keys}" "free_draws env s"] free_draws_finite
      card_Un_le [of "free_draws env s'" "{d. chunk_key d \<in> set keys}"] keys(4)
    by (meson add_left_mono finite_UnI le_trans)
qed

lemma combine_frees:
  assumes "redis_laws env" "combine_if_split env True v s = (r, s')"
  shows "free_draws env s \<subseteq> free_draws env s'"
proof -
  have loop: "combine_chunks_loop env True keys t = (vs, t') \<Longrightarrow> free_draws env t \<subseteq> free_draws env t'" for keys t vs t'
  proof (induction keys arbitrary: t vs)
    case (Cons k keys)
    obtain ws where "combine_chunks_loop env True keys (r_delete env k t) = (ws, t')"
      using Cons.prems by (auto simp: fetch_def redis_pop_def split: prod.splits)
    from Cons.IH [OF this] show ?case
      by (auto simp: free_draws_def redis_simps [OF assms(1)])
  qed simp
  show ?thesis
    using assms(2) loop by (auto simp: combine_if_split_def combine_chunks_def split: option.splits if_splits prod.splits)
qed

lemma get_free:
  assumes ok: "queues_ok (env, qs) (s, n)" and q: "q \<in> set qs" and got: "get_message (env, qs) q (s, n) = (r, s', n')"
  shows "card (free_draws env s) \<le> card (free_draws env s')"
proof -
  have laws: "redis_laws env" "q \<notin> range chunk_key" "r_get env q s = None"
    using ok q by (auto simp: queues_ok_def)
  obtain v s1 where pop: "r_lpop env q s = (v, s1)" and com: "combine_if_split env True v s1 = (r, s')"
    using got by (auto simp: get_message_def queue_get_def split: prod.splits)
  have "r_exists env (chunk_key d) s1 = r_exists env (chunk_key d) s" for d
    using redis_simps(9,10) [OF laws(1,3)] pop laws(2) unfolding redis_simps(5) [OF laws(1)] by (metis rangeI snd_conv)
  then have "free_draws env s = free_draws env s1"
    by (simp add: free_draws_def)
  then show ?thesis
    using combine_frees [OF laws(1) com] by (simp add: card_mono free_draws_finite)
qed

lemma put_returns:
  assumes "redis_laws env" "fair_draws env" "length (chunks_of (chunk_size env) (r_dumps env x)) \<le> card (free_draws env s)"
  shows "\<exists>s' n'. queue_put env q x s n = Some (s', n')"
  using split_returns [OF assms] by (force simp: queue_put_def)

fun chunks_needed :: "('s, 'v) redis_env \<Rightarrow> (string, 'v) queue_op list \<Rightarrow> nat" where
  "chunks_needed env [] = 0"
| "chunks_needed env (Put k x # xs) = length (chunks_of (chunk_size env) (r_dumps env x)) + chunks_needed env xs"
| "chunks_needed env (Get k # xs) = chunks_needed env xs"

lemma run_returns:
  assumes fair: "fair_draws env"
  shows "queues_ok (env, qs) (s, n) \<Longrightarrow> op_key ` set xs \<subseteq> set qs \<Longrightarrow> list_all (op_valid (picklable env)) xs \<Longrightarrow>
     chunks_needed env xs \<le> card (free_draws env s) \<Longrightarrow>
     \<exists>r. run_ops (put_message (env, qs)) (get_message (env, qs)) xs (s, n) = Some r"
proof (induction xs arbitrary: s n)
  case (Cons x xs)
  have xs: "op_key ` set xs \<subseteq> set qs" "list_all (op_valid (picklable env)) xs"
    using Cons.prems(2,3) by simp_all
  show ?case
  proof (cases x)
    case (Put k v)
    have k: "k \<in> set qs"
      using Cons.prems(2) by (simp add: Put)
    have laws: "redis_laws env"
      using Cons.prems(1) by (simp add: queues_ok_def)
    have "length (chunks_of (chunk_size env) (r_dumps env v)) \<le> card (free_draws env s)"
      using Cons.prems(4) by (simp add: Put)
    then obtain s1 n1 where put: "put_message (env, qs) k v (s, n) = Some (s1, n1)"
      using split_returns [OF laws fair] by (force simp: put_message_def queue_put_def)
    have "queues_ok (env, qs) (s1, n1)"
      using queues_put [OF Cons.prems(1) _ _ put] k Cons.prems(3) by (simp add: queue_names_def Put)
    moreover have "chunks_needed env xs \<le> card (free_draws env s1)"
      using put_free [OF Cons.prems(1) k _ put] Cons.prems(3,4) by (simp add: Put)
    ultimately show ?thesis
      using Cons.IH [OF _ xs] put by (simp add: Put)
  next
    case (Get k)
    have k: "k \<in> set qs"
      using Cons.prems(2) by (simp add: Get)
    obtain r s1 n1 where got: "get_message (env, qs) k (s, n) = (r, s1, n1)"
      using prod_cases3 by blast
    have "queues_ok (env, qs) (s1, n1)"
      using queues_get [OF Cons.prems(1) _ got] k by (simp add: queue_names_def)
    moreover have "chunks_needed env xs \<le> card (free_draws env s1)"
      using get_free [OF Cons.prems(1) k got] Cons.prems(4) by (simp add: Get)
    ultimately show ?thesis
      using Cons.IH [OF _ xs] got by (fastforce simp: Get)
  qed
qed simp

text \<open>
  C17. The message queues between front end and back end refine first-in-first-out queues: any sequence
  of puts and gets on the queues returns exactly what the specification returns, whatever the sizes of
  the messages, and the calls return as long as the free chunk keys suffice. Messages of one queue
  never get mixed up with those of another.
\<close>

theorem redis_queues_fifo:
  assumes "queues_ok (env, qs) (s, n)" "op_key ` set ops \<subseteq> set qs" "list_all (op_valid (picklable env)) ops"
    and "fair_draws env" "chunks_needed env ops \<le> card (free_draws env s)"
  shows "\<exists>st. run_ops (put_message (env, qs)) (get_message (env, qs)) ops (s, n) =
     Some (map Inr (fifo_run ops (queue_content (env, qs) (s, n))), st)"
proof -
  obtain rs st where run: "run_ops (put_message (env, qs)) (get_message (env, qs)) ops (s, n) = Some (rs, st)"
    using run_returns [OF assms(4,1,2,3,5)] by auto
  have "op_key ` set ops \<subseteq> queue_names (env, qs)"
    using assms(2) by (simp add: queue_names_def)
  from redis_queues.run_refines_fifo [OF assms(1) this _ run] assms(3) run show ?thesis
    by auto
qed

section \<open>Witnesses\<close>

type_synonym example_server = "(string \<Rightarrow> string option) \<times> (string \<Rightarrow> string list)"

definition example_redis_for :: "('v \<Rightarrow> string) \<Rightarrow> (string \<Rightarrow> 'v result) \<Rightarrow> (example_server, 'v) redis_env" where
  "example_redis_for dumps loads = \<lparr>chunk_size = 2,
     r_set = (\<lambda>k v (m, l). (m(k \<mapsto> v), l(k := []))),
     r_get = (\<lambda>k (m, l). m k),
     r_delete = (\<lambda>k (m, l). (m(k := None), l(k := []))),
     r_exists = (\<lambda>k (m, l). m k \<noteq> None \<or> l k \<noteq> []),
     r_rpush = (\<lambda>k v (m, l). (m, l(k := l k @ [v]))),
     r_lpop = (\<lambda>k (m, l). (case l k of [] \<Rightarrow> None | v # _ \<Rightarrow> Some v, (m, l(k := tl (l k))))),
     r_lrange = (\<lambda>k (m, l). l k),
     r_dumps = dumps, r_loads = loads, r_randint = (\<lambda>n. n mod 10000)\<rparr>"

definition example_redis :: "(example_server, string) redis_env" where
  "example_redis = example_redis_for (\<lambda>x. CHR ''P'' # x) (\<lambda>b. Inr (tl b))"

abbreviation example_server :: example_server where
  "example_server \<equiv> (Map.empty, \<lambda>_. [])"

lemma example_redis_for_laws:
  "redis_laws (example_redis_for dumps loads)" "0 < chunk_size (example_redis_for dumps loads)"
  by (auto simp: redis_laws_def example_redis_for_def split: list.splits)

lemma example_picklable: "picklable example_redis x"
  by (simp add: picklable_def example_redis_def example_redis_for_def CHUNK_MAGIC_def)

lemma example_fair: "fair_draws (example_redis_for dumps loads)"
  unfolding fair_draws_def
proof (intro allI impI)
  fix n d :: nat
  assume d: "d \<le> 9999"
  have "n \<le> d + 10000 * n" "(d + 10000 * n) mod 10000 = d"
    using d by simp_all
  then show "\<exists>m\<ge>n. r_randint (example_redis_for dumps loads) m = d"
    by (intro exI [of _ "d + 10000 * n"]) (simp add: example_redis_for_def)
qed

lemma example_free: "card (free_draws (example_redis_for dumps loads) example_server) = 10000"
proof -
  have "free_draws (example_redis_for dumps loads) example_server = {..9999}"
    by (auto simp: free_draws_def example_redis_for_def)
  then show ?thesis
    by simp
qed

lemma example_queues_ok:
  assumes "distinct qs" "set qs \<inter> range chunk_key = {}"
  shows "queues_ok (example_redis_for dumps loads, qs) (example_server, n)"
proof -
  have "r_get (example_redis_for dumps loads) k example_server = None" "r_lrange (example_redis_for dumps loads) k example_server = []" for k
    by (simp_all add: example_redis_for_def)
  moreover from this have "distinct (concat (map (queue_refs (example_redis_for dumps loads) example_server) qs))"
    by (induction qs) (simp_all add: queue_refs_def)
  ultimately show ?thesis
    using assms by (simp add: queues_ok_def example_redis_for_laws)
qed

theorem redis_roundtrip_witness:
  "\<exists>s' n'. redis_set example_redis ''k'' ''firmware'' example_server 0 = Some (s', n') \<and>
     redis_get example_redis ''k'' False s' = (Inr (Some ''firmware''), s')"
proof -
  have "length (chunks_of (chunk_size example_redis) (r_dumps example_redis ''firmware'')) = 5"
    by (simp add: chunks_of_def example_redis_def example_redis_for_def)
  then have enough: "length (chunks_of (chunk_size example_redis) (r_dumps example_redis ''firmware''))
      \<le> card (free_draws example_redis example_server)"
    by (simp add: example_free example_redis_def)
  have key: "''k'' \<notin> range chunk_key" "r_lrange example_redis ''k'' example_server = []"
    by (auto simp: chunk_key_def example_redis_def example_redis_for_def)
  have laws: "redis_laws example_redis" "fair_draws example_redis" "0 < chunk_size example_redis"
    by (simp_all add: example_redis_def example_redis_for_laws example_fair)
  from redis_roundtrip [OF laws(1) example_picklable laws(2,3) enough key, of 0]
  show ?thesis
    by blast
qed

theorem redis_queues_fifo_witness:
  "\<exists>st. run_ops (put_message (example_redis, [''q'', ''p''])) (get_message (example_redis, [''q'', ''p'']))
      [Put ''q'' ''first message'', Put ''p'' ''x'', Put ''q'' ''second'', Get ''q'', Get ''p'', Get ''p'', Get ''q'']
      (example_server, 0) = Some ([Inr (Some ''first message''), Inr (Some ''x''), Inr None, Inr (Some ''second'')], st)"
proof -
  let ?ops = "[Put ''q'' ''first message'', Put ''p'' ''x'', Put ''q'' ''second'', Get ''q'', Get ''p'', Get ''p'', Get ''q'']"
  have ok: "queues_ok (example_redis, [''q'', ''p'']) (example_server, 0)"
    unfolding example_redis_def by (rule example_queues_ok) (auto simp: chunk_key_def)
  have "chunks_needed example_redis ?ops = 12"
    by (simp add: chunks_of_def example_redis_def example_redis_for_def)
  then have enough: "chunks_needed example_redis ?ops \<le> card (free_draws example_redis example_server)"
    by (simp add: example_free example_redis_def)
  have "fifo_run ?ops (queue_content (example_redis, [''q'', ''p'']) (example_server, 0)) =
      [Some ''first message'', Some ''x'', None, Some ''second'']"
    by (simp add: queue_content_def example_redis_def example_redis_for_def)
  moreover have "fair_draws example_redis"
    by (simp add: example_redis_def example_fair)
  ultimately show ?thesis
    using redis_queues_fifo [OF ok _ _ _ enough] by (simp add: example_picklable)
qed

end
