(* ===== verification/Objects.thy ===== *)
theory Objects
  imports Helpers
begin

text \<open>
  \<^verbatim>\<open>src/src/objects\<close>: \<open>FileObject\<close>, the object every component passes around, and its subclass
  \<open>Firmware\<close>. An object is a \<open>Firmware\<close> iff its field \<open>firmware\<close> holds the metadata of that class
  (\<open>isinstance(fo, Firmware)\<close>). The record stands for an object that has a UID; the constructor is
  modelled for the calls that provide content, and for the empty object whose UID is assigned right
  after (\<open>empty_file_object\<close>). Reading a file is the parameter \<open>read_file\<close>, SHA-256 and MD5 are
  \<open>sha\<close> and \<open>md5\<close>. \<open>force_update\<close> is the attribute that the web interface adds to an object;
  a callback is represented by a number.
\<close>

section \<open>State\<close>

record firmware_data =
  device_name :: "string option"
  fw_version :: "string option"
  device_class :: "string option"
  vendor :: "string option"
  part :: string
  release_date :: "string option"
  fw_tags :: "(string \<times> string) list"
  fw_md5 :: "string option"

record file_object =
  uid :: string
  files_included :: "string set"
  list_of_all_included_files :: "string set option"
  parents :: "string list"
  root_uid :: "string option"
  depth :: int
  processed_analysis :: "(string \<times> pyval) list"
  scheduled_analysis :: "string list option"
  comments :: "pyval list"
  parent_firmware_uids :: "string set"
  temporary_data :: pydict
  analysis_tags :: pydict
  analysis_exception :: "(string \<times> string) option"
  callback :: "nat option"
  binary :: "string option"
  sha256 :: "string option"
  fo_size :: "int option"
  file_name :: "string option"
  file_path :: "string option"
  virtual_file_path :: vfp_dict
  force_update :: bool
  firmware :: "firmware_data option"

definition is_firmware_object :: "file_object \<Rightarrow> bool" where
  "is_firmware_object fo \<longleftrightarrow> firmware fo \<noteq> None"

definition empty_firmware_data :: firmware_data where
  "empty_firmware_data = \<lparr>device_name = None, fw_version = None, device_class = None, vendor = None,
     part = [], release_date = None, fw_tags = [], fw_md5 = None\<rparr>"

definition empty_file_object :: "string \<Rightarrow> bool \<Rightarrow> file_object" where
  "empty_file_object u is_fw = \<lparr>
     uid = u, files_included = {}, list_of_all_included_files = None, parents = [], root_uid = None,
     depth = 0, processed_analysis = [], scheduled_analysis = None, comments = [],
     parent_firmware_uids = {}, temporary_data = [], analysis_tags = [], analysis_exception = None,
     callback = None, binary = None, sha256 = None, fo_size = None, file_name = None,
     file_path = None, virtual_file_path = [], force_update = False,
     firmware = (if is_fw then Some empty_firmware_data else None)\<rparr>"

section \<open>Operations\<close>

text \<open>\<open>FileObject.set_binary\<close>, and the override in \<open>Firmware\<close>.\<close>

definition set_binary :: "(string \<Rightarrow> string) \<Rightarrow> (string \<Rightarrow> string) \<Rightarrow> string \<Rightarrow> file_object \<Rightarrow> file_object" where
  "set_binary sha md5 b fo =
     (let u = sha b @ ''_'' @ nat_str (length b);
          fo' = fo\<lparr>binary := Some b, sha256 := Some (sha b), fo_size := Some (int (length b)), uid := u\<rparr>
      in case firmware fo of
           None \<Rightarrow> fo'
         | Some fw \<Rightarrow> fo'\<lparr>root_uid := Some u, firmware := Some (fw\<lparr>fw_md5 := Some (md5 b)\<rparr>)\<rparr>)"

text \<open>\<open>Path(p).name\<close>\<close>

definition path_name :: "string \<Rightarrow> string" where
  "path_name p = (case filter (\<lambda>x. x \<noteq> [] \<and> x \<noteq> ''.'') (py_split (CHR ''/'') p) of
     [] \<Rightarrow> [] | xs \<Rightarrow> last xs)"

definition create_binary_from_path ::
  "(string \<Rightarrow> string) \<Rightarrow> (string \<Rightarrow> string) \<Rightarrow> (string \<Rightarrow> string) \<Rightarrow> file_object \<Rightarrow> file_object" where
  "create_binary_from_path sha md5 read_file fo = (case file_path fo of
       None \<Rightarrow> fo
     | Some p \<Rightarrow>
         (let fo1 = (if binary fo = None then set_binary sha md5 (read_file p) fo else fo)
          in if file_name fo1 = None then fo1\<lparr>file_name := Some (path_name p)\<rparr> else fo1))"

text \<open>The constructor for an object with content: from a byte string or from a file.\<close>

definition new_file_object ::
  "(string \<Rightarrow> string) \<Rightarrow> (string \<Rightarrow> string) \<Rightarrow> (string \<Rightarrow> string) \<Rightarrow> bool \<Rightarrow>
   string option \<Rightarrow> string option \<Rightarrow> string option \<Rightarrow> string list option \<Rightarrow> file_object" where
  "new_file_object sha md5 read_file is_fw bin name fpath sched =
     (let fo0 = (empty_file_object [] is_fw)\<lparr>scheduled_analysis := sched\<rparr>;
          fo1 = (case bin of Some b \<Rightarrow> set_binary sha md5 b fo0 | None \<Rightarrow> fo0);
          fo2 = create_binary_from_path sha md5 read_file (fo1\<lparr>file_name := name, file_path := fpath\<rparr>)
      in if is_fw then fo2\<lparr>root_uid := Some (uid fo2)\<rparr> else fo2)"

text \<open>\<open>get_hid\<close> of both classes; a missing attribute is formatted as \<open>None\<close>.\<close>

definition opt_str :: "string option \<Rightarrow> string" where
  "opt_str x = (case x of None \<Rightarrow> ''None'' | Some s \<Rightarrow> s)"

definition get_hid :: "file_object \<Rightarrow> string option" where
  "get_hid fo = (case firmware fo of
       Some fw \<Rightarrow>
         (let prt = (if part fw \<noteq> [] then '' - '' @ part fw else [])
          in Some (opt_str (vendor fw) @ '' '' @ opt_str (device_name fw) @ prt @ '' v. '' @
                   opt_str (fw_version fw)))
     | None \<Rightarrow> (case get_some_vfp (virtual_file_path fo) of
           Inr vfp \<Rightarrow> vfp
         | Inl _ \<Rightarrow> file_name fo))"

text \<open>\<open>self.add_included_file(file_object)\<close> changes both objects.\<close>

definition add_included_file :: "file_object \<Rightarrow> file_object \<Rightarrow> file_object \<times> file_object" where
  "add_included_file self child =
     (self\<lparr>files_included := insert (uid child) (files_included self)\<rparr>,
      child\<lparr>parents := parents child @ [uid self], root_uid := root_uid self,
        depth := depth self + 1, scheduled_analysis := scheduled_analysis self\<rparr>)"

definition get_virtual_paths_for_all_uids :: "file_object \<Rightarrow> string list" where
  "get_virtual_paths_for_all_uids fo = concat (map snd (virtual_file_path fo))"

definition set_part_name :: "string \<Rightarrow> firmware_data \<Rightarrow> firmware_data" where
  "set_part_name p fw = (if p = ''complete'' then fw\<lparr>part := []\<rparr> else fw\<lparr>part := p\<rparr>)"

definition TagColor_GRAY :: string where "TagColor_GRAY = ''secondary''"
definition TagColor_ORANGE :: string where "TagColor_ORANGE = ''warning''"

definition set_tag :: "string \<Rightarrow> firmware_data \<Rightarrow> firmware_data" where
  "set_tag t fw = fw\<lparr>fw_tags := AList.update t TagColor_GRAY (fw_tags fw)\<rparr>"

section \<open>JSON export\<close>

text \<open>
  The dictionary of \<open>to_json\<close> has fixed keys, so it is a record; a key that \<open>from_json\<close> reads with
  \<open>get\<close> may be missing (\<open>None\<close>). The firmware keys are present in the export
  of a firmware only, and \<open>Firmware.from_json\<close> is what reads them; the MD5 hash is not exported.
\<close>

record fo_json =
  j_comments :: "pyval list"
  j_depth :: int
  j_file_name :: "string option"
  j_files_included :: "string set"
  j_processed_analysis :: "(string \<times> pyval) list"
  j_sha256 :: "string option"
  j_size :: "int option"
  j_uid :: string
  j_virtual_file_path :: vfp_dict
  j_firmware :: "firmware_data option"

definition to_json :: "file_object \<Rightarrow> string set option \<Rightarrow> fo_json" where
  "to_json fo vfp_parent_filter = \<lparr>
     j_comments = comments fo, j_depth = depth fo, j_file_name = file_name fo,
     j_files_included = files_included fo, j_processed_analysis = processed_analysis fo,
     j_sha256 = sha256 fo, j_size = fo_size fo, j_uid = uid fo,
     j_virtual_file_path = (case vfp_parent_filter of
         None \<Rightarrow> virtual_file_path fo
       | Some U \<Rightarrow> filter_vpf_dict (virtual_file_path fo) U),
     j_firmware = map_option (\<lambda>fw. fw\<lparr>fw_md5 := None\<rparr>) (firmware fo)\<rparr>"

definition from_json :: "fo_json \<Rightarrow> string option \<Rightarrow> file_object" where
  "from_json j root_id = (empty_file_object (j_uid j) False)\<lparr>
     file_name := j_file_name j, comments := j_comments j, depth := j_depth j,
     files_included := j_files_included j, processed_analysis := j_processed_analysis j,
     sha256 := (case j_sha256 j of
         Some h \<Rightarrow> if h = [] then Some (hd (py_split (CHR ''_'') (j_uid j))) else Some h
       | None \<Rightarrow> Some (hd (py_split (CHR ''_'') (j_uid j)))),
     fo_size := j_size j, virtual_file_path := j_virtual_file_path j,
     parent_firmware_uids := (case root_id of None \<Rightarrow> {} | Some r \<Rightarrow> if r = [] then {} else {r}),
     parents := map fst (j_virtual_file_path j),
     firmware := j_firmware j\<rparr>"

section \<open>Lemmas\<close>

lemma set_binary_simps [simp]:
  "uid (set_binary sha md5 b fo) = sha b @ ''_'' @ nat_str (length b)"
  "binary (set_binary sha md5 b fo) = Some b"
  "fo_size (set_binary sha md5 b fo) = Some (int (length b))"
  "file_name (set_binary sha md5 b fo) = file_name fo"
  "file_path (set_binary sha md5 b fo) = file_path fo"
  "is_firmware_object (set_binary sha md5 b fo) = is_firmware_object fo"
  by (auto simp: set_binary_def Let_def is_firmware_object_def split: option.splits)

lemma set_binary_root:
  "is_firmware_object fo \<Longrightarrow>
     root_uid (set_binary sha md5 b fo) = Some (uid (set_binary sha md5 b fo))"
  by (auto simp: set_binary_def Let_def is_firmware_object_def)

lemma create_uid_bytes: "create_uid sha (Bytes b) = Inr (sha b @ ''_'' @ nat_str (length b))"
  by (simp add: create_uid_def)

lemma add_included_file_simps [simp]:
  "uid (fst (add_included_file self child)) = uid self"
  "uid (snd (add_included_file self child)) = uid child"
  "virtual_file_path (snd (add_included_file self child)) = virtual_file_path child"
  "files_included (fst (add_included_file self child)) = insert (uid child) (files_included self)"
  by (simp_all add: add_included_file_def)

end
