(* ===== verification/File_Storage.thy ===== *)
theory File_Storage
  imports Objects
begin

text \<open>
  \<^verbatim>\<open>src/src/storage/fsorganizer.py\<close>, the directory of the stored binaries, and
  \<^verbatim>\<open>src/src/storage/unpacking_locks.py\<close>, the locks that mark files which are being unpacked. The file
  system is a map from paths to contents. Writing and deleting are functions of the package
  \<open>common_helper_files\<close> and parameters; \<open>write_law\<close> and \<open>delete_law\<close> state what they do with
  \<open>overwrite=False\<close>.
\<close>

type_synonym filesystem = "string \<rightharpoonup> string"

definition generate_path_from_uid :: "string \<Rightarrow> string \<Rightarrow> string" where
  "generate_path_from_uid data_storage_path u = data_storage_path @ ''/'' @ take 2 u @ ''/'' @ u"

definition generate_path :: "string \<Rightarrow> file_object \<Rightarrow> string" where
  "generate_path data_storage_path fo = generate_path_from_uid data_storage_path (uid fo)"

definition store_file ::
  "(string \<Rightarrow> string \<Rightarrow> filesystem \<Rightarrow> filesystem) \<Rightarrow> (string \<Rightarrow> string) \<Rightarrow> (string \<Rightarrow> string) \<Rightarrow>
   string \<Rightarrow> file_object \<Rightarrow> filesystem \<Rightarrow> file_object \<times> filesystem" where
  "store_file write sha md5 storage fo fs = (case binary fo of
       None \<Rightarrow> (fo, fs)
     | Some b \<Rightarrow>
         (let path = generate_path storage fo;
              fs1 = write b path fs
          in (create_binary_from_path sha md5 (\<lambda>p. case fs1 p of None \<Rightarrow> [] | Some c \<Rightarrow> c)
                (fo\<lparr>file_path := Some path\<rparr>), fs1)))"

definition delete_stored_file ::
  "(string \<Rightarrow> filesystem \<Rightarrow> filesystem) \<Rightarrow> string \<Rightarrow> string \<Rightarrow> filesystem \<Rightarrow> filesystem" where
  "delete_stored_file delete storage u fs = delete (generate_path_from_uid storage u) fs"

type_synonym unpacking_locks = "(string \<times> nat) list"

definition set_unpacking_lock :: "string \<Rightarrow> unpacking_locks \<Rightarrow> unpacking_locks" where
  "set_unpacking_lock u locks = AList.update u 1 locks"

definition unpacking_lock_is_set :: "string \<Rightarrow> unpacking_locks \<Rightarrow> bool" where
  "unpacking_lock_is_set u locks \<longleftrightarrow> map_of locks u \<noteq> None"

definition release_unpacking_lock :: "string \<Rightarrow> unpacking_locks \<Rightarrow> unpacking_locks" where
  "release_unpacking_lock u locks = AList.delete u locks"

lemma lock_simps [simp]:
  "unpacking_lock_is_set u (set_unpacking_lock v locks) \<longleftrightarrow> u = v \<or> unpacking_lock_is_set u locks"
  "unpacking_lock_is_set u (release_unpacking_lock v locks) \<longleftrightarrow> u \<noteq> v \<and> unpacking_lock_is_set u locks"
  by (auto simp: unpacking_lock_is_set_def set_unpacking_lock_def release_unpacking_lock_def)

text \<open>
  Files are stored under their UID, so a file that is already there has the same content.
\<close>

definition write_law :: "(string \<Rightarrow> string \<Rightarrow> filesystem \<Rightarrow> filesystem) \<Rightarrow> bool" where
  "write_law write \<longleftrightarrow> (\<forall>b p fs. write b p fs = (if fs p = None then fs(p \<mapsto> b) else fs))"

definition delete_law :: "(string \<Rightarrow> filesystem \<Rightarrow> filesystem) \<Rightarrow> bool" where
  "delete_law delete \<longleftrightarrow> (\<forall>p fs. delete p fs = fs(p := None))"

lemma generate_path_inj: "length u = length v \<Longrightarrow>
  generate_path_from_uid storage u = generate_path_from_uid storage v \<longleftrightarrow> u = v"
  by (auto simp: generate_path_from_uid_def)

end
