(* ===== verification/Unpacker.thy ===== *)
theory Unpacker
  imports File_Storage
begin

text \<open>
  \<^verbatim>\<open>src/src/unpacker\<close>: the extraction of one file (\<open>Unpacker.unpack\<close> with \<open>UnpackBase\<close>) and the
  docker container that does it (\<open>ExtractionContainer\<close>). The file system maps a path to the content
  that is read through it (symbolic links are followed). The extractor, \<open>libmagic\<close>, the directory
  listing of \<open>common_helper_files\<close> and the docker client are not part of the repository; they are
  the fields of \<open>unpack_env\<close> and the parameter \<open>run\<close>. Every operation returns the changed state
  also when it raises, because the scheduler continues with it.
\<close>

section \<open>State and environment\<close>

datatype http_outcome = Response nat | ReadTimeout | ConnectionError

datatype docker_outcome = Returncode int | RequestException

datatype unpack_error = Extraction string | OtherError py_error

record ustate =
  us_fs :: filesystem
  us_locks :: unpacking_locks

record unpack_env =
  max_depth :: int
  ue_storage :: string
  ue_sha :: "string \<Rightarrow> string"
  ue_md5 :: "string \<Rightarrow> string"
  ue_write :: "string \<Rightarrow> string \<Rightarrow> filesystem \<Rightarrow> filesystem"
  ue_unreadable :: "string \<Rightarrow> string"
  ue_magic :: "string \<Rightarrow> string"
  ue_status_request :: "nat \<Rightarrow> http_outcome"
  ue_start_request :: "nat \<Rightarrow> string \<Rightarrow> filesystem \<Rightarrow> http_outcome \<times> filesystem"
  ue_run_docker :: "string \<Rightarrow> filesystem \<Rightarrow> docker_outcome \<times> filesystem"
  ue_rglob :: "string \<Rightarrow> filesystem \<Rightarrow> string list"
  ue_json_loads :: "string \<Rightarrow> pydict result"

definition HTTP_OK :: nat where "HTTP_OK = 200"

section \<open>extraction_container.py\<close>

record docker_container =
  dc_id :: string
  dc_tags :: "string list"
  dc_host_ports :: "string list"

record extraction_container =
  ec_id :: nat
  ec_port :: nat
  ec_container_id :: "string option"
  ec_exception :: nat

text \<open>
  The docker daemon is the list of its running containers. \<open>run\<close> starts a container with the given
  port (\<open>Inl\<close> is the text of an \<open>APIError\<close>); stopping a container removes it (\<open>remove=True\<close>), and
  asking for an unknown one raises \<open>NotFound\<close>, which is reported as \<open>RuntimeError\<close>.
\<close>

type_synonym docker = "docker_container list"
type_synonym docker_run = "nat \<Rightarrow> docker \<Rightarrow> (string + string) \<times> docker"

definition new_container :: "nat \<Rightarrow> nat \<Rightarrow> extraction_container" where
  "new_container base_port i =
     \<lparr>ec_id = i, ec_port = base_port + i, ec_container_id = None, ec_exception = 0\<rparr>"

definition set_exception :: "extraction_container \<Rightarrow> extraction_container" where
  "set_exception c = c\<lparr>ec_exception := 1\<rparr>"

definition exception_occurred :: "extraction_container \<Rightarrow> bool" where
  "exception_occurred c \<longleftrightarrow> ec_exception c = 1"

definition start_container ::
  "docker_run \<Rightarrow> extraction_container \<Rightarrow> docker \<Rightarrow> (string + extraction_container) \<times> docker" where
  "start_container run c d = (case run (ec_port c) d of
       (Inl msg, d') \<Rightarrow> (Inl msg, d')
     | (Inr i, d') \<Rightarrow> (Inr (c\<lparr>ec_container_id := Some i\<rparr>), d'))"

definition is_extractor_container :: "string \<Rightarrow> docker_container \<Rightarrow> bool" where
  "is_extractor_container img dc =
     (let extractor_tag = (if CHR '':'' \<notin> set img then img @ '':latest'' else img)
      in list_ex (\<lambda>tag. tag = extractor_tag) (dc_tags dc))"

definition has_same_port :: "extraction_container \<Rightarrow> docker_container \<Rightarrow> bool" where
  "has_same_port c dc = list_ex (\<lambda>p. p = nat_str (ec_port c)) (dc_host_ports dc)"

definition remove_container :: "docker_container \<Rightarrow> docker \<Rightarrow> docker" where
  "remove_container dc d = filter (\<lambda>x. dc_id x \<noteq> dc_id dc) d"

definition get_container :: "extraction_container \<Rightarrow> docker \<Rightarrow> docker_container result" where
  "get_container c d = (case List.find (\<lambda>x. Some (dc_id x) = ec_container_id c) d of
       None \<Rightarrow> Inl RuntimeError | Some x \<Rightarrow> Inr x)"

definition recover_from_port_in_use ::
  "docker_run \<Rightarrow> string \<Rightarrow> extraction_container \<Rightarrow> docker \<Rightarrow> extraction_container result \<times> docker" where
  "recover_from_port_in_use run img c d =
     (case List.find (\<lambda>x. is_extractor_container img x \<and> has_same_port c x) d of
        None \<Rightarrow> (Inl RuntimeError, d)
      | Some x \<Rightarrow> (case start_container run c (remove_container x d) of
            (Inl _, d') \<Rightarrow> (Inl RuntimeError, d')
          | (Inr c', d') \<Rightarrow> (Inr c', d')))"

text \<open>An \<open>APIError\<close> with another message is swallowed: the container stays without an ID.\<close>

definition container_start ::
  "docker_run \<Rightarrow> string \<Rightarrow> extraction_container \<Rightarrow> docker \<Rightarrow> extraction_container result \<times> docker" where
  "container_start run img c d =
     (if ec_container_id c \<noteq> None then (Inl RuntimeError, d)
      else case start_container run c d of
          (Inr c', d') \<Rightarrow> (Inr c', d')
        | (Inl msg, d') \<Rightarrow>
            if substring_of ''port is already allocated'' msg then recover_from_port_in_use run img c d'
            else (Inr c, d'))"

definition container_stop :: "extraction_container \<Rightarrow> docker \<Rightarrow> docker result" where
  "container_stop c d =
     (if ec_container_id c = None then Inl RuntimeError
      else bindE (get_container c d) (\<lambda>x. Inr (remove_container x d)))"

definition container_restart ::
  "docker_run \<Rightarrow> string \<Rightarrow> extraction_container \<Rightarrow> docker \<Rightarrow> extraction_container result \<times> docker" where
  "container_restart run img c d = (case container_stop c d of
       Inl e \<Rightarrow> (Inl e, d)
     | Inr d' \<Rightarrow> container_start run img (c\<lparr>ec_exception := 0, ec_container_id := None\<rparr>) d')"

definition start_unpacking ::
  "unpack_env \<Rightarrow> extraction_container \<Rightarrow> string \<Rightarrow> filesystem \<Rightarrow> http_outcome \<times> filesystem" where
  "start_unpacking env c tmp_dir fs = (case ue_status_request env (ec_port c) of
       Response code \<Rightarrow>
         if code \<noteq> HTTP_OK then (Response code, fs)
         else ue_start_request env (ec_port c) (path_name tmp_dir) fs
     | e \<Rightarrow> (e, fs))"

section \<open>unpack_base.py\<close>

definition extract_with_worker ::
  "unpack_env \<Rightarrow> string \<Rightarrow> extraction_container \<Rightarrow> string \<Rightarrow> filesystem \<Rightarrow> filesystem \<times> (unpack_error + unit)" where
  "extract_with_worker env fpath c tmp_dir fs = (case start_unpacking env c tmp_dir fs of
       (ReadTimeout, fs') \<Rightarrow> (fs', Inl (Extraction ''Timeout during extraction.''))
     | (ConnectionError, fs') \<Rightarrow> (fs', Inl (Extraction ''Extraction container could not be reached.''))
     | (Response code, fs') \<Rightarrow>
         (fs', if code \<noteq> HTTP_OK then Inl (Extraction (''Extraction of '' @ fpath @ '' failed'')) else Inr ()))"

definition extract_with_new_container ::
  "unpack_env \<Rightarrow> string \<Rightarrow> filesystem \<Rightarrow> filesystem \<times> (unpack_error + unit)" where
  "extract_with_new_container env tmp_dir fs = (case ue_run_docker env tmp_dir fs of
       (RequestException, fs') \<Rightarrow> (fs', Inr ())
     | (Returncode n, fs') \<Rightarrow> (fs', if n \<noteq> 0 then Inl (OtherError RuntimeError) else Inr ()))"

definition extract_files_from_file ::
  "unpack_env \<Rightarrow> string \<Rightarrow> string \<Rightarrow> extraction_container option \<Rightarrow> filesystem \<Rightarrow>
   filesystem \<times> (unpack_error + string list)" where
  "extract_files_from_file env fpath tmp_dir container fs = (case fs fpath of
       None \<Rightarrow> (fs, Inl (OtherError FileNotFoundError))
     | Some content \<Rightarrow>
         (let fs1 = fs(tmp_dir @ ''/input/'' @ path_name fpath \<mapsto> content)
          in case (case container of
                Some c \<Rightarrow> extract_with_worker env fpath c tmp_dir fs1
              | None \<Rightarrow> extract_with_new_container env tmp_dir fs1) of
               (fs2, Inl e) \<Rightarrow> (fs2, Inl e)
             | (fs2, Inr _) \<Rightarrow> (fs2, Inr (ue_rglob env (tmp_dir @ ''/files'') fs2))))"

section \<open>unpack.py\<close>

definition init_skipped_analysis :: "timestamp \<Rightarrow> string \<Rightarrow> string \<Rightarrow> string \<Rightarrow> pyval" where
  "init_skipped_analysis now message tag tag_tooltip = PDict [
     (''result'', PDict [(''plugin_used'', PStr ''None''), (''info'', PStr message),
        (''number_of_unpacked_files'', PInt 0)]),
     (''plugin_version'', PStr ''0.0''),
     (''analysis_date'', PFloat now),
     (''tags'', PDict [(tag, PDict [(''value'', PStr tag_tooltip), (''color'', PStr TagColor_ORANGE),
        (''propagate'', PBool False)])])]"

definition store_unpacking_error_skip_info :: "timestamp \<Rightarrow> string option \<Rightarrow> file_object \<Rightarrow> file_object" where
  "store_unpacking_error_skip_info now error fo = fo\<lparr>processed_analysis := AList.update ''unpacker''
     (init_skipped_analysis now ''Unpacking stopped because extractor raised a exception (possible timeout)''
        ''extractor error'' (case error of None \<Rightarrow> ''possible extractor timeout'' | Some e \<Rightarrow> e))
     (processed_analysis fo)\<rparr>"

definition store_unpacking_depth_skip_info :: "timestamp \<Rightarrow> file_object \<Rightarrow> file_object" where
  "store_unpacking_depth_skip_info now fo = fo\<lparr>processed_analysis := AList.update ''unpacker''
     (init_skipped_analysis now ''Unpacking stopped because maximum unpacking depth was reached''
        ''depth reached'' ''unpacking depth reached'')
     (processed_analysis fo)\<rparr>"

definition file_is_empty :: "filesystem \<Rightarrow> string \<Rightarrow> bool" where
  "file_is_empty fs p \<longleftrightarrow> fs p = Some []"

definition read_at :: "unpack_env \<Rightarrow> filesystem \<Rightarrow> string \<Rightarrow> string" where
  "read_at env fs p = (case fs p of Some b \<Rightarrow> b | None \<Rightarrow> ue_unreadable env p)"

text \<open>\<open>Path(p)\<close>\<close>

definition to_path :: "string \<Rightarrow> path" where
  "to_path p = (starts_with ''/'' p, filter (\<lambda>x. x \<noteq> [] \<and> x \<noteq> ''.'') (py_split (CHR ''/'') p))"

text \<open>
  The body of the loop over the extracted files. The dictionary of the new objects is \<open>ex\<close>. An object
  that is unpacked has a \<open>root_uid\<close> (the scheduler sets it).
\<close>

definition new_extracted_object :: "unpack_env \<Rightarrow> string \<Rightarrow> file_object \<Rightarrow> filesystem \<Rightarrow> file_object" where
  "new_extracted_object env p parent fs =
     (let fo = new_file_object (ue_sha env) (ue_md5 env) (read_at env fs) False None None (Some p) None
      in fo\<lparr>temporary_data := AList.update ''parent_fo_type''
           (PStr (ue_magic env (case file_path parent of None \<Rightarrow> [] | Some q \<Rightarrow> q))) (temporary_data fo)\<rparr>)"

definition add_extracted_path :: "string \<Rightarrow> string \<Rightarrow> file_object \<Rightarrow> file_object" where
  "add_extracted_path parent_uid vpath fo =
     fo\<lparr>virtual_file_path := dict_modify parent_uid [] (\<lambda>ps. ps @ [vpath]) (virtual_file_path fo)\<rparr>"

definition generate_step ::
  "unpack_env \<Rightarrow> string \<Rightarrow> file_object \<Rightarrow> string \<Rightarrow> (string \<times> file_object) list \<times> ustate \<Rightarrow>
   (string \<times> file_object) list \<times> ustate" where
  "generate_step env dir parent p = (\<lambda>(ex, s).
     if file_is_empty (us_fs s) p then (ex, s)
     else
       let current = new_extracted_object env p parent (us_fs s);
           vpath = get_relative_object_path (to_path p) (to_path dir);
           (ex1, s1) =
             (if map_of ex (uid current) \<noteq> None then (ex, s)
              else case store_file (ue_write env) (ue_sha env) (ue_md5 env) (ue_storage env) current (us_fs s) of
                (stored, fs1) \<Rightarrow>
                  (AList.update (uid current)
                     (stored\<lparr>parent_firmware_uids :=
                        (case root_uid parent of None \<Rightarrow> parent_firmware_uids stored
                         | Some r \<Rightarrow> insert r (parent_firmware_uids stored))\<rparr>) ex,
                   s\<lparr>us_fs := fs1, us_locks := set_unpacking_lock (uid current) (us_locks s)\<rparr>))
       in (map (\<lambda>(u, fo). (u, if u = uid current then add_extracted_path (uid parent) vpath fo else fo)) ex1, s1))"

definition generate_objects_and_store_files ::
  "unpack_env \<Rightarrow> string list \<Rightarrow> string \<Rightarrow> file_object \<Rightarrow> ustate \<Rightarrow> file_object list \<times> ustate" where
  "generate_objects_and_store_files env file_paths extraction_dir parent s =
     (case fold (generate_step env extraction_dir parent) file_paths ([], s) of
        (ex, s') \<Rightarrow> (map snd (AList.delete (uid parent) ex), s'))"

definition check_path :: "timestamp \<Rightarrow> file_object \<Rightarrow> filesystem \<Rightarrow> file_object \<times> (unpack_error + string)" where
  "check_path now fo fs = (case file_path fo of
       None \<Rightarrow> (fo, Inl (OtherError TypeError))
     | Some p \<Rightarrow>
         if fs p = None
         then (store_unpacking_error_skip_info now (Some ''File not found'') fo, Inl (Extraction ''File not found''))
         else (fo, Inr p))"

definition SANITIZE_KEEP :: "string list" where
  "SANITIZE_KEEP = [''tags'', ''summary'', ''analysis_date'', ''plugin_version'', ''system_version'',
     ''file_system_flag'', ''result'']"

definition sanitize_processed_analysis :: "pydict \<Rightarrow> pydict" where
  "sanitize_processed_analysis entry = AList.update ''result''
     (PDict (filter (\<lambda>(k, _). k \<notin> set SANITIZE_KEEP) entry))
     (filter (\<lambda>(k, _). k \<in> set SANITIZE_KEEP) entry)"

fun add_included_files :: "file_object \<Rightarrow> file_object list \<Rightarrow> file_object \<times> file_object list" where
  "add_included_files fo [] = (fo, [])"
| "add_included_files fo (item # items) =
     (case add_included_file fo item of (fo1, item1) \<Rightarrow>
       (case add_included_files fo1 items of (fo2, items2) \<Rightarrow> (fo2, item1 # items2)))"

definition unpack ::
  "unpack_env \<Rightarrow> timestamp \<Rightarrow> extraction_container option \<Rightarrow> string \<Rightarrow> file_object \<Rightarrow> ustate \<Rightarrow>
   file_object \<times> ustate \<times> (unpack_error + file_object list)" where
  "unpack env now container tmp_dir fo s =
     (if depth fo \<ge> max_depth env then (store_unpacking_depth_skip_info now fo, s, Inr [])
      else case check_path now fo (us_fs s) of
          (fo1, Inl e) \<Rightarrow> (fo1, s, Inl e)
        | (fo1, Inr p) \<Rightarrow>
            (case extract_files_from_file env p tmp_dir container (us_fs s) of
               (fs1, Inl (Extraction msg)) \<Rightarrow>
                 (store_unpacking_error_skip_info now (Some msg) fo, s\<lparr>us_fs := fs1\<rparr>, Inl (Extraction msg))
             | (fs1, Inl (OtherError e)) \<Rightarrow> (fo, s\<lparr>us_fs := fs1\<rparr>, Inl (OtherError e))
             | (fs1, Inr files) \<Rightarrow>
                 (case generate_objects_and_store_files env files (tmp_dir @ ''/files'') fo (s\<lparr>us_fs := fs1\<rparr>) of
                    (objs, s2) \<Rightarrow>
                      (case add_included_files fo objs of
                         (fo2, objs2) \<Rightarrow>
                           (case us_fs s2 (tmp_dir @ ''/reports/meta.json'') of
                              None \<Rightarrow> (fo2, s2, Inl (OtherError FileNotFoundError))
                            | Some text \<Rightarrow>
                                (case ue_json_loads env text of
                                   Inl e \<Rightarrow> (fo2, s2, Inl (OtherError e))
                                 | Inr meta \<Rightarrow>
                                     (fo2\<lparr>processed_analysis := AList.update ''unpacker''
                                         (PDict (sanitize_processed_analysis meta)) (processed_analysis fo2)\<rparr>,
                                      s2, Inr objs2)))))))"


section \<open>What unpacking guarantees without any assumption\<close>

definition extracted_basic :: "string \<Rightarrow> (string \<times> file_object) list \<Rightarrow> bool" where
  "extracted_basic parent_uid ex \<longleftrightarrow> distinct (map fst ex) \<and>
     list_all (\<lambda>(u, fo). uid fo = u \<and> firmware fo = None \<and> map_of (virtual_file_path fo) parent_uid \<noteq> None) ex"

lemma new_extracted_object_simps [simp]:
  "uid (new_extracted_object env p parent fs) = ue_sha env (read_at env fs p) @ ''_'' @ nat_str (length (read_at env fs p))"
  "binary (new_extracted_object env p parent fs) = Some (read_at env fs p)"
  "virtual_file_path (new_extracted_object env p parent fs) = []"
  "file_name (new_extracted_object env p parent fs) = Some (path_name p)"
  "firmware (new_extracted_object env p parent fs) = None"
  "parent_firmware_uids (new_extracted_object env p parent fs) = {}"
  by (simp_all add: new_extracted_object_def new_file_object_def create_binary_from_path_def Let_def
      empty_file_object_def set_binary_def)

lemma store_file_simps:
  assumes "binary fo = Some b" "file_name fo = Some n"
  shows "store_file write sha md5 storage fo fs =
     (fo\<lparr>file_path := Some (generate_path storage fo)\<rparr>, write b (generate_path storage fo) fs)"
  using assms by (simp add: store_file_def create_binary_from_path_def Let_def)

lemma map_path_basic:
  assumes "distinct (map fst ex)"
    and "\<And>v fo. (v, fo) \<in> set ex \<Longrightarrow> uid fo = v \<and> firmware fo = None \<and> (v \<noteq> u \<longrightarrow> map_of (virtual_file_path fo) q \<noteq> None)"
  shows "extracted_basic q (map (\<lambda>(v, fo). (v, if v = u then add_extracted_path q vpath fo else fo)) ex)"
proof -
  have keys: "map fst (map (\<lambda>(v, fo). (v, if v = u then add_extracted_path q vpath fo else fo)) ex) = map fst ex"
    by (induction ex) auto
  show ?thesis
    unfolding extracted_basic_def keys list_all_iff
    using assms by (auto simp: add_extracted_path_def map_of_dict_modify)
qed

lemma generate_step_basic:
  assumes "extracted_basic (uid parent) ex"
  shows "extracted_basic (uid parent) (fst (generate_step env dir parent p (ex, s)))"
proof -
  let ?fo = "new_extracted_object env p parent (us_fs s)"
  obtain stored fs1 where st: "store_file (ue_write env) (ue_sha env) (ue_md5 env) (ue_storage env) ?fo (us_fs s) = (stored, fs1)"
    and stored: "uid stored = uid ?fo" "firmware stored = None"
    using store_file_simps [OF new_extracted_object_simps(2,4)] by simp
  let ?ex1 = "if map_of ex (uid ?fo) \<noteq> None then ex else AList.update (uid ?fo) (stored\<lparr>parent_firmware_uids :=
     (case root_uid parent of None \<Rightarrow> parent_firmware_uids stored | Some r \<Rightarrow> insert r (parent_firmware_uids stored))\<rparr>) ex"
  have old: "distinct (map fst ex)" "\<And>v fo. (v, fo) \<in> set ex \<Longrightarrow>
      uid fo = v \<and> firmware fo = None \<and> map_of (virtual_file_path fo) (uid parent) \<noteq> None"
    using assms by (auto simp: extracted_basic_def list_all_iff)
  have "extracted_basic (uid parent) (map (\<lambda>(v, fo). (v, if v = uid ?fo
     then add_extracted_path (uid parent) (get_relative_object_path (to_path p) (to_path dir)) fo else fo)) ?ex1)"
  proof (rule map_path_basic)
    show "distinct (map fst ?ex1)"
      using old(1) by (simp only: distinct_keys_update split: if_split) simp
    fix v fo
    assume "(v, fo) \<in> set ?ex1"
    then show "uid fo = v \<and> firmware fo = None \<and> (v \<noteq> uid ?fo \<longrightarrow> map_of (virtual_file_path fo) (uid parent) \<noteq> None)"
      using old(2) stored set_update_subset by (fastforce split: if_splits simp del: new_extracted_object_simps)
  qed
  then show ?thesis
    using assms by (simp add: generate_step_def Let_def st del: new_extracted_object_simps split: if_splits)
qed

lemma generate_fold_basic:
  "extracted_basic (uid parent) ex \<Longrightarrow>
     extracted_basic (uid parent) (fst (fold (generate_step env dir parent) ps (ex, s)))"
proof (induction ps arbitrary: ex s)
  case (Cons p ps)
  obtain ex1 s1 where st: "generate_step env dir parent p (ex, s) = (ex1, s1)"
    by (cases "generate_step env dir parent p (ex, s)")
  have "extracted_basic (uid parent) ex1"
    using generate_step_basic [OF Cons.prems, of env dir p s] st by simp
  then show ?case
    using Cons.IH st by simp
qed simp

definition child_of :: "file_object \<Rightarrow> file_object \<Rightarrow> bool" where
  "child_of fo child \<longleftrightarrow> root_uid child = root_uid fo \<and> depth child = depth fo + 1 \<and> uid child \<noteq> uid fo \<and>
     firmware child = None \<and> map_of (virtual_file_path child) (uid fo) \<noteq> None"

lemma generate_objects_basic:
  assumes "generate_objects_and_store_files env ps dir parent s = (objs, s')"
  shows "distinct (map uid objs) \<and> (\<forall>fo\<in>set objs. uid fo \<noteq> uid parent \<and> firmware fo = None \<and>
     map_of (virtual_file_path fo) (uid parent) \<noteq> None)"
proof -
  obtain ex where ex: "fold (generate_step env dir parent) ps ([], s) = (ex, s')"
    and objs: "objs = map snd (AList.delete (uid parent) ex)"
    using assms by (auto simp: generate_objects_and_store_files_def split: prod.splits)
  have ok: "extracted_basic (uid parent) ex"
    using generate_fold_basic [of parent "[]" env dir ps s] ex by (simp add: extracted_basic_def)
  then have sub: "\<forall>(u, fo)\<in>set (AList.delete (uid parent) ex). uid fo = u \<and> u \<noteq> uid parent \<and>
      firmware fo = None \<and> map_of (virtual_file_path fo) (uid parent) \<noteq> None"
    by (auto simp: AList.delete_eq extracted_basic_def list_all_iff)
  then have uids: "map uid objs = map fst (AList.delete (uid parent) ex)"
    by (auto simp: objs)
  have "distinct (map uid objs)"
    using ok unfolding uids by (simp add: extracted_basic_def distinct_delete)
  moreover have "\<forall>fo\<in>set objs. uid fo \<noteq> uid parent \<and> firmware fo = None \<and>
      map_of (virtual_file_path fo) (uid parent) \<noteq> None"
    using sub unfolding objs by fastforce
  ultimately show ?thesis by blast
qed

lemma add_included_files_simps:
  "add_included_files fo objs = (fo', objs') \<Longrightarrow>
     uid fo' = uid fo \<and> root_uid fo' = root_uid fo \<and> depth fo' = depth fo \<and> firmware fo' = firmware fo \<and>
     files_included fo' = files_included fo \<union> uid ` set objs \<and>
     objs' = map (\<lambda>o'. snd (add_included_file fo o')) objs"
proof (induction objs arbitrary: fo fo' objs')
  case (Cons o' objs)
  have "snd (add_included_file (fst (add_included_file fo o')) x) = snd (add_included_file fo x)" for x
    by (simp add: add_included_file_def)
  moreover have "uid (fst (add_included_file fo o')) = uid fo" "root_uid (fst (add_included_file fo o')) = root_uid fo"
    "depth (fst (add_included_file fo o')) = depth fo" "firmware (fst (add_included_file fo o')) = firmware fo"
    by (simp_all add: add_included_file_def)
  ultimately show ?case
    using Cons.prems Cons.IH [of "fst (add_included_file fo o')"] by (auto split: prod.splits)
qed simp

lemma skip_info_simps [simp]:
  "uid (store_unpacking_error_skip_info now e fo) = uid fo" "uid (store_unpacking_depth_skip_info now fo) = uid fo"
  "root_uid (store_unpacking_error_skip_info now e fo) = root_uid fo"
  "root_uid (store_unpacking_depth_skip_info now fo) = root_uid fo"
  "depth (store_unpacking_error_skip_info now e fo) = depth fo" "depth (store_unpacking_depth_skip_info now fo) = depth fo"
  "firmware (store_unpacking_error_skip_info now e fo) = firmware fo"
  "firmware (store_unpacking_depth_skip_info now fo) = firmware fo"
  by (simp_all add: store_unpacking_error_skip_info_def store_unpacking_depth_skip_info_def)

lemma check_path_same:
  "check_path now fo fs = (fo', r) \<Longrightarrow>
     uid fo' = uid fo \<and> root_uid fo' = root_uid fo \<and> depth fo' = depth fo \<and> firmware fo' = firmware fo"
  by (auto simp: check_path_def split: option.splits if_splits)

lemma unpack_same:
  assumes "unpack env now container tmp fo s = (fo', s', r)"
  shows "uid fo' = uid fo \<and> root_uid fo' = root_uid fo \<and> depth fo' = depth fo \<and> firmware fo' = firmware fo"
  using assms unfolding unpack_def
  by (auto split: if_splits prod.splits sum.splits unpack_error.splits option.splits
      dest!: check_path_same add_included_files_simps)

lemma unpack_objects:
  assumes "unpack env now container tmp fo s = (fo', s', Inr objs)"
  shows "distinct (map uid objs)" "\<forall>child\<in>set objs. child_of fo child" "objs \<noteq> [] \<Longrightarrow> depth fo < max_depth env"
proof -
  have "objs = [] \<or> depth fo < max_depth env \<and> (\<exists>ps dir s1 s2 objs1 fo2.
      generate_objects_and_store_files env ps dir fo s1 = (objs1, s2) \<and> add_included_files fo objs1 = (fo2, objs))"
    using assms unfolding unpack_def
    by (auto split: if_splits prod.splits sum.splits unpack_error.splits option.splits)
  then have "distinct (map uid objs) \<and> (\<forall>child\<in>set objs. child_of fo child) \<and> (objs \<noteq> [] \<longrightarrow> depth fo < max_depth env)"
  proof (elim disjE exE conjE)
    fix ps dir s1 s2 objs1 fo2
    assume gen: "generate_objects_and_store_files env ps dir fo s1 = (objs1, s2)"
      and add: "add_included_files fo objs1 = (fo2, objs)" and d: "depth fo < max_depth env"
    have objs: "objs = map (\<lambda>o'. snd (add_included_file fo o')) objs1"
      using add_included_files_simps [OF add] by blast
    have uids: "map uid objs = map uid objs1"
      by (simp add: objs)
    have "\<forall>child\<in>set objs. child_of fo child"
      using generate_objects_basic [OF gen] by (auto simp: objs child_of_def add_included_file_def)
    then show ?thesis
      using generate_objects_basic [OF gen] d unfolding uids by blast
  qed simp
  then show "distinct (map uid objs)" "\<forall>child\<in>set objs. child_of fo child" "objs \<noteq> [] \<Longrightarrow> depth fo < max_depth env"
    by blast+
qed

section \<open>The extracted objects\<close>

abbreviation content_uid :: "unpack_env \<Rightarrow> string \<Rightarrow> string" where
  "content_uid env b \<equiv> ue_sha env b @ ''_'' @ nat_str (length b)"

abbreviation storage_path :: "unpack_env \<Rightarrow> string \<Rightarrow> string" where
  "storage_path env u \<equiv> generate_path_from_uid (ue_storage env) u"

lemma generate_path_inj' [simp]:
  "generate_path_from_uid storage u = generate_path_from_uid storage v \<longleftrightarrow> u = v"
proof
  assume eq: "generate_path_from_uid storage u = generate_path_from_uid storage v"
  then have "length (generate_path_from_uid storage u) = length (generate_path_from_uid storage v)"
    by simp
  then have "length u = length v"
    by (simp add: generate_path_from_uid_def min_def split: if_splits)
  with eq show "u = v"
    by (simp add: generate_path_inj)
qed simp

text \<open>The paths of the non-empty files among \<open>ps\<close> whose content has the UID \<open>u\<close>, relative to the directory\<close>

definition paths_of :: "unpack_env \<Rightarrow> filesystem \<Rightarrow> string \<Rightarrow> string list \<Rightarrow> string \<Rightarrow> string list" where
  "paths_of env fs dir ps u =
     map (\<lambda>p. get_relative_object_path (to_path p) (to_path dir))
       (filter (\<lambda>p. \<not> file_is_empty fs p \<and> content_uid env (read_at env fs p) = u) ps)"

definition extracted_uids :: "unpack_env \<Rightarrow> filesystem \<Rightarrow> string list \<Rightarrow> string set" where
  "extracted_uids env fs ps = {content_uid env (read_at env fs p) | p. p \<in> set ps \<and> \<not> file_is_empty fs p}"

text \<open>
  What the loop has built after the files \<open>ps\<close>: one object per content, with all its paths, stored and
  locked; nothing outside the storage has changed.
\<close>

definition object_ok ::
  "unpack_env \<Rightarrow> filesystem \<Rightarrow> string \<Rightarrow> file_object \<Rightarrow> string list \<Rightarrow> ustate \<Rightarrow> string \<Rightarrow> file_object \<Rightarrow> bool" where
  "object_ok env fs dir parent ps s u fo \<longleftrightarrow> uid fo = u \<and> u \<in> extracted_uids env fs ps \<and>
     virtual_file_path fo = [(uid parent, paths_of env fs dir ps u)] \<and>
     (\<exists>b. binary fo = Some b \<and> content_uid env b = u \<and> us_fs s (storage_path env u) = Some b) \<and>
     unpacking_lock_is_set u (us_locks s)"

definition generated_ok ::
  "unpack_env \<Rightarrow> filesystem \<Rightarrow> string \<Rightarrow> file_object \<Rightarrow> string list \<Rightarrow> (string \<times> file_object) list \<times> ustate \<Rightarrow> bool" where
  "generated_ok env fs dir parent ps = (\<lambda>(ex, s).
     distinct (map fst ex) \<and> fst ` set ex = extracted_uids env fs ps \<and>
     (\<forall>(u, fo)\<in>set ex. object_ok env fs dir parent ps s u fo) \<and>
     (\<forall>p. (\<forall>u. p \<noteq> storage_path env u) \<longrightarrow> us_fs s p = fs p) \<and>
     (\<forall>u. u \<notin> extracted_uids env fs ps \<longrightarrow> us_fs s (storage_path env u) = fs (storage_path env u)))"

lemma generated_okI:
  assumes "distinct (map fst ex)" "fst ` set ex = extracted_uids env fs ps"
    and "\<And>u fo. (u, fo) \<in> set ex \<Longrightarrow> object_ok env fs dir parent ps s u fo"
    and "\<And>p. \<forall>u. p \<noteq> storage_path env u \<Longrightarrow> us_fs s p = fs p"
    and "\<And>u. u \<notin> extracted_uids env fs ps \<Longrightarrow> us_fs s (storage_path env u) = fs (storage_path env u)"
  shows "generated_ok env fs dir parent ps (ex, s)"
  using assms by (auto simp: generated_ok_def)

text \<open>The storage is addressed by content: what is stored under the UID of an extracted file is that file.\<close>

definition content_addressed :: "unpack_env \<Rightarrow> filesystem \<Rightarrow> string list \<Rightarrow> bool" where
  "content_addressed env fs ps \<longleftrightarrow>
     (\<forall>p\<in>set ps. (\<forall>u. p \<noteq> storage_path env u) \<and>
        fs (storage_path env (content_uid env (read_at env fs p))) \<in> {None, Some (read_at env fs p)})"

lemma extracted_uids_snoc:
  "extracted_uids env fs (ps @ [p]) = extracted_uids env fs ps \<union>
     (if file_is_empty fs p then {} else {content_uid env (read_at env fs p)})"
  by (auto simp: extracted_uids_def)

lemma paths_of_snoc:
  "paths_of env fs dir (ps @ [p]) u = paths_of env fs dir ps u @
     (if \<not> file_is_empty fs p \<and> content_uid env (read_at env fs p) = u
      then [get_relative_object_path (to_path p) (to_path dir)] else [])"
  by (simp add: paths_of_def)

lemma paths_of_new: "u \<notin> extracted_uids env fs ps \<Longrightarrow> paths_of env fs dir ps u = []"
  by (auto simp: paths_of_def extracted_uids_def filter_empty_conv)


lemma object_ok_mono:
  assumes "object_ok env fs dir parent ps s u fo" "us_fs s' (storage_path env u) = us_fs s (storage_path env u)"
    and "unpacking_lock_is_set u (us_locks s')" "content_uid env (read_at env fs p) \<noteq> u \<or> file_is_empty fs p"
  shows "object_ok env fs dir parent (ps @ [p]) s' u fo"
  using assms by (auto simp: object_ok_def extracted_uids_snoc paths_of_snoc)

lemma object_ok_add_path:
  assumes "object_ok env fs dir parent ps s u fo" "\<not> file_is_empty fs p" "content_uid env (read_at env fs p) = u"
  shows "object_ok env fs dir parent (ps @ [p]) s u
     (add_extracted_path (uid parent) (get_relative_object_path (to_path p) (to_path dir)) fo)"
  using assms
  by (auto simp: object_ok_def extracted_uids_snoc paths_of_snoc add_extracted_path_def dict_modify_def)

lemma generate_step_known:
  assumes ok: "generated_ok env fs dir parent ps (ex, s)" and ne: "\<not> file_is_empty fs p"
    and known: "content_uid env (read_at env fs p) \<in> extracted_uids env fs ps"
  shows "generated_ok env fs dir parent (ps @ [p])
     (map (\<lambda>(u, fo). (u, if u = content_uid env (read_at env fs p)
        then add_extracted_path (uid parent) (get_relative_object_path (to_path p) (to_path dir)) fo else fo)) ex, s)"
    (is "generated_ok _ _ _ _ _ (map ?f ex, s)")
proof -
  have ext: "extracted_uids env fs (ps @ [p]) = extracted_uids env fs ps"
    using ne known by (auto simp: extracted_uids_snoc)
  have fst_f: "map fst (map ?f ex) = map fst ex"
    by (induction ex) auto
  have "object_ok env fs dir parent (ps @ [p]) s u fo" if mem: "(u, fo) \<in> set (map ?f ex)" for u fo
  proof -
    obtain fo0 where fo0: "(u, fo0) \<in> set ex" and fo: "(u, fo) = ?f (u, fo0)"
      using mem by auto
    have old: "object_ok env fs dir parent ps s u fo0"
      using ok fo0 by (auto simp: generated_ok_def)
    show ?thesis
    proof (cases "u = content_uid env (read_at env fs p)")
      case True
      then show ?thesis
        using fo object_ok_add_path [OF old ne] by simp
    next
      case False
      have "unpacking_lock_is_set u (us_locks s)"
        using old by (simp add: object_ok_def)
      then have "object_ok env fs dir parent (ps @ [p]) s u fo0"
        using False by (intro object_ok_mono [OF old]) auto
      then show ?thesis
        using fo False by simp
    qed
  qed
  moreover have "distinct (map fst (map ?f ex))" "fst ` set (map ?f ex) = extracted_uids env fs (ps @ [p])"
  proof -
    show "distinct (map fst (map ?f ex))"
      using ok unfolding fst_f by (simp add: generated_ok_def)
    have "fst ` set (map ?f ex) = set (map fst (map ?f ex))"
      by (simp only: set_map)
    then show "fst ` set (map ?f ex) = extracted_uids env fs (ps @ [p])"
      using ok unfolding fst_f ext by (simp add: generated_ok_def)
  qed
  moreover have "us_fs s q = fs q" if "\<forall>u. q \<noteq> storage_path env u" for q
    using ok that by (simp add: generated_ok_def)
  moreover have "us_fs s (storage_path env u) = fs (storage_path env u)" if "u \<notin> extracted_uids env fs (ps @ [p])" for u
    using ok that by (simp add: generated_ok_def ext)
  ultimately show ?thesis
    by (intro generated_okI)
qed


lemma generate_step_new:
  assumes ok: "generated_ok env fs dir parent ps (ex, s)" and ne: "\<not> file_is_empty fs p"
    and b: "b = read_at env fs p" and u: "u = content_uid env b" and new: "u \<notin> extracted_uids env fs ps"
    and fs': "fs' = (if us_fs s (storage_path env u) = None then (us_fs s)(storage_path env u \<mapsto> b) else us_fs s)"
    and stored: "fs (storage_path env u) \<in> {None, Some b}"
    and fo: "uid fo = u" "binary fo = Some b" "virtual_file_path fo = []"
  shows "generated_ok env fs dir parent (ps @ [p])
     (map (\<lambda>(v, fo). (v, if v = u
        then add_extracted_path (uid parent) (get_relative_object_path (to_path p) (to_path dir)) fo else fo))
        (AList.update u fo ex), s\<lparr>us_fs := fs', us_locks := set_unpacking_lock u (us_locks s)\<rparr>)"
    (is "generated_ok _ _ _ _ _ (map ?f _, ?s')")
proof -
  have dom: "u \<notin> fst ` set ex"
    using ok new by (auto simp: generated_ok_def)
  then have ex1: "map ?f (AList.update u fo ex) = ex @ [?f (u, fo)]"
  proof -
    have "AList.update u fo ex = ex @ [(u, fo)]"
      using dom by (induction ex) auto
    moreover have "map ?f ex = ex"
      using dom by (induction ex) auto
    ultimately show ?thesis by simp
  qed
  have ext: "extracted_uids env fs (ps @ [p]) = insert u (extracted_uids env fs ps)"
    using ne b u by (auto simp: extracted_uids_snoc)
  have sp: "us_fs s (storage_path env u) = fs (storage_path env u)"
    using ok new by (auto simp: generated_ok_def)
  have at_u: "us_fs ?s' (storage_path env u) = Some b"
    using stored sp by (auto simp: fs')
  have other: "us_fs ?s' q = us_fs s q" if "q \<noteq> storage_path env u" for q
    using that by (simp add: fs')
  have old: "object_ok env fs dir parent (ps @ [p]) ?s' v fo1" if "(v, fo1) \<in> set ex" for v fo1
  proof -
    have old: "object_ok env fs dir parent ps s v fo1"
      using ok that by (auto simp: generated_ok_def)
    moreover have "v \<noteq> u"
      using that dom by force
    ultimately show ?thesis
      using b u by (intro object_ok_mono [OF old] other) (auto simp: object_ok_def)
  qed
  have "object_ok env fs dir parent (ps @ [p]) ?s' u (snd (?f (u, fo)))"
    using fo ne u b at_u paths_of_new [OF new]
    by (auto simp: object_ok_def ext paths_of_snoc add_extracted_path_def dict_modify_def)
  then show ?thesis
    using ok old dom other unfolding ex1
    by (auto simp: generated_ok_def ext image_iff)
qed

lemma generate_step_ok:
  assumes ok: "generated_ok env fs dir parent ps (ex, s)" and law: "write_law (ue_write env)"
    and addr: "content_addressed env fs [p]"
  shows "generated_ok env fs dir parent (ps @ [p]) (generate_step env dir parent p (ex, s))"
proof -
  have same: "us_fs s p = fs p"
    using ok addr by (auto simp: generated_ok_def content_addressed_def)
  then have rd: "file_is_empty (us_fs s) p = file_is_empty fs p" "read_at env (us_fs s) p = read_at env fs p"
    by (simp_all add: file_is_empty_def read_at_def)
  let ?u = "content_uid env (read_at env fs p)"
  consider (empty) "file_is_empty fs p" | (known) "\<not> file_is_empty fs p" "?u \<in> extracted_uids env fs ps"
    | (new) "\<not> file_is_empty fs p" "?u \<notin> extracted_uids env fs ps"
    by blast
  then show ?thesis
  proof cases
    case empty
    then show ?thesis
      using ok by (auto simp: generate_step_def rd generated_ok_def extracted_uids_snoc
          intro!: object_ok_mono simp: object_ok_def paths_of_snoc)
  next
    case known
    moreover have "map_of ex ?u \<noteq> None"
      using ok known(2) unfolding dom_map_of_iff by (simp add: generated_ok_def)
    ultimately show ?thesis
      using generate_step_known [OF ok known] by (simp add: generate_step_def rd Let_def)
  next
    case new
    have "?u \<notin> fst ` set ex"
      using ok new(2) by (simp add: generated_ok_def)
    then have none: "map_of ex ?u = None"
      by (simp only: map_of_eq_None_iff not_False_eq_True)
    let ?fo = "new_extracted_object env p parent (us_fs s)"
    define fs' where "fs' = ue_write env (read_at env fs p) (storage_path env ?u) (us_fs s)"
    define stored where "stored = ?fo\<lparr>file_path := Some (storage_path env ?u)\<rparr>"
    define fo where "fo = stored\<lparr>parent_firmware_uids :=
       (case root_uid parent of None \<Rightarrow> parent_firmware_uids stored
        | Some r \<Rightarrow> insert r (parent_firmware_uids stored))\<rparr>"
    have "store_file (ue_write env) (ue_sha env) (ue_md5 env) (ue_storage env) ?fo (us_fs s) =
       (stored, fs')"
      unfolding fs'_def stored_def by (subst store_file_simps) (simp_all add: rd generate_path_def)
    then have step: "generate_step env dir parent p (ex, s) =
       (map (\<lambda>(v, fo). (v, if v = ?u
          then add_extracted_path (uid parent) (get_relative_object_path (to_path p) (to_path dir)) fo else fo))
        (AList.update ?u fo ex), s\<lparr>us_fs := fs', us_locks := set_unpacking_lock ?u (us_locks s)\<rparr>)"
      using new(1) none by (simp add: generate_step_def rd Let_def fo_def)
    have "fs' = (if us_fs s (storage_path env ?u) = None then (us_fs s)(storage_path env ?u \<mapsto> read_at env fs p)
       else us_fs s)"
      using law by (simp add: fs'_def write_law_def)
    moreover have "fs (storage_path env ?u) \<in> {None, Some (read_at env fs p)}"
      using addr by (simp add: content_addressed_def)
    moreover have "uid fo = ?u" "binary fo = Some (read_at env fs p)" "virtual_file_path fo = []"
      by (simp_all add: fo_def stored_def rd)
    ultimately show ?thesis
      unfolding step by (rule generate_step_new [OF ok new(1) refl refl new(2)])
  qed
qed


lemma generate_fold_ok:
  assumes "write_law (ue_write env)" "content_addressed env (us_fs s) ps"
  shows "generated_ok env (us_fs s) dir parent ps (fold (generate_step env dir parent) ps ([], s))"
  using assms(2)
proof (induction ps rule: rev_induct)
  case Nil
  then show ?case
    by (simp add: generated_ok_def extracted_uids_def)
next
  case (snoc p ps)
  then have "content_addressed env (us_fs s) ps" "content_addressed env (us_fs s) [p]"
    by (auto simp: content_addressed_def)
  with snoc.IH show ?case
    by (cases "fold (generate_step env dir parent) ps ([], s)") (simp add: generate_step_ok [OF _ assms(1)])
qed

lemma generate_objects_facts:
  assumes "write_law (ue_write env)" "content_addressed env (us_fs s) ps"
    and "generate_objects_and_store_files env ps dir parent s = (objs, s')"
  shows "distinct (map uid objs)" and "set (map uid objs) = extracted_uids env (us_fs s) ps - {uid parent}"
    and "\<And>fo. fo \<in> set objs \<Longrightarrow>
       virtual_file_path fo = [(uid parent, paths_of env (us_fs s) dir ps (uid fo))] \<and>
       (\<exists>b. binary fo = Some b \<and> content_uid env b = uid fo \<and> us_fs s' (generate_path (ue_storage env) fo) = Some b) \<and>
       unpacking_lock_is_set (uid fo) (us_locks s')"
proof -
  obtain ex where ex: "fold (generate_step env dir parent) ps ([], s) = (ex, s')"
    and objs: "objs = map snd (AList.delete (uid parent) ex)"
    using assms(3) by (auto simp: generate_objects_and_store_files_def split: prod.splits)
  have ok: "generated_ok env (us_fs s) dir parent ps (ex, s')"
    using generate_fold_ok [OF assms(1,2), of dir parent] by (simp add: ex)
  have sub: "set (AList.delete (uid parent) ex) \<subseteq> set ex"
    by (auto simp: AList.delete_eq)
  have "uid fo = u" if "(u, fo) \<in> set ex" for u fo
    using ok that by (auto simp: generated_ok_def object_ok_def)
  then have uids: "map uid objs = map fst (AList.delete (uid parent) ex)"
    using sub by (auto simp: objs)
  show "distinct (map uid objs)"
    using ok unfolding uids by (simp add: generated_ok_def distinct_delete)
  show "set (map uid objs) = extracted_uids env (us_fs s) ps - {uid parent}"
    using ok unfolding uids by (simp add: generated_ok_def delete_keys)
  fix fo
  assume "fo \<in> set objs"
  then obtain u where "(u, fo) \<in> set ex"
    using sub by (auto simp: objs)
  then have "object_ok env (us_fs s) dir parent ps s' u fo"
    using ok by (auto simp: generated_ok_def)
  then show "virtual_file_path fo = [(uid parent, paths_of env (us_fs s) dir ps (uid fo))] \<and>
       (\<exists>b. binary fo = Some b \<and> content_uid env b = uid fo \<and> us_fs s' (generate_path (ue_storage env) fo) = Some b) \<and>
       unpacking_lock_is_set (uid fo) (us_locks s')"
    by (auto simp: object_ok_def generate_path_def)
qed


text \<open>
  C16. Unpacking a file creates exactly one object for every distinct content among the non-empty
  extracted files, except for the unpacked file itself. Every object has all the paths under which its
  content was extracted, in order and relative to the extraction directory, its content is in the
  storage under its UID, and it is locked. The storage is assumed to be addressed by content, and
  writing with \<open>overwrite=False\<close> to keep existing files.
\<close>

theorem generate_objects_correct:
  assumes "write_law (ue_write env)" "content_addressed env (us_fs s) ps"
    and "generate_objects_and_store_files env ps dir parent s = (objs, s')"
  shows "distinct (map uid objs) \<and> set (map uid objs) = extracted_uids env (us_fs s) ps - {uid parent} \<and>
    list_all (\<lambda>fo.
       virtual_file_path fo = [(uid parent, paths_of env (us_fs s) dir ps (uid fo))] \<and>
       (\<exists>b. binary fo = Some b \<and> content_uid env b = uid fo \<and> us_fs s' (generate_path (ue_storage env) fo) = Some b) \<and>
       unpacking_lock_is_set (uid fo) (us_locks s')) objs"
  unfolding list_all_iff using generate_objects_facts [OF assms] by blast

definition keep_existing :: "string \<Rightarrow> string \<Rightarrow> filesystem \<Rightarrow> filesystem" where
  "keep_existing b p fs = (if fs p = None then fs(p \<mapsto> b) else fs)"

lemma keep_existing_law: "write_law keep_existing"
  by (simp add: write_law_def keep_existing_def)

definition example_unpack_env :: unpack_env where
  "example_unpack_env = \<lparr>max_depth = 8, ue_storage = ''m'', ue_sha = id, ue_md5 = id, ue_write = keep_existing,
     ue_unreadable = (\<lambda>p. []), ue_magic = (\<lambda>p. ''zip''), ue_status_request = (\<lambda>p. Response 200),
     ue_start_request = (\<lambda>p t fs. (Response 200, fs)), ue_run_docker = (\<lambda>t fs. (Returncode 0, fs)),
     ue_rglob = (\<lambda>d fs. [''t/a'', ''t/b'', ''t/c'']), ue_json_loads = (\<lambda>t. Inr [])\<rparr>"

definition example_fs :: filesystem where
  "example_fs = [''t/a'' \<mapsto> ''x'', ''t/b'' \<mapsto> ''x'', ''t/c'' \<mapsto> []]"

lemma example_write: "write_law (ue_write example_unpack_env)"
  by (simp add: example_unpack_env_def keep_existing_law)

lemma example_content_addressed:
  "content_addressed example_unpack_env example_fs [''t/a'', ''t/b'', ''t/c'']"
  by (simp add: content_addressed_def example_unpack_env_def example_fs_def read_at_def generate_path_from_uid_def)

lemma example_extracted:
  "extracted_uids example_unpack_env example_fs [''t/a'', ''t/b'', ''t/c''] = {''x_1''}"
proof -
  have eq: "extracted_uids env fs ps =
     set (map (\<lambda>p. content_uid env (read_at env fs p)) (filter (\<lambda>p. \<not> file_is_empty fs p) ps))" for env fs ps
    by (auto simp: extracted_uids_def)
  have "map (\<lambda>p. content_uid example_unpack_env (read_at example_unpack_env example_fs p))
     (filter (\<lambda>p. \<not> file_is_empty example_fs p) [''t/a'', ''t/b'', ''t/c'']) = [''x_1'', ''x_1'']"
    by (simp add: example_unpack_env_def example_fs_def read_at_def file_is_empty_def nat_str.simps)
  then show ?thesis
    unfolding eq by simp
qed

theorem generate_objects_witness:
  "\<exists>objs s'. generate_objects_and_store_files example_unpack_env [''t/a'', ''t/b'', ''t/c''] ''t''
       (empty_file_object ''fw'' True) \<lparr>us_fs = example_fs, us_locks = []\<rparr> = (objs, s') \<and>
     distinct (map uid objs) \<and> set (map uid objs) = {''x_1''}"
proof -
  obtain objs s' where res: "generate_objects_and_store_files example_unpack_env [''t/a'', ''t/b'', ''t/c''] ''t''
       (empty_file_object ''fw'' True) \<lparr>us_fs = example_fs, us_locks = []\<rparr> = (objs, s')"
    by (metis surj_pair)
  have "distinct (map uid objs) \<and> set (map uid objs) = {''x_1''} - {''fw''}"
    using generate_objects_correct [OF example_write _ res] example_content_addressed
    by (simp add: example_extracted empty_file_object_def)
  with res show ?thesis by auto
qed

end
