(* ===== verification/Dependencies.thy ===== *)
theory Dependencies
  imports Prelude
begin

text \<open>
  Two components order plugins by their dependencies: the analysis task scheduler
  (\<^verbatim>\<open>scheduler/task_scheduler.py\<close>) and the comparison module (\<^verbatim>\<open>compare/compare.py\<close>). This
  theory holds the specification both are measured against: which plugins can be scheduled at
  all (\<open>schedulable\<close>), what it means for an execution order to respect the dependencies
  (\<open>deps_respected\<close>), and the contract of such a scheduler as a locale, with the consequences a
  client may rely on.
\<close>

section \<open>Specification\<close>

text \<open>
  \<open>deps p\<close> is the dependency list of plugin \<open>p\<close>, \<open>None\<close> if there is no such plugin. A plugin is
  schedulable among the wanted ones if it is wanted, known, and all its dependencies are
  schedulable: this leaves out everything on a cycle or behind an unknown or unwanted plugin.
\<close>

inductive schedulable :: "('a \<Rightarrow> 'a list option) \<Rightarrow> 'a set \<Rightarrow> 'a \<Rightarrow> bool"
  for deps :: "'a \<Rightarrow> 'a list option" and wanted :: "'a set" where
  schedulableI:
    "p \<in> wanted \<Longrightarrow> deps p = Some ds \<Longrightarrow> (\<And>d. d \<in> set ds \<Longrightarrow> schedulable deps wanted d) \<Longrightarrow>
     schedulable deps wanted p"

inductive_cases schedulableE: "schedulable deps wanted p"

text \<open>\<open>xs\<close> is an execution order (first element runs first) after everything in \<open>before\<close> ran.\<close>

fun deps_respected :: "('a \<Rightarrow> 'a list option) \<Rightarrow> 'a list \<Rightarrow> 'a list \<Rightarrow> bool" where
  "deps_respected deps before [] = True"
| "deps_respected deps before (p # ps) =
     ((case deps p of None \<Rightarrow> False | Some ds \<Rightarrow> list_all (\<lambda>d. d \<in> set before) ds) \<and>
      deps_respected deps (p # before) ps)"

section \<open>Lemmas on the specification\<close>

lemma schedulable_wanted: "schedulable deps wanted p \<Longrightarrow> p \<in> wanted"
  by (erule schedulableE)

lemma deps_respected_mono:
  "deps_respected deps before xs \<Longrightarrow> set before \<subseteq> set before' \<Longrightarrow> deps_respected deps before' xs"
proof (induction xs arbitrary: before before')
  case Nil
  then show ?case by simp
next
  case (Cons p ps)
  from Cons.prems have "deps_respected deps (p # before') ps"
    using Cons.IH [of "p # before" "p # before'"] by auto
  with Cons.prems show ?case
    by (auto simp: list_all_iff split: option.splits)
qed

lemma deps_respected_append:
  "deps_respected deps before (xs @ ys) \<longleftrightarrow>
     deps_respected deps before xs \<and> deps_respected deps (rev xs @ before) ys"
  by (induction xs arbitrary: before) auto

lemma deps_respected_parallel:
  assumes "\<And>p. p \<in> set xs \<Longrightarrow> \<exists>ds. deps p = Some ds \<and> set ds \<subseteq> set before"
  shows "deps_respected deps before xs"
  using assms
proof (induction xs arbitrary: before)
  case Nil
  then show ?case by simp
next
  case (Cons p ps)
  have "deps_respected deps (p # before) ps"
    by (rule Cons.IH) (use Cons.prems in fastforce)
  moreover obtain ds where "deps p = Some ds" "set ds \<subseteq> set before"
    using Cons.prems [of p] by auto
  ultimately show ?case
    by (auto simp: list_all_iff)
qed

lemma deps_respected_before:
  assumes "deps_respected deps before (xs @ p # ys)"
  shows "\<exists>ds. deps p = Some ds \<and> set ds \<subseteq> set xs \<union> set before"
  using assms by (auto simp: deps_respected_append list_all_iff split: option.splits)

text \<open>What is executed in a respected order is schedulable.\<close>

lemma respected_schedulable:
  assumes "deps_respected deps before xs"
    and "\<And>d. d \<in> set before \<Longrightarrow> schedulable deps wanted d"
    and "set xs \<subseteq> wanted"
    and "p \<in> set xs"
  shows "schedulable deps wanted p"
  using assms
proof (induction xs arbitrary: before)
  case Nil
  then show ?case by simp
next
  case (Cons q qs)
  from Cons.prems obtain ds where "deps q = Some ds" "set ds \<subseteq> set before"
    by (auto simp: list_all_iff split: option.splits)
  with Cons.prems have q: "schedulable deps wanted q"
    by (auto intro: schedulableI [where ds = ds])
  show ?case
  proof (cases "p \<in> set qs")
    case True
    with Cons.prems q show ?thesis
      using Cons.IH [of "q # before"] by auto
  next
    case False
    with Cons.prems q show ?thesis by simp
  qed
qed

text \<open>A set that contains every wanted plugin whose dependencies it contains is everything.\<close>

lemma schedulable_least:
  assumes "schedulable deps wanted p"
    and "\<And>q ds. q \<in> wanted \<Longrightarrow> deps q = Some ds \<Longrightarrow> set ds \<subseteq> S \<Longrightarrow> q \<in> S"
  shows "p \<in> S"
  using assms(1)
proof (induction rule: schedulable.induct)
  case (schedulableI p ds)
  then show ?case by (intro assms(2)) auto
qed

text \<open>
  If the wanted plugins are closed under dependencies and a rank decreases along every
  dependency, all of them are schedulable.
\<close>

definition ranked :: "('a \<Rightarrow> 'a list option) \<Rightarrow> 'a set \<Rightarrow> ('a \<Rightarrow> nat) \<Rightarrow> bool" where
  "ranked deps wanted rank \<longleftrightarrow>
     (\<forall>p\<in>wanted. case deps p of
         None \<Rightarrow> False
       | Some ds \<Rightarrow> list_all (\<lambda>d. d \<in> wanted \<and> rank d < rank p) ds)"

lemma ranked_schedulable:
  assumes "ranked deps wanted rank" "p \<in> wanted"
  shows "schedulable deps wanted p"
  using assms(2)
proof (induction p rule: measure_induct_rule [of rank])
  case (less p)
  from assms(1) less.prems obtain ds
    where "deps p = Some ds" "\<And>d. d \<in> set ds \<Longrightarrow> d \<in> wanted \<and> rank d < rank p"
    by (auto simp: ranked_def list_all_iff split: option.splits)
  then show ?case
    using less.prems less.IH by (auto intro: schedulableI [where ds = ds])
qed

section \<open>The contract of a dependency scheduler\<close>

text \<open>
  \<open>plan c\<close> is the execution order a scheduler computes for the situation \<open>c\<close> (\<open>None\<close> if it
  raises), \<open>ok c\<close> what it relies on. The three laws are the whole contract; the lemmas are what
  follows for every scheduler that keeps it.
\<close>

locale dependency_scheduler =
  fixes ok :: "'c \<Rightarrow> bool"
    and deps :: "'c \<Rightarrow> 'a \<Rightarrow> 'a list option"
    and wanted :: "'c \<Rightarrow> 'a set"
    and plan :: "'c \<Rightarrow> 'a list option"
  assumes plan_distinct: "ok c \<Longrightarrow> plan c = Some xs \<Longrightarrow> distinct xs"
    and plan_respects: "ok c \<Longrightarrow> plan c = Some xs \<Longrightarrow> deps_respected (deps c) [] xs"
    and plan_exact: "ok c \<Longrightarrow> plan c = Some xs \<Longrightarrow> set xs = {p. schedulable (deps c) (wanted c) p}"
begin

lemma dependencies_run_first:
  assumes "ok c" "plan c = Some (xs @ p # ys)"
  shows "\<exists>ds. deps c p = Some ds \<and> set ds \<subseteq> set xs"
  using deps_respected_before [OF plan_respects [OF assms]] by simp

lemma plan_wanted:
  assumes "ok c" "plan c = Some xs"
  shows "set xs \<subseteq> wanted c"
  using plan_exact [OF assms] by (auto dest: schedulable_wanted)

text \<open>No other order that respects the dependencies runs more plugins.\<close>

lemma plan_maximal:
  assumes "ok c" "plan c = Some xs" "deps_respected (deps c) [] ys" "set ys \<subseteq> wanted c"
  shows "set ys \<subseteq> set xs"
  using respected_schedulable [OF assms(3)] assms(4) plan_exact [OF assms(1,2)] by auto

lemma plan_complete:
  assumes "ok c" "plan c = Some xs" "ranked (deps c) (wanted c) rank"
  shows "set xs = wanted c"
  using plan_wanted [OF assms(1,2)] plan_exact [OF assms(1,2)] ranked_schedulable [OF assms(3)]
  by auto

end

end
