(* ===== verification/Plugin_Base.thy ===== *)
theory Plugin_Base
  imports Prelude
begin

text \<open>
  The plugin interface of \<^verbatim>\<open>src/src/analysis/plugin/plugin.py\<close>: the metadata every plugin
  declares, tags, and \<open>get_analysis\<close>, which wraps what a plugin computes into the dictionary that
  is stored in the database. The plugin's own methods (\<open>analyze\<close>, \<open>summarize\<close>, \<open>get_tags\<close>) are
  parameters.
\<close>

record tag =
  tag_name :: string
  tag_value :: string
  tag_color :: string
  tag_propagate :: bool

record plugin_metadata =
  pm_name :: string
  pm_description :: string
  pm_version :: string
  pm_system_version :: "string option"
  dependencies :: "string list"
  mime_blacklist :: "string list"
  mime_whitelist :: "string list"
  pm_timeout :: int

text \<open>\<open>self.plugins: dict[str, AnalysisPluginV0]\<close>\<close>

type_synonym plugin_table = "(string \<times> plugin_metadata) list"

definition tag_dump :: "tag \<Rightarrow> pydict" where
  "tag_dump t = [(''value'', PStr (tag_value t)), (''color'', PStr (tag_color t)),
     (''propagate'', PBool (tag_propagate t))]"

fun tags_dict :: "tag list \<Rightarrow> pydict \<Rightarrow> pydict" where
  "tags_dict [] d = d"
| "tags_dict (t # ts) d = tags_dict ts (AList.update (tag_name t) (PDict (tag_dump t)) d)"

text \<open>
  \<open>get_analysis\<close>: \<open>analyze\<close> returns \<open>None\<close> when nothing was found, or the dumped result together
  with its truth value as an object; the plugin's exceptions pass through.
\<close>

record plugin_result =
  dumped :: pydict
  result_truthy :: bool

definition get_analysis ::
  "plugin_metadata \<Rightarrow> timestamp \<Rightarrow> plugin_result option result \<Rightarrow>
   (plugin_result \<Rightarrow> string list) \<Rightarrow> (plugin_result \<Rightarrow> string list \<Rightarrow> tag list) \<Rightarrow> pydict result" where
  "get_analysis md start_time analyzed summarize get_tags =
     bindE analyzed (\<lambda>result.
       let summary = (case result of None \<Rightarrow> PNone | Some r \<Rightarrow> PList (map PStr (summarize r)));
           tags = (case result of None \<Rightarrow> [] | Some r \<Rightarrow> get_tags r (summarize r))
       in Inr
         [(''analysis_date'', PFloat start_time),
          (''plugin_version'', PStr (pm_version md)),
          (''system_version'', (case pm_system_version md of None \<Rightarrow> PNone | Some s \<Rightarrow> PStr s)),
          (''summary'', summary),
          (''tags'', PDict (tags_dict tags [])),
          (''result'', (case result of
              None \<Rightarrow> PNone
            | Some r \<Rightarrow> if result_truthy r then PDict (dumped r) else PNone))])"

lemma map_of_tags_dict:
  "map_of (tags_dict ts d) k =
     (case filter (\<lambda>t. tag_name t = k) ts of
        [] \<Rightarrow> map_of d k
      | _ \<Rightarrow> Some (PDict (tag_dump (last (filter (\<lambda>t. tag_name t = k) ts)))))"
proof (induction ts arbitrary: d)
  case Nil
  then show ?case by simp
next
  case (Cons t ts)
  show ?case
    using Cons by (cases "filter (\<lambda>t. tag_name t = k) ts") (auto split: list.splits)
qed

text \<open>Every entry of \<open>get_analysis\<close> has the fields the database requires.\<close>

lemma get_analysis_fields:
  assumes "get_analysis md t r summ tg = Inr d"
  shows "map_of d ''plugin_version'' = Some (PStr (pm_version md))"
    and "map_of d ''analysis_date'' = Some (PFloat t)"
    and "map_of d ''result'' \<noteq> None"
  using assms by (auto simp: get_analysis_def result_simps Let_def)

end
