(* ===== verification/Task_Scheduler.thy ===== *)
theory Task_Scheduler
  imports Dependencies Plugin_Base Objects
begin

text \<open>
  \<^verbatim>\<open>src/src/scheduler/task_scheduler.py\<close>: which analyses are scheduled for a file object and in
  which order. The list \<open>scheduled_analysis\<close> is consumed from its end (\<open>pop()\<close>), so its reverse is
  the execution order. A Python set of plugin names is a list without duplicates. The random
  permutation of \<open>helperFunctions.merge_generators.shuffled\<close> is the parameter \<open>sh\<close>: \<open>sh n xs\<close> is what
  the \<open>n\<close>-th call returns for \<open>xs\<close>; \<open>is_shuffle\<close> states what \<open>random.sample(xs, len(xs))\<close> documents.
  Because every selection from a set is shuffled before use, the set's iteration order is absorbed
  by \<open>sh\<close>.
\<close>

section \<open>Operations\<close>

definition MANDATORY_PLUGINS :: "string list" where
  "MANDATORY_PLUGINS = [''file_type'', ''file_hashes'']"

type_synonym shuffler = "nat \<Rightarrow> string list \<Rightarrow> string list"

definition is_shuffle :: "shuffler \<Rightarrow> bool" where
  "is_shuffle sh \<longleftrightarrow> (\<forall>n xs. mset (sh n xs) = mset xs)"

text \<open>\<open>self.plugins[plugin].metadata.dependencies\<close>\<close>

definition deps_of :: "plugin_table \<Rightarrow> string \<Rightarrow> string list option" where
  "deps_of plugins p = map_option dependencies (map_of plugins p)"

definition get_cumulative_remaining_dependencies :: "plugin_table \<Rightarrow> string list \<Rightarrow> string list result" where
  "get_cumulative_remaining_dependencies plugins scheduled_analyses =
     bindE (mapE (\<lambda>plugin. case deps_of plugins plugin of None \<Rightarrow> Inl KeyError | Some ds \<Rightarrow> Inr ds)
              scheduled_analyses)
       (\<lambda>dss. Inr (remdups (filter (\<lambda>d. d \<notin> set scheduled_analyses) (concat dss))))"

text \<open>The loop \<open>while True\<close> of \<open>_add_dependencies_recursively\<close>.\<close>

definition known_names :: "plugin_table \<Rightarrow> string set" where
  "known_names plugins = fst ` set plugins \<union> (\<Union>(_, md)\<in>set plugins. set (dependencies md))"

lemma finite_known_names [simp]: "finite (known_names plugins)"
  by (auto simp: known_names_def)

lemma mapE_deps_Inr:
  "mapE (\<lambda>p. case deps_of plugins p of None \<Rightarrow> Inl KeyError | Some ds \<Rightarrow> Inr ds) xs = Inr dss \<longleftrightarrow>
     list_all2 (\<lambda>p ds. deps_of plugins p = Some ds) xs dss"
  by (auto simp: mapE_Inr_iff list_all2_iff split: option.splits)

lemma cumulative_Inr:
  assumes "get_cumulative_remaining_dependencies plugins xs = Inr new"
  shows "distinct new"
    and "\<And>p. p \<in> set xs \<Longrightarrow> deps_of plugins p \<noteq> None"
    and "set new = {d. \<exists>p ds. p \<in> set xs \<and> deps_of plugins p = Some ds \<and> d \<in> set ds} - set xs"
proof -
  from assms obtain dss
    where dss: "list_all2 (\<lambda>p ds. deps_of plugins p = Some ds) xs dss"
      and new: "new = remdups (filter (\<lambda>d. d \<notin> set xs) (concat dss))"
    by (auto simp: get_cumulative_remaining_dependencies_def bindE_eq_Inr mapE_deps_Inr)
  show "distinct new"
    by (simp add: new)
  show "\<And>p. p \<in> set xs \<Longrightarrow> deps_of plugins p \<noteq> None"
    using dss by (auto simp: list_all2_conv_all_nth in_set_conv_nth)
  have "set (concat dss) = {d. \<exists>p ds. p \<in> set xs \<and> deps_of plugins p = Some ds \<and> d \<in> set ds}"
    using dss by (induction rule: list_all2_induct) auto
  then show "set new = {d. \<exists>p ds. p \<in> set xs \<and> deps_of plugins p = Some ds \<and> d \<in> set ds} - set xs"
    by (auto simp: new)
qed

lemma cumulative_known:
  assumes "get_cumulative_remaining_dependencies plugins xs = Inr new"
  shows "set new \<subseteq> known_names plugins"
  using cumulative_Inr(3) [OF assms]
  by (fastforce simp: deps_of_def known_names_def dest: map_of_SomeD)

function add_dependencies_loop :: "plugin_table \<Rightarrow> string list \<Rightarrow> string list result" where
  "add_dependencies_loop plugins scheduled =
     (case get_cumulative_remaining_dependencies plugins scheduled of
        Inl e \<Rightarrow> Inl e
      | Inr new_dependencies \<Rightarrow>
          if new_dependencies = [] then Inr scheduled
          else add_dependencies_loop plugins (scheduled @ new_dependencies))"
  by pat_completeness auto
termination
proof (relation "measure (\<lambda>(plugins, xs). card (known_names plugins - set xs))", goal_cases)
  case 1
  show ?case by simp
next
  case (2 plugins xs new)
  have "set new \<noteq> {}" "set new \<subseteq> known_names plugins" "set new \<inter> set xs = {}"
    using 2 cumulative_known cumulative_Inr(3) by fastforce+
  moreover obtain d where "d \<in> set new"
    using \<open>set new \<noteq> {}\<close> by (cases new) auto
  ultimately have "known_names plugins - set (xs @ new) \<subset> known_names plugins - set xs"
    by auto
  then show ?case
    by (simp add: psubset_card_mono)
qed

declare add_dependencies_loop.simps [simp del]

definition add_dependencies_recursively :: "plugin_table \<Rightarrow> string list \<Rightarrow> string list result" where
  "add_dependencies_recursively plugins scheduled_analyses =
     add_dependencies_loop plugins (remdups scheduled_analyses)"

definition get_plugins_with_met_dependencies ::
  "plugin_table \<Rightarrow> string list \<Rightarrow> string list \<Rightarrow> string list result" where
  "get_plugins_with_met_dependencies plugins remaining_plugins scheduled_plugins =
     bindE (mapE (\<lambda>plugin. case deps_of plugins plugin of None \<Rightarrow> Inl KeyError | Some ds \<Rightarrow> Inr (plugin, ds))
              remaining_plugins)
       (\<lambda>pds. Inr (map fst (filter (\<lambda>(p, ds). list_all (\<lambda>d. d \<in> set scheduled_plugins) ds) pds)))"

lemma met_dependencies_Inr:
  assumes "get_plugins_with_met_dependencies plugins rem sched = Inr nxt"
  shows "\<And>p. p \<in> set rem \<Longrightarrow> deps_of plugins p \<noteq> None"
    and "nxt = filter (\<lambda>p. \<exists>ds. deps_of plugins p = Some ds \<and> set ds \<subseteq> set sched) rem"
proof -
  from assms obtain pds
    where pds: "list_all2 (\<lambda>p pd. (case deps_of plugins p of None \<Rightarrow> Inl KeyError
                  | Some ds \<Rightarrow> Inr (p, ds)) = (Inr pd :: (string \<times> string list) result)) rem pds"
      and nxt: "nxt = map fst (filter (\<lambda>(p, ds). list_all (\<lambda>d. d \<in> set sched) ds) pds)"
    by (auto simp: get_plugins_with_met_dependencies_def bindE_eq_Inr mapE_Inr_iff)
  show "\<And>p. p \<in> set rem \<Longrightarrow> deps_of plugins p \<noteq> None"
    using pds by (induction rule: list_all2_induct) (auto split: option.splits)
  show "nxt = filter (\<lambda>p. \<exists>ds. deps_of plugins p = Some ds \<and> set ds \<subseteq> set sched) rem"
    unfolding nxt using pds
    by (induction rule: list_all2_induct) (auto simp: list_all_iff split: option.splits)
qed

text \<open>The loop \<open>while remaining_plugins\<close> of \<open>_smart_shuffle\<close>; \<open>n\<close> counts the calls of \<open>shuffled\<close>.\<close>

function smart_shuffle_loop ::
  "shuffler \<Rightarrow> plugin_table \<Rightarrow> nat \<Rightarrow> string list \<Rightarrow> string list \<Rightarrow> string list result" where
  "smart_shuffle_loop sh plugins n scheduled_plugins remaining_plugins =
     (if remaining_plugins = [] then Inr scheduled_plugins
      else case get_plugins_with_met_dependencies plugins remaining_plugins scheduled_plugins of
          Inl e \<Rightarrow> Inl e
        | Inr next_plugins \<Rightarrow>
            if next_plugins = [] then Inr scheduled_plugins
            else smart_shuffle_loop sh plugins (Suc n) (sh n next_plugins @ scheduled_plugins)
                   (filter (\<lambda>p. p \<notin> set next_plugins) remaining_plugins))"
  by pat_completeness auto
termination
proof (relation "measure (\<lambda>(sh, plugins, n, sched, rem). length rem)", goal_cases)
  case 1
  show ?case by simp
next
  case (2 sh plugins n sched rem nxt)
  then have "nxt \<noteq> []" "set nxt \<subseteq> set rem"
    using met_dependencies_Inr(2) [of plugins rem sched nxt] by auto
  then have "hd nxt \<in> set nxt" "hd nxt \<in> set rem"
    using hd_in_set by blast+
  then show ?case
    by (simp add: length_filter_less)
qed

declare smart_shuffle_loop.simps [simp del]

definition move_file_type :: "string list \<Rightarrow> string list" where
  "move_file_type scheduled_plugins =
     (if ''file_type'' \<in> set scheduled_plugins \<and> last scheduled_plugins \<noteq> ''file_type''
      then remove1 ''file_type'' scheduled_plugins @ [''file_type''] else scheduled_plugins)"

definition smart_shuffle :: "shuffler \<Rightarrow> plugin_table \<Rightarrow> string list \<Rightarrow> string list result" where
  "smart_shuffle sh plugins plugin_list =
     bindE (smart_shuffle_loop sh plugins 0 [] (remdups plugin_list))
       (\<lambda>scheduled_plugins. Inr (move_file_type scheduled_plugins))"

definition schedule_analysis_tasks ::
  "shuffler \<Rightarrow> plugin_table \<Rightarrow> file_object \<Rightarrow> string list option \<Rightarrow> bool \<Rightarrow> file_object result" where
  "schedule_analysis_tasks sh plugins fo scheduled mandatory =
     bindE (add_dependencies_recursively plugins (case scheduled of None \<Rightarrow> [] | Some xs \<Rightarrow> xs))
       (\<lambda>xs. bindE (smart_shuffle sh plugins (if mandatory then xs @ MANDATORY_PLUGINS else xs))
          (\<lambda>ys. Inr (fo\<lparr>scheduled_analysis := Some ys\<rparr>)))"

definition get_failed_analysis_result :: "plugin_table \<Rightarrow> timestamp \<Rightarrow> string \<Rightarrow> string \<Rightarrow> pydict result" where
  "get_failed_analysis_result plugins now cause plugin = (case map_of plugins plugin of
       None \<Rightarrow> Inl KeyError
     | Some md \<Rightarrow> Inr [(''result'', PDict [(''failed'', PStr cause)]),
                        (''plugin_version'', PVersion (pm_version md)),
                        (''analysis_date'', PFloat now)])"

text \<open>The loop over a copy of \<open>scheduled_analysis\<close> in \<open>reschedule_failed_analysis_task\<close>.\<close>

fun unschedule_loop ::
  "plugin_table \<Rightarrow> timestamp \<Rightarrow> string \<Rightarrow> string list \<Rightarrow> string list \<Rightarrow> pydict \<Rightarrow> (string list \<times> pydict) result" where
  "unschedule_loop plugins now failed_plugin [] sched processed = Inr (sched, processed)"
| "unschedule_loop plugins now failed_plugin (plugin # rest) sched processed =
     (case deps_of plugins plugin of
        None \<Rightarrow> Inl KeyError
      | Some ds \<Rightarrow>
          if failed_plugin \<in> set ds then
            bindE (list_remove plugin sched) (\<lambda>sched'.
            bindE (get_failed_analysis_result plugins now
                     (''Analysis of dependency '' @ failed_plugin @ '' failed'') plugin) (\<lambda>r.
            unschedule_loop plugins now failed_plugin rest sched' (AList.update plugin (PDict r) processed)))
          else unschedule_loop plugins now failed_plugin rest sched processed)"

definition reschedule_failed_analysis_task ::
  "plugin_table \<Rightarrow> timestamp \<Rightarrow> file_object \<Rightarrow> file_object result" where
  "reschedule_failed_analysis_task plugins now fo = (case analysis_exception fo of
       None \<Rightarrow> Inl TypeError
     | Some (failed_plugin, cause) \<Rightarrow>
         bindE (get_failed_analysis_result plugins now cause failed_plugin) (\<lambda>r.
         case scheduled_analysis fo of
           None \<Rightarrow> Inl TypeError
         | Some sched \<Rightarrow>
             bindE (unschedule_loop plugins now failed_plugin sched sched
                      (AList.update failed_plugin (PDict r) (processed_analysis fo)))
               (\<lambda>(sched', processed'). Inr (fo\<lparr>scheduled_analysis := Some sched',
                  processed_analysis := processed', analysis_exception := None\<rparr>))))"

section \<open>Lemmas: the dependency closure\<close>

definition dep_edges :: "plugin_table \<Rightarrow> (string \<times> string) set" where
  "dep_edges plugins = {(p, d). \<exists>ds. deps_of plugins p = Some ds \<and> d \<in> set ds}"

definition dep_closure :: "plugin_table \<Rightarrow> string set \<Rightarrow> string set" where
  "dep_closure plugins S = (dep_edges plugins)\<^sup>* `` S"

lemma cumulative_edges:
  assumes "get_cumulative_remaining_dependencies plugins xs = Inr new"
  shows "set new = dep_edges plugins `` set xs - set xs"
  using cumulative_Inr(3) [OF assms] by (auto simp: dep_edges_def)

lemma cumulative_Inl:
  "get_cumulative_remaining_dependencies plugins xs = Inl e \<longleftrightarrow>
     e = KeyError \<and> (\<exists>p\<in>set xs. deps_of plugins p = None)"
proof -
  have "mapE (\<lambda>p. case deps_of plugins p of None \<Rightarrow> Inl KeyError | Some ds \<Rightarrow> Inr ds) xs = Inl e \<longleftrightarrow>
     e = KeyError \<and> (\<exists>p\<in>set xs. deps_of plugins p = None)" for e
    by (induction xs) (auto simp: bindE_eq_Inl split: option.splits)
  then show ?thesis
    by (simp add: get_cumulative_remaining_dependencies_def bindE_eq_Inl)
qed

lemma dep_closure_step:
  assumes "set new = dep_edges plugins `` S - S"
  shows "dep_closure plugins (S \<union> set new) = dep_closure plugins S"
proof -
  have "dep_edges plugins `` S \<subseteq> (dep_edges plugins)\<^sup>* `` S"
    by blast
  then show ?thesis
    using assms unfolding dep_closure_def by (auto intro: converse_rtrancl_into_rtrancl)
qed

lemma dep_closure_closed: "dep_edges plugins `` S \<subseteq> S \<Longrightarrow> dep_closure plugins S = S"
  unfolding dep_closure_def by (rule Image_closed_trancl)

lemma add_dependencies_loop_closure:
  assumes "add_dependencies_loop plugins xs = Inr ys" "distinct xs"
  shows "set ys = dep_closure plugins (set xs) \<and> distinct ys \<and> (\<forall>p\<in>set ys. deps_of plugins p \<noteq> None)"
  using assms
proof (induction plugins xs rule: add_dependencies_loop.induct)
  case (1 plugins xs)
  from "1.prems" obtain new where new: "get_cumulative_remaining_dependencies plugins xs = Inr new"
    by (subst (asm) add_dependencies_loop.simps) (auto split: sum.splits)
  show ?case
  proof (cases "new = []")
    case True
    with new "1.prems" have "ys = xs"
      by (subst (asm) add_dependencies_loop.simps) simp
    moreover have "dep_edges plugins `` set xs \<subseteq> set xs"
      using cumulative_edges [OF new] True by auto
    ultimately show ?thesis
      using dep_closure_closed cumulative_Inr(2) [OF new] "1.prems"(2) by auto
  next
    case False
    with new "1.prems" have "add_dependencies_loop plugins (xs @ new) = Inr ys"
      by (subst (asm) add_dependencies_loop.simps) simp
    moreover have "distinct (xs @ new)"
      using "1.prems"(2) cumulative_Inr(1) [OF new] cumulative_edges [OF new] by auto
    ultimately show ?thesis
      using "1.IH" [OF new False] dep_closure_step [OF cumulative_edges [OF new]] by simp
  qed
qed

lemma add_dependencies_loop_error:
  assumes "add_dependencies_loop plugins xs = Inl e"
  shows "e = KeyError \<and> (\<exists>q\<in>dep_closure plugins (set xs). deps_of plugins q = None)"
  using assms
proof (induction plugins xs rule: add_dependencies_loop.induct)
  case (1 plugins xs)
  show ?case
  proof (cases "get_cumulative_remaining_dependencies plugins xs")
    case (Inl e')
    with "1.prems" have "e' = e"
      by (subst (asm) add_dependencies_loop.simps) simp
    with Inl show ?thesis
      using cumulative_Inl by (auto simp: dep_closure_def)
  next
    case (Inr new)
    with "1.prems" have "new \<noteq> []" "add_dependencies_loop plugins (xs @ new) = Inl e"
      by (subst (asm) add_dependencies_loop.simps; auto split: if_splits)+
    then show ?thesis
      using "1.IH" [OF Inr] dep_closure_step [OF cumulative_edges [OF Inr]] by simp
  qed
qed

section \<open>Lemmas: the execution order\<close>

lemma set_shuffle: "is_shuffle sh \<Longrightarrow> set (sh n xs) = set xs"
  by (metis is_shuffle_def set_mset_mset)

lemma distinct_shuffle: "is_shuffle sh \<Longrightarrow> distinct (sh n xs) = distinct xs"
  by (metis is_shuffle_def mset_eq_imp_distinct_iff)

text \<open>The loop invariant, and what it gives at both exits of the loop.\<close>

lemma smart_shuffle_loop_spec:
  assumes "is_shuffle sh"
    and "smart_shuffle_loop sh plugins n sched rem = Inr out"
    and "distinct (sched @ rem)"
    and "deps_respected (deps_of plugins) [] (rev sched)"
  shows "distinct out \<and> deps_respected (deps_of plugins) [] (rev out) \<and>
    set out = {p. schedulable (deps_of plugins) (set sched \<union> set rem) p}"
  using assms
proof (induction sh plugins n sched rem rule: smart_shuffle_loop.induct)
  case (1 sh plugins n sched rem)
  let ?D = "deps_of plugins" and ?W = "set sched \<union> set rem"
  have sched: "p \<in> set sched \<Longrightarrow> schedulable ?D ?W p" for p
    using respected_schedulable [OF "1.prems"(4), of ?W p] by auto
  show ?case
  proof (cases "rem = []")
    case True
    with "1.prems" have "out = sched"
      by (subst (asm) smart_shuffle_loop.simps) simp
    with True "1.prems" sched show ?thesis
      by (auto dest: schedulable_wanted)
  next
    case rem: False
    with "1.prems" obtain nxt where nxt: "get_plugins_with_met_dependencies plugins rem sched = Inr nxt"
      by (subst (asm) smart_shuffle_loop.simps) (auto split: sum.splits)
    have nxt_eq: "nxt = filter (\<lambda>p. \<exists>ds. ?D p = Some ds \<and> set ds \<subseteq> set sched) rem"
      by (rule met_dependencies_Inr(2) [OF nxt])
    show ?thesis
    proof (cases "nxt = []")
      case True
      with rem nxt "1.prems" have out: "out = sched"
        by (subst (asm) smart_shuffle_loop.simps) simp
      have step: "q \<in> set sched" if "q \<in> ?W" "?D q = Some ds" "set ds \<subseteq> set sched" for q ds
        using that True nxt_eq by (auto simp: filter_empty_conv dest!: sym [of "[]"])
      have "p \<in> set sched" if "schedulable ?D ?W p" for p
        using that step by (rule schedulable_least)
      with out "1.prems" sched show ?thesis
        by auto
    next
      case False
      let ?sched = "sh n nxt @ sched" and ?rem = "filter (\<lambda>p. p \<notin> set nxt) rem"
      from False rem nxt "1.prems" have "smart_shuffle_loop sh plugins (Suc n) ?sched ?rem = Inr out"
        by (subst (asm) smart_shuffle_loop.simps) simp
      moreover have "distinct (?sched @ ?rem)"
        using "1.prems"(1,3) nxt_eq by (auto simp: set_shuffle distinct_shuffle)
      moreover have "deps_respected ?D [] (rev ?sched)"
        using "1.prems"(1,4) nxt_eq
        by (auto simp: deps_respected_append set_shuffle intro!: deps_respected_parallel)
      moreover have "set ?sched \<union> set ?rem = ?W"
        using "1.prems"(1) nxt_eq by (auto simp: set_shuffle)
      ultimately show ?thesis
        using "1.IH" [OF rem nxt False "1.prems"(1)] by simp
    qed
  qed
qed

lemma move_file_type_spec:
  assumes "distinct xs" "deps_respected deps [] (rev xs)" "deps ''file_type'' \<in> {None, Some []}"
  shows "set (move_file_type xs) = set xs" "distinct (move_file_type xs)"
    "deps_respected deps [] (rev (move_file_type xs))"
proof -
  show "set (move_file_type xs) = set xs" "distinct (move_file_type xs)"
    using assms(1) by (auto simp: move_file_type_def)
  show "deps_respected deps [] (rev (move_file_type xs))"
  proof (cases "''file_type'' \<in> set xs")
    case True
    then obtain ys zs where xs: "xs = ys @ ''file_type'' # zs" "''file_type'' \<notin> set ys"
      by (meson split_list_first)
    then have "deps ''file_type'' = Some []"
      using assms(2,3) by (auto simp: deps_respected_append)
    moreover have "deps_respected deps [''file_type''] (rev zs)"
      using assms(2) xs by (auto simp: deps_respected_append elim: deps_respected_mono)
    moreover have "deps_respected deps (zs @ [''file_type'']) (rev ys)"
      using assms(2) xs by (auto simp: deps_respected_append elim: deps_respected_mono)
    ultimately show ?thesis
      using assms(2) xs by (auto simp: move_file_type_def remove1_append deps_respected_append)
  next
    case False
    then show ?thesis
      using assms(2) by (simp add: move_file_type_def)
  qed
qed

text \<open>
  The task scheduler keeps the contract of a dependency scheduler: the situation is the shuffle,
  the plugin table and the requested plugins.
\<close>

definition sched_ok :: "shuffler \<times> plugin_table \<times> string list \<Rightarrow> bool" where
  "sched_ok = (\<lambda>(sh, plugins, xs). is_shuffle sh \<and> deps_of plugins ''file_type'' \<in> {None, Some []})"

definition sched_deps :: "shuffler \<times> plugin_table \<times> string list \<Rightarrow> string \<Rightarrow> string list option" where
  "sched_deps = (\<lambda>(sh, plugins, xs). deps_of plugins)"

definition sched_wanted :: "shuffler \<times> plugin_table \<times> string list \<Rightarrow> string set" where
  "sched_wanted = (\<lambda>(sh, plugins, xs). set xs)"

definition sched_plan :: "shuffler \<times> plugin_table \<times> string list \<Rightarrow> string list option" where
  "sched_plan = (\<lambda>(sh, plugins, xs). case smart_shuffle sh plugins xs of Inl e \<Rightarrow> None | Inr ys \<Rightarrow> Some (rev ys))"

lemmas sched_defs = sched_ok_def sched_deps_def sched_wanted_def sched_plan_def

lemma smart_shuffle_spec:
  assumes "is_shuffle sh" "deps_of plugins ''file_type'' \<in> {None, Some []}"
    and "smart_shuffle sh plugins xs = Inr out"
  shows "distinct out \<and> deps_respected (deps_of plugins) [] (rev out) \<and>
    set out = {p. schedulable (deps_of plugins) (set xs) p}"
proof -
  from assms(3) obtain ys where "smart_shuffle_loop sh plugins 0 [] (remdups xs) = Inr ys"
    and out: "out = move_file_type ys"
    by (auto simp: smart_shuffle_def bindE_eq_Inr)
  from smart_shuffle_loop_spec [OF assms(1) this(1)] have
    "distinct ys \<and> deps_respected (deps_of plugins) [] (rev ys) \<and>
     set ys = {p. schedulable (deps_of plugins) (set xs) p}"
    by simp
  with move_file_type_spec [of ys "deps_of plugins"] assms(2) out show ?thesis
    by metis
qed

interpretation ts: dependency_scheduler sched_ok sched_deps sched_wanted sched_plan
proof unfold_locales
  fix c and xs :: "string list"
  assume "sched_ok c" "sched_plan c = Some xs"
  then obtain sh plugins ps where c: "c = (sh, plugins, ps)" "is_shuffle sh"
      "deps_of plugins ''file_type'' \<in> {None, Some []}" "smart_shuffle sh plugins ps = Inr (rev xs)"
    by (cases c) (auto simp: sched_defs split: sum.splits)
  from smart_shuffle_spec [OF c(2-4)] c(1)
  show "distinct xs" "deps_respected (sched_deps c) [] xs"
    "set xs = {p. schedulable (sched_deps c) (sched_wanted c) p}"
    by (auto simp: sched_defs)
qed

section \<open>Lemmas: the scheduler returns\<close>

lemma met_dependencies_total:
  assumes "\<And>p. p \<in> set rem \<Longrightarrow> deps_of plugins p \<noteq> None"
  shows "\<exists>nxt. get_plugins_with_met_dependencies plugins rem sched = Inr nxt"
proof -
  have "mapE (\<lambda>p. case deps_of plugins p of None \<Rightarrow> Inl KeyError | Some ds \<Rightarrow> Inr (p, ds)) rem =
      (Inr (map (\<lambda>p. (p, the (deps_of plugins p))) rem) :: (string \<times> string list) list result)"
    using assms by (intro mapE_all_Inr) (auto split: option.splits)
  then show ?thesis
    by (simp add: get_plugins_with_met_dependencies_def)
qed

lemma smart_shuffle_loop_total:
  assumes "\<And>p. p \<in> set rem \<Longrightarrow> deps_of plugins p \<noteq> None"
  shows "\<exists>out. smart_shuffle_loop sh plugins n sched rem = Inr out"
  using assms
proof (induction sh plugins n sched rem rule: smart_shuffle_loop.induct)
  case (1 sh plugins n sched rem)
  obtain nxt where nxt: "get_plugins_with_met_dependencies plugins rem sched = Inr nxt"
    using met_dependencies_total "1.prems" by blast
  show ?case
    using "1.IH" [OF _ nxt] "1.prems" nxt
    by (subst smart_shuffle_loop.simps) auto
qed

lemma smart_shuffle_total:
  assumes "\<And>p. p \<in> set xs \<Longrightarrow> deps_of plugins p \<noteq> None"
  shows "\<exists>out. smart_shuffle sh plugins xs = Inr out"
  using smart_shuffle_loop_total [of "remdups xs" plugins sh 0 "[]"] assms
  by (auto simp: smart_shuffle_def bindE_eq_Inr)

lemma set_move_file_type [simp]: "set (move_file_type xs) = set xs"
proof -
  have "insert a (set (remove1 a xs)) = set xs" if "a \<in> set xs" for a
    using that by (induction xs) auto
  then show ?thesis
    by (simp add: move_file_type_def)
qed

lemma smart_shuffle_file_type_last:
  "smart_shuffle sh plugins xs = Inr ys \<Longrightarrow> ''file_type'' \<in> set ys \<Longrightarrow> last ys = ''file_type''"
  by (auto simp: smart_shuffle_def bindE_eq_Inr) (auto simp: move_file_type_def)

lemma add_dependencies_Inr_iff:
  "(\<exists>ys. add_dependencies_recursively plugins xs = Inr ys) \<longleftrightarrow>
     (\<forall>q\<in>dep_closure plugins (set xs). deps_of plugins q \<noteq> None)"
  using add_dependencies_loop_closure [of plugins "remdups xs"]
    add_dependencies_loop_error [of plugins "remdups xs"]
  by (cases "add_dependencies_loop plugins (remdups xs)")
    (auto simp: add_dependencies_recursively_def)

section \<open>Lemmas: failed analyses\<close>

definition failed_entry :: "plugin_table \<Rightarrow> timestamp \<Rightarrow> string \<Rightarrow> string \<Rightarrow> pyval option" where
  "failed_entry plugins now cause p = (case get_failed_analysis_result plugins now cause p of
     Inl _ \<Rightarrow> None | Inr d \<Rightarrow> Some (PDict d))"

definition depends_on :: "plugin_table \<Rightarrow> string \<Rightarrow> string \<Rightarrow> bool" where
  "depends_on plugins f p \<longleftrightarrow> (case deps_of plugins p of None \<Rightarrow> False | Some ds \<Rightarrow> f \<in> set ds)"

lemma failed_result_known:
  "deps_of plugins p \<noteq> None \<Longrightarrow>
     \<exists>d. get_failed_analysis_result plugins now cause p = Inr d \<and> failed_entry plugins now cause p = Some (PDict d)"
  by (auto simp: deps_of_def get_failed_analysis_result_def failed_entry_def)

lemma unschedule_loop_spec:
  assumes "distinct rest" "set kept \<inter> set rest = {}"
    and "\<And>p. p \<in> set rest \<Longrightarrow> deps_of plugins p \<noteq> None"
  shows "\<exists>processed'. unschedule_loop plugins now f rest (kept @ rest) processed =
      Inr (kept @ filter (\<lambda>p. \<not> depends_on plugins f p) rest, processed') \<and>
    (\<forall>p. map_of processed' p =
      (if p \<in> set rest \<and> depends_on plugins f p
       then failed_entry plugins now (''Analysis of dependency '' @ f @ '' failed'') p
       else map_of processed p))"
  using assms
proof (induction rest arbitrary: kept processed)
  case Nil
  then show ?case by simp
next
  case (Cons q rest)
  let ?msg = "''Analysis of dependency '' @ f @ '' failed''"
  obtain ds where ds: "deps_of plugins q = Some ds"
    using Cons.prems(3) [of q] by auto
  obtain d where d: "get_failed_analysis_result plugins now ?msg q = Inr d"
      "failed_entry plugins now ?msg q = Some (PDict d)"
    using failed_result_known [of plugins q] ds by blast
  show ?case
  proof (cases "f \<in> set ds")
    case True
    have "list_remove q (kept @ q # rest) = Inr (kept @ rest)"
      using Cons.prems(2) by (auto simp: list_remove_def remove1_append)
    moreover note Cons.IH [of kept "AList.update q (PDict d) processed"]
    ultimately show ?thesis
      using Cons.prems True ds d by (auto simp: depends_on_def)
  next
    case False
    then show ?thesis
      using Cons.IH [of "kept @ [q]" processed] Cons.prems ds by (auto simp: depends_on_def)
  qed
qed

lemma reschedule_failed_spec:
  assumes "analysis_exception fo = Some (f, cause)" "scheduled_analysis fo = Some sched" "distinct sched"
    and "\<And>p. p \<in> set (f # sched) \<Longrightarrow> deps_of plugins p \<noteq> None"
  shows "\<exists>fo'. reschedule_failed_analysis_task plugins now fo = Inr fo' \<and>
    scheduled_analysis fo' = Some (filter (\<lambda>p. \<not> depends_on plugins f p) sched) \<and>
    analysis_exception fo' = None \<and> uid fo' = uid fo \<and> root_uid fo' = root_uid fo \<and>
    (\<forall>p. map_of (processed_analysis fo') p =
      (if p \<in> set sched \<and> depends_on plugins f p
       then failed_entry plugins now (''Analysis of dependency '' @ f @ '' failed'') p
       else if p = f then failed_entry plugins now cause f
       else map_of (processed_analysis fo) p))"
proof -
  obtain d where d: "get_failed_analysis_result plugins now cause f = Inr d"
      "failed_entry plugins now cause f = Some (PDict d)"
    using failed_result_known assms(4) by (metis list.set_intros(1))
  obtain processed' where "unschedule_loop plugins now f sched sched
        (AList.update f (PDict d) (processed_analysis fo)) =
      Inr (filter (\<lambda>p. \<not> depends_on plugins f p) sched, processed')"
    "\<forall>p. map_of processed' p =
      (if p \<in> set sched \<and> depends_on plugins f p
       then failed_entry plugins now (''Analysis of dependency '' @ f @ '' failed'') p
       else map_of (AList.update f (PDict d) (processed_analysis fo)) p)"
    using unschedule_loop_spec [of sched "[]" plugins now f "AList.update f (PDict d) (processed_analysis fo)"]
      assms(3,4) by auto
  then show ?thesis
    using assms(1,2) d by (auto simp: reschedule_failed_analysis_task_def)
qed

section \<open>Properties\<close>

lemma dep_closure_known:
  assumes "ranked (deps_of plugins) (fst ` set plugins) rank" "S \<subseteq> fst ` set plugins"
  shows "dep_closure plugins S \<subseteq> fst ` set plugins"
proof -
  have "dep_edges plugins `` (fst ` set plugins) \<subseteq> fst ` set plugins"
    using assms(1) by (fastforce simp: dep_edges_def ranked_def list_all_iff split: option.splits)
  then have "dep_closure plugins (fst ` set plugins) = fst ` set plugins"
    by (rule dep_closure_closed)
  then show ?thesis
    using Image_mono [OF subset_refl assms(2), of "(dep_edges plugins)\<^sup>*"]
    by (simp add: dep_closure_def)
qed

lemma deps_of_known: "deps_of plugins p = Some ds \<Longrightarrow> p \<in> fst ` set plugins"
  by (metis deps_of_def dom_map_of_iff option.distinct(1) option.map_disc_iff)

lemma ranked_subset:
  assumes "ranked deps W rank" "V \<subseteq> W" "\<And>p ds d. p \<in> V \<Longrightarrow> deps p = Some ds \<Longrightarrow> d \<in> set ds \<Longrightarrow> d \<in> V"
  shows "ranked deps V rank"
  unfolding ranked_def
proof
  fix p
  assume p: "p \<in> V"
  with assms(1,2) obtain ds where "deps p = Some ds" "list_all (\<lambda>d. d \<in> W \<and> rank d < rank p) ds"
    by (auto simp: ranked_def split: option.splits)
  with assms(3) [OF p] show "case deps p of None \<Rightarrow> False | Some ds \<Rightarrow> list_all (\<lambda>d. d \<in> V \<and> rank d < rank p) ds"
    by (auto simp: list_all_iff)
qed

lemma dep_closure_dep:
  "p \<in> dep_closure plugins S \<Longrightarrow> deps_of plugins p = Some ds \<Longrightarrow> d \<in> set ds \<Longrightarrow> d \<in> dep_closure plugins S"
  by (auto simp: dep_closure_def dep_edges_def intro: rtrancl_into_rtrancl)

text \<open>
  C1. Scheduling an object works and is right whenever the loaded plugin table is consistent (every
  dependency is a loaded plugin and there is no cycle) and the requested plugins are loaded: the
  object gets a schedule with exactly the requested plugins, all their transitive dependencies and
  the mandatory plugins, each once; the file type analysis is executed first, and every plugin is
  executed after all of its dependencies. Only the schedule of the object changes.
\<close>

theorem schedule_analysis_tasks_correct:
  assumes "is_shuffle sh"
    and "ranked (deps_of plugins) (fst ` set plugins) rank"
    and "deps_of plugins ''file_type'' = Some []"
    and "deps_of plugins ''file_hashes'' = Some [''file_type'']"
    and "set requested \<subseteq> fst ` set plugins"
  shows "\<exists>ys. schedule_analysis_tasks sh plugins fo (Some requested) True =
        Inr (fo\<lparr>scheduled_analysis := Some ys\<rparr>) \<and>
      set ys = dep_closure plugins (set requested) \<union> set MANDATORY_PLUGINS \<and> distinct ys \<and>
      last ys = ''file_type'' \<and> deps_respected (deps_of plugins) [] (rev ys)"
proof -
  let ?D = "deps_of plugins" and ?C = "dep_closure plugins (set requested)"
  have C: "?C \<subseteq> fst ` set plugins"
    by (rule dep_closure_known [OF assms(2,5)])
  then have "\<forall>q\<in>?C. ?D q \<noteq> None"
    by (auto simp: deps_of_def map_of_eq_None_iff)
  then obtain xs where xs: "add_dependencies_recursively plugins requested = Inr xs"
    using add_dependencies_Inr_iff by blast
  then have set_xs: "set xs = ?C"
    using add_dependencies_loop_closure [of plugins "remdups requested" xs]
    by (simp add: add_dependencies_recursively_def)
  let ?W = "set (xs @ MANDATORY_PLUGINS)"
  have "fst ` set plugins \<supseteq> ?W"
    using C set_xs assms(3,4) by (auto simp: MANDATORY_PLUGINS_def dest: deps_of_known)
  then have W: "ranked ?D ?W rank"
    using assms(2-4) set_xs
    by (intro ranked_subset [OF assms(2)]) (auto simp: MANDATORY_PLUGINS_def dest: dep_closure_dep)
  then have "p \<in> ?W \<Longrightarrow> ?D p \<noteq> None" for p
    by (auto simp: ranked_def split: option.splits)
  then obtain ys where ys: "smart_shuffle sh plugins (xs @ MANDATORY_PLUGINS) = Inr ys"
    using smart_shuffle_total by blast
  have "set (rev ys) = ?W"
    using ts.plan_complete [of "(sh, plugins, xs @ MANDATORY_PLUGINS)" "rev ys" rank] W assms(1,3) ys
    by (simp add: sched_defs)
  moreover have "last ys = ''file_type''"
    using smart_shuffle_file_type_last [OF ys] calculation by (simp add: MANDATORY_PLUGINS_def)
  ultimately show ?thesis
    using xs ys set_xs smart_shuffle_spec [OF assms(1) _ ys] assms(3)
    by (auto simp: schedule_analysis_tasks_def)
qed

definition example_metadata :: "string \<Rightarrow> string list \<Rightarrow> plugin_metadata" where
  "example_metadata name ds = \<lparr>pm_name = name, pm_description = [], pm_version = ''1.0.0'',
     pm_system_version = None, dependencies = ds, mime_blacklist = [], mime_whitelist = [],
     pm_timeout = 300\<rparr>"

definition example_plugins :: plugin_table where
  "example_plugins = map (\<lambda>(n, ds). (n, example_metadata n ds))
     [(''file_type'', []), (''file_hashes'', [''file_type'']), (''software_components'', []),
      (''cve_lookup'', [''software_components''])]"

definition rev_shuffle :: shuffler where
  "rev_shuffle n xs = rev xs"

lemmas example_simps = example_plugins_def example_metadata_def deps_of_def ranked_def
  is_shuffle_def rev_shuffle_def

theorem schedule_analysis_tasks_correct_witness:
  "\<exists>ys. schedule_analysis_tasks rev_shuffle example_plugins (empty_file_object ''u'' True)
      (Some [''cve_lookup'']) True = Inr ((empty_file_object ''u'' True)\<lparr>scheduled_analysis := Some ys\<rparr>) \<and>
    set ys = dep_closure example_plugins (set [''cve_lookup'']) \<union> set MANDATORY_PLUGINS \<and> distinct ys \<and>
    last ys = ''file_type'' \<and> deps_respected (deps_of example_plugins) [] (rev ys)"
  by (rule schedule_analysis_tasks_correct
        [where rank = "\<lambda>p. if p \<in> {''file_hashes'', ''cve_lookup''} then 1 else 0"])
    (simp_all add: example_simps)




text \<open>
  \<open>_add_dependencies_recursively\<close> always returns, and computes the least set of plugins that
  contains the requested ones and is closed under dependencies (each plugin once); it raises
  \<open>KeyError\<close> exactly when a plugin of that closure is not loaded.
\<close>

theorem add_dependencies_recursively_closure:
  "case add_dependencies_recursively plugins requested of
     Inr ys \<Rightarrow> set ys = dep_closure plugins (set requested) \<and> distinct ys \<and>
       list_all (\<lambda>p. deps_of plugins p \<noteq> None) ys
   | Inl e \<Rightarrow> e = KeyError \<and> (\<exists>q. q \<in> dep_closure plugins (set requested) \<and> deps_of plugins q = None)"
  using add_dependencies_loop_closure [of plugins "remdups requested"]
    add_dependencies_loop_error [of plugins "remdups requested"]
  by (auto simp: add_dependencies_recursively_def list_all_iff split: sum.splits)

text \<open>
  C3. When the analysis \<open>f\<close> of an object failed, every scheduled plugin that depends on \<open>f\<close> is
  removed from the schedule and gets a failed result naming \<open>f\<close>; \<open>f\<close> itself gets a failed result
  with the cause; the other plugins keep their order in the schedule and their results, and the
  exception is cleared. No plugin that remains scheduled depends on \<open>f\<close>.
\<close>

theorem reschedule_failed_analysis_task_correct:
  assumes "analysis_exception fo = Some (f, cause)" "scheduled_analysis fo = Some sched" "distinct sched"
    and "set (f # sched) \<subseteq> fst ` set plugins"
  shows "\<exists>fo'. reschedule_failed_analysis_task plugins now fo = Inr fo' \<and>
    scheduled_analysis fo' = Some (filter (\<lambda>p. \<not> depends_on plugins f p) sched) \<and>
    analysis_exception fo' = None \<and>
    map_of (processed_analysis fo') =
      (\<lambda>p. if p \<in> set sched \<and> depends_on plugins f p
       then failed_entry plugins now (''Analysis of dependency '' @ f @ '' failed'') p
       else if p = f then failed_entry plugins now cause f
       else map_of (processed_analysis fo) p)"
proof -
  have "p \<in> set (f # sched) \<Longrightarrow> deps_of plugins p \<noteq> None" for p
    using assms(4) by (auto simp: deps_of_def map_of_eq_None_iff)
  from reschedule_failed_spec [OF assms(1-3) this, of now] show ?thesis
    unfolding fun_eq_iff by blast
qed

definition example_failed_object :: file_object where
  "example_failed_object = (empty_file_object ''u'' False)\<lparr>
     analysis_exception := Some (''software_components'', ''boom''),
     scheduled_analysis := Some [''cve_lookup'', ''file_hashes'']\<rparr>"

theorem reschedule_failed_analysis_task_witness:
  "\<exists>fo'. reschedule_failed_analysis_task example_plugins 5 example_failed_object = Inr fo' \<and>
    scheduled_analysis fo' = Some (filter (\<lambda>p. \<not> depends_on example_plugins ''software_components'' p)
      [''cve_lookup'', ''file_hashes'']) \<and>
    analysis_exception fo' = None \<and>
    map_of (processed_analysis fo') =
      (\<lambda>p. if p \<in> set [''cve_lookup'', ''file_hashes''] \<and> depends_on example_plugins ''software_components'' p
       then failed_entry example_plugins 5 (''Analysis of dependency '' @ ''software_components'' @ '' failed'') p
       else if p = ''software_components'' then failed_entry example_plugins 5 ''boom'' ''software_components''
       else map_of (processed_analysis example_failed_object) p)"
  by (rule reschedule_failed_analysis_task_correct)
    (simp_all add: example_failed_object_def example_simps)

end
