(* ===== verification/Analysis_Status.thy ===== *)
theory Analysis_Status
  imports Objects
begin

text \<open>
  \<^verbatim>\<open>src/src/scheduler/analysis_status.py\<close>: the progress bookkeeping of running analyses. The
  scheduler processes call \<open>AnalysisStatus\<close>, which puts messages into a queue; a worker process
  applies them to its state one after the other. Each call is modelled by the messages it puts
  (\<open>status_add_object\<close>, ...), each branch of the worker by a handler on the record
  \<open>status_worker\<close>. An uncaught exception in a handler ends the worker process: it is the value
  \<open>Inl\<close> of the handler. \<open>clk i\<close> is the \<open>i\<close>-th reading of \<open>time()\<close> in one handler.
\<close>

section \<open>State and messages\<close>

definition RECENTLY_FINISHED_DISPLAY_TIME_IN_SEC :: timestamp where
  "RECENTLY_FINISHED_DISPLAY_TIME_IN_SEC = 300"

datatype update_type =
    add_update string "string list"
  | add_firmware string "string set" "string option" "string list option"
  | add_file string "string option" "string set"
  | add_analysis "string option" string
  | remove_file string "string option"
  | is_currently_analyzed
  | cancel string

record fw_analysis_status =
  files_to_unpack :: "string set"
  files_to_analyze :: "string set"
  total_files_count :: int
  hid :: "string option"
  analysis_plugins_count :: "(string \<times> int) list"
  start_time :: timestamp
  completed_files :: "string set"
  total_files_with_duplicates :: int
  unpacked_files_count :: int
  analyzed_files_count :: int

record finished_stats =
  f_duration :: timestamp
  f_total_files_count :: int
  f_time_finished :: timestamp
  f_hid :: "string option"

record canceled_stats =
  c_unpacked_count :: int
  c_analyzed_count :: int
  c_total_count :: int
  c_hid :: "string option"
  c_time_finished :: timestamp

record current_stats =
  s_unpacked_count :: int
  s_analyzed_count :: int
  s_start_time :: timestamp
  s_total_count :: int
  s_total_count_with_duplicates :: int
  s_hid :: "string option"
  s_plugins :: "(string \<times> int) list"

record stored_status =
  current_analyses :: "(string \<times> current_stats) list"
  recently_finished_analyses :: "(string \<times> finished_stats) list"
  recently_canceled_analyses :: "(string \<times> canceled_stats) list"

record status_worker =
  recently_finished :: "(string \<times> finished_stats) list"
  recently_canceled :: "(string \<times> canceled_stats) list"
  currently_running :: "(string \<times> fw_analysis_status) list"
  currently_analyzed :: "(string \<times> bool) list"
  redis_status :: "stored_status option"

definition init_status_worker :: status_worker where
  "init_status_worker = \<lparr>recently_finished = [], recently_canceled = [], currently_running = [],
     currently_analyzed = [], redis_status = None\<rparr>"

section \<open>The calls of \<open>AnalysisStatus\<close>\<close>

definition status_add_object :: "file_object \<Rightarrow> update_type list" where
  "status_add_object fo =
     (if is_firmware_object fo
      then [add_firmware (uid fo) (files_included fo) (get_hid fo) (scheduled_analysis fo)]
      else [add_file (uid fo) (root_uid fo) (files_included fo)])"

definition status_add_update :: "file_object \<Rightarrow> string list \<Rightarrow> update_type list" where
  "status_add_update fo included = status_add_object fo @ [add_update (uid fo) included]"

definition status_add_analysis :: "file_object \<Rightarrow> string \<Rightarrow> update_type list" where
  "status_add_analysis fo plugin = [add_analysis (root_uid fo) plugin]"

definition status_remove_object :: "file_object \<Rightarrow> update_type list" where
  "status_remove_object fo = [remove_file (uid fo) (root_uid fo)]"

definition status_cancel_analysis :: "string \<Rightarrow> update_type list" where
  "status_cancel_analysis r = [cancel r]"

definition fw_analysis_is_in_progress :: "file_object \<Rightarrow> (string \<times> bool) list \<Rightarrow> bool" where
  "fw_analysis_is_in_progress fo analyzed \<longleftrightarrow>
     (case root_uid fo of None \<Rightarrow> False | Some r \<Rightarrow> map_of analyzed r \<noteq> None) \<or>
     map_of analyzed (uid fo) \<noteq> None"

section \<open>The handlers of the worker\<close>

text \<open>\<open>currently_running[uid] = status\<close> for a changed status object\<close>

definition set_running :: "string \<Rightarrow> fw_analysis_status \<Rightarrow> status_worker \<Rightarrow> status_worker" where
  "set_running r st w = w\<lparr>currently_running := AList.update r st (currently_running w)\<rparr>"

definition handle_add_update :: "string \<Rightarrow> string list \<Rightarrow> status_worker \<Rightarrow> status_worker result" where
  "handle_add_update fw_uid included w =
     bindE (dict_item (currently_running w) fw_uid) (\<lambda>status.
       let file_count = int (length included) + 1
       in Inr (set_running fw_uid (status\<lparr>files_to_unpack := {}, unpacked_files_count := file_count,
            total_files_count := file_count, total_files_with_duplicates := file_count,
            files_to_analyze := insert fw_uid (set included)\<rparr>) w))"

definition handle_add_firmware ::
  "(nat \<Rightarrow> timestamp) \<Rightarrow> string \<Rightarrow> string set \<Rightarrow> string option \<Rightarrow> string list option \<Rightarrow> status_worker \<Rightarrow> status_worker" where
  "handle_add_firmware clk u included h scheduled w =
     (set_running u \<lparr>files_to_unpack = included, files_to_analyze = {u},
          total_files_count = 1 + int (card included), hid = h,
          analysis_plugins_count =
            fold (\<lambda>p d. AList.update p 0 d) (case scheduled of None \<Rightarrow> [] | Some ps \<Rightarrow> ps) [],
          start_time = clk 0, completed_files = {}, total_files_with_duplicates = 1,
          unpacked_files_count = 1, analyzed_files_count = 0\<rparr> w)
     \<lparr>currently_analyzed := AList.update u True (currently_analyzed w)\<rparr>"

definition add_included_to_status :: "string \<Rightarrow> string set \<Rightarrow> fw_analysis_status \<Rightarrow> fw_analysis_status" where
  "add_included_to_status u included status =
     (let all_files = files_to_unpack status \<union> files_to_analyze status;
          new_files = included - all_files - completed_files status;
          status1 = status\<lparr>total_files_count := total_files_count status + int (card new_files),
            total_files_with_duplicates := total_files_with_duplicates status + 1,
            files_to_unpack := files_to_unpack status \<union> new_files\<rparr>
      in if u \<in> files_to_unpack status1
         then status1\<lparr>files_to_unpack := files_to_unpack status1 - {u},
                files_to_analyze := insert u (files_to_analyze status1),
                unpacked_files_count := unpacked_files_count status1 + 1\<rparr>
         else status1)"

text \<open>\<open>if root_uid not in self.currently_running: return\<close>\<close>

definition with_running ::
  "string option \<Rightarrow> (string \<Rightarrow> fw_analysis_status \<Rightarrow> status_worker \<Rightarrow> status_worker) \<Rightarrow> status_worker \<Rightarrow> status_worker" where
  "with_running rt f w = (case rt of
       None \<Rightarrow> w
     | Some r \<Rightarrow> (case map_of (currently_running w) r of None \<Rightarrow> w | Some st \<Rightarrow> f r st w))"

definition handle_add_included_file ::
  "string \<Rightarrow> string option \<Rightarrow> string set \<Rightarrow> status_worker \<Rightarrow> status_worker" where
  "handle_add_included_file u rt included =
     with_running rt (\<lambda>r st. set_running r (add_included_to_status u included st))"

definition handle_add_analysis :: "string option \<Rightarrow> string \<Rightarrow> status_worker \<Rightarrow> status_worker" where
  "handle_add_analysis rt plugin =
     with_running rt (\<lambda>r st. set_running r
       (st\<lparr>analysis_plugins_count := dict_modify plugin 0 (\<lambda>n. n + 1) (analysis_plugins_count st)\<rparr>))"

definition init_recently_finished :: "(nat \<Rightarrow> timestamp) \<Rightarrow> fw_analysis_status \<Rightarrow> finished_stats" where
  "init_recently_finished clk st = \<lparr>f_duration = clk 0 - start_time st,
     f_total_files_count = total_files_count st, f_time_finished = clk 1, f_hid = hid st\<rparr>"

definition handle_remove_object ::
  "(nat \<Rightarrow> timestamp) \<Rightarrow> string \<Rightarrow> string option \<Rightarrow> status_worker \<Rightarrow> status_worker" where
  "handle_remove_object clk u rt =
     with_running rt (\<lambda>r st w.
       if u \<notin> files_to_analyze st then w
       else
         let st1 = st\<lparr>files_to_analyze := files_to_analyze st - {u},
                completed_files := insert u (completed_files st),
                analyzed_files_count := analyzed_files_count st + 1\<rparr>
         in if card (files_to_unpack st1) = card (files_to_analyze st1) \<and> card (files_to_analyze st1) = 0
            then w\<lparr>recently_finished := AList.update r (init_recently_finished clk st1) (recently_finished w),
                   currently_running := AList.delete r (currently_running w),
                   currently_analyzed := AList.delete r (currently_analyzed w)\<rparr>
            else set_running r st1 w)"

definition handle_cancel_analysis :: "(nat \<Rightarrow> timestamp) \<Rightarrow> string \<Rightarrow> status_worker \<Rightarrow> status_worker" where
  "handle_cancel_analysis clk rt =
     with_running (Some rt) (\<lambda>r status w.
       w\<lparr>currently_running := AList.delete r (currently_running w),
         recently_canceled := AList.update r
           \<lparr>c_unpacked_count = unpacked_files_count status, c_analyzed_count = analyzed_files_count status,
            c_total_count = total_files_count status, c_hid = hid status, c_time_finished = clk 0\<rparr>
           (recently_canceled w),
         currently_analyzed := AList.delete r (currently_analyzed w)\<rparr>)"

text \<open>\<open>_update_status\<close> after the message was taken from the queue\<close>

fun update_status :: "(nat \<Rightarrow> timestamp) \<Rightarrow> update_type \<Rightarrow> status_worker \<Rightarrow> status_worker result" where
  "update_status clk (add_update u inc) w = handle_add_update u inc w"
| "update_status clk (add_firmware u inc h sched) w = Inr (handle_add_firmware clk u inc h sched w)"
| "update_status clk (add_file u r inc) w = Inr (handle_add_included_file u r inc w)"
| "update_status clk (add_analysis r p) w = Inr (handle_add_analysis r p w)"
| "update_status clk (remove_file u r) w = Inr (handle_remove_object clk u r w)"
| "update_status clk is_currently_analyzed w = Inr w"
| "update_status clk (cancel r) w = Inr (handle_cancel_analysis clk r w)"

text \<open>
  \<open>_clear_recently_finished\<close>: the loop runs over a copy of the items and pops from the dictionary.
  \<open>n\<close> counts the clock readings.
\<close>

fun clear_loop :: "(nat \<Rightarrow> timestamp) \<Rightarrow> ('a \<Rightarrow> timestamp) \<Rightarrow> nat \<Rightarrow> (string \<times> 'a) list \<Rightarrow> (string \<times> 'a) list \<Rightarrow> (string \<times> 'a) list" where
  "clear_loop clk finished n [] d = d"
| "clear_loop clk finished n ((u, stats) # items) d =
     clear_loop clk finished (Suc n) items
       (if clk n - finished stats > RECENTLY_FINISHED_DISPLAY_TIME_IN_SEC then AList.delete u d else d)"

definition clear_recently_finished :: "(nat \<Rightarrow> timestamp) \<Rightarrow> status_worker \<Rightarrow> status_worker" where
  "clear_recently_finished clk w = w\<lparr>
     recently_finished :=
       clear_loop clk f_time_finished 0 (recently_finished w) (recently_finished w),
     recently_canceled :=
       clear_loop clk c_time_finished (length (recently_finished w)) (recently_canceled w) (recently_canceled w)\<rparr>"

definition get_current_analyses_stats :: "status_worker \<Rightarrow> (string \<times> current_stats) list" where
  "get_current_analyses_stats w = map (\<lambda>(u, status). (u,
     \<lparr>s_unpacked_count = unpacked_files_count status, s_analyzed_count = analyzed_files_count status,
      s_start_time = start_time status, s_total_count = total_files_count status,
      s_total_count_with_duplicates = total_files_with_duplicates status, s_hid = hid status,
      s_plugins = analysis_plugins_count status\<rparr>)) (currently_running w)"

definition store_status :: "status_worker \<Rightarrow> status_worker" where
  "store_status w = w\<lparr>redis_status := Some
     \<lparr>current_analyses = get_current_analyses_stats w,
      recently_finished_analyses = recently_finished w,
      recently_canceled_analyses = recently_canceled w\<rparr>\<rparr>"

text \<open>
  One iteration of \<open>_worker_loop\<close>: the message at the head of the queue (if any) is applied, then
  the published status is refreshed when the interval has passed. \<open>clk 0\<close>, \<open>clk 1\<close> are read by the
  handler, \<open>clk 2\<close> is the current time, the later readings are those of the cleanup.
\<close>

definition worker_loop_step ::
  "(nat \<Rightarrow> timestamp) \<Rightarrow> timestamp \<Rightarrow> update_type list \<times> status_worker \<times> timestamp \<Rightarrow>
   (update_type list \<times> status_worker \<times> timestamp) result" where
  "worker_loop_step clk interval s = (case s of (q, w, next_update_time) \<Rightarrow>
     bindE (case q of [] \<Rightarrow> Inr ([], w) | m # q' \<Rightarrow> bindE (update_status clk m w) (\<lambda>w'. Inr (q', w')))
       (\<lambda>(q', w').
         if clk 2 > next_update_time
         then Inr (q', store_status (clear_recently_finished (\<lambda>n. clk (n + 3)) w'), clk 2 + interval)
         else Inr (q', w', next_update_time)))"

text \<open>The messages of the queue, applied in order; \<open>clks i\<close> is the clock of the \<open>i\<close>-th message.\<close>

fun status_run :: "(nat \<Rightarrow> nat \<Rightarrow> timestamp) \<Rightarrow> update_type list \<Rightarrow> status_worker \<Rightarrow> status_worker result" where
  "status_run clks [] w = Inr w"
| "status_run clks (m # ms) w =
     bindE (update_status (clks 0) m w) (\<lambda>w'. status_run (\<lambda>n. clks (Suc n)) ms w')"


section \<open>Invariant of the bookkeeping\<close>

text \<open>
  The three sets of a running analysis partition the known files, the counters are the sizes of
  these sets, and an analysis without open files is not listed as running. The dictionary that
  other processes read has the same keys as the worker's own.
\<close>

definition status_ok :: "string \<Rightarrow> fw_analysis_status \<Rightarrow> bool" where
  "status_ok r st \<longleftrightarrow>
     finite (files_to_unpack st) \<and> finite (files_to_analyze st) \<and> finite (completed_files st) \<and>
     files_to_unpack st \<inter> files_to_analyze st = {} \<and>
     files_to_unpack st \<inter> completed_files st = {} \<and>
     files_to_analyze st \<inter> completed_files st = {} \<and>
     files_to_unpack st \<union> files_to_analyze st \<noteq> {} \<and>
     r \<in> files_to_analyze st \<union> completed_files st \<and>
     total_files_count st =
       int (card (files_to_unpack st \<union> files_to_analyze st \<union> completed_files st)) \<and>
     unpacked_files_count st = int (card (files_to_analyze st \<union> completed_files st)) \<and>
     analyzed_files_count st = int (card (completed_files st))"

definition worker_ok :: "status_worker \<Rightarrow> bool" where
  "worker_ok w \<longleftrightarrow>
     (\<forall>r st. map_of (currently_running w) r = Some st \<longrightarrow> status_ok r st) \<and>
     dom (map_of (currently_running w)) = dom (map_of (currently_analyzed w))"

lemma worker_okD: "worker_ok w \<Longrightarrow> map_of (currently_running w) r = Some st \<Longrightarrow> status_ok r st"
  by (simp add: worker_ok_def)

lemma worker_ok_init: "worker_ok init_status_worker"
  by (simp add: worker_ok_def init_status_worker_def)

lemma worker_ok_set_running:
  assumes "worker_ok w" "map_of (currently_running w) r = Some st" "status_ok r st'"
  shows "worker_ok (set_running r st' w)"
  using assms by (auto simp: worker_ok_def set_running_def)

lemma worker_ok_with_running:
  assumes "worker_ok w"
    and "\<And>r st. map_of (currently_running w) r = Some st \<Longrightarrow> worker_ok (f r st w)"
  shows "worker_ok (with_running rt f w)"
  using assms by (auto simp: with_running_def split: option.splits)

lemma status_ok_new:
  assumes "finite inc" "u \<notin> inc"
  shows "worker_ok w \<Longrightarrow> worker_ok (handle_add_firmware clk u inc h sched w)"
  using assms by (auto simp: worker_ok_def handle_add_firmware_def set_running_def status_ok_def)

lemma status_okI:
  assumes "finite U" "finite A" "finite C" "U \<inter> A = {}" "U \<inter> C = {}" "A \<inter> C = {}" "U \<union> A \<noteq> {}"
    "r \<in> A \<union> C" "total_files_count st = int (card (U \<union> (A \<union> C)))"
    "unpacked_files_count st = int (card (A \<union> C))" "analyzed_files_count st = int (card C)"
    "files_to_unpack st = U" "files_to_analyze st = A" "completed_files st = C"
  shows "status_ok r st"
  using assms by (simp add: status_ok_def Un_assoc)

lemma status_okD:
  assumes "status_ok r st"
  shows "finite (files_to_unpack st)" "finite (files_to_analyze st)" "finite (completed_files st)"
    "files_to_unpack st \<inter> files_to_analyze st = {}" "files_to_unpack st \<inter> completed_files st = {}"
    "files_to_analyze st \<inter> completed_files st = {}" "files_to_unpack st \<union> files_to_analyze st \<noteq> {}"
    "r \<in> files_to_analyze st \<union> completed_files st"
    "total_files_count st = int (card (files_to_unpack st \<union> (files_to_analyze st \<union> completed_files st)))"
    "unpacked_files_count st = int (card (files_to_analyze st \<union> completed_files st))"
    "analyzed_files_count st = int (card (completed_files st))"
  using assms by (simp_all add: status_ok_def Un_assoc)

lemma status_ok_new_files:
  assumes ok: "status_ok r st" and "finite N" "N \<inter> (files_to_analyze st \<union> completed_files st) = {}"
    "N \<inter> files_to_unpack st = {}"
  shows "status_ok r (st\<lparr>total_files_count := total_files_count st + int (card N),
            total_files_with_duplicates := d, files_to_unpack := files_to_unpack st \<union> N\<rparr>)"
proof -
  let ?V = "files_to_unpack st \<union> (files_to_analyze st \<union> completed_files st)"
  note D = status_okD [OF ok]
  have "card (?V \<union> N) = card ?V + card N"
    using D(1-3) assms(2-4) by (intro card_Un_disjoint) auto
  moreover have "(files_to_unpack st \<union> N) \<union> (files_to_analyze st \<union> completed_files st) = ?V \<union> N"
    by auto
  ultimately show ?thesis
    using D assms(2-4)
    by (intro status_okI [where U = "files_to_unpack st \<union> N" and A = "files_to_analyze st"
          and C = "completed_files st"]) auto
qed

lemma status_ok_unpacked:
  assumes ok: "status_ok r st" and u: "u \<in> files_to_unpack st"
  shows "status_ok r (st\<lparr>files_to_unpack := files_to_unpack st - {u},
            files_to_analyze := insert u (files_to_analyze st),
            unpacked_files_count := unpacked_files_count st + 1\<rparr>)"
proof -
  note D = status_okD [OF ok]
  have "u \<notin> files_to_analyze st" "u \<notin> completed_files st"
    using D(4,5) u by auto
  moreover have "(files_to_unpack st - {u}) \<union> (insert u (files_to_analyze st) \<union> completed_files st) =
      files_to_unpack st \<union> (files_to_analyze st \<union> completed_files st)"
    using u by auto
  ultimately show ?thesis
    using D u
    by (intro status_okI [where U = "files_to_unpack st - {u}" and
          A = "insert u (files_to_analyze st)" and C = "completed_files st"]) auto
qed

lemma status_ok_add_included:
  assumes "status_ok r st" "finite inc"
  shows "status_ok r (add_included_to_status u inc st)"
proof -
  let ?N = "inc - (files_to_unpack st \<union> files_to_analyze st) - completed_files st"
  have "?N \<inter> (files_to_analyze st \<union> completed_files st) = {}" "?N \<inter> files_to_unpack st = {}"
    by auto
  then have new: "status_ok r (st\<lparr>total_files_count := total_files_count st + int (card ?N),
      total_files_with_duplicates := total_files_with_duplicates st + 1,
      files_to_unpack := files_to_unpack st \<union> ?N\<rparr>)"
    using assms by (intro status_ok_new_files) auto
  from new status_ok_unpacked [OF new] show ?thesis
    unfolding add_included_to_status_def Let_def by simp
qed

lemma status_ok_plugins [simp]: "status_ok r (st\<lparr>analysis_plugins_count := d\<rparr>) = status_ok r st"
  by (simp add: status_ok_def)

lemma status_ok_removed:
  assumes ok: "status_ok r st" and u: "u \<in> files_to_analyze st"
    and "files_to_unpack st \<union> (files_to_analyze st - {u}) \<noteq> {}"
  shows "status_ok r (st\<lparr>files_to_analyze := files_to_analyze st - {u},
           completed_files := insert u (completed_files st),
           analyzed_files_count := analyzed_files_count st + 1\<rparr>)"
proof -
  note D = status_okD [OF ok]
  have "(files_to_analyze st - {u}) \<union> insert u (completed_files st) =
          files_to_analyze st \<union> completed_files st" and "u \<notin> completed_files st"
    using D(6) u by auto
  then show ?thesis
    using D u assms(3)
    by (intro status_okI [where U = "files_to_unpack st" and A = "files_to_analyze st - {u}"
          and C = "insert u (completed_files st)"]) auto
qed

lemma status_ok_update:
  assumes "status_ok r st" "completed_files st = {}" "distinct inc" "r \<notin> set inc"
  shows "status_ok r (st\<lparr>files_to_unpack := {}, unpacked_files_count := int (length inc) + 1,
            total_files_count := int (length inc) + 1,
            total_files_with_duplicates := int (length inc) + 1,
            files_to_analyze := insert r (set inc)\<rparr>)"
  using assms by (simp add: status_ok_def distinct_card)


section \<open>The files of a firmware\<close>

text \<open>
  \<open>incl f\<close> are the files that unpacking \<open>f\<close> yields; the files of the firmware \<open>r\<close> are what is
  reachable from \<open>r\<close>. The bookkeeping knows only such files, and knows what every unpacked file
  contains.
\<close>

definition included_in :: "(string \<Rightarrow> string set) \<Rightarrow> string \<Rightarrow> string \<Rightarrow> bool" where
  "included_in incl a b \<longleftrightarrow> b \<in> incl a"

definition files_of :: "(string \<Rightarrow> string set) \<Rightarrow> string \<Rightarrow> string set" where
  "files_of incl r = {f. (included_in incl)\<^sup>*\<^sup>* r f}"

definition known_files :: "fw_analysis_status \<Rightarrow> string set" where
  "known_files st = files_to_unpack st \<union> (files_to_analyze st \<union> completed_files st)"

definition status_tree :: "(string \<Rightarrow> string set) \<Rightarrow> string \<Rightarrow> fw_analysis_status \<Rightarrow> bool" where
  "status_tree incl r st \<longleftrightarrow> status_ok r st \<and> finite (files_of incl r) \<and>
     known_files st \<subseteq> files_of incl r \<and>
     (\<forall>f \<in> files_to_analyze st \<union> completed_files st. incl f \<subseteq> known_files st)"

definition tracking_ok :: "(string \<Rightarrow> string set) \<Rightarrow> status_worker \<Rightarrow> bool" where
  "tracking_ok incl w \<longleftrightarrow>
     (\<forall>r st. map_of (currently_running w) r = Some st \<longrightarrow> status_tree incl r st) \<and>
     dom (map_of (currently_running w)) = dom (map_of (currently_analyzed w)) \<and>
     (\<forall>r fs. map_of (recently_finished w) r = Some fs \<longrightarrow>
        f_total_files_count fs = int (card (files_of incl r)))"

lemma files_of_root [simp]: "r \<in> files_of incl r"
  by (simp add: files_of_def)

lemma files_of_step: "f \<in> files_of incl r \<Longrightarrow> incl f \<subseteq> files_of incl r"
  by (auto simp: files_of_def included_in_def intro: rtranclp.rtrancl_into_rtrancl)

lemma files_of_least:
  assumes "r \<in> X" "\<And>f. f \<in> X \<Longrightarrow> incl f \<subseteq> X"
  shows "files_of incl r \<subseteq> X"
proof
  fix f assume "f \<in> files_of incl r"
  then have "(included_in incl)\<^sup>*\<^sup>* r f" by (simp add: files_of_def)
  then show "f \<in> X"
    using assms by (induction) (auto simp: included_in_def)
qed

lemma known_files_add_included:
  "known_files (add_included_to_status u inc st) = known_files st \<union> inc"
  by (auto simp: known_files_def add_included_to_status_def Let_def)

lemma unpacked_add_included:
  "files_to_analyze (add_included_to_status u inc st) \<union> completed_files (add_included_to_status u inc st)
     \<subseteq> insert u (files_to_analyze st \<union> completed_files st)"
  by (auto simp: add_included_to_status_def Let_def)

lemma tracking_ok_init: "tracking_ok incl init_status_worker"
  by (simp add: tracking_ok_def init_status_worker_def)

lemma tracking_ok_worker_ok: "tracking_ok incl w \<Longrightarrow> worker_ok w"
  by (auto simp: tracking_ok_def worker_ok_def status_tree_def)

lemma tracking_ok_set_running:
  assumes "tracking_ok incl w" "map_of (currently_running w) r = Some st" "status_tree incl r st'"
  shows "tracking_ok incl (set_running r st' w)"
  using assms by (auto simp: tracking_ok_def set_running_def)

lemma tracking_ok_with_running:
  assumes "tracking_ok incl w"
    and "\<And>r st. rt = Some r \<Longrightarrow> map_of (currently_running w) r = Some st \<Longrightarrow>
           status_tree incl r st \<Longrightarrow> tracking_ok incl (f r st w)"
  shows "tracking_ok incl (with_running rt f w)"
  using assms by (auto simp: with_running_def tracking_ok_def split: option.splits)

lemma status_tree_add_included:
  assumes "status_tree incl r st" "u \<in> files_of incl r"
  shows "status_tree incl r (add_included_to_status u (incl u) st)"
proof -
  let ?st = "add_included_to_status u (incl u) st"
  have fin: "finite (incl u)"
    using assms files_of_step [of u incl r] by (auto simp: status_tree_def intro: finite_subset)
  have "\<forall>f \<in> insert u (files_to_analyze st \<union> completed_files st). incl f \<subseteq> known_files ?st"
    using assms(1) by (auto simp: status_tree_def known_files_add_included)
  then have closed: "\<forall>f \<in> files_to_analyze ?st \<union> completed_files ?st. incl f \<subseteq> known_files ?st"
    using unpacked_add_included by blast
  show ?thesis
    using assms fin closed files_of_step [of u incl r]
    by (simp add: status_tree_def status_ok_add_included known_files_add_included)
qed

section \<open>The handlers keep the invariant\<close>

lemma tracking_add_firmware:
  assumes "tracking_ok incl w" "finite (files_of incl u)" "u \<notin> incl u"
  shows "tracking_ok incl (handle_add_firmware clk u (incl u) h sched w)"
proof -
  have "finite (incl u)"
    using assms(2) files_of_step [of u incl u] by (auto intro: finite_subset)
  then have "status_tree incl u \<lparr>files_to_unpack = incl u, files_to_analyze = {u},
      total_files_count = 1 + int (card (incl u)), hid = h, analysis_plugins_count = d,
      start_time = t, completed_files = {}, total_files_with_duplicates = 1,
      unpacked_files_count = 1, analyzed_files_count = 0\<rparr>" for d t
    using assms(2,3) files_of_step [of u incl u]
    by (auto simp: status_tree_def known_files_def status_ok_def)
  then show ?thesis
    using assms(1) by (auto simp: tracking_ok_def handle_add_firmware_def set_running_def)
qed

lemma tracking_add_file:
  assumes "tracking_ok incl w" "\<And>r. rt = Some r \<Longrightarrow> u \<in> files_of incl r"
  shows "tracking_ok incl (handle_add_included_file u rt (incl u) w)"
  unfolding handle_add_included_file_def
  using assms
  by (intro tracking_ok_with_running tracking_ok_set_running status_tree_add_included) auto

lemma tracking_add_analysis:
  assumes "tracking_ok incl w"
  shows "tracking_ok incl (handle_add_analysis rt p w)"
  unfolding handle_add_analysis_def
  by (intro tracking_ok_with_running tracking_ok_set_running assms)
    (auto simp: status_tree_def known_files_def)

lemma tracking_cancel:
  assumes "tracking_ok incl w"
  shows "tracking_ok incl (handle_cancel_analysis clk r w)"
  unfolding handle_cancel_analysis_def
  using assms by (intro tracking_ok_with_running) (auto simp: tracking_ok_def)

text \<open>When the last open file is removed, the completed files are all files of the firmware.\<close>

lemma finished_total:
  assumes tree: "status_tree incl r st" and "files_to_unpack st = {}" "files_to_analyze st \<subseteq> {u}"
  shows "total_files_count st = int (card (files_of incl r))"
proof -
  note D = status_okD [of r st]
  have "files_of incl r \<subseteq> known_files st"
    using tree assms(2) D(8)
    by (intro files_of_least) (auto simp: status_tree_def known_files_def)
  then show ?thesis
    using tree D(9) by (metis known_files_def status_tree_def subset_antisym)
qed

lemma status_tree_removed:
  assumes "status_tree incl r st" "u \<in> files_to_analyze st"
    and "files_to_unpack st \<union> (files_to_analyze st - {u}) \<noteq> {}"
  shows "status_tree incl r (st\<lparr>files_to_analyze := files_to_analyze st - {u},
           completed_files := insert u (completed_files st),
           analyzed_files_count := analyzed_files_count st + 1\<rparr>)"
proof -
  have "(files_to_analyze st - {u}) \<union> insert u (completed_files st) =
          files_to_analyze st \<union> completed_files st"
    using assms(2) by auto
  then show ?thesis
    using assms by (simp add: status_tree_def status_ok_removed known_files_def)
qed

lemma tracking_remove:
  assumes "tracking_ok incl w"
  shows "tracking_ok incl (handle_remove_object clk u rt w)"
  unfolding handle_remove_object_def
proof (intro tracking_ok_with_running assms, goal_cases)
  case (1 r st)
  note D = status_okD [of r st] and tree = 1(3)
  show ?case
  proof (cases "u \<in> files_to_analyze st")
    case True
    show ?thesis
    proof (cases "files_to_unpack st = {} \<and> files_to_analyze st - {u} = {}")
      case last: True
      have "total_files_count st = int (card (files_of incl r))"
        using last by (intro finished_total [OF tree]) auto
      moreover have "files_to_analyze st = {u}"
        using True last by auto
      ultimately show ?thesis
        using assms last by (auto simp: tracking_ok_def Let_def init_recently_finished_def)
    next
      case open_files: False
      then have "status_tree incl r (st\<lparr>files_to_analyze := files_to_analyze st - {u},
           completed_files := insert u (completed_files st),
           analyzed_files_count := analyzed_files_count st + 1\<rparr>)"
        using True by (intro status_tree_removed [OF tree]) auto
      moreover have fin: "finite (files_to_unpack st)" "finite (files_to_analyze st)"
        using tree D(1,2) by (auto simp: status_tree_def)
      moreover have "files_to_unpack st \<noteq> {} \<or> \<not> card (files_to_analyze st) \<le> Suc 0"
        using open_files True fin(2) by (auto simp: card_le_Suc0_iff_eq)
      ultimately show ?thesis
        using assms 1(2) True by (auto simp: Let_def intro: tracking_ok_set_running)
    qed
  qed (use assms in simp)
qed

text \<open>
  \<open>AnalysisStatus.add_update\<close> puts two messages; the second one finds the status that the first
  one has created.
\<close>

lemma tracking_update:
  assumes "tracking_ok incl w" "finite (files_of incl u)" "u \<notin> incl u" "distinct inc" "u \<notin> set inc"
    and all: "insert u (set inc) = files_of incl u"
  shows "\<exists>w'. handle_add_update u inc (handle_add_firmware clk u (incl u) h sched w) = Inr w' \<and>
           tracking_ok incl w'"
proof -
  let ?w = "handle_add_firmware clk u (incl u) h sched w"
  obtain st where st: "map_of (currently_running ?w) u = Some st" "completed_files st = {}"
    by (simp add: handle_add_firmware_def set_running_def)
  have ok: "tracking_ok incl ?w"
    using assms by (intro tracking_add_firmware) auto
  then have "status_ok u st"
    using st by (auto simp: tracking_ok_def status_tree_def)
  then have "status_tree incl u (st\<lparr>files_to_unpack := {}, unpacked_files_count := int (length inc) + 1,
            total_files_count := int (length inc) + 1,
            total_files_with_duplicates := int (length inc) + 1,
            files_to_analyze := insert u (set inc)\<rparr>)"
    using assms st status_ok_update [of u st inc] files_of_step [of _ incl u]
    by (simp add: status_tree_def known_files_def all)
  then show ?thesis
    using ok st tracking_ok_set_running [OF ok st(1)]
    by (simp add: handle_add_update_def dict_item_def Let_def)
qed

section \<open>Properties\<close>

datatype status_call =
    CallAddUpdate file_object "string list"
  | CallAddObject file_object
  | CallAddAnalysis file_object string
  | CallRemoveObject file_object
  | CallCancelAnalysis string

fun call_messages :: "status_call \<Rightarrow> update_type list" where
  "call_messages (CallAddUpdate fo inc) = status_add_update fo inc"
| "call_messages (CallAddObject fo) = status_add_object fo"
| "call_messages (CallAddAnalysis fo p) = status_add_analysis fo p"
| "call_messages (CallRemoveObject fo) = status_remove_object fo"
| "call_messages (CallCancelAnalysis r) = status_cancel_analysis r"

text \<open>
  What the schedulers pass: an object knows the files it includes, an included file belongs to the
  firmware it is registered for, an update is started for a firmware with the list of all its files.
\<close>

definition call_object_ok :: "(string \<Rightarrow> string set) \<Rightarrow> file_object \<Rightarrow> bool" where
  "call_object_ok incl fo \<longleftrightarrow> files_included fo = incl (uid fo) \<and>
     (if is_firmware_object fo then finite (files_of incl (uid fo)) \<and> uid fo \<notin> incl (uid fo)
      else case root_uid fo of None \<Rightarrow> True | Some r \<Rightarrow> uid fo \<in> files_of incl r)"

fun call_ok :: "(string \<Rightarrow> string set) \<Rightarrow> status_call \<Rightarrow> bool" where
  "call_ok incl (CallAddUpdate fo inc) \<longleftrightarrow> call_object_ok incl fo \<and> is_firmware_object fo \<and>
     distinct inc \<and> uid fo \<notin> set inc \<and> insert (uid fo) (set inc) = files_of incl (uid fo)"
| "call_ok incl (CallAddObject fo) \<longleftrightarrow> call_object_ok incl fo"
| "call_ok incl _ \<longleftrightarrow> True"

lemma status_run_append:
  "status_run clks (ms @ ms') w =
     bindE (status_run clks ms w) (\<lambda>w'. status_run (\<lambda>n. clks (n + length ms)) ms' w')"
  by (induction ms arbitrary: clks w) (auto simp: bindE_def split: sum.splits)

lemma call_tracking:
  assumes "tracking_ok incl w" "call_ok incl c"
  shows "\<exists>w'. status_run clks (call_messages c) w = Inr w' \<and> tracking_ok incl w'"
proof (cases c)
  case (CallAddUpdate fo inc)
  then show ?thesis
    using assms tracking_update [of incl w "uid fo" inc "clks 0" "get_hid fo" "scheduled_analysis fo"]
    by (auto simp: status_add_update_def status_add_object_def call_object_ok_def)
next
  case (CallAddObject fo)
  then show ?thesis
    using assms tracking_add_firmware [of incl w "uid fo"] tracking_add_file [of incl w "root_uid fo" "uid fo"]
    by (auto simp: status_add_object_def call_object_ok_def split: option.splits)
qed (use assms in \<open>auto simp: status_add_analysis_def status_remove_object_def status_cancel_analysis_def
       tracking_add_analysis tracking_remove tracking_cancel\<close>)

lemma calls_tracking:
  assumes "tracking_ok incl w" "list_all (call_ok incl) cs"
  shows "\<exists>w'. status_run clks (concat (map call_messages cs)) w = Inr w' \<and> tracking_ok incl w'"
  using assms
proof (induction cs arbitrary: w clks)
  case (Cons c cs)
  then obtain w1 where "status_run clks (call_messages c) w = Inr w1" "tracking_ok incl w1"
    using call_tracking [of incl w c clks] by auto
  then show ?case
    using Cons by (auto simp: status_run_append)
qed simp

text \<open>
  C7. Whatever sequence of calls the schedulers make, the worker processes the messages without an
  exception, the sets and counters of every running analysis stay consistent, and a firmware is
  reported as finished only after every file reachable from it by unpacking was analysed: the
  reported total is the exact number of these files.
\<close>

theorem status_tracking_correct:
  assumes "list_all (call_ok incl) calls"
  shows "\<exists>w. status_run clks (concat (map call_messages calls)) init_status_worker = Inr w \<and>
           worker_ok w \<and>
           (\<forall>r fs. map_of (recently_finished w) r = Some fs \<longrightarrow>
              f_total_files_count fs = int (card (files_of incl r)))"
proof -
  obtain w where "status_run clks (concat (map call_messages calls)) init_status_worker = Inr w"
    and w: "tracking_ok incl w"
    using calls_tracking [OF tracking_ok_init assms] by blast
  then show ?thesis
    using tracking_ok_worker_ok [OF w] by (auto simp: tracking_ok_def)
qed


definition example_incl :: "string \<Rightarrow> string set" where
  "example_incl f = (if f = ''fw'' then {''a''} else if f = ''a'' then {''b''} else {})"

definition example_fw :: file_object where
  "example_fw = (empty_file_object ''fw'' True)\<lparr>root_uid := Some ''fw'', files_included := {''a''}\<rparr>"

definition example_child :: "string \<Rightarrow> file_object" where
  "example_child u = (empty_file_object u False)\<lparr>root_uid := Some ''fw'',
     files_included := example_incl u\<rparr>"

definition example_calls :: "status_call list" where
  "example_calls = [CallAddObject example_fw, CallRemoveObject example_fw,
     CallAddObject (example_child ''a''), CallRemoveObject (example_child ''a''),
     CallAddObject (example_child ''b''), CallRemoveObject (example_child ''b'')]"

lemma files_of_example: "files_of example_incl ''fw'' = {''fw'', ''a'', ''b''}"
proof
  show "files_of example_incl ''fw'' \<subseteq> {''fw'', ''a'', ''b''}"
    by (rule files_of_least) (auto simp: example_incl_def)
  have a: "''a'' \<in> files_of example_incl ''fw''"
    using files_of_step [of "''fw''" example_incl "''fw''"] by (simp add: example_incl_def)
  have b: "''b'' \<in> files_of example_incl ''fw''"
    using files_of_step [OF a] by (simp add: example_incl_def)
  show "{''fw'', ''a'', ''b''} \<subseteq> files_of example_incl ''fw''"
    using a b by simp
qed

lemmas example_status_simps = example_calls_def example_fw_def example_child_def example_incl_def
  empty_file_object_def is_firmware_object_def

lemma example_calls_ok: "list_all (call_ok example_incl) example_calls"
  by (simp add: example_calls_def call_object_ok_def example_fw_def example_child_def
      empty_file_object_def is_firmware_object_def files_of_example)
    (simp add: example_incl_def)

theorem status_tracking_correct_witness:
  "list_all (call_ok example_incl) example_calls \<and>
   (\<exists>w. status_run (\<lambda>i n. 0) (concat (map call_messages example_calls)) init_status_worker = Inr w \<and>
      worker_ok w \<and>
      map_option f_total_files_count (map_of (recently_finished w) ''fw'') = Some 3)"
proof -
  obtain w where w: "status_run (\<lambda>i n. 0) (concat (map call_messages example_calls)) init_status_worker = Inr w"
    "worker_ok w"
    and fin: "\<And>r fs. map_of (recently_finished w) r = Some fs \<Longrightarrow>
              f_total_files_count fs = int (card (files_of example_incl r))"
    using status_tracking_correct [OF example_calls_ok, of "\<lambda>i n. 0"] by auto
  have "map_of (recently_finished w) ''fw'' \<noteq> None"
    using w(1) by (auto simp: example_status_simps init_status_worker_def status_add_object_def
        status_remove_object_def handle_add_firmware_def set_running_def handle_remove_object_def
        with_running_def Let_def handle_add_included_file_def add_included_to_status_def
        insert_Diff_if)
  then show ?thesis
    using w fin [of "''fw''"] example_calls_ok by (auto simp: files_of_example)
qed

end
