(* ===== verification/Entry_Conversion.thy ===== *)
theory Entry_Conversion
  imports Objects
begin

text \<open>
  \<^verbatim>\<open>src/src/storage/entry_conversion.py\<close>: the conversion between objects and database rows, and
  \<open>sanitize\<close>, which prepares an analysis result for a JSON column. The Python code changes the
  dictionaries in place; the model returns the changed value. What the code uses of UTF-8 is the
  parameter \<open>codec\<close>: \<open>co_decode\<close> is \<open>bytes.decode(errors='replace')\<close>, and \<open>co_encodable\<close> holds for
  the characters that can be encoded, all but the surrogates.
\<close>

record codec =
  co_decode :: "string \<Rightarrow> string"
  co_encodable :: "char \<Rightarrow> bool"

abbreviation encodable :: "codec \<Rightarrow> string \<Rightarrow> bool" where
  "encodable codec s \<equiv> list_all (co_encodable codec) s"

section \<open>Sanitizing results\<close>

definition NUL :: char where "NUL = CHR 0x00"

text \<open>\<open>string.replace('\0', '')\<close>\<close>

definition remove_null :: "string \<Rightarrow> string" where
  "remove_null s = filter (\<lambda>c. c \<noteq> NUL) s"

text \<open>
  \<open>string.encode(errors='replace').decode()\<close>, after a \<open>UnicodeEncodeError\<close>, replaces every character
  that cannot be encoded by a question mark.
\<close>

definition replace_surrogates :: "codec \<Rightarrow> string \<Rightarrow> string" where
  "replace_surrogates codec s = map (\<lambda>c. if co_encodable codec c then c else CHR ''?'') s"

definition sanitize_string :: "codec \<Rightarrow> string \<Rightarrow> string" where
  "sanitize_string codec s =
     (let t = remove_null s in if encodable codec t then t else replace_surrogates codec t)"

definition sanitize_key :: "string \<Rightarrow> pydict \<Rightarrow> pydict" where
  "sanitize_key k d =
     (if NUL \<in> set k
      then (case map_of d k of
          None \<Rightarrow> d
        | Some v \<Rightarrow> AList.update (remove_null k) v (AList.delete k d))
      else d)"

text \<open>
  \<open>sanitize_value\<close> is what \<open>_sanitize_value\<close> makes of a value. The loop of \<open>sanitize\<close> runs over a
  copy of the items. Strings, bytes and tuples are assigned to the key (\<open>assigned\<close>); dictionaries
  and lists are changed in place, so that the change is visible in the dictionary only while the
  key still refers to that object: \<open>moved\<close> are the keys to which an earlier \<open>sanitize_key\<close> has
  assigned another object. In a list, bytes are left as they are.
\<close>

fun assigned :: "pyval \<Rightarrow> bool" where
  "assigned (PTuple _) = True"
| "assigned (PStr _) = True"
| "assigned (PBytes _) = True"
| "assigned _ = False"

fun is_bytes :: "pyval \<Rightarrow> bool" where
  "is_bytes (PBytes _) = True"
| "is_bytes _ = False"

function (sequential)
  sanitize_value :: "codec \<Rightarrow> pyval \<Rightarrow> pyval" and
  sanitize_items :: "codec \<Rightarrow> (string \<times> pyval) list \<Rightarrow> string list \<Rightarrow> pydict \<Rightarrow> pydict" and
  sanitize_elements :: "codec \<Rightarrow> pyval list \<Rightarrow> pyval list" where
  "sanitize_value codec (PTuple vs) = PList (sanitize_elements codec vs)"
| "sanitize_value codec (PDict e) = PDict (sanitize_items codec e [] e)"
| "sanitize_value codec (PStr s) = PStr (sanitize_string codec s)"
| "sanitize_value codec (PList vs) = PList (sanitize_elements codec vs)"
| "sanitize_value codec (PBytes b) = PStr (co_decode codec b)"
| "sanitize_value codec v = v"
| "sanitize_items codec [] moved d = d"
| "sanitize_items codec ((key, value) # items) moved d =
     sanitize_items codec items
       (if NUL \<in> set key then remove_null key # moved else moved)
       (sanitize_key key
         (if assigned value \<or> key \<notin> set moved
          then AList.update key (sanitize_value codec value) d else d))"
| "sanitize_elements codec [] = []"
| "sanitize_elements codec (element # vs) =
     (if is_bytes element then element else sanitize_value codec element) # sanitize_elements codec vs"
  by pat_completeness auto
termination
  by (relation "measure (\<lambda>x. case x of
        Inl (_, v) \<Rightarrow> size v
      | Inr (Inl (_, items, _, _)) \<Rightarrow> size_list (size_prod (\<lambda>_. 0) size) items
      | Inr (Inr (_, vs)) \<Rightarrow> size_list size vs)") auto

definition sanitize_dict :: "codec \<Rightarrow> pydict \<Rightarrow> pydict" where
  "sanitize_dict codec d = sanitize_items codec d [] d"

text \<open>
  \<open>sanitize(x)\<close> and \<open>_sanitize_list(x)\<close> for an arbitrary argument; the latter is annotated for
  lists, for other arguments the model stops.
\<close>

fun sanitize :: "codec \<Rightarrow> pyval \<Rightarrow> pyval result" where
  "sanitize codec (PDict d) = Inr (PDict (sanitize_dict codec d))"
| "sanitize codec _ = Inl AttributeError"

fun sanitize_list :: "codec \<Rightarrow> pyval \<Rightarrow> pyval result" where
  "sanitize_list codec (PList vs) = Inr (PList (sanitize_elements codec vs))"
| "sanitize_list codec _ = Inl TypeError"

section \<open>Rows\<close>

text \<open>Rows of the tables \<open>analysis\<close>, \<open>file_object\<close> and \<open>firmware\<close>; the keys are the UIDs.\<close>

record analysis_entry =
  ae_plugin_version :: pyval
  ae_system_version :: pyval
  ae_analysis_date :: pyval
  ae_summary :: pyval
  ae_tags :: pyval
  ae_result :: pyval

record file_object_entry =
  e_sha256 :: "string option"
  e_file_name :: "string option"
  e_depth :: int
  e_size :: "int option"
  e_comments :: "pyval list"
  e_is_firmware :: bool

type_synonym date = "nat \<times> nat \<times> nat"

record firmware_entry =
  e_submission_date :: timestamp
  e_release_date :: date
  e_version :: "string option"
  e_vendor :: "string option"
  e_device_name :: "string option"
  e_device_class :: "string option"
  e_device_part :: string
  e_firmware_tags :: "string list"

text \<open>\<open>datetime.strptime(s, '%Y-%m-%d')\<close> and \<open>strftime('%Y-%m-%d')\<close>\<close>

definition digits_nat :: "string \<Rightarrow> nat" where
  "digits_nat s = foldl (\<lambda>n c. 10 * n + (of_char c - 48)) 0 s"

definition days_in_month :: "nat \<Rightarrow> nat \<Rightarrow> nat" where
  "days_in_month y m =
     (if m = 2 then (if y mod 4 = 0 \<and> (y mod 100 \<noteq> 0 \<or> y mod 400 = 0) then 29 else 28)
      else if m \<in> {4, 6, 9, 11} then 30 else 31)"

definition strptime_ymd :: "string \<Rightarrow> date result" where
  "strptime_ymd s = (case py_split (CHR ''-'') s of
       [y, m, d] \<Rightarrow>
         (if list_all is_digit_char (y @ m @ d) \<and> length y = 4 \<and> length m \<in> {1, 2} \<and> length d \<in> {1, 2} \<and>
             1 \<le> digits_nat y \<and> 1 \<le> digits_nat m \<and> digits_nat m \<le> 12 \<and> 1 \<le> digits_nat d \<and>
             digits_nat d \<le> days_in_month (digits_nat y) (digits_nat m)
          then Inr (digits_nat y, digits_nat m, digits_nat d) else Inl ValueError)
     | _ \<Rightarrow> Inl ValueError)"

definition two_digits :: "nat \<Rightarrow> string" where
  "two_digits n = (if n < 10 then CHR ''0'' # nat_str n else nat_str n)"

definition convert_time_to_str :: "date \<Rightarrow> string" where
  "convert_time_to_str t = (case t of (y, m, d) \<Rightarrow>
     nat_str y @ ''-'' @ two_digits m @ ''-'' @ two_digits d)"

section \<open>Objects to rows\<close>

definition create_firmware_entry ::
  "timestamp \<Rightarrow> file_object \<Rightarrow> firmware_data \<Rightarrow> firmware_entry result" where
  "create_firmware_entry now fo fw =
     bindE (case release_date fw of None \<Rightarrow> Inl TypeError | Some s \<Rightarrow> strptime_ymd s) (\<lambda>rd.
       Inr \<lparr>e_submission_date = now, e_release_date = rd, e_version = fw_version fw,
            e_vendor = vendor fw, e_device_name = device_name fw, e_device_class = device_class fw,
            e_device_part = part fw, e_firmware_tags = map fst (fw_tags fw)\<rparr>)"

text \<open>Rows (parent, file, path) of the table \<open>virtual_file_path\<close>\<close>

type_synonym vfp_row = "string \<times> string \<times> string"

definition create_vfp_entries :: "file_object \<Rightarrow> vfp_row list" where
  "create_vfp_entries fo =
     concat (map (\<lambda>(parent, paths). map (\<lambda>p. (parent, uid fo, p)) paths) (virtual_file_path fo))"

text \<open>\<open>sanitize(file_object.virtual_file_path)\<close>: a dictionary of lists of strings\<close>

definition vfp_to_py :: "vfp_dict \<Rightarrow> pydict" where
  "vfp_to_py d = map (\<lambda>(k, ps). (k, PList (map PStr ps))) d"

fun str_of_py :: "pyval \<Rightarrow> string" where
  "str_of_py (PStr s) = s"
| "str_of_py _ = []"

fun paths_of_py :: "pyval \<Rightarrow> string list" where
  "paths_of_py (PList vs) = map str_of_py vs"
| "paths_of_py _ = []"

definition sanitize_vfp :: "codec \<Rightarrow> vfp_dict \<Rightarrow> vfp_dict" where
  "sanitize_vfp codec d = map (\<lambda>(k, v). (k, paths_of_py v)) (sanitize_dict codec (vfp_to_py d))"

definition create_file_object_entry ::
  "codec \<Rightarrow> file_object \<Rightarrow> file_object_entry \<times> file_object" where
  "create_file_object_entry codec fo =
     (\<lparr>e_sha256 = sha256 fo, e_file_name = file_name fo, e_depth = depth fo, e_size = fo_size fo,
       e_comments = comments fo, e_is_firmware = is_firmware_object fo\<rparr>,
      fo\<lparr>virtual_file_path := sanitize_vfp codec (virtual_file_path fo)\<rparr>)"

definition dict_get :: "pydict \<Rightarrow> string \<Rightarrow> pyval \<Rightarrow> pyval" where
  "dict_get d k dflt = (case map_of d k of None \<Rightarrow> dflt | Some v \<Rightarrow> v)"

fun as_dict :: "pyval \<Rightarrow> pydict result" where
  "as_dict (PDict d) = Inr d"
| "as_dict _ = Inl AttributeError"

definition create_analysis_entries ::
  "codec \<Rightarrow> file_object \<Rightarrow> ((string \<times> string) \<times> analysis_entry) list result" where
  "create_analysis_entries codec fo =
     mapE (\<lambda>(plugin, data).
       bindE (as_dict data) (\<lambda>d.
       bindE (sanitize_list codec (dict_get d ''summary'' (PList []))) (\<lambda>summary.
       bindE (sanitize codec (dict_get d ''result'' (PDict []))) (\<lambda>result.
         Inr ((uid fo, plugin),
           \<lparr>ae_plugin_version = dict_get d ''plugin_version'' PNone,
            ae_system_version = dict_get d ''system_version'' PNone,
            ae_analysis_date = dict_get d ''analysis_date'' PNone,
            ae_summary = summary, ae_tags = dict_get d ''tags'' PNone, ae_result = result\<rparr>)))))
       (processed_analysis fo)"

section \<open>Rows to objects\<close>

definition py_or :: "pyval \<Rightarrow> pyval \<Rightarrow> pyval" where
  "py_or v w = (if truthy v then v else w)"

definition analysis_entry_to_dict :: "analysis_entry \<Rightarrow> pydict" where
  "analysis_entry_to_dict e =
     [(''analysis_date'', ae_analysis_date e), (''plugin_version'', ae_plugin_version e),
      (''system_version'', ae_system_version e), (''summary'', py_or (ae_summary e) (PList [])),
      (''tags'', py_or (ae_tags e) (PDict [])), (''result'', py_or (ae_result e) (PDict []))]"

definition convert_vfp_entries_to_dict :: "vfp_row list \<Rightarrow> vfp_dict" where
  "convert_vfp_entries_to_dict rows =
     fold (\<lambda>(parent, _, path). dict_modify parent [] (\<lambda>ps. ps @ [path])) rows []"

definition collect_analysis_tags :: "(string \<times> pyval) list \<Rightarrow> pydict" where
  "collect_analysis_tags analyses =
     List.map_filter (\<lambda>(plugin, data). (case data of
         PDict d \<Rightarrow> map_option (\<lambda>t. (plugin, t)) (map_of d ''tags'')
       | _ \<Rightarrow> None)) analyses"

text \<open>
  \<open>_populate_fo_data\<close>: \<open>analyses\<close> are the rows of the object, the sets are what the relations of the
  entry or the explicit arguments provide. A Python set of parents is a list without duplicates.
\<close>

definition populate_fo_data ::
  "string \<Rightarrow> file_object_entry \<Rightarrow> (string \<times> analysis_entry) list \<Rightarrow> string list option \<Rightarrow>
   string set \<Rightarrow> string list \<Rightarrow> vfp_dict \<Rightarrow> string set \<Rightarrow> file_object \<Rightarrow> file_object" where
  "populate_fo_data u e analyses analysis_filter included prnts vfps parent_fw fo =
     (let pa = map (\<lambda>(p, a). (p, PDict (analysis_entry_to_dict a)))
            (filter (\<lambda>(p, _). case analysis_filter of None \<Rightarrow> True | Some ps \<Rightarrow> p \<in> set ps) analyses)
      in fo\<lparr>uid := u, fo_size := e_size e, file_name := e_file_name e, virtual_file_path := vfps,
            processed_analysis := pa, analysis_tags := collect_analysis_tags pa,
            comments := e_comments e, parents := prnts, files_included := included,
            parent_firmware_uids := parent_fw\<rparr>)"

definition firmware_from_entry ::
  "string \<Rightarrow> firmware_entry \<Rightarrow> file_object_entry \<Rightarrow> (string \<times> analysis_entry) list \<Rightarrow>
   string list option \<Rightarrow> string set \<Rightarrow> string list \<Rightarrow> file_object" where
  "firmware_from_entry u f e analyses analysis_filter included prnts =
     (let fo = populate_fo_data u e analyses analysis_filter included prnts [] {} (empty_file_object u True)
      in fo\<lparr>firmware := Some \<lparr>device_name = e_device_name f, fw_version = e_version f,
            device_class = e_device_class f, vendor = e_vendor f, part = e_device_part f,
            release_date = Some (convert_time_to_str (e_release_date f)),
            fw_tags = map (\<lambda>t. (t, ''secondary'')) (e_firmware_tags f), fw_md5 = None\<rparr>\<rparr>)"

definition file_object_from_entry ::
  "string \<Rightarrow> file_object_entry \<Rightarrow> (string \<times> analysis_entry) list \<Rightarrow> string list option \<Rightarrow>
   string set \<Rightarrow> string list \<Rightarrow> vfp_dict \<Rightarrow> string set \<Rightarrow> file_object" where
  "file_object_from_entry u e analyses analysis_filter included prnts vfps parent_fw =
     populate_fo_data u e analyses analysis_filter included prnts vfps parent_fw (empty_file_object u False)"

section \<open>What a JSON column accepts\<close>

fun json_ok :: "codec \<Rightarrow> pyval \<Rightarrow> bool" where
  "json_ok codec (PStr s) \<longleftrightarrow> NUL \<notin> set s \<and> encodable codec s"
| "json_ok codec (PBytes _) \<longleftrightarrow> False"
| "json_ok codec (PVersion _) \<longleftrightarrow> False"
| "json_ok codec (PTuple _) \<longleftrightarrow> False"
| "json_ok codec (PList vs) \<longleftrightarrow> list_all (json_ok codec) vs"
| "json_ok codec (PDict d) \<longleftrightarrow> distinct (map fst d) \<and> list_all (\<lambda>(k, v). NUL \<notin> set k \<and> encodable codec k \<and> json_ok codec v) d"
| "json_ok codec _ \<longleftrightarrow> True"



lemma remove_null_clean [simp]: "NUL \<notin> set (remove_null s)"
  by (simp add: remove_null_def)

lemma remove_null_id [simp]: "NUL \<notin> set s \<Longrightarrow> remove_null s = s"
  by (auto simp: remove_null_def intro: filter_True)


lemma sanitize_string_clean [simp]: "NUL \<notin> set (sanitize_string codec s)"
  using remove_null_clean [of s]
  by (auto simp: sanitize_string_def replace_surrogates_def Let_def NUL_def split: if_splits)


lemma sanitize_string_id [simp]: "NUL \<notin> set s \<Longrightarrow> encodable codec s \<Longrightarrow> sanitize_string codec s = s"
  by (simp add: sanitize_string_def)

lemma distinct_keys_delete [simp]: "distinct (map fst d) \<Longrightarrow> distinct (map fst (AList.delete k d))"
  by (simp add: distinct_delete)













text \<open>A codec for which every character can be encoded, and one for which \<open>#\<close> stands for a surrogate\<close>

definition plain_codec :: codec where
  "plain_codec = \<lparr>co_decode = id, co_encodable = (\<lambda>c. True)\<rparr>"




text \<open>
  Bytes are not sanitized: a bytes value in a dictionary is decoded, but keeps its null bytes, and
  bytes in a list are not converted at all. A key keeps the characters that cannot be encoded.
\<close>

lemma sanitize_bytes_keeps_null:
  "\<not> json_ok codec (PDict (sanitize_dict plain_codec [(''a'', PBytes [NUL])]))"
  by (simp add: sanitize_dict_def sanitize_key_def plain_codec_def)

lemma sanitize_list_keeps_bytes:
  "\<not> json_ok codec (PDict (sanitize_dict codec [(''a'', PList [PBytes ''x''])]))"
  by (simp add: sanitize_dict_def sanitize_key_def)

lemma sanitize_key_keeps_surrogate:
  "\<not> encodable codec k \<Longrightarrow> NUL \<notin> set k \<Longrightarrow> \<not> json_ok codec (PDict (sanitize_dict codec [(k, PStr v)]))"
  by (simp add: sanitize_dict_def sanitize_key_def)

section \<open>Lookups in converted rows\<close>

lemma analysis_entry_to_dict_lookup [simp]:
  "map_of (analysis_entry_to_dict e) ''plugin_version'' = Some (ae_plugin_version e)"
  "map_of (analysis_entry_to_dict e) ''system_version'' = Some (ae_system_version e)"
  "map_of (analysis_entry_to_dict e) ''analysis_date'' = Some (ae_analysis_date e)"
  "map_of (analysis_entry_to_dict e) ''result'' = Some (py_or (ae_result e) (PDict []))"
  "map_of (analysis_entry_to_dict e) ''tags'' = Some (py_or (ae_tags e) (PDict []))"
  "map_of (analysis_entry_to_dict e) ''summary'' = Some (py_or (ae_summary e) (PList []))"
  by (simp_all add: analysis_entry_to_dict_def)

lemma map_of_vfp_rows:
  "map_of (fold (\<lambda>(parent, _, path). dict_modify parent [] (\<lambda>ps. ps @ [path])) rows d) k =
     (let new = map (\<lambda>(_, _, path). path) (filter (\<lambda>(parent, _, _). parent = k) rows)
      in case map_of d k of
           None \<Rightarrow> if new = [] then None else Some new
         | Some old \<Rightarrow> Some (old @ new))"
proof (induction rows arbitrary: d)
  case Nil
  then show ?case by (simp split: option.splits)
next
  case (Cons r rows)
  show ?case
    using Cons by (cases r) (auto simp: map_of_dict_modify Let_def split: option.splits)
qed

lemma convert_vfp_entries_lookup:
  "map_of (convert_vfp_entries_to_dict rows) k =
     (let ps = map (\<lambda>(_, _, path). path) (filter (\<lambda>(parent, _, _). parent = k) rows)
      in if ps = [] then None else Some ps)"
  by (simp add: convert_vfp_entries_to_dict_def map_of_vfp_rows)

end
