(* ===== verification/Database.thy ===== *)
theory Database
  imports Entry_Conversion
begin

text \<open>
  \<^verbatim>\<open>src/src/storage/schema.py\<close> and the queries of \<^verbatim>\<open>src/src/storage/db_interface_common.py\<close>. The
  database is a record of tables in row order; a query returns its rows in table order, which is
  one of the orders the database may choose. A table with a primary key is an association list.
  The recursive queries follow the relation \<open>included_files\<close> and do not end when it has a cycle:
  they take fuel, and \<open>None\<close> means that the fuel is used up.
\<close>

section \<open>Schema\<close>

record comparison_entry =
  ce_submission_date :: timestamp
  ce_data :: pydict

record search_cache_entry =
  sc_query :: string
  sc_yara_rule :: string
  sc_match_data :: pyval

record database =
  file_object_table :: "(string \<times> file_object_entry) list"
  firmware_table :: "(string \<times> firmware_entry) list"
  analysis_table :: "((string \<times> string) \<times> analysis_entry) list"
  included_files_table :: "(string \<times> string) list"
  fw_files_table :: "(string \<times> string) list"
  vfp_table :: "vfp_row list"
  comparison_table :: "(string \<times> comparison_entry) list"
  comparisons_table :: "(string \<times> string) list"
  stats_table :: "(string \<times> pydict) list"
  search_cache_table :: "(string \<times> search_cache_entry) list"
  template_table :: "(string \<times> string) list"

definition empty_database :: database where
  "empty_database = \<lparr>file_object_table = [], firmware_table = [], analysis_table = [],
     included_files_table = [], fw_files_table = [], vfp_table = [], comparison_table = [],
     comparisons_table = [], stats_table = [], search_cache_table = [], template_table = []\<rparr>"

text \<open>\<open>FileObjectEntry.get_included_uids\<close>, \<open>get_parent_uids\<close>, \<open>get_parent_fw_uids\<close>\<close>

definition get_included_uids :: "database \<Rightarrow> string \<Rightarrow> string set" where
  "get_included_uids db u = snd ` set (filter (\<lambda>(p, c). p = u) (included_files_table db))"

definition get_parent_uids :: "database \<Rightarrow> string \<Rightarrow> string list" where
  "get_parent_uids db u = remdups (map fst (filter (\<lambda>(p, c). c = u) (included_files_table db)))"

definition get_parent_fw_uids :: "database \<Rightarrow> string \<Rightarrow> string set" where
  "get_parent_fw_uids db u = fst ` set (filter (\<lambda>(r, f). f = u) (fw_files_table db))"

definition analyses_of :: "database \<Rightarrow> string \<Rightarrow> (string \<times> analysis_entry) list" where
  "analyses_of db u = List.map_filter (\<lambda>((v, p), a). if v = u then Some (p, a) else None) (analysis_table db)"

section \<open>Simple queries\<close>

text \<open>\<open>bool(session.execute(query).scalar())\<close> is also false for an empty UID.\<close>

definition exists_uid :: "database \<Rightarrow> string \<Rightarrow> bool" where
  "exists_uid db u \<longleftrightarrow> map_of (file_object_table db) u \<noteq> None \<and> u \<noteq> []"

definition uid_list_exists :: "database \<Rightarrow> string list \<Rightarrow> string set" where
  "uid_list_exists db us = set (filter (\<lambda>u. u \<in> set us) (map fst (file_object_table db)))"

definition is_firmware :: "database \<Rightarrow> string \<Rightarrow> bool" where
  "is_firmware db u \<longleftrightarrow> map_of (firmware_table db) u \<noteq> None \<and> u \<noteq> []"

definition all_uids_found_in_database :: "database \<Rightarrow> string list \<Rightarrow> bool" where
  "all_uids_found_in_database db us \<longleftrightarrow>
     us = [] \<or> length (filter (\<lambda>u. u \<in> set us) (map fst (file_object_table db))) \<ge> length us"

definition get_parent_fw_for_uid_list :: "database \<Rightarrow> string list \<Rightarrow> (string \<times> string set) list" where
  "get_parent_fw_for_uid_list db us =
     fold (\<lambda>(r, f) d. if f \<in> set us then dict_modify f {} (insert r) d else d) (fw_files_table db) []"

definition get_parent_fw :: "database \<Rightarrow> string \<Rightarrow> string set" where
  "get_parent_fw db u = (case map_of (get_parent_fw_for_uid_list db [u]) u of None \<Rightarrow> {} | Some s \<Rightarrow> s)"

definition get_analysis_entry :: "database \<Rightarrow> string \<Rightarrow> string \<Rightarrow> analysis_entry option" where
  "get_analysis_entry db u plugin = map_of (analysis_table db) (u, plugin)"

definition db_get_analysis :: "database \<Rightarrow> string \<Rightarrow> string \<Rightarrow> pydict option" where
  "db_get_analysis db u plugin = map_option analysis_entry_to_dict (get_analysis_entry db u plugin)"

section \<open>Virtual file paths\<close>

text \<open>
  The outer join with \<open>fw_files\<close>: a path row is repeated for each firmware of its parent, and kept
  once, without a firmware, if there is none.
\<close>

definition vfp_join_fw :: "database \<Rightarrow> vfp_row list \<Rightarrow> (vfp_row \<times> string option) list" where
  "vfp_join_fw db rows = concat (map (\<lambda>row. case row of (parent, _, _) \<Rightarrow>
     (case filter (\<lambda>(r, f). f = parent) (fw_files_table db) of
        [] \<Rightarrow> [(row, None)]
      | ms \<Rightarrow> map (\<lambda>(r, _). (row, Some r)) ms)) rows)"

definition filter_vfp_root :: "database \<Rightarrow> string \<Rightarrow> vfp_row list \<Rightarrow> vfp_row list" where
  "filter_vfp_root db r rows =
     map fst (filter (\<lambda>((parent, _, _), root_fw). root_fw = Some r \<or> parent = r) (vfp_join_fw db rows))"

definition get_vfps :: "database \<Rightarrow> string \<Rightarrow> string option \<Rightarrow> string option \<Rightarrow> vfp_dict" where
  "get_vfps db u parent_uid rt =
     (let rows = filter (\<lambda>(_, f, _). f = u) (vfp_table db);
          rows1 = (case parent_uid of None \<Rightarrow> rows | Some p \<Rightarrow> filter (\<lambda>(parent, _, _). parent = p) rows);
          rows2 = (case rt of None \<Rightarrow> rows1 | Some r \<Rightarrow> filter_vfp_root db r rows1)
      in convert_vfp_entries_to_dict rows2)"

definition get_vfps_for_uid_list ::
  "database \<Rightarrow> string list \<Rightarrow> string option \<Rightarrow> (string \<times> vfp_dict) list" where
  "get_vfps_for_uid_list db us rt =
     (if us = [] then []
      else
        let rows = filter (\<lambda>(_, f, _). f \<in> set us) (vfp_table db);
            rows1 = (case rt of
                Some r \<Rightarrow> if r = [] then rows else filter_vfp_root db r rows
              | None \<Rightarrow> rows)
        in fold (\<lambda>(parent, f, path). dict_modify f [] (dict_modify parent [] (\<lambda>ps. ps @ [path]))) rows1 [])"

definition get_vfps_in_parent :: "database \<Rightarrow> string \<Rightarrow> (string \<times> string list) list" where
  "get_vfps_in_parent db p =
     fold (\<lambda>(parent, f, path) d. if parent = p then dict_modify f [] (\<lambda>ps. ps @ [path]) d else d) (vfp_table db) []"

section \<open>Tags\<close>

definition PLUGINS_WITH_TAG_PROPAGATION :: "string list" where
  "PLUGINS_WITH_TAG_PROPAGATION = [''crypto_material'', ''cve_lookup'', ''known_vulnerabilities'',
     ''qemu_exec'', ''software_components'', ''users_and_passwords'']"

text \<open>
  \<open>_collect_analysis_tags_from_children\<close>: \<open>tag['propagate']\<close> raises for a tag without that key, and
  the items of tags that are no dictionary cannot be read.
\<close>

fun collect_tags_loop :: "string \<Rightarrow> (string \<times> pyval) list \<Rightarrow> (string \<times> pydict) list \<Rightarrow> (string \<times> pydict) list result" where
  "collect_tags_loop plugin [] unique = Inr unique"
| "collect_tags_loop plugin ((tag_type, t) # ts) unique =
     (if tag_type = ''root_uid'' then collect_tags_loop plugin ts unique
      else bindE (subscript t ''propagate'') (\<lambda>pr.
        if \<not> truthy pr then collect_tags_loop plugin ts unique
        else
          let d = (case map_of unique plugin of None \<Rightarrow> [] | Some d \<Rightarrow> d);
              key = (if map_of d tag_type \<noteq> None \<and> t \<notin> snd ` set d
                     then tag_type @ ''-'' @ nat_str (length d) else tag_type)
          in collect_tags_loop plugin ts (AList.update plugin (AList.update key t d) unique)))"

fun collect_tags_rows :: "(string \<times> pyval) list \<Rightarrow> (string \<times> pydict) list \<Rightarrow> (string \<times> pydict) list result" where
  "collect_tags_rows [] unique = Inr unique"
| "collect_tags_rows ((plugin, tags) # rows) unique =
     bindE (as_dict tags) (\<lambda>d. bindE (collect_tags_loop plugin d unique) (collect_tags_rows rows))"

definition collect_analysis_tags_from_children :: "database \<Rightarrow> string \<Rightarrow> (string \<times> pydict) list result" where
  "collect_analysis_tags_from_children db u =
     collect_tags_rows
       (List.map_filter (\<lambda>((v, plugin), a).
          if (u, v) \<in> set (fw_files_table db) \<and> ae_tags a \<noteq> PNone \<and> plugin \<in> set PLUGINS_WITH_TAG_PROPAGATION
          then Some (plugin, ae_tags a) else None) (analysis_table db)) []"

section \<open>Reading objects\<close>

definition db_firmware_from_entry ::
  "database \<Rightarrow> string \<Rightarrow> firmware_entry \<Rightarrow> string list option \<Rightarrow> file_object result" where
  "db_firmware_from_entry db u f analysis_filter = (case map_of (file_object_table db) u of
       None \<Rightarrow> Inl AttributeError
     | Some e \<Rightarrow>
         bindE (collect_analysis_tags_from_children db u) (\<lambda>tags.
           Inr ((firmware_from_entry u f e (analyses_of db u) analysis_filter (get_included_uids db u)
             (get_parent_uids db u))\<lparr>analysis_tags := map (\<lambda>(k, d). (k, PDict d)) tags\<rparr>)))"

definition get_firmware :: "database \<Rightarrow> string \<Rightarrow> string list option \<Rightarrow> file_object option result" where
  "get_firmware db u analysis_filter = (case map_of (firmware_table db) u of
       None \<Rightarrow> Inr None
     | Some f \<Rightarrow> bindE (db_firmware_from_entry db u f analysis_filter) (\<lambda>fo. Inr (Some fo)))"

definition get_file_object :: "database \<Rightarrow> string \<Rightarrow> string list option \<Rightarrow> file_object option" where
  "get_file_object db u analysis_filter =
     map_option (\<lambda>e. file_object_from_entry u e (analyses_of db u) analysis_filter
         (get_included_uids db u) (get_parent_uids db u) (get_vfps db u None None) (get_parent_fw db u))
       (map_of (file_object_table db) u)"

definition get_object :: "database \<Rightarrow> string \<Rightarrow> string list option \<Rightarrow> file_object option result" where
  "get_object db u analysis_filter =
     (if is_firmware db u then get_firmware db u analysis_filter
      else Inr (get_file_object db u analysis_filter))"

text \<open>
  \<open>get_objects_by_uid_list\<close>: the inner join with the parent relation drops objects that have no
  parent; a file without virtual paths raises \<open>KeyError\<close>; firmware objects are appended and ignore
  the analysis filter.
\<close>

definition get_objects_by_uid_list ::
  "database \<Rightarrow> string list \<Rightarrow> string list option \<Rightarrow> file_object list result" where
  "get_objects_by_uid_list db us analysis_filter =
     (let vfps = get_vfps_for_uid_list db us None;
          parent_fw = get_parent_fw_for_uid_list db us
      in bindE (mapE (\<lambda>(u, e).
             bindE (dict_item vfps u) (\<lambda>paths.
               Inr (file_object_from_entry u e (analyses_of db u) analysis_filter
                 {f \<in> get_included_uids db u. f \<noteq> []} (get_parent_uids db u) paths
                 (case map_of parent_fw u of None \<Rightarrow> {} | Some s \<Rightarrow> s))))
             (filter (\<lambda>(u, e). u \<in> set us \<and> get_parent_uids db u \<noteq> []) (file_object_table db)))
           (\<lambda>files.
             bindE (mapE (\<lambda>(u, f). db_firmware_from_entry db u f None)
               (filter (\<lambda>(u, f). u \<in> set us) (firmware_table db)))
             (\<lambda>fws. Inr (files @ fws))))"

section \<open>Included files\<close>

definition get_all_files_in_fw :: "database \<Rightarrow> string \<Rightarrow> string set" where
  "get_all_files_in_fw db fw = snd ` set (filter (\<lambda>(r, f). r = fw) (fw_files_table db))"

text \<open>One level: the files included in one of the files \<open>us\<close>, which must have an entry themselves\<close>

definition files_in_files_step :: "database \<Rightarrow> string set \<Rightarrow> string set" where
  "files_in_files_step db us =
     snd ` set (filter (\<lambda>(p, c). p \<in> us \<and> map_of (file_object_table db) p \<noteq> None) (included_files_table db))"

fun get_files_in_files :: "nat \<Rightarrow> database \<Rightarrow> string set \<Rightarrow> string set option" where
  "get_files_in_files 0 db us = None"
| "get_files_in_files (Suc n) db us =
     (if us = {} then Some {}
      else
        let included = files_in_files_step db us
        in if included \<noteq> {}
           then map_option (\<lambda>rest. included \<union> rest) (get_files_in_files n db included)
           else Some included)"

definition get_all_files_in_fo :: "nat \<Rightarrow> database \<Rightarrow> file_object \<Rightarrow> string set option" where
  "get_all_files_in_fo fuel db fo =
     map_option (\<lambda>fs. fs \<union> insert (uid fo) (files_included fo)) (get_files_in_files fuel db (files_included fo))"

definition get_list_of_all_included_files :: "nat \<Rightarrow> database \<Rightarrow> file_object \<Rightarrow> string set option" where
  "get_list_of_all_included_files fuel db fo =
     (if is_firmware_object fo then Some (get_all_files_in_fw db (uid fo))
      else get_all_files_in_fo fuel db fo)"

section \<open>Paths in the file tree\<close>

text \<open>The recursive query: all rows of \<open>included_files\<close> above the files \<open>us\<close> (with repetitions)\<close>

fun tree_query :: "nat \<Rightarrow> (string \<times> string) list \<Rightarrow> (string \<times> string) list \<Rightarrow> (string \<times> string) list option" where
  "tree_query 0 edges rows = None"
| "tree_query (Suc n) edges rows =
     (if rows = [] then Some []
      else map_option (\<lambda>rest. rows @ rest)
        (tree_query n edges
          (concat (map (\<lambda>(p, c). filter (\<lambda>(p', c'). c' = p) edges) rows))))"

fun generate_file_tree_path :: "nat \<Rightarrow> string \<Rightarrow> (string \<times> string list) list \<Rightarrow> string list list option" where
  "generate_file_tree_path 0 u c2p = None"
| "generate_file_tree_path (Suc n) u c2p =
     map_option concat (those (map (\<lambda>parent.
       map_option (map (\<lambda>path. path @ [u]))
         (if map_of c2p parent \<noteq> None then generate_file_tree_path n parent c2p else Some [[parent]]))
       (case map_of c2p u of None \<Rightarrow> [] | Some ps \<Rightarrow> ps)))"

definition child_to_parents :: "(string \<times> string) list \<Rightarrow> (string \<times> string list) list" where
  "child_to_parents pairs = fold (\<lambda>(p, c). dict_modify c [] (List.insert p)) pairs []"

definition convert_tuples_to_path ::
  "nat \<Rightarrow> (string \<times> string) list \<Rightarrow> string list \<Rightarrow> (string \<times> string list list) list option" where
  "convert_tuples_to_path fuel pairs us =
     map_option (\<lambda>ds. fold (\<lambda>(u, ps). AList.update u ps) ds [])
       (those (map (\<lambda>u. map_option (\<lambda>ps. (u, ps)) (generate_file_tree_path fuel u (child_to_parents pairs))) us))"

text \<open>\<open>uid_list[0]\<close>: the paths are never empty.\<close>

definition remove_paths_lacking_root_uid ::
  "string \<Rightarrow> (string \<times> string list list) list \<Rightarrow> (string \<times> string list list) list" where
  "remove_paths_lacking_root_uid r d =
     filter (\<lambda>(_, ps). ps \<noteq> []) (map (\<lambda>(u, ps). (u, filter (\<lambda>p. p \<noteq> [] \<and> hd p = r) ps)) d)"

definition get_file_tree_path_for_uid_list ::
  "nat \<Rightarrow> database \<Rightarrow> string list \<Rightarrow> string option \<Rightarrow> (string \<times> string list list) list option" where
  "get_file_tree_path_for_uid_list fuel db us rt =
     (case tree_query fuel (included_files_table db)
         (filter (\<lambda>(p, c). c \<in> set us) (included_files_table db)) of
        None \<Rightarrow> None
      | Some pairs \<Rightarrow>
          map_option (\<lambda>d.
            let d1 = map (\<lambda>(u, ps). (u, if ps = [] then [[u]] else ps)) d
            in case rt of None \<Rightarrow> d1 | Some r \<Rightarrow> remove_paths_lacking_root_uid r d1)
          (convert_tuples_to_path fuel pairs us))"

definition get_file_tree_path :: "nat \<Rightarrow> database \<Rightarrow> string \<Rightarrow> string option \<Rightarrow> string list list option" where
  "get_file_tree_path fuel db u rt =
     map_option (\<lambda>d. case map_of d u of None \<Rightarrow> [] | Some ps \<Rightarrow> ps)
       (get_file_tree_path_for_uid_list fuel db [u] rt)"

section \<open>Summaries\<close>

text \<open>\<open>set(summary_list or [])\<close> is iterated in some order: here without the later repetitions.\<close>

fun summary_items :: "pyval \<Rightarrow> string list" where
  "summary_items (PList vs) = remdups (map str_of_py vs)"
| "summary_items _ = []"

definition collect_summary_for_uid_list :: "database \<Rightarrow> string set \<Rightarrow> string \<Rightarrow> (string \<times> string list) list" where
  "collect_summary_for_uid_list db us plugin =
     fold (\<lambda>((u, p), a) d.
       if p = plugin \<and> u \<in> us
       then fold (\<lambda>item. dict_modify item [] (\<lambda>xs. xs @ [u])) (summary_items (ae_summary a)) d
       else d) (analysis_table db) []"

definition get_summary ::
  "nat \<Rightarrow> database \<Rightarrow> file_object \<Rightarrow> string \<Rightarrow> (string \<times> string list) list option option" where
  "get_summary fuel db fo selected = (case map_of (processed_analysis fo) selected of
       None \<Rightarrow> Some None
     | Some data \<Rightarrow> (case data of
           PDict d \<Rightarrow>
             (if map_of d ''summary'' = None then Some None
              else map_option (\<lambda>fs. Some (collect_summary_for_uid_list db fs selected))
                (if \<not> is_firmware_object fo
                 then (case list_of_all_included_files fo of
                     Some fs \<Rightarrow> if fs \<noteq> {} then Some fs else get_list_of_all_included_files fuel db fo
                   | None \<Rightarrow> get_list_of_all_included_files fuel db fo)
                 else Some (insert (uid fo) (get_all_files_in_fw db (uid fo)))))
         | _ \<Rightarrow> Some None))"

definition apply_offset_and_limit :: "nat option \<Rightarrow> nat option \<Rightarrow> 'a list \<Rightarrow> 'a list" where
  "apply_offset_and_limit skip limit rows =
     (let rows1 = (case skip of Some n \<Rightarrow> drop n rows | None \<Rightarrow> rows)
      in case limit of Some n \<Rightarrow> if n = 0 then rows1 else take n rows1 | None \<Rightarrow> rows1)"


section \<open>The recursive queries on an acyclic relation\<close>

definition included_rel :: "database \<Rightarrow> (string \<times> string) set" where
  "included_rel db = {(p, c). (p, c) \<in> set (included_files_table db) \<and> map_of (file_object_table db) p \<noteq> None}"

lemma files_in_files_step_rel: "files_in_files_step db us = included_rel db `` us"
  by (force simp: files_in_files_step_def included_rel_def)

lemma Image_trancl_unfold: "r\<^sup>+ `` A = r `` A \<union> r\<^sup>+ `` (r `` A)"
proof (intro subset_antisym subsetI)
  fix y
  assume "y \<in> r\<^sup>+ `` A"
  then obtain x z where "x \<in> A" "(x, z) \<in> r" "(z, y) \<in> r\<^sup>*"
    by (auto dest: tranclD)
  then show "y \<in> r `` A \<union> r\<^sup>+ `` (r `` A)"
    by (metis Image_singleton_iff ImageI UnCI rtranclD)
qed (auto intro: trancl_into_trancl2)

lemma get_files_in_files_trancl:
  assumes rk: "\<And>p c. (p, c) \<in> included_rel db \<Longrightarrow> rk c < (rk p :: nat)"
  shows "0 < fuel \<Longrightarrow> \<forall>u \<in> us. rk u < fuel \<Longrightarrow>
     get_files_in_files fuel db us = Some ((included_rel db)\<^sup>+ `` us)"
proof (induction fuel arbitrary: us)
  case (Suc n)
  let ?step = "included_rel db `` us"
  show ?case
  proof (cases "?step = {}")
    case True
    then show ?thesis
      using Image_trancl_unfold [of "included_rel db" us] by (simp add: files_in_files_step_rel)
  next
    case False
    have below: "\<forall>c \<in> ?step. rk c < n"
      using Suc.prems rk by fastforce
    then have "get_files_in_files n db ?step = Some ((included_rel db)\<^sup>+ `` ?step)"
      using False by (intro Suc.IH) auto
    then show ?thesis
      using False Image_trancl_unfold [of "included_rel db" us]
      by (simp add: files_in_files_step_rel Let_def)
  qed
qed simp

text \<open>The chains from a root of the relation down to a file\<close>

definition tree_path :: "(string \<times> string) set \<Rightarrow> string \<Rightarrow> string list \<Rightarrow> bool" where
  "tree_path edges u path \<longleftrightarrow> path \<noteq> [] \<and> last path = u \<and> successively (\<lambda>a b. (a, b) \<in> edges) path \<and>
     hd path \<notin> Range edges"

lemma tree_path_snoc:
  "tree_path edges u (path @ [v]) \<longleftrightarrow>
     v = u \<and> (if path = [] then u \<notin> Range edges
       else tree_path edges (last path) path \<and> (last path, u) \<in> edges)"
  by (auto simp: tree_path_def successively_append_iff)

lemma tree_path_step:
  "{path. tree_path edges u path \<and> path \<noteq> [u]} =
     (\<Union>q \<in> {q. (q, u) \<in> edges}. (\<lambda>path. path @ [u]) ` {path. tree_path edges q path})"
proof (intro set_eqI iffI)
  fix path
  assume "path \<in> {path. tree_path edges u path \<and> path \<noteq> [u]}"
  then have tp: "tree_path edges u path" "path \<noteq> [u]" "path \<noteq> []"
    by (auto simp: tree_path_def)
  then obtain xs where xs: "path = xs @ [u]" "xs \<noteq> []"
    by (metis append_Nil append_butlast_last_id tree_path_def)
  then show "path \<in> (\<Union>q \<in> {q. (q, u) \<in> edges}. (\<lambda>path. path @ [u]) ` {path. tree_path edges q path})"
    using tp(1) by (auto simp: tree_path_snoc)
next
  fix path
  assume "path \<in> (\<Union>q \<in> {q. (q, u) \<in> edges}. (\<lambda>path. path @ [u]) ` {path. tree_path edges q path})"
  then obtain q xs where "(q, u) \<in> edges" "tree_path edges q xs" "path = xs @ [u]"
    by auto
  then show "path \<in> {path. tree_path edges u path \<and> path \<noteq> [u]}"
    by (auto simp: tree_path_snoc) (auto simp: tree_path_def)
qed

text \<open>\<open>c2p\<close> knows all parents of \<open>u\<close> and of everything above it.\<close>

definition parents_known :: "(string \<times> string) set \<Rightarrow> (string \<times> string list) list \<Rightarrow> string \<Rightarrow> bool" where
  "parents_known edges c2p u \<longleftrightarrow> (\<forall>v. (v, u) \<in> edges\<^sup>* \<longrightarrow>
     (case map_of c2p v of None \<Rightarrow> v \<notin> Range edges | Some ps \<Rightarrow> v \<in> Range edges \<and> set ps = {q. (q, v) \<in> edges}))"

lemma parents_known_parent: "parents_known edges c2p u \<Longrightarrow> (q, u) \<in> edges \<Longrightarrow> parents_known edges c2p q"
  unfolding parents_known_def by (meson rtrancl.rtrancl_into_rtrancl)

lemma those_map_Some:
  assumes "\<And>x. x \<in> set xs \<Longrightarrow> \<exists>y. f x = Some y \<and> P x y"
  shows "\<exists>ys. those (map f xs) = Some ys \<and> list_all2 P xs ys"
  using assms
proof (induction xs)
  case (Cons x xs)
  then show ?case
    by (metis list.set_intros list.simps(9) list_all2_Cons option.simps(5) option.simps(9) those.simps(2))
qed simp

lemma set_concat_all2:
  "list_all2 (\<lambda>x ys. set ys = F x) xs yss \<Longrightarrow> set (concat yss) = (\<Union>x \<in> set xs. F x)"
  by (induction rule: list_all2_induct) auto

lemma generate_file_tree_path_correct:
  assumes dk: "\<And>p c. (p, c) \<in> edges \<Longrightarrow> dk p < (dk c :: nat)"
  shows "dk u < fuel \<Longrightarrow> parents_known edges c2p u \<Longrightarrow>
     \<exists>ps. generate_file_tree_path fuel u c2p = Some ps \<and> set ps = {path. tree_path edges u path \<and> path \<noteq> [u]}"
proof (induction fuel arbitrary: u)
  case (Suc n)
  let ?above = "\<lambda>q. if map_of c2p q \<noteq> None then generate_file_tree_path n q c2p else Some [[q]]"
  let ?parents = "case map_of c2p u of None \<Rightarrow> [] | Some ps \<Rightarrow> ps"
  have parents: "set ?parents = {q. (q, u) \<in> edges}"
    using Suc.prems(2) by (auto simp: parents_known_def split: option.splits)
  have above: "\<exists>ys. ?above q = Some ys \<and> set ys = {path. tree_path edges q path}" if q: "(q, u) \<in> edges" for q
  proof (cases "map_of c2p q")
    case None
    then have "q \<notin> Range edges"
      using parents_known_parent [OF Suc.prems(2) q] by (auto simp: parents_known_def split: option.splits)
    then have "{path. tree_path edges q path} = {[q]}"
      using tree_path_step [of edges q] by (auto simp: tree_path_def)
    then show ?thesis
      using None by simp
  next
    case (Some ps)
    then have "q \<in> Range edges"
      using parents_known_parent [OF Suc.prems(2) q] by (fastforce simp: parents_known_def)
    then have "\<not> tree_path edges q [q]"
      by (simp add: tree_path_def)
    then show ?thesis
      using Some Suc.IH [of q] parents_known_parent [OF Suc.prems(2) q] dk [OF q] Suc.prems(1)
      by (auto 0 3)
  qed
  have "\<exists>yss. those (map (\<lambda>q. map_option (map (\<lambda>path. path @ [u])) (?above q)) ?parents) = Some yss \<and>
      list_all2 (\<lambda>q ys. set ys = (\<lambda>path. path @ [u]) ` {path. tree_path edges q path}) ?parents yss"
    using above parents by (intro those_map_Some) fastforce
  then obtain yss where yss: "those (map (\<lambda>q. map_option (map (\<lambda>path. path @ [u])) (?above q)) ?parents) = Some yss"
    and "list_all2 (\<lambda>q ys. set ys = (\<lambda>path. path @ [u]) ` {path. tree_path edges q path}) ?parents yss"
    by blast
  then have "set (concat yss) =
      (\<Union>q \<in> set ?parents. (\<lambda>path. path @ [u]) ` {path. tree_path edges q path})"
    by (intro set_concat_all2)
  then show ?case
    using yss unfolding tree_path_step [of edges u] parents by simp
qed simp


lemma tree_query_correct:
  assumes dk: "\<And>p c. (p, c) \<in> set edges \<Longrightarrow> dk p < (dk c :: nat)"
  shows "0 < fuel \<Longrightarrow> \<forall>(p, c) \<in> set rows. dk p + 1 < fuel \<Longrightarrow>
     \<exists>res. tree_query fuel edges rows = Some res \<and>
       set res = set rows \<union> {(p, c) \<in> set edges. \<exists>(q, d) \<in> set rows. (c, q) \<in> (set edges)\<^sup>*}"
proof (induction fuel arbitrary: rows)
  case (Suc n)
  let ?next = "concat (map (\<lambda>(p, c). filter (\<lambda>(p', c'). c' = p) edges) rows)"
  have nxt: "set ?next = {(p, c) \<in> set edges. \<exists>d. (c, d) \<in> set rows}"
    by auto
  show ?case
  proof (cases "rows = []")
    case False
    have "0 < n"
      using False Suc.prems by (cases rows) auto
    moreover have "\<forall>(p, c) \<in> set ?next. dk p + 1 < n"
      using Suc.prems(2) dk unfolding nxt by fastforce
    ultimately obtain res where res: "tree_query n edges ?next = Some res"
      "set res = set ?next \<union> {(p, c) \<in> set edges. \<exists>(q, d) \<in> set ?next. (c, q) \<in> (set edges)\<^sup>*}"
      using Suc.IH by blast
    have "set res = {(p, c) \<in> set edges. \<exists>(q, d) \<in> set rows. (c, q) \<in> (set edges)\<^sup>*}"
    proof -
      have up: "(\<exists>(q, d) \<in> set rows. (c, q) \<in> (set edges)\<^sup>*) \<longleftrightarrow> (\<exists>d. (c, d) \<in> set rows) \<or>
          (\<exists>y q d. (q, d) \<in> set rows \<and> (y, q) \<in> set edges \<and> (c, y) \<in> (set edges)\<^sup>*)" for c
      proof
        assume "\<exists>(q, d) \<in> set rows. (c, q) \<in> (set edges)\<^sup>*"
        then obtain q d where row: "(q, d) \<in> set rows" and "(c, q) \<in> (set edges)\<^sup>*" by auto
        from this(2) show "(\<exists>d. (c, d) \<in> set rows) \<or>
            (\<exists>y q d. (q, d) \<in> set rows \<and> (y, q) \<in> set edges \<and> (c, y) \<in> (set edges)\<^sup>*)"
          using row by (cases rule: rtranclE) blast+
      qed (blast intro: rtrancl.rtrancl_into_rtrancl)
      show ?thesis
        unfolding res(2) nxt up by fast
    qed
    then show ?thesis
      using False res(1) by simp
  qed simp
qed simp

lemma map_of_child_to_parents:
  "map_option set (map_of (fold (\<lambda>(p, c). dict_modify c [] (List.insert p)) pairs d) v) =
     (let new = {p. (p, v) \<in> set pairs}
      in case map_of d v of
           None \<Rightarrow> if new = {} then None else Some new
         | Some old \<Rightarrow> Some (set old \<union> new))"
proof (induction pairs arbitrary: d)
  case Nil
  then show ?case by (simp split: option.splits)
next
  case (Cons r pairs)
  show ?case
    using Cons by (cases r) (auto simp: map_of_dict_modify Let_def split: option.splits)
qed

lemma child_to_parents_known:
  assumes "set pairs = {(p, c) \<in> edges. (c, u) \<in> edges\<^sup>*}"
  shows "parents_known edges (child_to_parents pairs) u"
  unfolding parents_known_def
proof (intro allI impI)
  fix v
  assume v: "(v, u) \<in> edges\<^sup>*"
  have "{p. (p, v) \<in> set pairs} = {q. (q, v) \<in> edges}"
    using assms v by auto
  then have "map_option set (map_of (child_to_parents pairs) v) =
      (if v \<in> Range edges then Some {q. (q, v) \<in> edges} else None)"
    using map_of_child_to_parents [of pairs "[]" v] unfolding child_to_parents_def
    by (auto simp: Let_def Range_iff)
  then show "case map_of (child_to_parents pairs) v of None \<Rightarrow> v \<notin> Range edges
      | Some ps \<Rightarrow> v \<in> Range edges \<and> set ps = {q. (q, v) \<in> edges}"
    by (auto split: option.splits if_splits)
qed

lemma tree_path_exists:
  assumes dk: "\<And>p c. (p, c) \<in> edges \<Longrightarrow> dk p < (dk c :: nat)"
  shows "\<exists>path. tree_path edges u path"
proof (induction "dk u" arbitrary: u rule: less_induct)
  case less
  show ?case
  proof (cases "u \<in> Range edges")
    case True
    then obtain q path where "(q, u) \<in> edges" "tree_path edges q path"
      using less dk by blast
    then have "tree_path edges u (path @ [u])"
      unfolding tree_path_snoc by (auto simp: tree_path_def)
    then show ?thesis ..
  next
    case False
    then have "tree_path edges u [u]"
      by (simp add: tree_path_def)
    then show ?thesis ..
  qed
qed

lemma tree_path_root: "u \<notin> Range edges \<Longrightarrow> tree_path edges u path \<longleftrightarrow> path = [u]"
  using tree_path_step [of edges u] by (auto simp: tree_path_def)

lemma tree_path_fallback:
  assumes dk: "\<And>p c. (p, c) \<in> edges \<Longrightarrow> dk p < (dk c :: nat)"
    and ps: "set ps = {path. tree_path edges u path \<and> path \<noteq> [u]}"
  shows "set (if ps = [] then [[u]] else ps) = {path. tree_path edges u path}"
proof (cases "u \<in> Range edges")
  case True
  then have "\<not> tree_path edges u [u]"
    by (simp add: tree_path_def)
  then have "set ps = {path. tree_path edges u path}"
    using ps by auto
  then show ?thesis
    using tree_path_exists [of edges dk u] dk by auto
next
  case False
  then have "set ps = {}"
    using ps by (auto simp: tree_path_root)
  then show ?thesis
    using False by (simp add: tree_path_root)
qed

lemma get_file_tree_path_none:
  assumes dk: "\<And>p c. (p, c) \<in> set (included_files_table db) \<Longrightarrow> dk p < (dk c :: nat)"
    and "dk u < fuel"
  shows "\<exists>ps. get_file_tree_path fuel db u None = Some ps \<and>
     set ps = {path. tree_path (set (included_files_table db)) u path}"
proof -
  let ?E = "set (included_files_table db)"
  let ?rows = "filter (\<lambda>(p, c). c \<in> set [u]) (included_files_table db)"
  have "\<forall>(p, c) \<in> set ?rows. dk p + 1 < fuel"
    using dk assms(2) by fastforce
  then obtain pairs where pairs: "tree_query fuel (included_files_table db) ?rows = Some pairs"
    "set pairs = set ?rows \<union> {(p, c) \<in> ?E. \<exists>(q, d) \<in> set ?rows. (c, q) \<in> ?E\<^sup>*}"
    using tree_query_correct [of "included_files_table db" dk fuel ?rows] dk assms(2) by auto
  have "set pairs = {(p, c) \<in> ?E. (c, u) \<in> ?E\<^sup>*}"
    unfolding pairs(2) by (auto elim: rtranclE intro: rtrancl.rtrancl_into_rtrancl)
  from child_to_parents_known [OF this] obtain ps where ps:
    "generate_file_tree_path fuel u (child_to_parents pairs) = Some ps"
    "set ps = {path. tree_path ?E u path \<and> path \<noteq> [u]}"
    using generate_file_tree_path_correct [of ?E dk u fuel] dk assms(2) by blast
  then show ?thesis
    using pairs(1) tree_path_fallback [of ?E dk ps u] dk ps(2)
    by (simp add: get_file_tree_path_def get_file_tree_path_for_uid_list_def convert_tuples_to_path_def)
qed

text \<open>
  C12. On an acyclic inclusion relation the recursive search for the files contained in a file ends
  and returns exactly the file itself and everything reachable from it through included files.
\<close>

theorem get_all_files_in_fo_correct:
  assumes "\<And>p c. (p, c) \<in> included_rel db \<Longrightarrow> rk c < (rk p :: nat)"
    and "files_included fo = included_rel db `` {uid fo}" and "rk (uid fo) < fuel"
  shows "get_all_files_in_fo fuel db fo = Some ((included_rel db)\<^sup>* `` {uid fo})"
proof -
  have "\<forall>u \<in> files_included fo. rk u < fuel"
    using assms by fastforce
  then have "get_files_in_files fuel db (files_included fo) = Some ((included_rel db)\<^sup>+ `` files_included fo)"
    using assms by (intro get_files_in_files_trancl) auto
  moreover have "(included_rel db)\<^sup>* `` {uid fo} =
      insert (uid fo) (files_included fo) \<union> (included_rel db)\<^sup>+ `` files_included fo"
    using Image_trancl_unfold [of "included_rel db" "{uid fo}"]
    by (auto simp: assms(2) rtrancl_eq_or_trancl)
  ultimately show ?thesis
    by (simp add: get_all_files_in_fo_def Un_commute)
qed

text \<open>
  On an acyclic inclusion relation the file tree query ends, and the paths it returns for a file
  are exactly the chains of included files from a root (a file that is included in no other file)
  down to that file.
\<close>

theorem get_file_tree_path_correct:
  assumes "\<And>p c. (p, c) \<in> set (included_files_table db) \<Longrightarrow> dk p < (dk c :: nat)"
    and "dk u < fuel"
  shows "\<exists>ps. get_file_tree_path fuel db u None = Some ps \<and>
     set ps = {path. tree_path (set (included_files_table db)) u path}"
  using get_file_tree_path_none [of db dk u fuel] assms by simp

definition example_entry :: "bool \<Rightarrow> file_object_entry" where
  "example_entry fw = \<lparr>e_sha256 = Some ''h'', e_file_name = Some ''n'', e_depth = 0, e_size = Some 1,
     e_comments = [], e_is_firmware = fw\<rparr>"

definition example_db :: database where
  "example_db = empty_database\<lparr>file_object_table := [(''fw'', example_entry True),
       (''a'', example_entry False), (''b'', example_entry False)],
     included_files_table := [(''fw'', ''a''), (''a'', ''b'')]\<rparr>"

definition example_rank :: "string \<Rightarrow> nat" where
  "example_rank u = (if u = ''fw'' then 2 else if u = ''a'' then 1 else 0)"

definition example_fo :: file_object where
  "example_fo = (empty_file_object ''fw'' False)\<lparr>files_included := {''a''}\<rparr>"

lemma example_included_rel: "included_rel example_db = {(''fw'', ''a''), (''a'', ''b'')}"
  by (auto simp: included_rel_def example_db_def empty_database_def)

theorem get_all_files_in_fo_witness:
  "get_all_files_in_fo 3 example_db example_fo = Some ((included_rel example_db)\<^sup>* `` {uid example_fo})"
  by (rule get_all_files_in_fo_correct [where rk = example_rank])
    (auto simp: example_included_rel example_rank_def example_fo_def empty_file_object_def)

theorem get_file_tree_path_witness:
  "\<exists>ps. get_file_tree_path 3 example_db ''b'' None = Some ps \<and>
     set ps = {path. tree_path (set (included_files_table example_db)) ''b'' path}"
  by (rule get_file_tree_path_correct [where dk = "\<lambda>u. 2 - example_rank u"])
    (auto simp: example_db_def empty_database_def example_rank_def)

end
