(* ===== verification/Database_Backend.thy ===== *)
theory Database_Backend
  imports Database
begin

text \<open>
  The write operations of \<^verbatim>\<open>src/src/storage/db_interface_backend.py\<close>, \<^verbatim>\<open>db_interface_admin.py\<close>,
  \<^verbatim>\<open>db_interface_frontend_editing.py\<close> and \<^verbatim>\<open>db_interface_view_sync.py\<close>. One read-write session
  (\<^verbatim>\<open>db_interface_base.py\<close>) is one value of type \<open>database result\<close>: the commit is the \<open>Inr\<close> value, and
  after an exception nothing of the session is visible. The constraints declared in \<^verbatim>\<open>schema.py\<close>
  (primary keys, foreign keys, \<open>nullable=False\<close>) are checked where the session is committed and
  give \<open>DbInterfaceError\<close>; \<open>ON DELETE CASCADE\<close> and the listener \<open>delete_file_orphans\<close> are part of the
  deletion. What the database driver makes of an analysis row is the parameter \<open>flush\<close>; it returns
  the row as it is read back, or the error of the session.
\<close>

type_synonym flush_fun = "string \<times> string \<Rightarrow> analysis_entry \<Rightarrow> analysis_entry result"

section \<open>Inserting objects\<close>

definition in_files :: "database \<Rightarrow> string \<Rightarrow> bool" where
  "in_files db u \<longleftrightarrow> map_of (file_object_table db) u \<noteq> None"

definition update_entries :: "database \<Rightarrow> string list \<Rightarrow> string list result" where
  "update_entries db us =
     (let found = filter (in_files db) us
      in if us \<noteq> [] \<and> found = [] then Inl DbInterfaceError else Inr found)"

definition add_rows :: "'a list \<Rightarrow> 'a list \<Rightarrow> 'a list" where
  "add_rows new rows = fold (\<lambda>r rs. if r \<in> set rs then rs else rs @ [r]) new rows"

text \<open>\<open>_update_parents\<close> for the entry \<open>u\<close>: the relations of the root firmware and of the parents\<close>

definition update_parents :: "string list \<Rightarrow> string list \<Rightarrow> string \<Rightarrow> database \<Rightarrow> database result" where
  "update_parents root_fw_uids parent_uids u db =
     bindE (update_entries db root_fw_uids) (\<lambda>roots.
     bindE (update_entries db parent_uids) (\<lambda>prnts.
       Inr (db\<lparr>fw_files_table := add_rows (map (\<lambda>r. (r, u)) roots) (fw_files_table db),
               included_files_table := add_rows (map (\<lambda>p. (p, u)) prnts) (included_files_table db)\<rparr>)))"

definition file_row_ok :: "file_object_entry \<Rightarrow> bool" where
  "file_row_ok e \<longleftrightarrow> e_sha256 e \<noteq> None \<and> e_file_name e \<noteq> None \<and> e_size e \<noteq> None"

definition firmware_row_ok :: "firmware_entry \<Rightarrow> bool" where
  "firmware_row_ok f \<longleftrightarrow> e_version f \<noteq> None \<and> e_vendor f \<noteq> None \<and> e_device_name f \<noteq> None \<and> e_device_class f \<noteq> None"

definition flush_analyses ::
  "flush_fun \<Rightarrow> ((string \<times> string) \<times> analysis_entry) list \<Rightarrow> ((string \<times> string) \<times> analysis_entry) list result" where
  "flush_analyses flush rows = mapE (\<lambda>(k, a). bindE (flush k a) (\<lambda>a'. Inr (k, a'))) rows"

definition check :: "bool \<Rightarrow> py_error \<Rightarrow> unit result" where
  "check b e = (if b then Inr () else Inl e)"

definition insert_file_object ::
  "codec \<Rightarrow> flush_fun \<Rightarrow> file_object \<Rightarrow> database \<Rightarrow> database result" where
  "insert_file_object codec flush fo db =
     (case create_file_object_entry codec fo of (entry, fo1) \<Rightarrow>
       bindE (update_parents (sorted_list_of_set (parent_firmware_uids fo1)) (parents fo1) (uid fo1) db) (\<lambda>db1.
       bindE (create_analysis_entries codec fo1) (\<lambda>analyses.
       bindE (check (\<not> in_files db (uid fo1) \<and> file_row_ok entry) DbInterfaceError) (\<lambda>_.
       bindE (flush_analyses flush analyses) (\<lambda>rows.
       bindE (check (distinct (create_vfp_entries fo1) \<and>
           list_all (\<lambda>(p, _, _). in_files db p \<or> p = uid fo1) (create_vfp_entries fo1)) DbInterfaceError) (\<lambda>_.
         Inr (db1\<lparr>file_object_table := file_object_table db @ [(uid fo1, entry)],
               analysis_table := analysis_table db @ rows,
               vfp_table := vfp_table db @ create_vfp_entries fo1\<rparr>)))))))"

definition insert_firmware ::
  "codec \<Rightarrow> flush_fun \<Rightarrow> timestamp \<Rightarrow> file_object \<Rightarrow> firmware_data \<Rightarrow> database \<Rightarrow> database result" where
  "insert_firmware codec flush now fo fw db =
     (case create_file_object_entry codec fo of (entry, fo1) \<Rightarrow>
       bindE (create_firmware_entry now fo1 fw) (\<lambda>fw_entry.
       bindE (create_analysis_entries codec fo1) (\<lambda>analyses.
       bindE (check (\<not> in_files db (uid fo1) \<and> file_row_ok entry \<and> firmware_row_ok fw_entry) DbInterfaceError) (\<lambda>_.
       bindE (flush_analyses flush analyses) (\<lambda>rows.
         Inr (db\<lparr>file_object_table := file_object_table db @ [(uid fo1, entry)],
               firmware_table := firmware_table db @ [(uid fo1, fw_entry)],
               analysis_table := analysis_table db @ rows\<rparr>))))))"

definition insert_object ::
  "codec \<Rightarrow> flush_fun \<Rightarrow> timestamp \<Rightarrow> file_object \<Rightarrow> database \<Rightarrow> database result" where
  "insert_object codec flush now fo db = (case firmware fo of
       Some fw \<Rightarrow> insert_firmware codec flush now fo fw db
     | None \<Rightarrow> insert_file_object codec flush fo db)"

section \<open>Analysis results\<close>

definition sanitize_plugin_version :: "pyval \<Rightarrow> pyval" where
  "sanitize_plugin_version v = (case v of PVersion s \<Rightarrow> PStr s | _ \<Rightarrow> v)"

text \<open>\<open>MutableDict.as_mutable(JSONB)\<close>: only a dictionary or \<open>None\<close> can be assigned.\<close>

fun coerce_dict :: "pyval \<Rightarrow> unit result" where
  "coerce_dict (PDict d) = Inr ()"
| "coerce_dict PNone = Inr ()"
| "coerce_dict _ = Inl ValueError"

definition sanitize_result :: "codec \<Rightarrow> pydict \<Rightarrow> pyval result" where
  "sanitize_result codec d =
     (let result = dict_get d ''result'' (PDict [])
      in if result = PNone then Inr PNone else sanitize codec result)"

definition analysis_exists :: "string \<Rightarrow> string \<Rightarrow> database \<Rightarrow> bool" where
  "analysis_exists u plugin db \<longleftrightarrow> map_of (analysis_table db) (u, plugin) \<noteq> None \<and> u \<noteq> []"

definition insert_analysis ::
  "codec \<Rightarrow> flush_fun \<Rightarrow> string \<Rightarrow> string \<Rightarrow> pydict \<Rightarrow> database \<Rightarrow> database result" where
  "insert_analysis codec flush u plugin d db =
     bindE (check (in_files db u) DbInterfaceError) (\<lambda>_.
     bindE (check (map_of d ''plugin_version'' \<noteq> None \<and> map_of d ''analysis_date'' \<noteq> None) DbInterfaceError) (\<lambda>_.
     bindE (sanitize_result codec d) (\<lambda>result.
     bindE (coerce_dict (dict_get d ''tags'' PNone)) (\<lambda>_.
     bindE (check (map_of (analysis_table db) (u, plugin) = None) DbInterfaceError) (\<lambda>_.
     bindE (flush (u, plugin)
         \<lparr>ae_plugin_version = sanitize_plugin_version (dict_get d ''plugin_version'' PNone),
          ae_system_version = dict_get d ''system_version'' PNone,
          ae_analysis_date = dict_get d ''analysis_date'' PNone,
          ae_summary = dict_get d ''summary'' PNone,
          ae_tags = dict_get d ''tags'' PNone, ae_result = result\<rparr>) (\<lambda>row.
       Inr (db\<lparr>analysis_table := analysis_table db @ [((u, plugin), row)]\<rparr>)))))))"

definition update_analysis ::
  "codec \<Rightarrow> flush_fun \<Rightarrow> string \<Rightarrow> string \<Rightarrow> pydict \<Rightarrow> database \<Rightarrow> database result" where
  "update_analysis codec flush u plugin d db =
     bindE (check (map_of (analysis_table db) (u, plugin) \<noteq> None) AttributeError) (\<lambda>_.
     bindE (dict_item d ''plugin_version'') (\<lambda>version.
     bindE (dict_item d ''analysis_date'') (\<lambda>date.
     bindE (coerce_dict (dict_get d ''tags'' PNone)) (\<lambda>_.
     bindE (sanitize_result codec d) (\<lambda>result.
     bindE (flush (u, plugin)
         \<lparr>ae_plugin_version = sanitize_plugin_version version,
          ae_system_version = dict_get d ''system_version'' PNone,
          ae_analysis_date = date,
          ae_summary = dict_get d ''summary'' PNone,
          ae_tags = dict_get d ''tags'' PNone, ae_result = result\<rparr>) (\<lambda>row.
       Inr (db\<lparr>analysis_table := AList.update (u, plugin) row (analysis_table db)\<rparr>)))))))"

text \<open>
  \<open>add_analysis\<close> logs database errors and returns; a \<open>ValueError\<close> and every other exception leaves it.
\<close>

definition db_add_analysis ::
  "codec \<Rightarrow> flush_fun \<Rightarrow> string \<Rightarrow> string \<Rightarrow> pydict \<Rightarrow> database \<Rightarrow> database result" where
  "db_add_analysis codec flush u plugin d db =
     (case (if analysis_exists u plugin db then update_analysis codec flush u plugin d db
            else insert_analysis codec flush u plugin d db) of
        Inr db' \<Rightarrow> Inr db'
      | Inl DbSerializationError \<Rightarrow> Inr db
      | Inl DbInterfaceError \<Rightarrow> Inr db
      | Inl e \<Rightarrow> Inl e)"

section \<open>Paths and parents\<close>

definition add_vfp :: "string \<Rightarrow> string \<Rightarrow> string list \<Rightarrow> database \<Rightarrow> database result" where
  "add_vfp parent child paths db =
     bindE (check (paths = [] \<or> in_files db parent \<and> in_files db child) DbInterfaceError) (\<lambda>_.
       Inr (db\<lparr>vfp_table := add_rows (map (\<lambda>p. (parent, child, p)) paths) (vfp_table db)\<rparr>))"

text \<open>\<open>suppress(IntegrityError)\<close>: an existing row and a missing file are both ignored.\<close>

definition add_child_to_parent :: "string \<Rightarrow> string \<Rightarrow> database \<Rightarrow> database" where
  "add_child_to_parent parent child db =
     (if in_files db parent \<and> in_files db child
      then db\<lparr>included_files_table := add_rows [(parent, child)] (included_files_table db)\<rparr>
      else db)"

definition update_file_object_parents :: "string \<Rightarrow> string \<Rightarrow> string \<Rightarrow> database \<Rightarrow> database result" where
  "update_file_object_parents file rt parent db =
     bindE (check (in_files db file) AttributeError) (\<lambda>_. update_parents [rt] [parent] file db)"

section \<open>Updating objects\<close>

definition update_firmware :: "string \<Rightarrow> firmware_data \<Rightarrow> database \<Rightarrow> database result" where
  "update_firmware u fw db = (case map_of (firmware_table db) u of
       None \<Rightarrow> Inl AttributeError
     | Some entry \<Rightarrow>
         (case bindE (case release_date fw of None \<Rightarrow> Inl TypeError | Some s \<Rightarrow> strptime_ymd s) (\<lambda>rd.
            let entry' = entry\<lparr>e_release_date := rd, e_version := fw_version fw, e_vendor := vendor fw,
                  e_device_name := device_name fw, e_device_class := device_class fw,
                  e_device_part := part fw, e_firmware_tags := map fst (fw_tags fw)\<rparr>
            in bindE (check (firmware_row_ok entry') DbInterfaceError) (\<lambda>_. Inr entry')) of
            Inl _ \<Rightarrow> Inl DbInterfaceError
          | Inr entry' \<Rightarrow> Inr (db\<lparr>firmware_table := AList.update u entry' (firmware_table db)\<rparr>)))"

definition update_virtual_file_path :: "file_object \<Rightarrow> database \<Rightarrow> database result" where
  "update_virtual_file_path fo db =
     bindE (check (list_all (\<lambda>(p, _, _). in_files db p) (create_vfp_entries fo)) DbInterfaceError) (\<lambda>_.
       Inr (db\<lparr>vfp_table := add_rows (create_vfp_entries fo) (vfp_table db)\<rparr>))"

definition update_file_object :: "file_object \<Rightarrow> database \<Rightarrow> database result" where
  "update_file_object fo db = (case map_of (file_object_table db) (uid fo) of
       None \<Rightarrow> Inr db
     | Some entry \<Rightarrow>
         (let entry' = entry\<lparr>e_file_name := file_name fo, e_depth := depth fo, e_size := fo_size fo,
                e_comments := comments fo, e_is_firmware := is_firmware_object fo\<rparr>
          in bindE (update_parents (sorted_list_of_set (parent_firmware_uids fo)) (parents fo) (uid fo) db) (\<lambda>db1.
             bindE (if is_firmware_object fo then Inr db1 else update_virtual_file_path fo db1) (\<lambda>db2.
             bindE (check (file_row_ok entry') DbInterfaceError) (\<lambda>_.
               Inr (db2\<lparr>file_object_table := AList.update (uid fo) entry' (file_object_table db2)\<rparr>))))))"

text \<open>Two sessions: the first one stays committed when the second one fails.\<close>

definition update_object :: "file_object \<Rightarrow> database \<Rightarrow> database \<times> py_error option" where
  "update_object fo db =
     (case (case firmware fo of
          None \<Rightarrow> Inr db
        | Some fw \<Rightarrow> if \<not> is_firmware db (uid fo) then Inl DbInterfaceError else update_firmware (uid fo) fw db) of
        Inl e \<Rightarrow> (db, Some e)
      | Inr db1 \<Rightarrow> (case update_file_object fo db1 of Inl e \<Rightarrow> (db1, Some e) | Inr db2 \<Rightarrow> (db2, None)))"

definition db_add_object ::
  "codec \<Rightarrow> flush_fun \<Rightarrow> timestamp \<Rightarrow> file_object \<Rightarrow> database \<Rightarrow> database \<times> py_error option" where
  "db_add_object codec flush now fo db =
     (if exists_uid db (uid fo) then update_object fo db
      else case insert_object codec flush now fo db of Inl e \<Rightarrow> (db, Some e) | Inr db' \<Rightarrow> (db', None))"

section \<open>Deletion\<close>

text \<open>The rows that \<open>ON DELETE CASCADE\<close> removes together with the files \<open>us\<close>\<close>

definition remove_files :: "string set \<Rightarrow> database \<Rightarrow> database" where
  "remove_files us db = db\<lparr>
     file_object_table := filter (\<lambda>(u, _). u \<notin> us) (file_object_table db),
     firmware_table := filter (\<lambda>(u, _). u \<notin> us) (firmware_table db),
     analysis_table := filter (\<lambda>((u, _), _). u \<notin> us) (analysis_table db),
     included_files_table := filter (\<lambda>(p, c). p \<notin> us \<and> c \<notin> us) (included_files_table db),
     fw_files_table := filter (\<lambda>(r, f). r \<notin> us \<and> f \<notin> us) (fw_files_table db),
     vfp_table := filter (\<lambda>(p, f, _). p \<notin> us \<and> f \<notin> us) (vfp_table db),
     comparisons_table := filter (\<lambda>(_, f). f \<notin> us) (comparisons_table db)\<rparr>"

definition remove_comparisons :: "string set \<Rightarrow> database \<Rightarrow> database" where
  "remove_comparisons ids db = db\<lparr>
     comparison_table := filter (\<lambda>(i, _). i \<notin> ids) (comparison_table db),
     comparisons_table := filter (\<lambda>(i, _). i \<notin> ids) (comparisons_table db)\<rparr>"

definition orphans :: "database \<Rightarrow> string set" where
  "orphans db = fst ` set (filter (\<lambda>(u, e). \<not> e_is_firmware e \<and> u \<notin> snd ` set (fw_files_table db)) (file_object_table db))"

definition delete_file_orphans :: "database \<Rightarrow> database" where
  "delete_file_orphans db = remove_files (orphans db) db"

text \<open>
  \<open>session.delete(fo_entry)\<close>: the comparisons of the entry are deleted with it; if a firmware entry
  was deleted, the listener removes the files that now belong to no firmware.
\<close>

definition delete_object :: "string \<Rightarrow> database \<Rightarrow> database" where
  "delete_object u db =
     (if \<not> in_files db u then db
      else
        let ids = fst ` set (filter (\<lambda>(_, f). f = u) (comparisons_table db));
            db1 = remove_files {u} (remove_comparisons ids db)
        in if map_of (firmware_table db) u \<noteq> None then delete_file_orphans db1 else db1)"

definition find_files_still_in_db :: "string set \<Rightarrow> database \<Rightarrow> string set" where
  "find_files_still_in_db us db = set (filter (\<lambda>u. u \<in> us) (map fst (file_object_table db)))"

text \<open>The result is the new database, the returned pair and the UIDs passed to \<open>intercom.delete_file\<close>.\<close>

definition delete_firmware :: "string \<Rightarrow> bool \<Rightarrow> database \<Rightarrow> database \<times> (nat \<times> nat) \<times> string set option" where
  "delete_firmware u delete_root_file db =
     (case map_of (file_object_table db) u of
        None \<Rightarrow> (db, (0, 0), None)
      | Some fw \<Rightarrow>
          if \<not> e_is_firmware fw then (db, (0, 0), None)
          else
            let included_uids = get_all_files_in_fw db u;
                db1 = delete_object u db;
                still_in_db = find_files_still_in_db included_uids db1;
                to_delete = included_uids - still_in_db;
                to_delete1 = (if delete_root_file then insert u to_delete else to_delete - {u})
            in (db1, (card still_in_db, card to_delete1), Some to_delete1))"

definition delete_comparison :: "string \<Rightarrow> database \<Rightarrow> database" where
  "delete_comparison i db = (if map_of (comparison_table db) i = None then db else remove_comparisons {i} db)"

section \<open>Comments, search cache and views\<close>

definition add_comment_to_object ::
  "string \<Rightarrow> string \<Rightarrow> string \<Rightarrow> string \<Rightarrow> string \<Rightarrow> database \<Rightarrow> database result" where
  "add_comment_to_object u comment author time_str plugin db = (case map_of (file_object_table db) u of
       None \<Rightarrow> Inl AttributeError
     | Some e \<Rightarrow> Inr (db\<lparr>file_object_table := AList.update u
         (e\<lparr>e_comments := e_comments e @ [PDict [(''author'', PStr author), (''comment'', PStr comment),
              (''time'', PStr time_str), (''plugin'', PStr plugin)]]\<rparr>) (file_object_table db)\<rparr>))"

definition comment_differs :: "pyval \<Rightarrow> pyval \<Rightarrow> bool result" where
  "comment_differs t c = bindE (subscript c ''time'') (\<lambda>v. Inr (v \<noteq> t))"

fun filter_comments :: "pyval \<Rightarrow> pyval list \<Rightarrow> pyval list result" where
  "filter_comments t [] = Inr []"
| "filter_comments t (c # cs) =
     bindE (comment_differs t c) (\<lambda>b. bindE (filter_comments t cs) (\<lambda>rest. Inr (if b then c # rest else rest)))"

definition delete_comment :: "string \<Rightarrow> string \<Rightarrow> database \<Rightarrow> database result" where
  "delete_comment u t db = (case map_of (file_object_table db) u of
       None \<Rightarrow> Inl AttributeError
     | Some e \<Rightarrow> bindE (filter_comments (PStr t) (e_comments e)) (\<lambda>cs.
         Inr (db\<lparr>file_object_table := AList.update u (e\<lparr>e_comments := cs\<rparr>) (file_object_table db)\<rparr>)))"

definition add_to_search_query_cache ::
  "(string \<Rightarrow> string) \<Rightarrow> string \<Rightarrow> pyval \<Rightarrow> string option \<Rightarrow> database \<Rightarrow> (string \<times> database) result" where
  "add_to_search_query_cache sha search_query match_data query_title db = (case query_title of
       None \<Rightarrow> Inl AttributeError
     | Some title \<Rightarrow> bindE (create_uid sha (Bytes title)) (\<lambda>query_uid.
         Inr (query_uid, db\<lparr>search_cache_table :=
           AList.delete query_uid (search_cache_table db) @
             [(query_uid, \<lparr>sc_query = search_query, sc_yara_rule = title, sc_match_data = match_data\<rparr>)]\<rparr>)))"

definition update_view :: "string \<Rightarrow> string \<Rightarrow> database \<Rightarrow> database" where
  "update_view plugin content db = db\<lparr>template_table := AList.update plugin content (template_table db)\<rparr>"

definition get_view :: "string \<Rightarrow> database \<Rightarrow> string option" where
  "get_view plugin db = map_of (template_table db) plugin"


section \<open>Integrity of the tables\<close>

text \<open>Primary keys are unique and every foreign key refers to an existing row.\<close>

abbreviation file_uids :: "database \<Rightarrow> string set" where
  "file_uids db \<equiv> fst ` set (file_object_table db)"

definition keys_ok :: "database \<Rightarrow> bool" where
  "keys_ok db \<longleftrightarrow> distinct (map fst (file_object_table db)) \<and> distinct (map fst (firmware_table db)) \<and>
     distinct (map fst (analysis_table db)) \<and> distinct (included_files_table db) \<and>
     distinct (fw_files_table db) \<and> distinct (vfp_table db)"

definition refs_at :: "string set \<Rightarrow> database \<Rightarrow> bool" where
  "refs_at K db \<longleftrightarrow> fst ` set (firmware_table db) \<subseteq> K \<and> fst ` fst ` set (analysis_table db) \<subseteq> K \<and>
     set (included_files_table db) \<subseteq> K \<times> K \<and> set (fw_files_table db) \<subseteq> K \<times> K \<and>
     set (vfp_table db) \<subseteq> K \<times> K \<times> UNIV \<and> snd ` set (comparisons_table db) \<subseteq> K"

definition refs_ok :: "database \<Rightarrow> bool" where
  "refs_ok db \<longleftrightarrow> refs_at (file_uids db) db"

definition db_ok :: "database \<Rightarrow> bool" where
  "db_ok db \<longleftrightarrow> keys_ok db \<and> refs_ok db"

lemma refs_atD:
  assumes "refs_at K db" "K \<subseteq> L"
  shows "fst ` set (firmware_table db) \<subseteq> L" "fst ` fst ` set (analysis_table db) \<subseteq> L"
    "set (included_files_table db) \<subseteq> L \<times> L" "set (fw_files_table db) \<subseteq> L \<times> L"
    "set (vfp_table db) \<subseteq> L \<times> L \<times> UNIV" "snd ` set (comparisons_table db) \<subseteq> L"
proof -
  have "K \<times> K \<subseteq> L \<times> L" "K \<times> K \<times> UNIV \<subseteq> L \<times> L \<times> (UNIV :: string set)"
    using assms(2) by auto
  then show "fst ` set (firmware_table db) \<subseteq> L" "fst ` fst ` set (analysis_table db) \<subseteq> L"
    "set (included_files_table db) \<subseteq> L \<times> L" "set (fw_files_table db) \<subseteq> L \<times> L"
    "set (vfp_table db) \<subseteq> L \<times> L \<times> UNIV" "snd ` set (comparisons_table db) \<subseteq> L"
    using assms unfolding refs_at_def by (meson order_trans)+
qed

lemma disjoint_by_image: "f ` X \<subseteq> K \<Longrightarrow> f ` Y \<subseteq> {u} \<Longrightarrow> u \<notin> K \<Longrightarrow> X \<inter> Y = {}"
  by blast

lemma in_files_iff: "in_files db u \<longleftrightarrow> u \<in> file_uids db"
  unfolding in_files_def by (simp only: dom_map_of_iff)

lemma check_Inr [simp, result_simps]: "check b e = Inr x \<longleftrightarrow> b"
  by (simp add: check_def)

lemma check_Inl [simp, result_simps]: "check b e = Inl e' \<longleftrightarrow> \<not> b \<and> e' = e"
  by (auto simp: check_def)

lemma set_add_rows [simp]: "set (add_rows new rows) = set new \<union> set rows"
  unfolding add_rows_def by (induction new arbitrary: rows) auto

lemma distinct_add_rows [simp]: "distinct rows \<Longrightarrow> distinct (add_rows new rows)"
  unfolding add_rows_def by (induction new arbitrary: rows) auto

lemma update_entries_found: "update_entries db us = Inr found \<Longrightarrow> u \<in> set found \<Longrightarrow> u \<in> file_uids db"
  by (auto simp: update_entries_def Let_def in_files_iff split: if_splits)

lemma fst_update: "fst ` set (AList.update k v d) = insert k (fst ` set d)"
  by (induction d) auto

lemma update_parents_frame:
  assumes "update_parents roots prnts u db = Inr db'"
  shows "file_object_table db' = file_object_table db" "firmware_table db' = firmware_table db"
    "analysis_table db' = analysis_table db" "vfp_table db' = vfp_table db"
    "comparisons_table db' = comparisons_table db"
    "set (included_files_table db') \<subseteq> set (included_files_table db) \<union> file_uids db \<times> {u}"
    "set (fw_files_table db') \<subseteq> set (fw_files_table db) \<union> file_uids db \<times> {u}"
    "distinct (included_files_table db) \<Longrightarrow> distinct (included_files_table db')"
    "distinct (fw_files_table db) \<Longrightarrow> distinct (fw_files_table db')"
  using assms by (auto simp: update_parents_def result_simps dest: update_entries_found)

lemma flush_analyses_keys: "flush_analyses flush rows = Inr rows' \<Longrightarrow> map fst rows' = map fst rows"
  unfolding flush_analyses_def by (erule mapE_Inr_map) (auto simp: result_simps)

lemma create_analysis_entries_keys:
  assumes "create_analysis_entries codec fo = Inr rows"
  shows "map fst rows = map (\<lambda>(p, _). (uid fo, p)) (processed_analysis fo)"
  by (rule mapE_Inr_map [OF assms [unfolded create_analysis_entries_def]]) (auto simp: result_simps)

lemma create_entry_simps:
  "create_file_object_entry codec fo = (e, fo') \<Longrightarrow> uid fo' = uid fo"
  "create_file_object_entry codec fo = (e, fo') \<Longrightarrow> processed_analysis fo' = processed_analysis fo"
  by (auto simp: create_file_object_entry_def)

lemma create_vfp_entries_uid: "(p, f, path) \<in> set (create_vfp_entries fo) \<Longrightarrow> f = uid fo"
  by (auto simp: create_vfp_entries_def)

lemma new_analysis_keys:
  assumes "create_analysis_entries codec fo = Inr rows" "flush_analyses flush rows = Inr rows'"
    "distinct (map fst (processed_analysis fo))"
  shows "distinct (map fst rows')" "fst ` fst ` set rows' \<subseteq> {uid fo}"
proof -
  have keys: "map fst rows' = map (\<lambda>(p, _). (uid fo, p)) (processed_analysis fo)"
    using assms(1,2) by (simp add: flush_analyses_keys create_analysis_entries_keys)
  have "distinct (map (Pair (uid fo)) (map fst (processed_analysis fo)))"
    using assms(3) by (intro distinct_map [THEN iffD2]) (auto simp: inj_on_def)
  then show "distinct (map fst rows')"
    unfolding keys by (simp add: comp_def case_prod_unfold)
  show "fst ` fst ` set rows' \<subseteq> {uid fo}"
    using arg_cong [OF keys, of set] by auto
qed

lemma db_ok_insert_file_object:
  assumes "insert_file_object codec flush fo db = Inr db'" "db_ok db"
    "distinct (map fst (processed_analysis fo))"
  shows "db_ok db'"
proof -
  obtain entry fo1 where e: "create_file_object_entry codec fo = (entry, fo1)"
    by fastforce
  note u = create_entry_simps [OF e]
  from assms(1) obtain db1 rows rows' where parts:
    "update_parents (sorted_list_of_set (parent_firmware_uids fo1)) (parents fo1) (uid fo1) db = Inr db1"
    "create_analysis_entries codec fo1 = Inr rows" "flush_analyses flush rows = Inr rows'"
    "uid fo \<notin> file_uids db" "distinct (create_vfp_entries fo1)"
    "\<forall>(p, f, path) \<in> set (create_vfp_entries fo1). p \<in> file_uids db \<or> p = uid fo"
    and db': "db' = db1\<lparr>file_object_table := file_object_table db @ [(uid fo, entry)],
               analysis_table := analysis_table db @ rows',
               vfp_table := vfp_table db @ create_vfp_entries fo1\<rparr>"
    by (auto simp: insert_file_object_def e u result_simps in_files_iff list_all_iff)
  note frame = update_parents_frame [OF parts(1), unfolded u(1)]
  note keys = new_analysis_keys [OF parts(2,3), unfolded u, OF assms(3)]
  note refs = refs_atD [OF assms(2) [unfolded db_ok_def refs_ok_def, THEN conjunct2]]
  have vfp: "(\<lambda>(p, f, path). f) ` set (create_vfp_entries fo1) \<subseteq> {uid fo}"
    using create_vfp_entries_uid [of _ _ _ fo1] u by fastforce
  have "fst ` set (analysis_table db) \<inter> fst ` set rows' = {}"
    using refs(2) [OF subset_refl] keys(2) parts(4) by (rule disjoint_by_image)
  moreover have "(\<lambda>(p, f, path). f) ` set (vfp_table db) \<subseteq> file_uids db"
    using refs(5) [OF subset_refl] by auto
  then have "set (vfp_table db) \<inter> set (create_vfp_entries fo1) = {}"
    using vfp parts(4) by (rule disjoint_by_image)
  ultimately have "keys_ok db'"
    using assms(2) frame(2,8,9) parts(4,5) keys(1) unfolding db' db_ok_def keys_ok_def by simp
  moreover have "refs_at (insert (uid fo) (file_uids db)) db'"
  proof -
    let ?L = "insert (uid fo) (file_uids db)"
    note refs' = refs [of ?L, OF subset_insertI]
    have "set (create_vfp_entries fo1) \<subseteq> ?L \<times> ?L \<times> UNIV"
      using parts(6) vfp by fastforce
    moreover have "set (included_files_table db1) \<subseteq> ?L \<times> ?L" "set (fw_files_table db1) \<subseteq> ?L \<times> ?L"
      using frame(6,7) refs'(3,4) by auto
    moreover have "fst ` fst ` set rows' \<subseteq> ?L"
      using keys(2) by auto
    ultimately show ?thesis
      using refs' frame(2,5) unfolding db' refs_at_def by (simp add: image_Un)
  qed
  ultimately show ?thesis
    by (simp add: db_ok_def refs_ok_def db')
qed


lemma db_ok_insert_firmware:
  assumes "insert_firmware codec flush now fo fw db = Inr db'" "db_ok db"
    "distinct (map fst (processed_analysis fo))"
  shows "db_ok db'"
proof -
  obtain entry fo1 where e: "create_file_object_entry codec fo = (entry, fo1)"
    by fastforce
  note u = create_entry_simps [OF e]
  from assms(1) obtain f rows rows' where parts:
    "create_analysis_entries codec fo1 = Inr rows" "flush_analyses flush rows = Inr rows'"
    "uid fo \<notin> file_uids db"
    and db': "db' = db\<lparr>file_object_table := file_object_table db @ [(uid fo, entry)],
               firmware_table := firmware_table db @ [(uid fo, f)],
               analysis_table := analysis_table db @ rows'\<rparr>"
    by (auto simp: insert_firmware_def e u result_simps in_files_iff)
  note keys = new_analysis_keys [OF parts(1,2), unfolded u, OF assms(3)]
  note refs = refs_atD [OF assms(2) [unfolded db_ok_def refs_ok_def, THEN conjunct2]]
  have "fst ` set (analysis_table db) \<inter> fst ` set rows' = {}"
    using refs(2) [OF subset_refl] keys(2) parts(3) by (rule disjoint_by_image)
  then have "keys_ok db'"
    using assms(2) parts(3) keys(1) refs(1) [OF subset_refl] unfolding db' db_ok_def keys_ok_def by auto
  moreover have "fst ` fst ` set rows' \<subseteq> insert (uid fo) (file_uids db)"
    using keys(2) by auto
  then have "refs_at (insert (uid fo) (file_uids db)) db'"
    using refs [of "insert (uid fo) (file_uids db)", OF subset_insertI]
    unfolding db' refs_at_def by (simp add: image_Un)
  ultimately show ?thesis
    by (simp add: db_ok_def refs_ok_def db')
qed

text \<open>Operations that change one table only\<close>

lemma db_ok_analysis_table:
  assumes "db_ok db" "distinct (map fst rows)" "fst ` fst ` set rows \<subseteq> file_uids db"
  shows "db_ok (db\<lparr>analysis_table := rows\<rparr>)"
  using assms by (simp add: db_ok_def keys_ok_def refs_ok_def refs_at_def)

lemma db_ok_file_entry:
  assumes "db_ok db" "u \<in> file_uids db"
  shows "db_ok (db\<lparr>file_object_table := AList.update u e (file_object_table db)\<rparr>)"
  using assms by (simp add: db_ok_def keys_ok_def refs_ok_def refs_at_def fst_update insert_absorb)

lemma db_ok_insert_analysis:
  assumes "insert_analysis codec flush u p d db = Inr db'" "db_ok db"
  shows "db_ok db'"
proof -
  obtain row where db': "db' = db\<lparr>analysis_table := analysis_table db @ [((u, p), row)]\<rparr>"
    and "u \<in> file_uids db" "map_of (analysis_table db) (u, p) = None"
    using assms(1) unfolding insert_analysis_def in_files_iff result_simps by auto
  moreover have "distinct (map fst (analysis_table db))" "fst ` fst ` set (analysis_table db) \<subseteq> file_uids db"
    using assms(2) by (simp_all add: db_ok_def keys_ok_def refs_ok_def refs_at_def)
  ultimately show ?thesis
    unfolding db' using assms(2) by (intro db_ok_analysis_table) (simp_all add: map_of_eq_None_iff)
qed

lemma db_ok_update_analysis:
  assumes "update_analysis codec flush u p d db = Inr db'" "db_ok db"
  shows "db_ok db'"
proof -
  obtain row where db': "db' = db\<lparr>analysis_table := AList.update (u, p) row (analysis_table db)\<rparr>"
    and "map_of (analysis_table db) (u, p) \<noteq> None"
    using assms(1) by (auto simp: update_analysis_def result_simps)
  then have "u \<in> fst ` fst ` set (analysis_table db)"
    by (metis dom_map_of_iff fst_conv image_eqI)
  moreover have keys: "distinct (map fst (analysis_table db))"
    and refs: "fst ` fst ` set (analysis_table db) \<subseteq> file_uids db"
    using assms(2) by (simp_all add: db_ok_def keys_ok_def refs_ok_def refs_at_def)
  ultimately have "u \<in> file_uids db"
    by (meson subsetD)
  then show ?thesis
    unfolding db' using assms(2) keys refs
    by (intro db_ok_analysis_table) (simp_all add: fst_update)
qed

lemma db_ok_add_analysis:
  assumes "db_add_analysis codec flush u p d db = Inr db'" "db_ok db"
  shows "db_ok db'"
  using assms
  by (auto simp: db_add_analysis_def dest: db_ok_insert_analysis db_ok_update_analysis
      split: sum.splits py_error.splits if_splits)

lemma db_ok_vfp_table:
  assumes "db_ok db" "distinct rows" "set rows \<subseteq> file_uids db \<times> file_uids db \<times> UNIV"
  shows "db_ok (db\<lparr>vfp_table := rows\<rparr>)"
  using assms by (simp add: db_ok_def keys_ok_def refs_ok_def refs_at_def)

lemma db_ok_included_table:
  assumes "db_ok db" "distinct rows" "set rows \<subseteq> file_uids db \<times> file_uids db"
  shows "db_ok (db\<lparr>included_files_table := rows\<rparr>)"
  using assms by (simp add: db_ok_def keys_ok_def refs_ok_def refs_at_def)

lemma db_ok_fw_files_table:
  assumes "db_ok db" "distinct rows" "set rows \<subseteq> file_uids db \<times> file_uids db"
  shows "db_ok (db\<lparr>fw_files_table := rows\<rparr>)"
  using assms by (simp add: db_ok_def keys_ok_def refs_ok_def refs_at_def)

lemma db_okD:
  assumes "db_ok db"
  shows "distinct (vfp_table db)" "set (vfp_table db) \<subseteq> file_uids db \<times> file_uids db \<times> UNIV"
    "distinct (included_files_table db)" "set (included_files_table db) \<subseteq> file_uids db \<times> file_uids db"
    "distinct (fw_files_table db)" "set (fw_files_table db) \<subseteq> file_uids db \<times> file_uids db"
    "distinct (map fst (firmware_table db))" "fst ` set (firmware_table db) \<subseteq> file_uids db"
    "distinct (map fst (file_object_table db))"
  using assms by (simp_all add: db_ok_def keys_ok_def refs_ok_def refs_at_def)

lemma db_ok_add_vfp:
  assumes "add_vfp parent child paths db = Inr db'" "db_ok db"
  shows "db_ok db'"
proof -
  have db': "db' = db\<lparr>vfp_table := add_rows (map (\<lambda>p. (parent, child, p)) paths) (vfp_table db)\<rparr>"
    and "paths = [] \<or> parent \<in> file_uids db \<and> child \<in> file_uids db"
    using assms(1) unfolding add_vfp_def in_files_iff result_simps by simp_all
  then have "(\<lambda>p. (parent, child, p)) ` set paths \<subseteq> file_uids db \<times> file_uids db \<times> UNIV"
    by (elim disjE) auto
  then show ?thesis
    unfolding db' using db_okD(1,2) [OF assms(2)] by (intro db_ok_vfp_table [OF assms(2)]) simp_all
qed

lemma db_ok_add_child: "db_ok db \<Longrightarrow> db_ok (add_child_to_parent parent child db)"
  using db_okD(3,4) [of db] db_ok_included_table [of db "add_rows [(parent, child)] (included_files_table db)"]
  by (simp add: add_child_to_parent_def in_files_iff)

lemma db_ok_update_parents:
  assumes "update_parents roots prnts u db = Inr db'" "db_ok db" "u \<in> file_uids db"
  shows "db_ok db'"
proof -
  obtain rs ps where rs: "update_entries db roots = Inr rs" and ps: "update_entries db prnts = Inr ps"
    and db': "db' = db\<lparr>fw_files_table := add_rows (map (\<lambda>r. (r, u)) rs) (fw_files_table db),
               included_files_table := add_rows (map (\<lambda>p. (p, u)) ps) (included_files_table db)\<rparr>"
    using assms(1) by (auto simp: update_parents_def result_simps)
  have "(\<lambda>r. (r, u)) ` set rs \<subseteq> file_uids db \<times> file_uids db" "(\<lambda>p. (p, u)) ` set ps \<subseteq> file_uids db \<times> file_uids db"
    using assms(3) update_entries_found [OF rs] update_entries_found [OF ps] by auto
  then show ?thesis
    unfolding db' using db_okD [OF assms(2)]
    by (intro db_ok_included_table db_ok_fw_files_table assms(2)) simp_all
qed

lemma db_ok_update_firmware:
  assumes "update_firmware u fw db = Inr db'" "db_ok db"
  shows "db_ok db'"
proof -
  obtain e where db': "db' = db\<lparr>firmware_table := AList.update u e (firmware_table db)\<rparr>"
    and "map_of (firmware_table db) u \<noteq> None"
    using assms(1) by (auto simp: update_firmware_def split: option.splits sum.splits)
  then have "u \<in> fst ` set (firmware_table db)"
    by (simp only: dom_map_of_iff)
  then have "fst ` set (firmware_table db') = fst ` set (firmware_table db)"
    by (simp add: db' fst_update insert_absorb)
  then show ?thesis
    using assms(2) by (simp add: db' db_ok_def keys_ok_def refs_ok_def refs_at_def)
qed

lemma db_ok_update_file_object:
  assumes "update_file_object fo db = Inr db'" "db_ok db"
  shows "db_ok db'"
proof (cases "map_of (file_object_table db) (uid fo)")
  case None
  then show ?thesis
    using assms by (simp add: update_file_object_def)
next
  case (Some entry)
  then have u: "uid fo \<in> file_uids db"
    by (metis dom_map_of_iff option.distinct(1))
  obtain db1 db2 e where db1: "update_parents (sorted_list_of_set (parent_firmware_uids fo)) (parents fo) (uid fo) db = Inr db1"
    and db2: "(if is_firmware_object fo then Inr db1 else update_virtual_file_path fo db1) = Inr db2"
    and db': "db' = db2\<lparr>file_object_table := AList.update (uid fo) e (file_object_table db2)\<rparr>"
    using assms(1) Some by (auto simp: update_file_object_def Let_def result_simps)
  have ok1: "db_ok db1"
    using db1 assms(2) u by (rule db_ok_update_parents)
  have u1: "uid fo \<in> file_uids db1"
    using u update_parents_frame(1) [OF db1] by simp
  have vfps: "set (create_vfp_entries fo) \<subseteq> file_uids db1 \<times> file_uids db1 \<times> UNIV"
    if "list_all (\<lambda>(p, _, _). p \<in> file_uids db1) (create_vfp_entries fo)"
  proof (intro subsetI)
    fix row assume row: "row \<in> set (create_vfp_entries fo)"
    obtain p f path where "row = (p, f, path)"
      by (cases row)
    then show "row \<in> file_uids db1 \<times> file_uids db1 \<times> UNIV"
      using row that u1 create_vfp_entries_uid [of p f path fo] unfolding list_all_iff by blast
  qed
  have "db_ok db2 \<and> file_uids db2 = file_uids db1"
  proof (cases "is_firmware_object fo")
    case False
    then have "db2 = db1\<lparr>vfp_table := add_rows (create_vfp_entries fo) (vfp_table db1)\<rparr>"
      and "list_all (\<lambda>(p, _, _). p \<in> file_uids db1) (create_vfp_entries fo)"
      using db2 unfolding update_virtual_file_path_def in_files_iff by (simp_all add: result_simps)
    then show ?thesis
      using vfps db_okD(1,2) [OF ok1] by (simp add: db_ok_vfp_table [OF ok1])
  qed (use db2 ok1 in simp)
  then show ?thesis
    unfolding db' using u1 by (intro db_ok_file_entry) auto
qed

lemma db_ok_update_object: "db_ok db \<Longrightarrow> db_ok (fst (update_object fo db))"
  using db_ok_update_firmware db_ok_update_file_object
  by (auto simp: update_object_def split: option.splits sum.splits if_splits)


lemma map_fst_filter_sub: "distinct (map fst xs) \<Longrightarrow> distinct (map fst (filter P xs))"
  by (induction xs) auto

lemma file_uids_remove: "file_uids (remove_files us db) = file_uids db - us"
  by (auto simp: remove_files_def)

lemma filter_refs:
  "fst ` set fs \<subseteq> K \<Longrightarrow> fst ` set (filter (\<lambda>(u, _). u \<notin> us) fs) \<subseteq> K - us"
  "fst ` fst ` set as \<subseteq> K \<Longrightarrow> fst ` fst ` set (filter (\<lambda>((u, _), _). u \<notin> us) as) \<subseteq> K - us"
  "set ps \<subseteq> K \<times> K \<Longrightarrow> set (filter (\<lambda>(p, c). p \<notin> us \<and> c \<notin> us) ps) \<subseteq> (K - us) \<times> (K - us)"
  "set vs \<subseteq> K \<times> K \<times> UNIV \<Longrightarrow> set (filter (\<lambda>(p, fp). p \<notin> us \<and> (case fp of (f, _) \<Rightarrow> f \<notin> us)) vs) \<subseteq> (K - us) \<times> (K - us) \<times> UNIV"
  "snd ` set cs \<subseteq> K \<Longrightarrow> snd ` set (filter (\<lambda>(_, f). f \<notin> us) cs) \<subseteq> K - us"
  by fastforce+

lemma db_ok_remove_files:
  assumes "db_ok db"
  shows "db_ok (remove_files us db)"
proof -
  have "keys_ok (remove_files us db)"
    using assms by (simp add: db_ok_def keys_ok_def remove_files_def map_fst_filter_sub)
  moreover have "refs_at (file_uids db - us) (remove_files us db)"
    using assms unfolding db_ok_def refs_ok_def refs_at_def remove_files_def
    by (simp add: filter_refs del: set_filter)
  ultimately show ?thesis
    unfolding db_ok_def refs_ok_def file_uids_remove by simp
qed

lemma db_ok_remove_comparisons: "db_ok db \<Longrightarrow> db_ok (remove_comparisons ids db)"
proof -
  have "snd ` set (filter P xs) \<subseteq> snd ` set xs" for P and xs :: "(string \<times> string) list"
    by auto
  then show "db_ok db \<Longrightarrow> db_ok (remove_comparisons ids db)"
    unfolding db_ok_def keys_ok_def refs_ok_def refs_at_def remove_comparisons_def
    by (simp del: set_filter) (meson order_trans)
qed

lemma db_ok_delete_object: "db_ok db \<Longrightarrow> db_ok (delete_object u db)"
  by (simp add: delete_object_def delete_file_orphans_def Let_def db_ok_remove_files db_ok_remove_comparisons)

lemma db_ok_delete_firmware: "db_ok db \<Longrightarrow> db_ok (fst (delete_firmware u del db))"
  by (simp add: delete_firmware_def Let_def db_ok_delete_object split: option.splits)

text \<open>The operations as steps of the database, with any arguments a caller may pass\<close>

inductive db_step :: "database \<Rightarrow> database \<Rightarrow> bool" where
  insert: "insert_object codec flush now fo db = Inr db' \<Longrightarrow> distinct (map fst (processed_analysis fo)) \<Longrightarrow> db_step db db'"
| update: "db_step db (fst (update_object fo db))"
| add_analysis: "db_add_analysis codec flush u p d db = Inr db' \<Longrightarrow> db_step db db'"
| add_vfp: "add_vfp parent child paths db = Inr db' \<Longrightarrow> db_step db db'"
| add_child: "db_step db (add_child_to_parent parent child db)"
| update_parents: "update_file_object_parents f r parent db = Inr db' \<Longrightarrow> db_step db db'"
| delete: "db_step db (delete_object u db)"
| delete_fw: "db_step db (fst (delete_firmware u del db))"
| delete_cmp: "db_step db (delete_comparison i db)"
| comment: "add_comment_to_object u c author t p db = Inr db' \<Longrightarrow> db_step db db'"
| delete_comment: "delete_comment u t db = Inr db' \<Longrightarrow> db_step db db'"

lemma db_ok_comment:
  assumes "add_comment_to_object u c author t p db = Inr db'" "db_ok db"
  shows "db_ok db'"
  using assms by (auto simp: add_comment_to_object_def split: option.splits
      intro!: db_ok_file_entry) (metis dom_map_of_iff option.distinct(1))

lemma db_ok_delete_comment:
  assumes "delete_comment u t db = Inr db'" "db_ok db"
  shows "db_ok db'"
  using assms by (auto simp: delete_comment_def result_simps split: option.splits
      intro!: db_ok_file_entry) (metis dom_map_of_iff option.distinct(1))

lemma db_step_ok: "db_step db db' \<Longrightarrow> db_ok db \<Longrightarrow> db_ok db'"
proof (induction rule: db_step.induct)
  case (insert codec flush now fo db db')
  then show ?case
    by (auto simp: insert_object_def split: option.splits
        dest: db_ok_insert_file_object db_ok_insert_firmware)
next
  case (update_parents f r parent db db')
  then show ?case
    unfolding update_file_object_parents_def in_files_iff
    by (auto simp: result_simps simp del: image_iff intro: db_ok_update_parents)
qed (auto simp: delete_comparison_def db_ok_update_object db_ok_add_child db_ok_delete_object db_ok_delete_firmware
      db_ok_remove_comparisons dest: db_ok_add_analysis db_ok_add_vfp db_ok_comment db_ok_delete_comment)

lemma db_ok_empty: "db_ok empty_database"
  by (simp add: db_ok_def keys_ok_def refs_ok_def refs_at_def empty_database_def)

text \<open>
  C9. Whatever sequence of operations the program performs, starting from an empty database: primary
  keys stay unique and no row refers to a file that is not in the database.
\<close>

theorem database_integrity:
  assumes "db_step\<^sup>*\<^sup>* empty_database db"
  shows "db_ok db"
  using assms by (induction) (auto intro: db_ok_empty db_step_ok)


definition example_fw_data :: firmware_data where
  "example_fw_data = \<lparr>device_name = Some ''d'', fw_version = Some ''1'', device_class = Some ''c'',
     vendor = Some ''v'', part = [], release_date = Some ''2024-02-29'', fw_tags = [], fw_md5 = None\<rparr>"

definition example_fw_object :: file_object where
  "example_fw_object = (empty_file_object ''fw'' True)\<lparr>sha256 := Some ''h'', file_name := Some ''n'',
     fo_size := Some 1, firmware := Some example_fw_data\<rparr>"

definition no_flush :: flush_fun where
  "no_flush k row = Inl DbInterfaceError"

lemma example_date: "strptime_ymd ''2024-02-29'' = Inr (2024, 2, 29)"
  by code_simp

lemma example_insert_firmware:
  "\<exists>db. insert_object plain_codec no_flush 0 example_fw_object empty_database = Inr db \<and> file_uids db = {''fw''}"
  by (simp add: insert_object_def insert_firmware_def example_fw_object_def example_fw_data_def
      empty_file_object_def empty_database_def create_file_object_entry_def create_firmware_entry_def
      create_analysis_entries_def flush_analyses_def check_def in_files_def file_row_ok_def firmware_row_ok_def
      example_date is_firmware_object_def sanitize_vfp_def vfp_to_py_def sanitize_dict_def)

theorem database_integrity_witness:
  "\<exists>db. db_step\<^sup>*\<^sup>* empty_database db \<and> file_uids db = {''fw''} \<and> db_ok db"
proof -
  obtain db where db: "insert_object plain_codec no_flush 0 example_fw_object empty_database = Inr db"
    "file_uids db = {''fw''}"
    using example_insert_firmware by blast
  have "distinct (map fst (processed_analysis example_fw_object))"
    by (simp add: example_fw_object_def empty_file_object_def)
  then have "db_step\<^sup>*\<^sup>* empty_database db"
    using db(1) by (blast intro: db_step.insert)
  then show ?thesis
    using database_integrity db(2) by blast
qed

section \<open>Storing and reading analysis results\<close>

text \<open>
  The contract the analysis scheduler relies on: a stored result is found again under its key, and
  no other result changes. \<open>env\<close> are the parameters of the store, \<open>storable\<close> what it accepts.
\<close>

locale analysis_store =
  fixes add :: "'env \<Rightarrow> 'k \<Rightarrow> 'd \<Rightarrow> 's \<Rightarrow> 's"
    and get :: "'s \<Rightarrow> 'k \<Rightarrow> 'r option"
    and storable :: "'env \<Rightarrow> 's \<Rightarrow> 'k \<Rightarrow> 'd \<Rightarrow> bool"
    and stored :: "'env \<Rightarrow> 'k \<Rightarrow> 'd \<Rightarrow> 'r"
  assumes get_add: "storable env s k d \<Longrightarrow> get (add env k d s) k = Some (stored env k d)"
    and get_other: "k' \<noteq> k \<Longrightarrow> get (add env k d s) k' = get s k'"
    and storable_stable: "storable env s k d \<Longrightarrow> storable env (add env k' d' s) k d"
begin

definition add_all :: "'env \<Rightarrow> ('k \<times> 'd) list \<Rightarrow> 's \<Rightarrow> 's" where
  "add_all env kds s = fold (\<lambda>(k, d). add env k d) kds s"

lemma get_add_all_other: "k \<notin> fst ` set kds \<Longrightarrow> get (add_all env kds s) k = get s k"
  unfolding add_all_def by (induction kds arbitrary: s) (auto simp: get_other)

lemma storable_add_all: "storable env s k d \<Longrightarrow> storable env (add_all env kds s) k d"
  unfolding add_all_def by (induction kds arbitrary: s) (auto simp: storable_stable)

text \<open>Of several results for one key the last one is found.\<close>

lemma get_add_all:
  assumes "storable env s k d" "k \<notin> fst ` set later"
  shows "get (add_all env (earlier @ (k, d) # later) s) k = Some (stored env k d)"
proof -
  have "add_all env (earlier @ (k, d) # later) s = add_all env later (add env k d (add_all env earlier s))"
    by (simp add: add_all_def)
  then show ?thesis
    using assms by (simp add: get_add_all_other get_add storable_add_all)
qed

end

text \<open>What the schema declares for a row of the table \<open>analysis\<close>\<close>

fun is_str_list :: "codec \<Rightarrow> pyval \<Rightarrow> bool" where
  "is_str_list codec (PList vs) = list_all (\<lambda>v. case v of PStr s \<Rightarrow> NUL \<notin> set s \<and> encodable codec s | _ \<Rightarrow> False) vs"
| "is_str_list codec _ = False"

fun is_json_dict :: "codec \<Rightarrow> pyval \<Rightarrow> bool" where
  "is_json_dict codec (PDict d) = json_ok codec (PDict d)"
| "is_json_dict codec _ = False"

fun is_varchar :: "codec \<Rightarrow> nat option \<Rightarrow> pyval \<Rightarrow> bool" where
  "is_varchar codec n (PStr s) =
     (NUL \<notin> set s \<and> encodable codec s \<and> (case n of None \<Rightarrow> True | Some l \<Rightarrow> length s \<le> l))"
| "is_varchar codec n _ = False"

fun is_float :: "pyval \<Rightarrow> bool" where
  "is_float (PFloat _) = True"
| "is_float _ = False"

definition row_ok :: "codec \<Rightarrow> string \<times> string \<Rightarrow> analysis_entry \<Rightarrow> bool" where
  "row_ok codec k row \<longleftrightarrow> length (fst k) \<le> 78 \<and> length (snd k) \<le> 64 \<and>
     is_varchar codec (Some 16) (ae_plugin_version row) \<and>
     (ae_system_version row = PNone \<or> is_varchar codec None (ae_system_version row)) \<and>
     is_float (ae_analysis_date row) \<and>
     (ae_summary row = PNone \<or> is_str_list codec (ae_summary row)) \<and>
     (ae_tags row = PNone \<or> is_json_dict codec (ae_tags row)) \<and>
     (ae_result row = PNone \<or> is_json_dict codec (ae_result row))"

text \<open>
  A column of type JSONB keeps the values, the keys and the order of lists, but not the order of the
  keys of an object: two values are the same document if they are equal once all keys are sorted.
\<close>

function (sequential)
  sort_keys :: "pyval \<Rightarrow> pyval" and
  sort_items :: "pydict \<Rightarrow> pydict" and
  sort_elements :: "pyval list \<Rightarrow> pyval list" where
  "sort_keys (PDict d) = PDict (sort_key fst (sort_items d))"
| "sort_keys (PList vs) = PList (sort_elements vs)"
| "sort_keys v = v"
| "sort_items [] = []"
| "sort_items ((k, v) # d) = (k, sort_keys v) # sort_items d"
| "sort_elements [] = []"
| "sort_elements (v # vs) = sort_keys v # sort_elements vs"
  by pat_completeness auto
termination
  by (relation "measure (\<lambda>x. case x of
        Inl v \<Rightarrow> size v
      | Inr (Inl d) \<Rightarrow> size_list (size_prod (\<lambda>_. 0) size) d
      | Inr (Inr vs) \<Rightarrow> size_list size vs)") auto

definition same_document :: "pyval \<Rightarrow> pyval \<Rightarrow> bool" where
  "same_document v w \<longleftrightarrow> sort_keys v = sort_keys w"

definition same_row :: "analysis_entry \<Rightarrow> analysis_entry \<Rightarrow> bool" where
  "same_row row row' \<longleftrightarrow> ae_plugin_version row' = ae_plugin_version row \<and>
     ae_system_version row' = ae_system_version row \<and> ae_analysis_date row' = ae_analysis_date row \<and>
     ae_summary row' = ae_summary row \<and> same_document (ae_tags row) (ae_tags row') \<and>
     same_document (ae_result row) (ae_result row')"

text \<open>The database stores a row that satisfies the schema, and gives back the same documents.\<close>

definition flush_law :: "codec \<Rightarrow> flush_fun \<Rightarrow> bool" where
  "flush_law codec flush \<longleftrightarrow> (\<forall>k row. row_ok codec k row \<longrightarrow> (\<exists>row'. flush k row = Inr row' \<and> same_row row row'))"

definition flushed :: "flush_fun \<Rightarrow> string \<times> string \<Rightarrow> analysis_entry \<Rightarrow> analysis_entry" where
  "flushed flush k row = (case flush k row of Inr row' \<Rightarrow> row' | Inl _ \<Rightarrow> row)"

definition analysis_row :: "codec \<Rightarrow> pydict \<Rightarrow> analysis_entry" where
  "analysis_row codec d =
     \<lparr>ae_plugin_version = sanitize_plugin_version (dict_get d ''plugin_version'' PNone),
      ae_system_version = dict_get d ''system_version'' PNone,
      ae_analysis_date = dict_get d ''analysis_date'' PNone,
      ae_summary = dict_get d ''summary'' PNone,
      ae_tags = dict_get d ''tags'' PNone,
      ae_result = (case sanitize_result codec d of Inr r \<Rightarrow> r | Inl _ \<Rightarrow> PNone)\<rparr>"

definition analysis_storable ::
  "codec \<times> flush_fun \<Rightarrow> database \<Rightarrow> string \<times> string \<Rightarrow> pydict \<Rightarrow> bool" where
  "analysis_storable env db k d = (case env of (codec, flush) \<Rightarrow>
     flush_law codec flush \<and> fst k \<noteq> [] \<and> in_files db (fst k) \<and>
     map_of d ''plugin_version'' \<noteq> None \<and> map_of d ''analysis_date'' \<noteq> None \<and>
     is_ok (sanitize_result codec d) \<and> row_ok codec k (analysis_row codec d))"

definition store_analysis ::
  "codec \<times> flush_fun \<Rightarrow> string \<times> string \<Rightarrow> pydict \<Rightarrow> database \<Rightarrow> database" where
  "store_analysis env k d db = (case db_add_analysis (fst env) (snd env) (fst k) (snd k) d db of
     Inr db' \<Rightarrow> db' | Inl _ \<Rightarrow> db)"

definition stored_analysis :: "codec \<times> flush_fun \<Rightarrow> string \<times> string \<Rightarrow> pydict \<Rightarrow> pydict" where
  "stored_analysis env k d = analysis_entry_to_dict (flushed (snd env) k (analysis_row (fst env) d))"

lemma coerce_dict_ok: "v = PNone \<or> is_json_dict codec v \<Longrightarrow> coerce_dict v = Inr ()"
  by (cases v) auto

lemma map_of_append_new: "map_of d k = None \<Longrightarrow> map_of (d @ [(k, v)]) = (map_of d)(k \<mapsto> v)"
  by (auto simp: map_add_def fun_eq_iff split: option.splits)

lemma add_analysis_stores:
  assumes "analysis_storable (codec, flush) db (u, p) d"
  shows "\<exists>db'. db_add_analysis codec flush u p d db = Inr db' \<and>
     map_of (analysis_table db') = (map_of (analysis_table db))((u, p) \<mapsto> flushed flush (u, p) (analysis_row codec d))"
proof -
  let ?row = "analysis_row codec d"
  have ok: "row_ok codec (u, p) ?row" "flush_law codec flush"
    using assms by (simp_all add: analysis_storable_def)
  then have "flush (u, p) ?row = Inr (flushed flush (u, p) ?row)"
    unfolding flush_law_def flushed_def by fastforce
  moreover have "coerce_dict (ae_tags ?row) = Inr ()"
    using ok(1) unfolding row_ok_def by (blast intro: coerce_dict_ok)
  ultimately obtain v t r where facts: "map_of d ''plugin_version'' = Some v" "map_of d ''analysis_date'' = Some t"
    "sanitize_result codec d = Inr r" "u \<noteq> []" "in_files db u" "flush (u, p) ?row = Inr (flushed flush (u, p) ?row)"
    "coerce_dict (dict_get d ''tags'' PNone) = Inr ()"
    using assms by (auto simp: analysis_storable_def is_ok_iff analysis_row_def)
  have row: "?row = \<lparr>ae_plugin_version = sanitize_plugin_version v,
      ae_system_version = dict_get d ''system_version'' PNone, ae_analysis_date = t,
      ae_summary = dict_get d ''summary'' PNone, ae_tags = dict_get d ''tags'' PNone, ae_result = r\<rparr>"
    using facts by (simp add: analysis_row_def dict_get_def)
  show ?thesis
  proof (cases "map_of (analysis_table db) (u, p)")
    case None
    then show ?thesis
      using facts row
      by (simp add: db_add_analysis_def analysis_exists_def insert_analysis_def check_def dict_get_def
          map_of_append_new del: map_of_append)
  next
    case (Some old)
    then show ?thesis
      using facts row
      by (simp add: db_add_analysis_def analysis_exists_def update_analysis_def check_def dict_item_def)
  qed
qed


text \<open>Without any assumption on the arguments, other results and the files stay as they are.\<close>

lemma add_analysis_frame:
  assumes "db_add_analysis codec flush u p d db = Inr db'"
  shows "\<And>k. k \<noteq> (u, p) \<Longrightarrow> map_of (analysis_table db') k = map_of (analysis_table db) k"
    and "file_object_table db' = file_object_table db"
proof -
  have "(\<exists>row. db' = db\<lparr>analysis_table := analysis_table db @ [((u, p), row)]\<rparr>) \<or>
      (\<exists>row. db' = db\<lparr>analysis_table := AList.update (u, p) row (analysis_table db)\<rparr>) \<or> db' = db"
    using assms
    by (auto simp: db_add_analysis_def insert_analysis_def update_analysis_def result_simps
        split: sum.splits py_error.splits if_splits)
  then show "\<And>k. k \<noteq> (u, p) \<Longrightarrow> map_of (analysis_table db') k = map_of (analysis_table db) k"
    and "file_object_table db' = file_object_table db"
    by (auto simp: map_add_def split: option.splits if_splits)
qed

lemma store_analysis_frame:
  "k' \<noteq> k \<Longrightarrow> map_of (analysis_table (store_analysis env k d db)) k' = map_of (analysis_table db) k'"
  "file_object_table (store_analysis env k d db) = file_object_table db"
proof -
  have "(k' \<noteq> k \<longrightarrow> map_of (analysis_table (store_analysis env k d db)) k' = map_of (analysis_table db) k') \<and>
      file_object_table (store_analysis env k d db) = file_object_table db"
  proof (cases "db_add_analysis (fst env) (snd env) (fst k) (snd k) d db")
    case (Inr db')
    show ?thesis
      using add_analysis_frame [OF Inr] unfolding store_analysis_def Inr by simp
  qed (simp add: store_analysis_def)
  then show "k' \<noteq> k \<Longrightarrow> map_of (analysis_table (store_analysis env k d db)) k' = map_of (analysis_table db) k'"
    "file_object_table (store_analysis env k d db) = file_object_table db"
    by blast+
qed

interpretation db: analysis_store store_analysis "\<lambda>db k. db_get_analysis db (fst k) (snd k)"
  analysis_storable stored_analysis
proof
  fix env s k d
  assume "analysis_storable env s k d"
  then show "db_get_analysis (store_analysis env k d s) (fst k) (snd k) = Some (stored_analysis env k d)"
    using add_analysis_stores [of "fst env" "snd env" s "fst k" "snd k" d]
    by (auto simp: store_analysis_def stored_analysis_def db_get_analysis_def get_analysis_entry_def)
next
  fix k' k env d s
  assume "k' \<noteq> (k :: string \<times> string)"
  then show "db_get_analysis (store_analysis env k d s) (fst k') (snd k') = db_get_analysis s (fst k') (snd k')"
    by (simp add: db_get_analysis_def get_analysis_entry_def store_analysis_frame)
next
  fix env s k d k' d'
  assume "analysis_storable env s k d"
  then show "analysis_storable env (store_analysis env k' d' s) k d"
    by (simp add: analysis_storable_def in_files_def store_analysis_frame split: prod.splits)
qed

text \<open>
  C10. After a sequence of results was stored, reading the result of a plugin on a file returns the
  last result stored for it, with its version as text and its result sanitized; the tags and the
  result are the same documents, in which only the keys of a dictionary may come in another order.
  Results that were not written are unchanged. The file is in the database and the row satisfies the
  schema; the database is assumed to store such rows.
\<close>

theorem add_analysis_roundtrip:
  assumes "analysis_storable (codec, flush) db (u, p) d" "(u, p) \<notin> fst ` set later"
    "k \<notin> fst ` set (earlier @ ((u, p), d) # later)"
  shows "(\<exists>row. db_get_analysis (fold (\<lambda>(k, d). store_analysis (codec, flush) k d) (earlier @ ((u, p), d) # later) db) u p =
        Some (analysis_entry_to_dict row) \<and> same_row (analysis_row codec d) row) \<and>
    db_get_analysis (fold (\<lambda>(k, d). store_analysis (codec, flush) k d) (earlier @ ((u, p), d) # later) db) (fst k) (snd k) =
      db_get_analysis db (fst k) (snd k)"
proof -
  have "flush_law codec flush" "row_ok codec (u, p) (analysis_row codec d)"
    using assms(1) by (simp_all add: analysis_storable_def)
  then have "same_row (analysis_row codec d) (flushed flush (u, p) (analysis_row codec d))"
    unfolding flush_law_def flushed_def by fastforce
  then show ?thesis
    using db.get_add_all [OF assms(1,2), of earlier] db.get_add_all_other [OF assms(3)]
    by (auto simp: db.add_all_def stored_analysis_def)
qed

text \<open>
  A database that accepts exactly the rows that satisfy the schema. As PostgreSQL does, \<open>jsonb_flush\<close>
  gives the keys of an object back in an order of its own.
\<close>

definition strict_flush :: flush_fun where
  "strict_flush k row = (if row_ok plain_codec k row then Inr row else Inl DbInterfaceError)"

definition jsonb_flush :: flush_fun where
  "jsonb_flush k row = (if row_ok plain_codec k row
     then Inr (row\<lparr>ae_tags := sort_keys (ae_tags row), ae_result := sort_keys (ae_result row)\<rparr>)
     else Inl DbInterfaceError)"

lemma sort_items_map: "sort_items d = map (\<lambda>(k, v). (k, sort_keys v)) d"
  by (induction d) auto

lemma sort_items_sorted: "sort_items (sort_key fst d) = sort_key fst (sort_items d)"
proof (induction d)
  case (Cons x d)
  have "sort_items (insort_key fst x xs) = insort_key fst (fst x, sort_keys (snd x)) (sort_items xs)" for xs
    by (induction xs) (auto simp: sort_items_map split: prod.splits)
  then show ?case
    using Cons by (cases x) simp
qed simp

lemma sort_keys_idem:
  "sort_keys (sort_keys v) = sort_keys v" "sort_items (sort_items d) = sort_items d"
  "sort_elements (sort_elements vs) = sort_elements vs"
  by (induction v and d and vs rule: sort_keys_sort_items_sort_elements.induct)
    (simp_all add: sort_items_sorted sort_key_id_if_sorted)

lemma jsonb_flush_law: "flush_law plain_codec jsonb_flush"
  by (simp add: flush_law_def jsonb_flush_def same_row_def same_document_def sort_keys_idem)

definition example_analysis :: pydict where
  "example_analysis = [(''plugin_version'', PVersion ''1.0.0''), (''analysis_date'', PFloat 1),
     (''result'', PDict [(''mime'', PTuple [PStr [CHR ''x'', NUL]]), (''full'', PInt 1)])]"

lemma example_storable: "analysis_storable (plain_codec, jsonb_flush) example_db (''fw'', ''file_type'') example_analysis"
  using jsonb_flush_law unfolding plain_codec_def
  by (simp add: analysis_storable_def in_files_def example_db_def remove_null_def example_analysis_def sanitize_result_def dict_get_def sanitize_dict_def sanitize_key_def
      sanitize_string_def NUL_def row_ok_def analysis_row_def sanitize_plugin_version_def empty_database_def)

theorem add_analysis_roundtrip_witness:
  "\<exists>row. db_get_analysis (store_analysis (plain_codec, jsonb_flush) (''fw'', ''file_type'') example_analysis example_db)
       ''fw'' ''file_type'' = Some (analysis_entry_to_dict row) \<and> ae_plugin_version row = PStr ''1.0.0'' \<and>
     same_document (PDict [(''mime'', PList [PStr ''x'']), (''full'', PInt 1)]) (ae_result row)"
proof -
  have "ae_plugin_version (analysis_row plain_codec example_analysis) = PStr ''1.0.0''"
    "ae_result (analysis_row plain_codec example_analysis) = PDict [(''mime'', PList [PStr ''x'']), (''full'', PInt 1)]"
    by (simp_all add: analysis_row_def example_analysis_def sanitize_result_def remove_null_def plain_codec_def
        dict_get_def sanitize_dict_def sanitize_key_def sanitize_string_def NUL_def sanitize_plugin_version_def)
  then show ?thesis
    using add_analysis_roundtrip [OF example_storable, of "[]" "(''a'', ''file_type'')" "[]"]
    by (auto simp: same_row_def)
qed


section \<open>Deleting a firmware\<close>

text \<open>A file survives the deletion of the firmware \<open>u\<close> if it is a firmware itself or belongs to another one.\<close>

definition survives :: "database \<Rightarrow> string \<Rightarrow> string \<Rightarrow> bool" where
  "survives db u v \<longleftrightarrow> v \<noteq> u \<and>
     ((\<exists>e. map_of (file_object_table db) v = Some e \<and> e_is_firmware e) \<or> (\<exists>r. r \<noteq> u \<and> (r, v) \<in> set (fw_files_table db)))"

lemma map_of_filter_key: "map_of (filter (\<lambda>(k, _). P k) xs) k = (if P k then map_of xs k else None)"
  by (induction xs) auto

lemma map_of_filter_key2:
  "map_of (filter (\<lambda>((u, _), _). P u) xs) (u, p) = (if P u then map_of xs (u, p) else None)"
  by (induction xs) auto

lemma remove_files_lookup [simp]:
  "map_of (file_object_table (remove_files us db)) v = (if v \<in> us then None else map_of (file_object_table db) v)"
  "map_of (analysis_table (remove_files us db)) (v, p) = (if v \<in> us then None else map_of (analysis_table db) (v, p))"
  "map_of (firmware_table (remove_files us db)) v = (if v \<in> us then None else map_of (firmware_table db) v)"
  by (simp_all add: remove_files_def map_of_filter_key map_of_filter_key2)

lemma remove_comparisons_tables [simp]:
  "file_object_table (remove_comparisons ids db) = file_object_table db"
  "analysis_table (remove_comparisons ids db) = analysis_table db"
  "fw_files_table (remove_comparisons ids db) = fw_files_table db"
  by (simp_all add: remove_comparisons_def)

lemma orphans_iff:
  assumes "distinct (map fst (file_object_table db))"
  shows "v \<in> orphans db \<longleftrightarrow> (\<exists>e. map_of (file_object_table db) v = Some e \<and> \<not> e_is_firmware e) \<and>
     v \<notin> snd ` set (fw_files_table db)"
  using assms unfolding orphans_def by (force simp: image_iff)

lemma orphans_after_delete:
  assumes "db_ok db" "v \<in> file_uids db" "v \<noteq> u"
  shows "v \<in> orphans (remove_files {u} (remove_comparisons ids db)) \<longleftrightarrow> \<not> survives db u v"
proof -
  let ?db1 = "remove_files {u} (remove_comparisons ids db)"
  have "db_ok ?db1"
    using assms(1) by (intro db_ok_remove_files db_ok_remove_comparisons)
  then have "distinct (map fst (file_object_table ?db1))"
    by (rule db_okD)
  moreover have "v \<in> snd ` set (fw_files_table ?db1) \<longleftrightarrow> (\<exists>r. r \<noteq> u \<and> (r, v) \<in> set (fw_files_table db))"
    using assms(3) by (force simp: remove_files_def)
  moreover obtain e where "map_of (file_object_table db) v = Some e"
    using assms(2) by (metis dom_map_of_iff not_None_eq)
  ultimately show ?thesis
    using assms(3) by (auto simp: orphans_iff survives_def)
qed

lemma delete_object_firmware:
  assumes "db_ok db" "map_of (firmware_table db) u \<noteq> None"
  shows "file_uids (delete_object u db) = {v \<in> file_uids db. survives db u v}"
    and "survives db u v \<Longrightarrow> v \<in> file_uids db \<Longrightarrow>
      map_of (analysis_table (delete_object u db)) (v, p) = map_of (analysis_table db) (v, p)"
proof -
  define ids where "ids = fst ` set (filter (\<lambda>(_, f). f = u) (comparisons_table db))"
  let ?db1 = "remove_files {u} (remove_comparisons ids db)"
  have "u \<in> fst ` set (firmware_table db)"
    using assms(2) by (simp only: dom_map_of_iff)
  then have u: "u \<in> file_uids db"
    using db_okD(8) [OF assms(1)] by (rule subsetD [rotated])
  then have del: "delete_object u db = remove_files (orphans ?db1) ?db1"
    unfolding delete_object_def in_files_iff
    using assms(2) by (simp add: Let_def ids_def delete_file_orphans_def)
  show "file_uids (delete_object u db) = {v \<in> file_uids db. survives db u v}"
  proof (intro set_eqI)
    fix v
    have "v \<in> file_uids db - {u} - orphans ?db1 \<longleftrightarrow> v \<in> file_uids db \<and> survives db u v"
    proof (cases "v = u")
      case False
      then show ?thesis
        using orphans_after_delete [OF assms(1), of v u ids] by blast
    qed (simp add: survives_def)
    then show "v \<in> file_uids (delete_object u db) \<longleftrightarrow> v \<in> {v \<in> file_uids db. survives db u v}"
      unfolding del file_uids_remove remove_comparisons_tables by simp
  qed
  assume v: "survives db u v" "v \<in> file_uids db"
  then have "v \<noteq> u"
    by (simp add: survives_def)
  then show "map_of (analysis_table (delete_object u db)) (v, p) = map_of (analysis_table db) (v, p)"
    unfolding del using orphans_after_delete [OF assms(1) v(2)] v(1) by simp
qed

text \<open>
  C8. Deleting a firmware removes its entry and exactly those files that belong to no other firmware
  and are no firmware themselves; every other file stays, with all its analysis results. The UIDs
  handed over for deletion from the file system are the firmware and the files of the firmware that
  are no longer in the database, and the returned numbers count the kept and the deleted files.
\<close>

theorem delete_firmware_correct:
  assumes "db_ok db" "map_of (file_object_table db) u = Some fw" "e_is_firmware fw"
    "map_of (firmware_table db) u \<noteq> None"
    and del: "delete_firmware u True db = (db', (kept, deleted), Some uids)"
  shows "file_uids db' = {v \<in> file_uids db. survives db u v} \<and>
    (\<forall>v p. survives db u v \<longrightarrow> v \<in> file_uids db \<longrightarrow>
       map_of (analysis_table db') (v, p) = map_of (analysis_table db) (v, p)) \<and>
    uids = insert u {v \<in> get_all_files_in_fw db u. v \<notin> file_uids db'} \<and>
    kept = card {v \<in> get_all_files_in_fw db u. survives db u v} \<and> deleted = card uids"
proof -
  have db': "db' = delete_object u db"
    and parts: "uids = insert u (get_all_files_in_fw db u - find_files_still_in_db (get_all_files_in_fw db u) db')"
      "kept = card (find_files_still_in_db (get_all_files_in_fw db u) db')" "deleted = card uids"
    using del assms(2,3) by (auto simp: delete_firmware_def Let_def)
  have still: "find_files_still_in_db (get_all_files_in_fw db u) db' = {v \<in> get_all_files_in_fw db u. v \<in> file_uids db'}"
    by (auto simp: find_files_still_in_db_def)
  have "get_all_files_in_fw db u \<subseteq> file_uids db"
    using db_okD(6) [OF assms(1)] by (auto simp: get_all_files_in_fw_def)
  then have "{v \<in> get_all_files_in_fw db u. v \<in> file_uids db'} = {v \<in> get_all_files_in_fw db u. survives db u v}"
    unfolding db' delete_object_firmware(1) [OF assms(1,4)] by auto
  then show ?thesis
    using delete_object_firmware [OF assms(1,4)] parts still unfolding db' by auto
qed

definition example_fw_row :: firmware_entry where
  "example_fw_row = \<lparr>e_submission_date = 0, e_release_date = (2024, 2, 29), e_version = Some ''1'',
     e_vendor = Some ''v'', e_device_name = Some ''d'', e_device_class = Some ''c'', e_device_part = [],
     e_firmware_tags = []\<rparr>"

definition shared_db :: database where
  "shared_db = empty_database\<lparr>
     file_object_table := [(''f1'', example_entry True), (''f2'', example_entry True),
       (''a'', example_entry False), (''b'', example_entry False)],
     firmware_table := [(''f1'', example_fw_row), (''f2'', example_fw_row)],
     fw_files_table := [(''f1'', ''a''), (''f1'', ''b''), (''f2'', ''b'')]\<rparr>"

lemma shared_db_ok: "db_ok shared_db"
  by (simp add: db_ok_def keys_ok_def refs_ok_def refs_at_def shared_db_def empty_database_def)

theorem delete_firmware_witness:
  "\<exists>db' uids. delete_firmware ''f1'' True shared_db = (db', (1, 2), Some uids) \<and>
     file_uids db' = {''f2'', ''b''} \<and> uids = {''f1'', ''a''}"
proof -
  obtain db' kept deleted uids where del: "delete_firmware ''f1'' True shared_db = (db', (kept, deleted), Some uids)"
    by (simp add: delete_firmware_def shared_db_def example_entry_def Let_def)
  have entry: "map_of (file_object_table shared_db) ''f1'' = Some (example_entry True)"
    "e_is_firmware (example_entry True)" "map_of (firmware_table shared_db) ''f1'' \<noteq> None"
    by (simp_all add: shared_db_def example_entry_def)
  have sv: "survives shared_db ''f1'' v \<longleftrightarrow> v \<in> {''f2'', ''b''}" for v
  proof (cases "v \<in> {''f1'', ''f2'', ''a'', ''b''}")
    case True
    then consider "v = ''f1''" | "v = ''f2''" | "v = ''a''" | "v = ''b''" by blast
    then show ?thesis
      by cases (simp_all add: survives_def shared_db_def example_entry_def ex_disj_distrib conj_disj_distribL)
  next
    case False
    then show ?thesis
      by (simp add: survives_def shared_db_def)
  qed
  have files: "get_all_files_in_fw shared_db ''f1'' = {''a'', ''b''}" "file_uids shared_db = {''f1'', ''f2'', ''a'', ''b''}"
    by (auto simp: get_all_files_in_fw_def shared_db_def)
  note deletion = delete_firmware_correct [OF shared_db_ok entry del]
  have uids: "file_uids db' = {''f2'', ''b''}"
    using deletion unfolding sv files by auto
  have "uids = {''f1'', ''a''}"
    using deletion unfolding files uids by auto
  moreover from this have "deleted = 2"
    using deletion by simp
  moreover have "kept = 1"
  proof -
    have "{v \<in> {''a'', ''b''}. v \<in> {''f2'', ''b''}} = {''b''}" by auto
    then show ?thesis using deletion unfolding sv files by simp
  qed
  ultimately show ?thesis
    using del uids by simp
qed

text \<open>
  A file that is already stored as a firmware and is found again inside of another firmware is
  updated as a plain file: the flag \<open>is_firmware\<close> is cleared although the firmware entry stays.
\<close>

lemma update_clears_firmware_flag:
  assumes "update_file_object fo db = Inr db'" "\<not> is_firmware_object fo"
    "map_of (file_object_table db) (uid fo) = Some entry"
  shows "\<exists>e. map_of (file_object_table db') (uid fo) = Some e \<and> \<not> e_is_firmware e"
  using assms by (auto simp: update_file_object_def Let_def result_simps)

end
