(* ===== verification/Plugin_Runner.thy ===== *)
theory Plugin_Runner
  imports Plugin_Base File_Storage
begin

text \<open>
  \<^verbatim>\<open>src/src/scheduler/analysis/plugin.py\<close>: the runner of one plugin with its in-queue and out-queue,
  the workers that execute the plugin in a child process, and the ring buffer with the durations
  (\<^verbatim>\<open>src/src/statistic/analysis_stats.py\<close>). The schemata of the plugins (classes of \<open>pydantic\<close>) are a
  parameter: \<open>schemata p\<close> converts the stored result of plugin \<open>p\<close>. What the child process does is
  the input of the worker step: what it sends before the timeout and what it sends afterwards,
  before it is killed. Durations are real numbers; the rounding of \<open>c_float\<close> is left out.
\<close>

section \<open>State\<close>

record runner_task =
  t_virtual_file_path :: vfp_dict
  t_path :: string
  t_dependencies :: pydict
  t_scheduler_state :: file_object

record plugin_runner =
  in_queue :: "runner_task list"
  out_queue :: "file_object list"
  stats :: "real list"
  stats_count :: nat
  stats_idx :: nat

definition ANALYSIS_STATS_LIMIT :: nat where
  "ANALYSIS_STATS_LIMIT = 1000"

definition init_plugin_runner :: plugin_runner where
  "init_plugin_runner = \<lparr>in_queue = [], out_queue = [], stats = replicate ANALYSIS_STATS_LIMIT 0,
     stats_count = 0, stats_idx = 0\<rparr>"

definition get_queue_len :: "plugin_runner \<Rightarrow> nat" where
  "get_queue_len r = length (in_queue r)"

section \<open>Queueing\<close>

type_synonym schemata = "string \<Rightarrow> (pyval \<Rightarrow> pyval result) option"

fun collect_dependencies :: "schemata \<Rightarrow> (string \<times> pyval) list \<Rightarrow> string list \<Rightarrow> pydict \<Rightarrow> pydict result" where
  "collect_dependencies schemata processed [] d = Inr d"
| "collect_dependencies schemata processed (dep # deps) d =
     (case schemata dep of
        None \<Rightarrow> Inl KeyError
      | Some Schema \<Rightarrow>
          bindE (dict_item processed dep) (\<lambda>entry.
          bindE (subscript entry ''result'') (\<lambda>result.
          bindE (Schema result) (\<lambda>v.
            collect_dependencies schemata processed deps (AList.update dep v d)))))"

text \<open>\<open>processed_analysis.get('unpacker', {}).get('result')\<close>\<close>

definition unpacker_result :: "(string \<times> pyval) list \<Rightarrow> pyval result" where
  "unpacker_result processed = (case map_of processed ''unpacker'' of
       None \<Rightarrow> Inr PNone
     | Some (PDict d) \<Rightarrow> Inr (case map_of d ''result'' of None \<Rightarrow> PNone | Some v \<Rightarrow> v)
     | Some _ \<Rightarrow> Inl AttributeError)"

definition queue_analysis ::
  "schemata \<Rightarrow> string \<Rightarrow> plugin_metadata \<Rightarrow> file_object \<Rightarrow> plugin_runner \<Rightarrow> plugin_runner result" where
  "queue_analysis schemata storage md fo r =
     bindE (collect_dependencies schemata (processed_analysis fo) (dependencies md) []) (\<lambda>deps.
     bindE (unpacker_result (processed_analysis fo)) (\<lambda>u.
       Inr (r\<lparr>in_queue := in_queue r @
         [\<lparr>t_virtual_file_path = virtual_file_path fo, t_path = generate_path storage fo,
           t_dependencies = AList.update ''unpacker'' u deps, t_scheduler_state = fo\<rparr>]\<rparr>)))"

section \<open>Workers\<close>

text \<open>What \<open>plugin.get_analysis\<close> does in the child process, and the message that is sent\<close>

datatype child_run =
    Returned pydict
  | Failed string
  | Raised string string

type_synonym child_message = "string + pydict"

fun child_entrypoint :: "child_run \<Rightarrow> child_message" where
  "child_entrypoint (Returned result) = Inr result"
| "child_entrypoint (Failed exc) = Inl (''Analysis failed: '' @ exc)"
| "child_entrypoint (Raised exc tb) = Inl (exc @ '': '' @ tb)"

datatype worker_entry =
    EntryAnalysis pydict
  | EntryTimeout "string \<times> string"
  | EntryException "string \<times> string"

definition write_result_in_file_object :: "plugin_metadata \<Rightarrow> worker_entry \<Rightarrow> file_object \<Rightarrow> file_object" where
  "write_result_in_file_object md entry fo = (case entry of
       EntryAnalysis d \<Rightarrow> fo\<lparr>processed_analysis := AList.update (pm_name md) (PDict d) (processed_analysis fo)\<rparr>
     | EntryTimeout e \<Rightarrow> fo\<lparr>analysis_exception := Some e\<rparr>
     | EntryException e \<Rightarrow> fo\<lparr>analysis_exception := Some e\<rparr>)"

definition update_duration_stats :: "real \<Rightarrow> plugin_runner \<Rightarrow> plugin_runner" where
  "update_duration_stats duration r =
     (let idx = stats_idx r + 1
      in r\<lparr>stats := (stats r)[stats_idx r := duration],
           stats_idx := (if idx \<ge> ANALYSIS_STATS_LIMIT then 0 else idx),
           stats_count := (if stats_count r < ANALYSIS_STATS_LIMIT then stats_count r + 1 else stats_count r)\<rparr>)"

text \<open>
  One iteration of the loop in \<open>Worker.run\<close> for a task: \<open>pipe\<close> holds the messages that were sent and
  not yet received, \<open>early\<close> is what the child sends before \<open>recv_conn.poll(timeout)\<close> returns, \<open>late\<close>
  what it sends before it is killed. The entry is computed from the first message in the pipe.
\<close>

definition message_entry :: "plugin_metadata \<Rightarrow> child_message \<Rightarrow> worker_entry" where
  "message_entry md m = (case m of
       Inr result \<Rightarrow> EntryAnalysis result
     | Inl s \<Rightarrow>
         if starts_with ''Analysis failed'' s then EntryException (pm_name md, s)
         else EntryException (pm_name md, ''Exception occurred during analysis''))"

definition worker_run ::
  "plugin_metadata \<Rightarrow> child_message option \<Rightarrow> child_message option \<Rightarrow> real \<Rightarrow>
   child_message list \<times> plugin_runner \<Rightarrow> child_message list \<times> plugin_runner" where
  "worker_run md early late duration s = (case s of (pipe, r) \<Rightarrow>
     (case in_queue r of
        [] \<Rightarrow> (pipe, r)
      | task # tasks \<Rightarrow>
          (let msgs = pipe @ (case early of None \<Rightarrow> [] | Some m \<Rightarrow> [m]);
               (entry, rest) = (case msgs of
                   [] \<Rightarrow> (EntryTimeout (pm_name md, ''Analysis timed out''), [])
                 | m # ms \<Rightarrow> (message_entry md m, ms));
               r1 = (case entry of EntryAnalysis _ \<Rightarrow> update_duration_stats duration r | _ \<Rightarrow> r);
               fo = write_result_in_file_object md entry (t_scheduler_state task)
           in (rest @ (case late of None \<Rightarrow> [] | Some m \<Rightarrow> [m]),
               r1\<lparr>in_queue := tasks, out_queue := out_queue r @ [fo]\<rparr>))))"

text \<open>\<open>get_plugin_stats\<close>: the functions of \<open>numpy\<close> with their formatting are the parameter \<open>np\<close>.\<close>

definition stats_array :: "plugin_runner \<Rightarrow> real list" where
  "stats_array r = (if stats_count r < ANALYSIS_STATS_LIMIT then take (stats_count r) (stats r) else stats r)"

definition get_plugin_stats :: "(string \<times> (real list \<Rightarrow> string)) list \<Rightarrow> plugin_runner \<Rightarrow> (string \<times> string) list option" where
  "get_plugin_stats np r =
     (if stats_array r = [] then None
      else Some (map (\<lambda>(name, f). (name, f (stats_array r))) np @ [(''count'', nat_str (stats_count r))]))"

section \<open>Lemmas: queueing\<close>

lemma collect_dependencies_spec:
  assumes "collect_dependencies schemata processed deps d = Inr d'"
  shows "\<forall>dep \<in> set deps. \<exists>entry. map_of processed dep = Some (PDict entry) \<and> map_of entry ''result'' \<noteq> None"
  using assms
proof (induction deps arbitrary: d)
  case (Cons dep deps)
  then obtain entry result where "map_of processed dep = Some entry" "subscript entry ''result'' = Inr result"
    and rest: "\<exists>d. collect_dependencies schemata processed deps d = Inr d'"
    by (auto simp: result_simps dict_simps split: option.splits)
  then show ?case
    using Cons.IH by (cases entry) (auto simp: dict_simps)
qed simp

section \<open>Lemmas: the ring buffer of durations\<close>

text \<open>The buffer after the durations \<open>ds\<close>: the entry of the \<open>j\<close>-th duration is at \<open>j mod limit\<close>.\<close>

definition ring_inv :: "real list \<Rightarrow> plugin_runner \<Rightarrow> bool" where
  "ring_inv ds r \<longleftrightarrow> length (stats r) = ANALYSIS_STATS_LIMIT \<and>
     stats_idx r = length ds mod ANALYSIS_STATS_LIMIT \<and>
     stats_count r = min (length ds) ANALYSIS_STATS_LIMIT \<and>
     (\<forall>j. length ds \<le> j + ANALYSIS_STATS_LIMIT \<longrightarrow> j < length ds \<longrightarrow>
        stats r ! (j mod ANALYSIS_STATS_LIMIT) = ds ! j)"

lemma stats_limit_pos [simp]: "0 < ANALYSIS_STATS_LIMIT"
  by (simp add: ANALYSIS_STATS_LIMIT_def)

lemma ring_inv_init: "ring_inv [] init_plugin_runner"
  by (simp add: ring_inv_def init_plugin_runner_def)

lemma mod_neq_window:
  assumes "j < n" "n < j + L" "(0::nat) < L"
  shows "j mod L \<noteq> n mod L"
proof
  assume "j mod L = n mod L"
  then have "L dvd n - j"
    using assms(1) by (metis less_imp_le mod_eq_dvd_iff_nat)
  then show False
    using assms by (auto dest: dvd_imp_le)
qed

lemma ring_inv_step:
  assumes "ring_inv ds r"
  shows "ring_inv (ds @ [x]) (update_duration_stats x r)"
proof -
  let ?L = ANALYSIS_STATS_LIMIT and ?n = "length ds"
  have "(update_duration_stats x r) = r\<lparr>stats := (stats r)[?n mod ?L := x],
      stats_idx := Suc ?n mod ?L, stats_count := min (Suc ?n) ?L\<rparr>"
  proof -
    have "?n mod ?L < ?L"
      by simp
    then have "?L \<le> Suc (?n mod ?L) \<longleftrightarrow> Suc (?n mod ?L) = ?L"
      by linarith
    then show ?thesis
      using assms by (auto simp: update_duration_stats_def ring_inv_def Let_def mod_Suc)
  qed
  moreover have "(stats r)[?n mod ?L := x] ! (j mod ?L) = (ds @ [x]) ! j"
    if "Suc ?n \<le> j + ?L" "j < Suc ?n" for j
  proof (cases "j = ?n")
    case True
    then show ?thesis
      using assms by (simp add: ring_inv_def)
  next
    case False
    then have "j mod ?L \<noteq> ?n mod ?L"
      using that by (intro mod_neq_window) auto
    then show ?thesis
      using assms that False by (simp add: ring_inv_def nth_append)
  qed
  ultimately show ?thesis
    using assms by (simp add: ring_inv_def)
qed

lemma ring_inv_fold: "ring_inv ds0 r \<Longrightarrow> ring_inv (ds0 @ ds) (fold update_duration_stats ds r)"
proof (induction ds arbitrary: ds0 r)
  case (Cons d ds)
  then show ?case
    using Cons.IH [OF ring_inv_step [OF Cons.prems]] by simp
qed simp

lemma mset_rotate: "mset (rotate n xs) = mset xs"
  by (metis append_take_drop_id mset_append rotate_drop_take union_commute)

lemma ring_array:
  assumes "ring_inv ds r"
  shows "mset (stats_array r) = mset (drop (length ds - ANALYSIS_STATS_LIMIT) ds)"
proof (cases "length ds < ANALYSIS_STATS_LIMIT")
  case True
  then have "take (length ds) (stats r) = ds"
    using assms by (intro nth_equalityI) (auto simp: ring_inv_def)
  then show ?thesis
    using True assms by (simp add: stats_array_def ring_inv_def)
next
  case False
  let ?L = ANALYSIS_STATS_LIMIT and ?n = "length ds"
  have "drop (?n - ?L) ds = rotate (?n mod ?L) (stats r)"
  proof (rule nth_equalityI)
    fix i assume "i < length (drop (?n - ?L) ds)"
    then have i: "i < ?L" "?n - ?L + i < ?n"
      using False by auto
    have "drop (?n - ?L) ds ! i = stats r ! ((?n - ?L + i) mod ?L)"
      using assms i False by (simp add: ring_inv_def)
    also have "(?n - ?L + i) mod ?L = (?n mod ?L + i) mod ?L"
      using False by (metis add.commute le_mod_geq linorder_not_less mod_add_left_eq)
    also have "stats r ! \<dots> = rotate (?n mod ?L) (stats r) ! i"
      using assms i by (simp add: nth_rotate ring_inv_def add.commute)
    finally show "drop (?n - ?L) ds ! i = rotate (?n mod ?L) (stats r) ! i" .
  qed (use assms False in \<open>simp add: ring_inv_def\<close>)
  then show ?thesis
    using False assms by (simp add: stats_array_def ring_inv_def mset_rotate)
qed

text \<open>
  After any sequence of analyses the statistics of a plugin are computed from the durations of
  exactly the last 1000 of them (of all of them if there were fewer), and the reported count is
  their number.
\<close>

theorem duration_stats_last_runs:
  "mset (stats_array (fold update_duration_stats ds init_plugin_runner)) =
     mset (drop (length ds - ANALYSIS_STATS_LIMIT) ds) \<and>
   stats_count (fold update_duration_stats ds init_plugin_runner) = min (length ds) ANALYSIS_STATS_LIMIT"
proof -
  have inv: "ring_inv ds (fold update_duration_stats ds init_plugin_runner)"
    using ring_inv_fold [OF ring_inv_init, of ds] by simp
  show ?thesis
    using ring_array [OF inv] inv by (simp add: ring_inv_def)
qed

section \<open>Results of the workers\<close>

text \<open>What the object must look like after the plugin ran on it\<close>

definition run_outcome :: "plugin_metadata \<Rightarrow> child_message option \<Rightarrow> worker_entry" where
  "run_outcome md early = (case early of
       None \<Rightarrow> EntryTimeout (pm_name md, ''Analysis timed out'')
     | Some m \<Rightarrow> message_entry md m)"

lemma worker_run_empty_pipe:
  assumes "in_queue r = task # tasks" "worker_run md early None duration ([], r) = (pipe', r')"
  shows "pipe' = []" "in_queue r' = tasks"
    "out_queue r' = out_queue r @ [write_result_in_file_object md (run_outcome md early) (t_scheduler_state task)]"
  using assms by (auto simp: worker_run_def run_outcome_def Let_def update_duration_stats_def
      split: option.splits worker_entry.splits)

text \<open>
  A message that is sent after the timeout stays in the pipe and is taken for the result of the
  next task.
\<close>

lemma late_message_goes_to_next_task:
  assumes "in_queue r = task1 # task2 # tasks"
    and "worker_run md None (Some m) t1 ([], r) = (pipe1, r1)"
    and "worker_run md early None t2 (pipe1, r1) = (pipe2, r2)"
  shows "out_queue r2 = out_queue r @
    [write_result_in_file_object md (EntryTimeout (pm_name md, ''Analysis timed out'')) (t_scheduler_state task1),
     write_result_in_file_object md (message_entry md m) (t_scheduler_state task2)]"
  using assms by (auto simp: worker_run_def Let_def update_duration_stats_def
      split: option.splits worker_entry.splits)

end
