(* ===== verification/Analysis_Scheduler.thy ===== *)
theory Analysis_Scheduler
  imports Task_Scheduler Analysis_Status Database_Backend Plugin_Runner
begin

text \<open>
  \<^verbatim>\<open>src/src/scheduler/analysis/scheduler.py\<close>: the analysis scheduler. Its state consists of the process
  queue, the queues of the plugin runners, the message queue and the worker of the status component,
  the database, the unpacking locks and the callbacks that were called. Objects are passed between
  the processes through these queues. Each function of the scheduler is a function on this state; an
  exception that leaves a function is an \<open>Inl\<close> value (the process that runs it ends).

  Parameters (record \<open>sched_env\<close>): the plugins and their schemata, the configuration, the random
  permutation, the comparison of versions (packages \<open>semver\<close> and \<open>packaging\<close>, an unparsable version
  is the \<open>ValueError\<close> they document), hash functions and the content of stored files.
\<close>

section \<open>Environment and state\<close>

record plugin_config =
  pc_processes :: "nat option"
  pc_mime_blacklist :: "string list option"
  pc_mime_whitelist :: "string list option"

record sched_env =
  env_plugins :: plugin_table
  env_schemata :: schemata
  env_shuffle :: shuffler
  env_config :: "(string \<times> plugin_config) list"
  env_default_processes :: nat
  env_presets :: "(string \<times> string list) list"
  env_newer_plugin_version :: "string \<Rightarrow> pyval \<Rightarrow> bool result"
  env_newer_system_version :: "string \<Rightarrow> string \<Rightarrow> bool result"
  env_codec :: codec
  env_flush :: flush_fun
  env_storage :: string
  env_read_file :: "string \<Rightarrow> string"
  env_sha :: "string \<Rightarrow> string"
  env_md5 :: "string \<Rightarrow> string"

record sched_state =
  process_queue :: "file_object list"
  runners :: "(string \<times> plugin_runner) list"
  status_queue :: "update_type list"
  status_state :: status_worker
  sdb :: database
  locks :: unpacking_locks
  called :: "nat list"

section \<open>Completion\<close>

definition do_callback :: "file_object \<Rightarrow> sched_state \<Rightarrow> sched_state" where
  "do_callback fo s = (case callback fo of None \<Rightarrow> s | Some c \<Rightarrow> s\<lparr>called := called s @ [c]\<rparr>)"

definition nothing_scheduled :: "file_object \<Rightarrow> bool" where
  "nothing_scheduled fo \<longleftrightarrow> (case scheduled_analysis fo of None \<Rightarrow> True | Some xs \<Rightarrow> xs = [])"

definition put_status :: "update_type list \<Rightarrow> sched_state \<Rightarrow> sched_state" where
  "put_status ms s = s\<lparr>status_queue := status_queue s @ ms\<rparr>"

definition check_further_process_or_complete :: "file_object \<Rightarrow> sched_state \<Rightarrow> sched_state" where
  "check_further_process_or_complete fo s =
     (if nothing_scheduled fo then do_callback fo (put_status (status_remove_object fo) s)
      else if is_firmware_object fo \<or> root_uid fo = None \<or>
              fw_analysis_is_in_progress fo (currently_analyzed (status_state s))
      then s\<lparr>process_queue := process_queue s @ [fo]\<rparr>
      else s)"

section \<open>Is the result in the database up to date?\<close>

definition is_forced_update :: "file_object \<Rightarrow> bool" where
  "is_forced_update fo = force_update fo"

definition fix_system_version :: "pyval \<Rightarrow> string result" where
  "fix_system_version v =
     (if truthy v
      then (case v of PStr s \<Rightarrow> Inr (map (\<lambda>c. if c = CHR ''_'' then CHR ''-'' else c) s) | _ \<Rightarrow> Inl AttributeError)
      else Inr ''0'')"

definition opt_py :: "string option \<Rightarrow> pyval" where
  "opt_py x = (case x of None \<Rightarrow> PNone | Some s \<Rightarrow> PStr s)"

definition current_version_is_newer :: "sched_env \<Rightarrow> plugin_metadata \<Rightarrow> pydict \<Rightarrow> bool result" where
  "current_version_is_newer env md db_entry =
     bindE (dict_item db_entry ''plugin_version'') (\<lambda>v.
     bindE (env_newer_plugin_version env (pm_version md) v) (\<lambda>plugin_newer.
     bindE (fix_system_version (opt_py (pm_system_version md))) (\<lambda>cur.
     bindE (fix_system_version (dict_get db_entry ''system_version'' PNone)) (\<lambda>old.
     bindE (env_newer_system_version env cur old) (\<lambda>system_newer.
       Inr (plugin_newer \<or> system_newer))))))"

fun py_less :: "pyval \<Rightarrow> pyval \<Rightarrow> bool result" where
  "py_less (PFloat x) (PFloat y) = Inr (x < y)"
| "py_less (PInt x) (PInt y) = Inr (x < y)"
| "py_less (PInt x) (PFloat y) = Inr (real_of_int x < y)"
| "py_less (PFloat x) (PInt y) = Inr (x < real_of_int y)"
| "py_less _ _ = Inl TypeError"

fun dependencies_are_up_to_date :: "database \<Rightarrow> pydict \<Rightarrow> string \<Rightarrow> string list \<Rightarrow> bool result" where
  "dependencies_are_up_to_date db db_entry u [] = Inr True"
| "dependencies_are_up_to_date db db_entry u (dep # deps) = (case db_get_analysis db u dep of
       None \<Rightarrow> Inr False
     | Some dep_entry \<Rightarrow>
         bindE (dict_item db_entry ''analysis_date'') (\<lambda>d1.
         bindE (dict_item dep_entry ''analysis_date'') (\<lambda>d2.
         bindE (py_less d1 d2) (\<lambda>newer.
           if newer then Inr False else dependencies_are_up_to_date db db_entry u deps))))"

definition analysis_is_up_to_date :: "sched_env \<Rightarrow> database \<Rightarrow> pydict \<Rightarrow> plugin_metadata \<Rightarrow> string \<Rightarrow> bool result" where
  "analysis_is_up_to_date env db db_entry md u = (case current_version_is_newer env md db_entry of
       Inl TypeError \<Rightarrow> Inr False
     | Inl ValueError \<Rightarrow> Inr False
     | Inl e \<Rightarrow> Inl e
     | Inr True \<Rightarrow> Inr False
     | Inr False \<Rightarrow> dependencies_are_up_to_date db db_entry u (dependencies md))"

definition analysis_is_already_in_db_and_up_to_date ::
  "sched_env \<Rightarrow> database \<Rightarrow> string \<Rightarrow> string \<Rightarrow> bool result" where
  "analysis_is_already_in_db_and_up_to_date env db analysis_to_do u = (case db_get_analysis db u analysis_to_do of
       None \<Rightarrow> Inr False
     | Some db_entry \<Rightarrow>
         bindE (dict_item db_entry ''result'') (\<lambda>result.
         bindE (py_contains ''failed'' result) (\<lambda>failed.
         if failed then Inr False
         else bindE (dict_item db_entry ''plugin_version'') (\<lambda>v.
           if v = PNone then Inr False
           else bindE (dict_item (env_plugins env) analysis_to_do) (\<lambda>md.
             analysis_is_up_to_date env db db_entry md u)))))"

definition add_completed_analysis_results_to_file_object ::
  "database \<Rightarrow> string \<Rightarrow> file_object \<Rightarrow> file_object" where
  "add_completed_analysis_results_to_file_object db analysis_to_do fo =
     fo\<lparr>processed_analysis := AList.update analysis_to_do
       (case db_get_analysis db (uid fo) analysis_to_do of None \<Rightarrow> PNone | Some d \<Rightarrow> PDict d)
       (processed_analysis fo)\<rparr>"

section \<open>Blacklist and whitelist\<close>

definition get_skipped_analysis_result :: "sched_env \<Rightarrow> timestamp \<Rightarrow> string \<Rightarrow> string \<Rightarrow> pydict result" where
  "get_skipped_analysis_result env now analysis_to_do reason =
     bindE (dict_item (env_plugins env) analysis_to_do) (\<lambda>md.
       Inr [(''summary'', PList []), (''analysis_date'', PFloat now),
            (''plugin_version'', PVersion (pm_version md)),
            (''result'', PDict [(''skipped'', PStr reason)])])"

definition get_blacklist_and_whitelist_from_config :: "sched_env \<Rightarrow> string \<Rightarrow> string list \<times> string list" where
  "get_blacklist_and_whitelist_from_config env p = (case map_of (env_config env) p of
       None \<Rightarrow> ([], [])
     | Some c \<Rightarrow> (case pc_mime_blacklist c of None \<Rightarrow> [] | Some b \<Rightarrow> b,
                  case pc_mime_whitelist c of None \<Rightarrow> [] | Some w \<Rightarrow> w))"

definition get_blacklist_and_whitelist_from_plugin :: "sched_env \<Rightarrow> string \<Rightarrow> (string list \<times> string list) result" where
  "get_blacklist_and_whitelist_from_plugin env p =
     bindE (dict_item (env_plugins env) p) (\<lambda>md. Inr (mime_blacklist md, mime_whitelist md))"

definition get_blacklist_and_whitelist :: "sched_env \<Rightarrow> string \<Rightarrow> (string list \<times> string list) result" where
  "get_blacklist_and_whitelist env p =
     (case get_blacklist_and_whitelist_from_config env p of (blacklist, whitelist) \<Rightarrow>
        if blacklist = [] \<and> whitelist = [] then get_blacklist_and_whitelist_from_plugin env p
        else Inr (blacklist, whitelist))"

definition get_file_type_from_object_or_db :: "database \<Rightarrow> file_object \<Rightarrow> (string \<times> file_object) result" where
  "get_file_type_from_object_or_db db fo =
     (let fo1 = (if map_of (processed_analysis fo) ''file_type'' = None
                 then add_completed_analysis_results_to_file_object db ''file_type'' fo else fo)
      in bindE (dict_item (processed_analysis fo1) ''file_type'') (\<lambda>entry.
         bindE (subscript entry ''result'') (\<lambda>result.
         bindE (subscript result ''mime'') (\<lambda>mime.
           case mime of PStr m \<Rightarrow> Inr (py_lower m, fo1) | _ \<Rightarrow> Inl AttributeError))))"

text \<open>The result is accompanied by the object, to which the file type may have been added.\<close>

definition next_analysis_is_blacklisted ::
  "sched_env \<Rightarrow> database \<Rightarrow> string \<Rightarrow> file_object \<Rightarrow> (bool \<times> file_object) result" where
  "next_analysis_is_blacklisted env db next_analysis fo =
     bindE (get_blacklist_and_whitelist env next_analysis) (\<lambda>(blacklist, whitelist).
       if blacklist = [] \<and> whitelist = [] then Inr (False, fo)
       else bindE (get_file_type_from_object_or_db db fo) (\<lambda>(file_type, fo1).
         if whitelist \<noteq> [] then Inr (\<not> substring_is_in_list file_type whitelist, fo1)
         else Inr (substring_is_in_list file_type blacklist, fo1)))"

section \<open>Dependencies\<close>

fun dependencies_are_unfulfilled :: "string list \<Rightarrow> (string \<times> pyval) list \<Rightarrow> bool result" where
  "dependencies_are_unfulfilled [] processed = Inr False"
| "dependencies_are_unfulfilled (dep # deps) processed = (case map_of processed dep of
       None \<Rightarrow> Inr True
     | Some entry \<Rightarrow>
         bindE (py_contains ''result'' entry) (\<lambda>has_result.
         if \<not> has_result then Inr True
         else bindE (subscript entry ''result'') (\<lambda>result.
           if result = PNone then dependencies_are_unfulfilled deps processed
           else bindE (py_contains ''skipped'' result) (\<lambda>skipped.
             if skipped then Inr True
             else bindE (py_contains ''failed'' result) (\<lambda>failed.
               if failed then Inr True else dependencies_are_unfulfilled deps processed)))))"

section \<open>Running a task\<close>

definition sched_set_binary :: "sched_env \<Rightarrow> file_object \<Rightarrow> file_object" where
  "sched_set_binary env fo =
     (let fo1 = (if file_path fo = None then fo\<lparr>file_path := Some (generate_path (env_storage env) fo)\<rparr> else fo)
      in create_binary_from_path (env_sha env) (env_md5 env) (env_read_file env) fo1)"

definition post_analysis :: "sched_env \<Rightarrow> string \<Rightarrow> string \<Rightarrow> pyval \<Rightarrow> sched_state \<Rightarrow> sched_state result" where
  "post_analysis env u plugin entry s =
     bindE (case entry of PDict d \<Rightarrow> Inr d | _ \<Rightarrow> Inl TypeError) (\<lambda>d.
     bindE (db_add_analysis (env_codec env) (env_flush env) u plugin d (sdb s)) (\<lambda>db'.
       Inr (s\<lparr>sdb := db'\<rparr>)))"

text \<open>The last block of \<open>_start_or_skip_analysis\<close>: \<open>if analysis_result is not None\<close>\<close>

definition finish_skipped :: "sched_env \<Rightarrow> string \<Rightarrow> file_object \<Rightarrow> pydict \<Rightarrow> sched_state \<Rightarrow> sched_state result" where
  "finish_skipped env analysis_to_do fo analysis_result s =
     (let fo1 = fo\<lparr>processed_analysis := AList.update analysis_to_do (PDict analysis_result) (processed_analysis fo)\<rparr>
      in bindE (post_analysis env (uid fo1) analysis_to_do (PDict analysis_result)
             (put_status (status_add_analysis fo1 analysis_to_do) s)) (\<lambda>s1.
           Inr (check_further_process_or_complete fo1 s1)))"

text \<open>The branch for a result that is in the database and up to date\<close>

definition skip_up_to_date :: "sched_env \<Rightarrow> string \<Rightarrow> file_object \<Rightarrow> sched_state \<Rightarrow> sched_state result" where
  "skip_up_to_date env analysis_to_do fo s =
     bindE (case scheduled_analysis fo of
         None \<Rightarrow> Inl TypeError
       | Some sched \<Rightarrow> get_cumulative_remaining_dependencies (env_plugins env) sched) (\<lambda>remaining.
       let fo1 = (if analysis_to_do \<in> set remaining
                  then add_completed_analysis_results_to_file_object (sdb s) analysis_to_do fo else fo)
       in Inr (check_further_process_or_complete fo1 (put_status (status_add_analysis fo1 analysis_to_do) s)))"

text \<open>
  The branch that queues the object for the plugin. The text of a validation error, which the code
  appends to the reason, is left out.
\<close>

definition start_analysis ::
  "sched_env \<Rightarrow> timestamp \<Rightarrow> string \<Rightarrow> plugin_metadata \<Rightarrow> file_object \<Rightarrow> sched_state \<Rightarrow> sched_state result" where
  "start_analysis env now analysis_to_do md fo s =
     (let fo1 = (if binary fo = None then sched_set_binary env fo else fo)
      in bindE (dict_item (runners s) (pm_name md)) (\<lambda>r.
         case queue_analysis (env_schemata env) (env_storage env) md fo1 r of
           Inr r' \<Rightarrow> Inr (s\<lparr>runners := AList.update (pm_name md) r' (runners s)\<rparr>)
         | Inl ValidationError \<Rightarrow>
             bindE (get_skipped_analysis_result env now analysis_to_do
                 ''error during dependency collection: could not apply schema to dependency results'')
               (\<lambda>res. finish_skipped env analysis_to_do fo1 res s)
         | Inl e \<Rightarrow> Inl e))"

definition start_or_skip_analysis ::
  "sched_env \<Rightarrow> timestamp \<Rightarrow> string \<Rightarrow> file_object \<Rightarrow> sched_state \<Rightarrow> sched_state result" where
  "start_or_skip_analysis env now analysis_to_do fo s =
     bindE (dict_item (env_plugins env) analysis_to_do) (\<lambda>md.
     bindE (if is_forced_update fo then Inr False
            else analysis_is_already_in_db_and_up_to_date env (sdb s) analysis_to_do (uid fo)) (\<lambda>up_to_date.
     if up_to_date then skip_up_to_date env analysis_to_do fo s
     else bindE (if analysis_to_do \<in> set MANDATORY_PLUGINS then Inr (False, fo)
                 else next_analysis_is_blacklisted env (sdb s) analysis_to_do fo) (\<lambda>(blacklisted, fo1).
       if blacklisted
       then bindE (get_skipped_analysis_result env now analysis_to_do ''blacklisted file type'')
              (\<lambda>res. finish_skipped env analysis_to_do fo1 res s)
       else bindE (dependencies_are_unfulfilled (dependencies md) (processed_analysis fo1)) (\<lambda>unfulfilled.
         if unfulfilled
         then bindE (get_skipped_analysis_result env now analysis_to_do ''dependency is missing (could be skipped)'')
                (\<lambda>res. finish_skipped env analysis_to_do fo1 res s)
         else start_analysis env now analysis_to_do md fo1 s))))"

definition process_next_analysis_task :: "sched_env \<Rightarrow> timestamp \<Rightarrow> file_object \<Rightarrow> sched_state \<Rightarrow> sched_state result" where
  "process_next_analysis_task env now fo s =
     (let s1 = s\<lparr>locks := release_unpacking_lock (uid fo) (locks s)\<rparr>
      in case scheduled_analysis fo of
           None \<Rightarrow> Inl AttributeError
         | Some sched \<Rightarrow>
             bindE (list_pop sched) (\<lambda>(analysis_to_do, rest).
               let fo1 = fo\<lparr>scheduled_analysis := Some rest\<rparr>
               in if map_of (env_plugins env) analysis_to_do = None
                  then Inr (check_further_process_or_complete fo1 s1)
                  else start_or_skip_analysis env now analysis_to_do fo1 s1))"

text \<open>One iteration of \<open>_task_runner\<close>\<close>

definition task_runner_step :: "sched_env \<Rightarrow> timestamp \<Rightarrow> sched_state \<Rightarrow> sched_state result" where
  "task_runner_step env now s = (case process_queue s of
       [] \<Rightarrow> Inr s
     | fo # q \<Rightarrow> process_next_analysis_task env now fo (s\<lparr>process_queue := q\<rparr>))"

section \<open>Collecting results\<close>

definition handle_collected_result :: "sched_env \<Rightarrow> timestamp \<Rightarrow> file_object \<Rightarrow> string \<Rightarrow> sched_state \<Rightarrow> sched_state result" where
  "handle_collected_result env now fo plugin_name s =
     bindE (if analysis_exception fo \<noteq> None then reschedule_failed_analysis_task (env_plugins env) now fo
            else Inr fo) (\<lambda>fo1.
     bindE (case map_of (processed_analysis fo1) plugin_name of
         None \<Rightarrow> Inr s
       | Some entry \<Rightarrow> post_analysis env (uid fo1) plugin_name entry
           (put_status (status_add_analysis fo1 plugin_name) s)) (\<lambda>s1.
       Inr (check_further_process_or_complete fo1 s1)))"

definition collect_step :: "sched_env \<Rightarrow> timestamp \<Rightarrow> string \<Rightarrow> sched_state \<Rightarrow> sched_state result" where
  "collect_step env now plugin_name s =
     bindE (dict_item (env_plugins env) plugin_name) (\<lambda>md.
     bindE (dict_item (runners s) (pm_name md)) (\<lambda>r.
       case out_queue r of
         [] \<Rightarrow> Inr s
       | fo # q \<Rightarrow> handle_collected_result env now fo plugin_name
           (s\<lparr>runners := AList.update (pm_name md) (r\<lparr>out_queue := q\<rparr>) (runners s)\<rparr>)))"

fun result_collector_pass :: "sched_env \<Rightarrow> timestamp \<Rightarrow> string list \<Rightarrow> sched_state \<Rightarrow> sched_state result" where
  "result_collector_pass env now [] s = Inr s"
| "result_collector_pass env now (p # ps) s = bindE (collect_step env now p s) (result_collector_pass env now ps)"

section \<open>Entry points\<close>

text \<open>The status message has been sent when the scheduling raises.\<close>

definition start_analysis_of_object :: "sched_env \<Rightarrow> file_object \<Rightarrow> sched_state \<Rightarrow> sched_state \<times> py_error option" where
  "start_analysis_of_object env fo s =
     (let s1 = put_status (status_add_object fo) s
      in case schedule_analysis_tasks (env_shuffle env) (env_plugins env) fo (scheduled_analysis fo) True of
           Inl e \<Rightarrow> (s1, Some e)
         | Inr fo1 \<Rightarrow> (check_further_process_or_complete fo1 s1, None))"

definition update_analysis_of_single_object :: "sched_env \<Rightarrow> file_object \<Rightarrow> sched_state \<Rightarrow> sched_state result" where
  "update_analysis_of_single_object env fo s =
     (let fo0 = fo\<lparr>root_uid := None\<rparr>
      in bindE (schedule_analysis_tasks (env_shuffle env) (env_plugins env) fo0 (scheduled_analysis fo0) False) (\<lambda>fo1.
        Inr (check_further_process_or_complete fo1 s)))"

fun update_children :: "sched_env \<Rightarrow> file_object \<Rightarrow> file_object list \<Rightarrow> sched_state \<Rightarrow> sched_state result" where
  "update_children env fo [] s = Inr s"
| "update_children env fo (child # cs) s =
     bindE (schedule_analysis_tasks (env_shuffle env) (env_plugins env)
         (child\<lparr>root_uid := Some (uid fo), force_update := force_update fo\<rparr>) (scheduled_analysis fo) True) (\<lambda>child1.
       update_children env fo cs (check_further_process_or_complete child1 s))"

definition update_analysis_of_object_and_children :: "sched_env \<Rightarrow> nat \<Rightarrow> file_object \<Rightarrow> sched_state \<Rightarrow> sched_state result" where
  "update_analysis_of_object_and_children env fuel fo s =
     (case get_list_of_all_included_files fuel (sdb s) fo of
        None \<Rightarrow> Inl RuntimeError
      | Some included \<Rightarrow>
          (let included_files = sorted_list_of_set included
           in case update_object fo (sdb s) of
                (_, Some e) \<Rightarrow> Inl e
              | (db', None) \<Rightarrow>
                  bindE (get_objects_by_uid_list db' included_files None) (\<lambda>children.
                  bindE (update_children env fo children
                      (put_status (status_add_update fo included_files)
                        (s\<lparr>sdb := db', locks := release_unpacking_lock (uid fo) (locks s)\<rparr>))) (\<lambda>s1.
                    Inr (check_further_process_or_complete fo s1)))))"

definition sched_cancel_analysis :: "string \<Rightarrow> sched_state \<Rightarrow> sched_state" where
  "sched_cancel_analysis r s = put_status (status_cancel_analysis r) s"

section \<open>Introspection\<close>

text \<open>\<open>sorted(self.analysis_plugins, key=str.lower)\<close>\<close>

definition get_list_of_available_plugins :: "sched_env \<Rightarrow> string list" where
  "get_list_of_available_plugins env = sort_key py_lower (map fst (env_plugins env))"

definition format_available_plugins :: "sched_env \<Rightarrow> string" where
  "format_available_plugins env = py_join '', '' (map (\<lambda>p. p @ '' '' @
     (case map_of (env_plugins env) p of None \<Rightarrow> [] | Some md \<Rightarrow> pm_version md)) (get_list_of_available_plugins env))"

definition process_count :: "sched_env \<Rightarrow> string \<Rightarrow> nat" where
  "process_count env p = (case map_of (env_config env) p of
       None \<Rightarrow> env_default_processes env
     | Some c \<Rightarrow> (case pc_processes c of None \<Rightarrow> env_default_processes env | Some n \<Rightarrow> n))"

record plugin_info =
  pi_description :: string
  pi_mandatory :: bool
  pi_plugin_sets :: "(string \<times> bool) list"
  pi_version :: string
  pi_dependencies :: "string list"
  pi_blacklist :: "string list"
  pi_whitelist :: "string list"
  pi_threads :: nat

definition get_plugin_dict :: "sched_env \<Rightarrow> (string \<times> plugin_info option) list result" where
  "get_plugin_dict env =
     bindE (mapE (\<lambda>p.
       bindE (get_blacklist_and_whitelist_from_plugin env p) (\<lambda>(blacklist, whitelist).
       bindE (dict_item (env_plugins env) p) (\<lambda>md.
         Inr (p, Some \<lparr>pi_description = pm_description md, pi_mandatory = (p \<in> set MANDATORY_PLUGINS),
           pi_plugin_sets = map (\<lambda>(name, ps). (name, p \<in> set ps)) (env_presets env),
           pi_version = pm_version md, pi_dependencies = dependencies md,
           pi_blacklist = blacklist, pi_whitelist = whitelist, pi_threads = process_count env p\<rparr>))))
       (get_list_of_available_plugins env))
     (\<lambda>infos. Inr (AList.update ''unpacker'' None infos))"

definition remove_example_plugins :: "(string \<times> 'a) list \<Rightarrow> (string \<times> 'a) list" where
  "remove_example_plugins d = AList.delete ''ExamplePlugin'' (AList.delete ''dummy_plugin_for_testing_only'' d)"

definition get_combined_analysis_workload :: "sched_state \<Rightarrow> nat" where
  "get_combined_analysis_workload s = length (process_queue s) + sum_list (map (\<lambda>(_, r). get_queue_len r) (runners s))"


section \<open>The steps of the scheduler\<close>

text \<open>
  The processes of the scheduler work independently: a scheduling worker takes an object from the
  process queue, a plugin worker a task from the in-queue of its runner, a result collector an
  object from an out-queue, the status worker a message. Every interleaving of these steps is
  possible. Plugin workers may do anything a child process can do (\<open>early\<close>, \<open>late\<close>, \<open>pipe\<close>).
\<close>

inductive object_step :: "sched_env \<Rightarrow> sched_state \<Rightarrow> sched_state \<Rightarrow> bool" for env where
  schedule: "process_queue s \<noteq> [] \<Longrightarrow> task_runner_step env now s = Inr s' \<Longrightarrow> object_step env s s'"
| work: "map_of (env_plugins env) p = Some md \<Longrightarrow> map_of (runners s) (pm_name md) = Some r \<Longrightarrow> in_queue r \<noteq> [] \<Longrightarrow>
     worker_run md early late duration (pipe, r) = (pipe', r') \<Longrightarrow>
     object_step env s (s\<lparr>runners := AList.update (pm_name md) r' (runners s)\<rparr>)"
| collect: "map_of (env_plugins env) p = Some md \<Longrightarrow> map_of (runners s) (pm_name md) = Some r \<Longrightarrow> out_queue r \<noteq> [] \<Longrightarrow>
     collect_step env now p s = Inr s' \<Longrightarrow> object_step env s s'"


text \<open>
  The objects in the queues, and a bound for the remaining work: an object waits for at most three moves per analysis
  that is still scheduled, and for two or one more if it is on its way through a plugin.
\<close>

definition obj_len :: "file_object \<Rightarrow> nat" where
  "obj_len fo = (case scheduled_analysis fo of None \<Rightarrow> 0 | Some xs \<Rightarrow> length xs)"

definition runner_work :: "plugin_runner \<Rightarrow> nat" where
  "runner_work r = sum_list (map (\<lambda>t. 3 * obj_len (t_scheduler_state t) + 2) (in_queue r)) +
     sum_list (map (\<lambda>fo. 3 * obj_len fo + 1) (out_queue r))"

text \<open>
  What identifies an object on its way: its UID, whether it is a firmware, and the firmware it belongs to (the root of a
  firmware is the firmware itself)
\<close>

datatype object_key = ObjectKey (key_uid: string) (key_is_firmware: bool) (key_root: "string option")

definition object_key :: "file_object \<Rightarrow> object_key" where
  "object_key fo = ObjectKey (uid fo) (is_firmware_object fo) (if is_firmware_object fo then None else root_uid fo)"

definition runner_objects :: "plugin_runner \<Rightarrow> object_key multiset" where
  "runner_objects r = mset (map (object_key \<circ> t_scheduler_state) (in_queue r)) + mset (map object_key (out_queue r))"

definition sum_runners :: "(plugin_runner \<Rightarrow> 'a :: comm_monoid_add) \<Rightarrow> (string \<times> plugin_runner) list \<Rightarrow> 'a" where
  "sum_runners f rs = sum_list (map (\<lambda>(_, r). f r) rs)"

definition pending_work :: "sched_state \<Rightarrow> nat" where
  "pending_work s = sum_list (map (\<lambda>fo. 3 * obj_len fo) (process_queue s)) + sum_runners runner_work (runners s)"

definition objects :: "sched_state \<Rightarrow> object_key multiset" where
  "objects s = mset (map object_key (process_queue s)) + sum_runners runner_objects (runners s)"

fun removed_uid :: "update_type \<Rightarrow> string option" where
  "removed_uid (remove_file u r) = Some u"
| "removed_uid _ = None"

text \<open>The UIDs of the objects in the queues, and those of the objects that are reported as completed\<close>

definition object_uids :: "sched_state \<Rightarrow> string multiset" where
  "object_uids s = image_mset key_uid (objects s)"

definition completed_uids :: "sched_state \<Rightarrow> string multiset" where
  "completed_uids s = mset (List.map_filter removed_uid (status_queue s))"

definition accounted_uids :: "sched_state \<Rightarrow> string multiset" where
  "accounted_uids s = object_uids s + completed_uids s"

text \<open>The object is no firmware, and the analysis of the firmware it belongs to is not in progress (any more).\<close>

definition cancelled :: "sched_state \<Rightarrow> object_key \<Rightarrow> bool" where
  "cancelled s k \<longleftrightarrow> \<not> key_is_firmware k \<and> (case key_root k of
       None \<Rightarrow> False
     | Some r \<Rightarrow> map_of (currently_analyzed (status_state s)) r = None \<and>
         map_of (currently_analyzed (status_state s)) (key_uid k) = None)"

lemma cancelled_same: "status_state s = status_state s' \<Longrightarrow> cancelled s = cancelled s'"
  by (simp add: cancelled_def fun_eq_iff cong: option.case_cong)

text \<open>
  The content of the object is known or is read from the storage, where it is the content that its UID stands for.
\<close>

definition content_intact :: "sched_env \<Rightarrow> file_object \<Rightarrow> bool" where
  "content_intact env fo \<longleftrightarrow> binary fo \<noteq> None \<or>
     (let b = env_read_file env (case file_path fo of None \<Rightarrow> generate_path (env_storage env) fo | Some p \<Rightarrow> p)
      in env_sha env b @ ''_'' @ nat_str (length b) = uid fo)"

lemma sum_runners_update:
  assumes "map_of rs k = Some r"
  shows "sum_runners f (AList.update k r' rs) + f r = sum_runners f rs + f r'"
  using assms unfolding sum_runners_def by (induction rs) (auto simp: ac_simps)

text \<open>
  \<open>placed b k s s'\<close>: an object \<open>k\<close> that was in none of the queues of \<open>s\<close> was queued, completed or, if it is cancelled,
  dropped, with at most \<open>b\<close> units of remaining work; \<open>neutral s s'\<close>: nothing but one status message, the
  database and the locks changed.
\<close>

definition placed :: "nat \<Rightarrow> object_key \<Rightarrow> sched_state \<Rightarrow> sched_state \<Rightarrow> bool" where
  "placed b k s s' \<longleftrightarrow> pending_work s' \<le> pending_work s + b \<and>
     length (status_queue s') \<le> length (status_queue s) + 2 \<and> status_state s' = status_state s \<and>
     (accounted_uids s' = accounted_uids s + {#key_uid k#} \<or> accounted_uids s' = accounted_uids s \<and> cancelled s k)"

definition neutral :: "sched_state \<Rightarrow> sched_state \<Rightarrow> bool" where
  "neutral s s' \<longleftrightarrow> process_queue s' = process_queue s \<and> runners s' = runners s \<and> status_state s' = status_state s \<and>
     completed_uids s' = completed_uids s \<and> length (status_queue s') \<le> length (status_queue s) + 1"

lemmas account_defs = accounted_uids_def object_uids_def objects_def completed_uids_def

lemma completed_append: "List.map_filter removed_uid (ms @ ns) = List.map_filter removed_uid ms @ List.map_filter removed_uid ns"
  by (simp add: List.map_filter_def)

lemma neutral_put_analysis: "neutral s (put_status (status_add_analysis fo p) s)"
  by (simp add: neutral_def put_status_def status_add_analysis_def completed_uids_def completed_append map_filter_simps)

lemma neutral_post_analysis: "post_analysis env u p e s = Inr s' \<Longrightarrow> \<exists>db. s' = s\<lparr>sdb := db\<rparr>"
  by (auto simp: post_analysis_def result_simps)

lemma neutral_skip: "neutral s s1 \<Longrightarrow> neutral s (s1\<lparr>sdb := db\<rparr>)"
  by (simp add: neutral_def completed_uids_def)

lemma placed_check:
  assumes "neutral s0 s"
  shows "placed (3 * obj_len fo) (object_key fo) s0 (check_further_process_or_complete fo s)"
proof -
  have same: "pending_work s = pending_work s0" "accounted_uids s = accounted_uids s0"
    "length (status_queue s) \<le> length (status_queue s0) + 1" "status_state s = status_state s0"
    using assms by (simp_all add: neutral_def pending_work_def accounted_uids_def object_uids_def objects_def)
  show ?thesis
  proof (cases "nothing_scheduled fo")
    case True
    let ?s = "do_callback fo (put_status (status_remove_object fo) s)"
    have "check_further_process_or_complete fo s = ?s"
      using True by (simp add: check_further_process_or_complete_def)
    moreover have "pending_work ?s = pending_work s" "accounted_uids ?s = accounted_uids s + {#uid fo#}"
      "length (status_queue ?s) = length (status_queue s) + 1" "status_state ?s = status_state s"
      by (simp_all add: do_callback_def put_status_def status_remove_object_def pending_work_def account_defs
          completed_append map_filter_simps split: option.splits)
    ultimately show ?thesis
      using same by (simp add: placed_def object_key_def)
  next
    case open_object: False
    show ?thesis
    proof (cases "is_firmware_object fo \<or> root_uid fo = None \<or> fw_analysis_is_in_progress fo (currently_analyzed (status_state s))")
      case True
      then have "check_further_process_or_complete fo s = s\<lparr>process_queue := process_queue s @ [fo]\<rparr>"
        using open_object by (auto simp: check_further_process_or_complete_def)
      then show ?thesis
        using same by (simp add: placed_def pending_work_def account_defs object_key_def)
    next
      case False
      then have "check_further_process_or_complete fo s = s"
        using open_object by (auto simp: check_further_process_or_complete_def)
      moreover have "cancelled s0 (object_key fo)"
        using False same(4) by (auto simp: cancelled_def object_key_def fw_analysis_is_in_progress_def split: option.splits)
      ultimately show ?thesis
        using same by (simp add: placed_def)
    qed
  qed
qed

lemma object_simps [simp]:
  "obj_len (fo\<lparr>processed_analysis := d\<rparr>) = obj_len fo"
  "obj_len (add_completed_analysis_results_to_file_object db p fo) = obj_len fo"
  "object_key (fo\<lparr>processed_analysis := d\<rparr>) = object_key fo"
  "object_key (fo\<lparr>scheduled_analysis := xs\<rparr>) = object_key fo"
  "object_key (add_completed_analysis_results_to_file_object db p fo) = object_key fo"
  "content_intact env (fo\<lparr>processed_analysis := d\<rparr>) = content_intact env fo"
  "content_intact env (fo\<lparr>scheduled_analysis := xs\<rparr>) = content_intact env fo"
  "content_intact env (add_completed_analysis_results_to_file_object db p fo) = content_intact env fo"
  by (simp_all add: obj_len_def object_key_def content_intact_def is_firmware_object_def generate_path_def cong: option.case_cong
      add: add_completed_analysis_results_to_file_object_def)

lemma placed_mono: "placed b k s s' \<Longrightarrow> b \<le> c \<Longrightarrow> placed c k s s'"
  by (auto simp: placed_def)

lemma placed_finish_skipped:
  assumes "finish_skipped env p fo res s = Inr s'"
  shows "placed (3 * obj_len fo) (object_key fo) s s'"
proof -
  let ?fo = "fo\<lparr>processed_analysis := AList.update p (PDict res) (processed_analysis fo)\<rparr>"
  obtain db where "s' = check_further_process_or_complete ?fo ((put_status (status_add_analysis ?fo p) s)\<lparr>sdb := db\<rparr>)"
    using assms by (auto simp: finish_skipped_def Let_def result_simps dest: neutral_post_analysis)
  then show ?thesis
    using placed_check [OF neutral_skip [OF neutral_put_analysis], of ?fo s] by (metis object_simps(1,3))
qed

lemma placed_skip_up_to_date:
  assumes "skip_up_to_date env p fo s = Inr s'"
  shows "placed (3 * obj_len fo) (object_key fo) s s'"
proof -
  obtain fo1 where "s' = check_further_process_or_complete fo1 (put_status (status_add_analysis fo1 p) s)"
    "obj_len fo1 = obj_len fo" "object_key fo1 = object_key fo"
    using assms by (auto simp: skip_up_to_date_def Let_def result_simps)
  then show ?thesis
    using placed_check [OF neutral_put_analysis, of fo1 s fo1 p] by simp
qed

lemma obj_len_set_binary [simp]: "obj_len (sched_set_binary env fo) = obj_len fo"
  by (auto simp: obj_len_def sched_set_binary_def create_binary_from_path_def set_binary_def Let_def
      split: option.splits)

lemma key_set_binary: "content_intact env fo \<Longrightarrow> binary fo = None \<Longrightarrow> object_key (sched_set_binary env fo) = object_key fo"
  by (auto simp: object_key_def is_firmware_object_def content_intact_def sched_set_binary_def create_binary_from_path_def
      set_binary_def generate_path_def Let_def split: option.splits)

lemma queue_analysis_queues:
  assumes "queue_analysis schemata storage md fo r = Inr r'"
  shows "\<exists>task. r' = r\<lparr>in_queue := in_queue r @ [task]\<rparr> \<and> t_scheduler_state task = fo"
  using assms by (auto simp: queue_analysis_def result_simps)

lemma placed_queued:
  assumes "map_of (runners s) k = Some r" "r' = r\<lparr>in_queue := in_queue r @ [task]\<rparr>"
  shows "placed (3 * obj_len (t_scheduler_state task) + 2) (object_key (t_scheduler_state task)) s
    (s\<lparr>runners := AList.update k r' (runners s)\<rparr>)"
proof -
  have "sum_runners runner_objects (AList.update k r' (runners s)) =
      sum_runners runner_objects (runners s) + {#object_key (t_scheduler_state task)#}"
    using sum_runners_update [OF assms(1), of runner_objects r'] by (simp add: assms(2) runner_objects_def)
  then show ?thesis
    using sum_runners_update [OF assms(1), of runner_work r']
    by (simp add: assms(2) placed_def pending_work_def account_defs runner_work_def)
qed

lemma placed_start_analysis:
  assumes "start_analysis env now p md fo s = Inr s'"
  shows "\<exists>k. placed (3 * obj_len fo + 2) k s s' \<and> (content_intact env fo \<longrightarrow> k = object_key fo)"
proof -
  define fo1 where "fo1 = (if binary fo = None then sched_set_binary env fo else fo)"
  have len: "obj_len fo1 = obj_len fo" and key: "content_intact env fo \<longrightarrow> object_key fo1 = object_key fo"
    by (simp_all add: fo1_def key_set_binary)
  from assms obtain r where r: "map_of (runners s) (pm_name md) = Some r"
    and rest: "(case queue_analysis (env_schemata env) (env_storage env) md fo1 r of
           Inr r' \<Rightarrow> Inr (s\<lparr>runners := AList.update (pm_name md) r' (runners s)\<rparr>)
         | Inl ValidationError \<Rightarrow>
             bindE (get_skipped_analysis_result env now p
                 ''error during dependency collection: could not apply schema to dependency results'')
               (\<lambda>res. finish_skipped env p fo1 res s)
         | Inl e \<Rightarrow> Inl e) = Inr s'"
    unfolding start_analysis_def Let_def fo1_def [symmetric] result_simps dict_simps by blast
  have "placed (3 * obj_len fo1 + 2) (object_key fo1) s s'"
  proof (cases "queue_analysis (env_schemata env) (env_storage env) md fo1 r")
    case (Inr r')
    then obtain task where "r' = r\<lparr>in_queue := in_queue r @ [task]\<rparr>" "t_scheduler_state task = fo1"
      using queue_analysis_queues by blast
    then show ?thesis
      using placed_queued [OF r, of r' task] rest Inr by simp
  next
    case (Inl e)
    then have "\<exists>res. finish_skipped env p fo1 res s = Inr s'"
      using rest by (auto simp: result_simps split: py_error.splits)
    then show ?thesis
      using placed_finish_skipped by (metis le_add1 placed_mono)
  qed
  then show ?thesis
    using len key by metis
qed

lemma case_str_Inr:
  "(case v of PStr m \<Rightarrow> Inr (py_lower m, x) | _ \<Rightarrow> Inl AttributeError) = (Inr (m', y) :: (string \<times> 'a) result) \<longleftrightarrow>
     (\<exists>m. v = PStr m \<and> m' = py_lower m \<and> y = x)"
  by (cases v) auto

lemma blacklist_obj_len:
  assumes "next_analysis_is_blacklisted env db p fo = Inr (b, fo1)"
  shows "obj_len fo1 = obj_len fo" "object_key fo1 = object_key fo" "content_intact env' fo1 = content_intact env' fo"
proof -
  have "get_file_type_from_object_or_db db fo = Inr (m, fo1) \<Longrightarrow>
      obj_len fo1 = obj_len fo \<and> object_key fo1 = object_key fo \<and> content_intact env' fo1 = content_intact env' fo" for m
    unfolding get_file_type_from_object_or_db_def Let_def bindE_eq_Inr case_str_Inr by (cases "map_of (processed_analysis fo) ''file_type'' = None") auto
  moreover have "fo1 = fo \<or> (\<exists>m. get_file_type_from_object_or_db db fo = Inr (m, fo1))"
    using assms unfolding next_analysis_is_blacklisted_def bindE_eq_Inr
    by (auto simp: bindE_eq_Inr split: if_splits)
  ultimately show "obj_len fo1 = obj_len fo" "object_key fo1 = object_key fo" "content_intact env' fo1 = content_intact env' fo"
    by auto
qed

text \<open>The four ways in which \<open>_start_or_skip_analysis\<close> can end\<close>

lemma start_or_skip_cases:
  assumes "start_or_skip_analysis env now p fo s = Inr s'"
  obtains (up_to_date) "\<not> force_update fo"
      "analysis_is_already_in_db_and_up_to_date env (sdb s) p (uid fo) = Inr True" "skip_up_to_date env p fo s = Inr s'"
  | (blacklisted) fo1 res where "p \<notin> set MANDATORY_PLUGINS"
      "next_analysis_is_blacklisted env (sdb s) p fo = Inr (True, fo1)"
      "get_skipped_analysis_result env now p ''blacklisted file type'' = Inr res" "finish_skipped env p fo1 res s = Inr s'"
  | (unfulfilled) md fo1 res where "map_of (env_plugins env) p = Some md"
      "(if p \<in> set MANDATORY_PLUGINS then Inr (False, fo) else next_analysis_is_blacklisted env (sdb s) p fo) = Inr (False, fo1)"
      "dependencies_are_unfulfilled (dependencies md) (processed_analysis fo1) = Inr True" "finish_skipped env p fo1 res s = Inr s'"
  | (start) md fo1 where "map_of (env_plugins env) p = Some md"
      "force_update fo \<or> analysis_is_already_in_db_and_up_to_date env (sdb s) p (uid fo) = Inr False"
      "(if p \<in> set MANDATORY_PLUGINS then Inr (False, fo) else next_analysis_is_blacklisted env (sdb s) p fo) = Inr (False, fo1)"
      "dependencies_are_unfulfilled (dependencies md) (processed_analysis fo1) = Inr False"
      "start_analysis env now p md fo1 s = Inr s'"
proof -
  from assms obtain md utd where md: "map_of (env_plugins env) p = Some md"
    and utd: "(if is_forced_update fo then Inr False
            else analysis_is_already_in_db_and_up_to_date env (sdb s) p (uid fo)) = Inr utd"
    and rest: "(if utd then skip_up_to_date env p fo s
     else bindE (if p \<in> set MANDATORY_PLUGINS then Inr (False, fo)
                 else next_analysis_is_blacklisted env (sdb s) p fo) (\<lambda>(blacklisted, fo1).
       if blacklisted
       then bindE (get_skipped_analysis_result env now p ''blacklisted file type'')
              (\<lambda>res. finish_skipped env p fo1 res s)
       else bindE (dependencies_are_unfulfilled (dependencies md) (processed_analysis fo1)) (\<lambda>unfulfilled.
         if unfulfilled
         then bindE (get_skipped_analysis_result env now p ''dependency is missing (could be skipped)'')
                (\<lambda>res. finish_skipped env p fo1 res s)
         else start_analysis env now p md fo1 s))) = Inr s'"
    unfolding start_or_skip_analysis_def bindE_eq_Inr dict_item_Inr by blast
  show thesis
  proof (cases utd)
    case True
    then show thesis
      using utd rest up_to_date by (simp add: is_forced_update_def split: if_splits)
  next
    case False
    then have utd': "force_update fo \<or> analysis_is_already_in_db_and_up_to_date env (sdb s) p (uid fo) = Inr False"
      using utd by (auto simp: is_forced_update_def split: if_splits)
    from rest False obtain b fo1 where black: "(if p \<in> set MANDATORY_PLUGINS then Inr (False, fo)
                 else next_analysis_is_blacklisted env (sdb s) p fo) = Inr (b, fo1)"
      and rest2: "(if b then bindE (get_skipped_analysis_result env now p ''blacklisted file type'')
              (\<lambda>res. finish_skipped env p fo1 res s)
       else bindE (dependencies_are_unfulfilled (dependencies md) (processed_analysis fo1)) (\<lambda>unfulfilled.
         if unfulfilled
         then bindE (get_skipped_analysis_result env now p ''dependency is missing (could be skipped)'')
                (\<lambda>res. finish_skipped env p fo1 res s)
         else start_analysis env now p md fo1 s)) = Inr s'"
      by (auto simp: bindE_eq_Inr simp del: if_bool_eq_conj)
    show thesis
    proof (cases b)
      case True
      then show thesis
        using black rest2 blacklisted [of fo1] by (auto simp: bindE_eq_Inr split: if_splits)
    next
      case b: False
      then obtain unf where "dependencies_are_unfulfilled (dependencies md) (processed_analysis fo1) = Inr unf"
        "(if unf then bindE (get_skipped_analysis_result env now p ''dependency is missing (could be skipped)'')
                (\<lambda>res. finish_skipped env p fo1 res s)
         else start_analysis env now p md fo1 s) = Inr s'"
        using rest2 by (auto simp: bindE_eq_Inr)
      then show thesis
        using md black b utd' unfulfilled [of md fo1] start [of md fo1]
        by (cases unf) (auto simp: bindE_eq_Inr)
    qed
  qed
qed

lemma allowed_obj_len:
  assumes "(if p \<in> set MANDATORY_PLUGINS then Inr (False, fo) else next_analysis_is_blacklisted env db p fo) = Inr (b, fo1)"
  shows "obj_len fo1 = obj_len fo" "object_key fo1 = object_key fo" "content_intact env' fo1 = content_intact env' fo"
  using assms blacklist_obj_len by (auto split: if_splits)

lemma placed_start_or_skip:
  assumes "start_or_skip_analysis env now p fo s = Inr s'"
  shows "\<exists>k. placed (3 * obj_len fo + 2) k s s' \<and> (content_intact env fo \<longrightarrow> k = object_key fo)"
  using assms
proof (cases rule: start_or_skip_cases)
  case up_to_date
  then show ?thesis
    using placed_skip_up_to_date [of env p fo s s'] by (metis le_add1 placed_mono)
next
  case (blacklisted fo1 res)
  then show ?thesis
    using placed_finish_skipped [of env p fo1 res s s'] blacklist_obj_len(1,2) by (metis le_add1 placed_mono)
next
  case (unfulfilled md fo1 res)
  then show ?thesis
    using placed_finish_skipped [of env p fo1 res s s'] allowed_obj_len(1,2) by (metis le_add1 placed_mono)
next
  case (start md fo1)
  then show ?thesis
    using placed_start_analysis [of env now p md fo1 s s'] allowed_obj_len by metis
qed

definition no_object_lost :: "sched_state \<Rightarrow> sched_state \<Rightarrow> bool" where
  "no_object_lost s s' \<longleftrightarrow> accounted_uids s' = accounted_uids s \<or>
     (\<exists>k. k \<in># objects s \<and> cancelled s k \<and> accounted_uids s' + {#key_uid k#} = accounted_uids s)"

lemma placed_from_queue:
  assumes "placed b k s1 s'" "pending_work s1 + b < pending_work s"
    "objects s = objects s1 + {#object_key fo#}" "status_queue s1 = status_queue s" "status_state s1 = status_state s"
  shows "pending_work s' < pending_work s \<and> length (status_queue s') \<le> length (status_queue s) + 2 \<and>
    status_state s' = status_state s \<and> (k = object_key fo \<longrightarrow> no_object_lost s s')"
proof -
  have "accounted_uids s = accounted_uids s1 + {#key_uid (object_key fo)#}" "object_key fo \<in># objects s"
    using assms(3,4) by (simp_all add: accounted_uids_def object_uids_def completed_uids_def)
  moreover have "cancelled s1 = cancelled s"
    using assms(5) by (rule cancelled_same)
  ultimately show ?thesis
    using assms(1,2,4,5) by (auto simp: placed_def no_object_lost_def)
qed

lemma process_next_placed:
  assumes "process_next_analysis_task env now fo s = Inr s'"
  shows "\<exists>n k. obj_len fo = Suc n \<and> placed (3 * n + 2) k s s' \<and> (content_intact env fo \<longrightarrow> k = object_key fo)"
proof -
  let ?s = "s\<lparr>locks := release_unpacking_lock (uid fo) (locks s)\<rparr>"
  obtain p rest where sched: "scheduled_analysis fo = Some (rest @ [p])"
    and step: "(if map_of (env_plugins env) p = None
         then Inr (check_further_process_or_complete (fo\<lparr>scheduled_analysis := Some rest\<rparr>) ?s)
         else start_or_skip_analysis env now p (fo\<lparr>scheduled_analysis := Some rest\<rparr>) ?s) = Inr s'"
    using assms by (auto simp: process_next_analysis_task_def Let_def result_simps list_pop_Inr split: option.splits)
  let ?fo = "fo\<lparr>scheduled_analysis := Some rest\<rparr>"
  have len: "obj_len ?fo = length rest"
    by (simp add: obj_len_def)
  have "\<exists>k. placed (3 * length rest + 2) k s s' \<and> (content_intact env fo \<longrightarrow> k = object_key fo)"
  proof (cases "map_of (env_plugins env) p = None")
    case True
    have "neutral s ?s"
      by (simp add: neutral_def completed_uids_def)
    then show ?thesis
      using True step placed_check [of s ?s ?fo] len by (intro exI [of _ "object_key fo"]) (auto intro: placed_mono)
  next
    case False
    then obtain k where "placed (3 * length rest + 2) k ?s s'" "content_intact env fo \<longrightarrow> k = object_key fo"
      using step placed_start_or_skip [of env now p ?fo ?s s'] len by auto
    moreover have "cancelled ?s = cancelled s"
      by (rule cancelled_same) simp
    ultimately show ?thesis
      by (intro exI [of _ k]) (simp add: placed_def pending_work_def account_defs)
  qed
  then show ?thesis
    using sched by (auto simp: obj_len_def)
qed

lemma reschedule_obj_len:
  assumes "reschedule_failed_analysis_task plugins now fo = Inr fo1"
  shows "obj_len fo1 \<le> obj_len fo" "object_key fo1 = object_key fo"
proof -
  have loop: "unschedule_loop plugins now f xs sched processed = Inr (sched', processed') \<Longrightarrow>
      length sched' \<le> length sched" for f xs sched sched' processed processed'
  proof (induction xs arbitrary: sched processed)
    case (Cons x xs)
    show ?case
      using Cons.prems
      by (auto simp: result_simps list_remove_def length_remove1 dest!: Cons.IH split: option.splits if_splits)
  qed simp
  show "obj_len fo1 \<le> obj_len fo"
    using assms
    by (auto simp: reschedule_failed_analysis_task_def result_simps obj_len_def dest!: loop split: option.splits)
  show "object_key fo1 = object_key fo"
    using assms
    by (auto simp: reschedule_failed_analysis_task_def result_simps object_key_def is_firmware_object_def split: option.splits)
qed

lemma handle_collected_placed:
  assumes "handle_collected_result env now fo p s = Inr s'"
  shows "placed (3 * obj_len fo) (object_key fo) s s'"
proof -
  from assms obtain fo1 s1 where fo1: "(if analysis_exception fo \<noteq> None then reschedule_failed_analysis_task (env_plugins env) now fo
            else Inr fo) = Inr fo1"
    and s1: "(case map_of (processed_analysis fo1) p of None \<Rightarrow> Inr s
       | Some entry \<Rightarrow> post_analysis env (uid fo1) p entry (put_status (status_add_analysis fo1 p) s)) = Inr s1"
    and s': "s' = check_further_process_or_complete fo1 s1"
    unfolding handle_collected_result_def result_simps by blast
  have "neutral s s1"
    using s1 neutral_skip [OF neutral_put_analysis]
    by (auto split: option.splits dest!: neutral_post_analysis) (simp add: neutral_def)
  moreover have "obj_len fo1 \<le> obj_len fo" "object_key fo1 = object_key fo"
    using fo1 reschedule_obj_len by (auto split: if_splits)
  ultimately show ?thesis
    unfolding s' by (metis mult_le_mono2 placed_check placed_mono)
qed


section \<open>Progress\<close>

definition total_work :: "sched_state \<Rightarrow> nat" where
  "total_work s = 3 * pending_work s + length (status_queue s)"

lemma task_runner_progress:
  assumes "process_queue s \<noteq> []" "task_runner_step env now s = Inr s'"
  shows "total_work s' < total_work s \<and> (content_intact env (hd (process_queue s)) \<longrightarrow> no_object_lost s s')"
proof -
  obtain fo q where q: "process_queue s = fo # q"
    using assms(1) by (cases "process_queue s") auto
  let ?s1 = "s\<lparr>process_queue := q\<rparr>"
  obtain n k where n: "obj_len fo = Suc n" and placed: "placed (3 * n + 2) k ?s1 s'"
    and k: "content_intact env fo \<longrightarrow> k = object_key fo"
    using assms(2) process_next_placed [of env now fo ?s1 s'] by (auto simp only: task_runner_step_def q list.case)
  have "pending_work ?s1 + (3 * n + 2) < pending_work s" "objects s = objects ?s1 + {#object_key fo#}"
    using n by (simp_all add: pending_work_def objects_def q)
  from placed_from_queue [OF placed this] show ?thesis
    using k by (auto simp: total_work_def q)
qed

lemma collect_progress:
  assumes "map_of (env_plugins env) p = Some md" "map_of (runners s) (pm_name md) = Some r" "out_queue r \<noteq> []"
    and "collect_step env now p s = Inr s'"
  shows "total_work s' < total_work s \<and> no_object_lost s s'"
proof -
  obtain fo q where q: "out_queue r = fo # q"
    using assms(3) by (cases "out_queue r") auto
  let ?r = "r\<lparr>out_queue := q\<rparr>"
  let ?s1 = "s\<lparr>runners := AList.update (pm_name md) ?r (runners s)\<rparr>"
  have "handle_collected_result env now fo p ?s1 = Inr s'"
    using assms q by (simp add: collect_step_def dict_item_def)
  then have placed: "placed (3 * obj_len fo) (object_key fo) ?s1 s'"
    by (rule handle_collected_placed)
  have "runner_objects r = runner_objects ?r + {#object_key fo#}"
    by (simp add: runner_objects_def q)
  then have "objects s = objects ?s1 + {#object_key fo#}"
    using sum_runners_update [OF assms(2), of runner_objects ?r] by (simp add: objects_def union_ac)
  moreover have "pending_work ?s1 + 3 * obj_len fo < pending_work s"
    using sum_runners_update [OF assms(2), of runner_work ?r] by (simp add: pending_work_def runner_work_def q)
  ultimately show ?thesis
    using placed_from_queue [OF placed, of s fo] by (auto simp: total_work_def)
qed

lemma obj_len_written [simp]:
  "obj_len (write_result_in_file_object md e fo) = obj_len fo"
  "object_key (write_result_in_file_object md e fo) = object_key fo"
  by (cases e; auto simp: write_result_in_file_object_def obj_len_def object_key_def is_firmware_object_def)+

lemma worker_run_queues:
  assumes "in_queue r = task # tasks" "worker_run md early late duration (pipe, r) = (pipe', r')"
  shows "\<exists>e. in_queue r' = tasks \<and> out_queue r' = out_queue r @ [write_result_in_file_object md e (t_scheduler_state task)]"
  using assms by (auto simp: worker_run_def Let_def update_duration_stats_def split: prod.splits)

lemma work_progress:
  assumes "map_of (runners s) (pm_name md) = Some r" "in_queue r \<noteq> []"
    and "worker_run md early late duration (pipe, r) = (pipe', r')"
  defines "s' \<equiv> s\<lparr>runners := AList.update (pm_name md) r' (runners s)\<rparr>"
  shows "total_work s' < total_work s \<and> no_object_lost s s'"
proof -
  obtain task tasks where q: "in_queue r = task # tasks"
    using assms(2) by (cases "in_queue r") auto
  obtain e where e: "in_queue r' = tasks"
    "out_queue r' = out_queue r @ [write_result_in_file_object md e (t_scheduler_state task)]"
    using worker_run_queues [OF q assms(3)] by blast
  have "runner_work r' < runner_work r" "runner_objects r' = runner_objects r"
    by (simp_all add: runner_work_def runner_objects_def q e)
  then show ?thesis
    using sum_runners_update [OF assms(1), of runner_work r'] sum_runners_update [OF assms(1), of runner_objects r']
    by (simp add: s'_def total_work_def no_object_lost_def pending_work_def account_defs)
qed

lemma object_step_progress:
  assumes "object_step env s s'"
  shows "total_work s' < total_work s \<and> (list_all (content_intact env) (process_queue s) \<longrightarrow> no_object_lost s s')"
  using assms
proof (induction rule: object_step.induct)
  case (schedule s now s')
  then show ?case
    using task_runner_progress [of s env now s'] by (cases "process_queue s") auto
next
  case (work p md s r early late duration pipe pipe' r')
  then show ?case using work_progress by blast
next
  case (collect p md s r now s')
  then show ?case using collect_progress by blast
qed




text \<open>
  C5. No object is lost or duplicated on its way through the queues: when a scheduling worker, a plugin or a result
  collector makes a step, every object (by its UID) that was in a queue or reported as completed still is, exactly as
  often. The only exception: one object that was in a queue leaves without a message if it is no firmware and the
  analysis of its firmware is not in progress any more (it was cancelled). The content that is read for an object from
  the storage has to be the one its UID stands for.
\<close>

theorem objects_conserved:
  assumes "object_step env s s'" "list_all (content_intact env) (process_queue s)"
  shows "object_uids s' + completed_uids s' = object_uids s + completed_uids s \<or>
     (\<exists>k. k \<in># objects s \<and> cancelled s k \<and>
        add_mset (key_uid k) (object_uids s' + completed_uids s') = object_uids s + completed_uids s)"
  using object_step_progress [OF assms(1)] assms(2) by (simp add: no_object_lost_def accounted_uids_def)

text \<open>
  What is known about a task when it is handed over to a plugin: each dependency of the plugin has a
  result on the object, and it is neither a skipped nor a failed one.
\<close>

definition dependency_available :: "(string \<times> pyval) list \<Rightarrow> string \<Rightarrow> bool" where
  "dependency_available processed dep \<longleftrightarrow> (\<exists>entry result. map_of processed dep = Some entry \<and>
     subscript entry ''result'' = Inr result \<and>
     (result = PNone \<or> py_contains ''skipped'' result = Inr False \<and> py_contains ''failed'' result = Inr False))"

lemma dependencies_fulfilled:
  assumes "dependencies_are_unfulfilled deps processed = Inr False"
  shows "list_all (dependency_available processed) deps"
  using assms
  by (induction deps) (auto simp: dependency_available_def result_simps split: option.splits if_splits)

lemma set_binary_processed [simp]: "processed_analysis (sched_set_binary env fo) = processed_analysis fo"
  by (auto simp: sched_set_binary_def create_binary_from_path_def set_binary_def Let_def split: option.splits)

lemma finish_skipped_runners: "finish_skipped env p fo res s = Inr s' \<Longrightarrow> runners s' = runners s"
  by (auto simp: finish_skipped_def Let_def result_simps check_further_process_or_complete_def do_callback_def
      put_status_def dest!: neutral_post_analysis split: option.splits)

lemma skip_up_to_date_runners: "skip_up_to_date env p fo s = Inr s' \<Longrightarrow> runners s' = runners s"
  by (auto simp: skip_up_to_date_def Let_def result_simps check_further_process_or_complete_def do_callback_def
      put_status_def split: option.splits)

lemma start_analysis_queues:
  assumes "start_analysis env now p md fo s = Inr s'"
  shows "runners s' = runners s \<or> (\<exists>r task. map_of (runners s) (pm_name md) = Some r \<and>
     runners s' = AList.update (pm_name md) (r\<lparr>in_queue := in_queue r @ [task]\<rparr>) (runners s) \<and>
     processed_analysis (t_scheduler_state task) = processed_analysis fo)"
proof -
  define fo1 where "fo1 = (if binary fo = None then sched_set_binary env fo else fo)"
  from assms obtain r where r: "map_of (runners s) (pm_name md) = Some r"
    and rest: "(case queue_analysis (env_schemata env) (env_storage env) md fo1 r of
           Inr r' \<Rightarrow> Inr (s\<lparr>runners := AList.update (pm_name md) r' (runners s)\<rparr>)
         | Inl ValidationError \<Rightarrow>
             bindE (get_skipped_analysis_result env now p
                 ''error during dependency collection: could not apply schema to dependency results'')
               (\<lambda>res. finish_skipped env p fo1 res s)
         | Inl e \<Rightarrow> Inl e) = Inr s'"
    unfolding start_analysis_def Let_def fo1_def [symmetric] result_simps dict_simps by blast
  have pa: "processed_analysis fo1 = processed_analysis fo"
    by (simp add: fo1_def)
  show ?thesis
  proof (cases "queue_analysis (env_schemata env) (env_storage env) md fo1 r")
    case (Inr r')
    then show ?thesis
      using queue_analysis_queues [OF Inr] rest r pa by auto
  next
    case (Inl e)
    then have "\<exists>res. finish_skipped env p fo1 res s = Inr s'"
      using rest by (auto simp: result_simps split: py_error.splits)
    then show ?thesis
      using finish_skipped_runners by blast
  qed
qed

text \<open>
  C6. An analysis is handed over to a plugin only if (1) the update is forced or the database has no
  up-to-date result, (2) the plugin is mandatory or the file type is not excluded by its blacklist
  or whitelist, and (3) every dependency of the plugin has a result, neither skipped nor failed, on
  the object that the new task of the plugin's queue carries.
\<close>

theorem analysis_started_only_if_allowed:
  assumes "start_or_skip_analysis env now p fo s = Inr s'" "runners s' \<noteq> runners s"
  shows "\<exists>md r task. map_of (env_plugins env) p = Some md \<and> map_of (runners s) (pm_name md) = Some r \<and>
     runners s' = AList.update (pm_name md) (r\<lparr>in_queue := in_queue r @ [task]\<rparr>) (runners s) \<and>
     (force_update fo \<or> analysis_is_already_in_db_and_up_to_date env (sdb s) p (uid fo) = Inr False) \<and>
     (p \<in> set MANDATORY_PLUGINS \<or> (\<exists>fo1. next_analysis_is_blacklisted env (sdb s) p fo = Inr (False, fo1))) \<and>
     list_all (dependency_available (processed_analysis (t_scheduler_state task))) (dependencies md)"
  using assms(1)
proof (cases rule: start_or_skip_cases)
  case (start md fo1)
  have "list_all (dependency_available (processed_analysis fo1)) (dependencies md)"
    using start(4) by (rule dependencies_fulfilled)
  moreover obtain r task where "map_of (runners s) (pm_name md) = Some r"
     "runners s' = AList.update (pm_name md) (r\<lparr>in_queue := in_queue r @ [task]\<rparr>) (runners s)"
     "processed_analysis (t_scheduler_state task) = processed_analysis fo1"
    using start_analysis_queues [OF start(5)] assms(2) by blast
  moreover have "p \<in> set MANDATORY_PLUGINS \<or> next_analysis_is_blacklisted env (sdb s) p fo = Inr (False, fo1)"
    using start(3) by (auto split: if_splits)
  ultimately show ?thesis
    using start(1,2) by metis
qed (use assms(2) finish_skipped_runners skip_up_to_date_runners in blast)+


section \<open>Examples\<close>

definition example_env :: sched_env where
  "example_env = \<lparr>env_plugins = example_plugins, env_schemata = (\<lambda>_. Some Inr), env_shuffle = (\<lambda>_ xs. xs),
     env_config = [], env_default_processes = 1, env_presets = [],
     env_newer_plugin_version = (\<lambda>_ _. Inr True), env_newer_system_version = (\<lambda>_ _. Inr False),
     env_codec = plain_codec, env_flush = strict_flush, env_storage = ''s'', env_read_file = (\<lambda>_. []),
     env_sha = (\<lambda>_. ''h''), env_md5 = (\<lambda>_. ''m'')\<rparr>"

definition example_state :: "file_object list \<Rightarrow> sched_state" where
  "example_state q = \<lparr>process_queue = q, runners = [(''file_type'', init_plugin_runner)], status_queue = [],
     status_state = init_status_worker, sdb = example_db, locks = [], called = []\<rparr>"

definition example_object :: "string list \<Rightarrow> file_object" where
  "example_object ps = (empty_file_object ''a'' False)\<lparr>binary := Some ''x'', force_update := True,
     scheduled_analysis := Some ps\<rparr>"

lemmas example_sched_simps = example_env_def example_state_def example_object_def empty_file_object_def
  example_plugins_def example_metadata_def

lemma example_step:
  "\<exists>s'. object_step example_env (example_state [example_object [''x'']]) s' \<and>
     object_uids s' = {#} \<and> completed_uids s' = {#''a''#}"
proof -
  let ?s = "example_state [example_object [''x'']]"
  have "\<exists>s'. task_runner_step example_env 0 ?s = Inr s' \<and> object_uids s' = {#} \<and> completed_uids s' = {#''a''#}"
    by (simp add: example_sched_simps task_runner_step_def process_next_analysis_task_def list_pop_def Let_def
        check_further_process_or_complete_def nothing_scheduled_def do_callback_def put_status_def
        status_remove_object_def account_defs sum_runners_def runner_objects_def init_plugin_runner_def map_filter_simps)
  then show ?thesis
    by (metis example_state_def list.distinct(1) object_step.schedule sched_state.select_convs(1))
qed


theorem objects_conserved_witness:
  "\<exists>s'. object_step example_env (example_state [example_object [''x'']]) s' \<and> completed_uids s' = {#''a''#} \<and>
     object_uids s' + completed_uids s' = {#''a''#}"
proof -
  let ?s = "example_state [example_object [''x'']]"
  obtain s' where s': "object_step example_env ?s s'" "completed_uids s' = {#''a''#}"
    using example_step by blast
  have before: "objects ?s = {#ObjectKey ''a'' False None#}" "object_uids ?s + completed_uids ?s = {#''a''#}"
    by (simp_all add: example_sched_simps account_defs sum_runners_def runner_objects_def init_plugin_runner_def
        object_key_def is_firmware_object_def map_filter_simps)
  have "list_all (content_intact example_env) (process_queue ?s)"
    by (simp add: example_sched_simps content_intact_def)
  from objects_conserved [OF s'(1) this] s' before show ?thesis
    by auto
qed

definition example_typed_object :: file_object where
  "example_typed_object = (example_object [])\<lparr>processed_analysis := [(''file_type'', PDict [(''result'', PDict [])])]\<rparr>"

definition example_hash_state :: sched_state where
  "example_hash_state = (example_state [])\<lparr>runners := [(''file_hashes'', init_plugin_runner)]\<rparr>"

definition example_hash_started :: sched_state where
  "example_hash_started = example_hash_state\<lparr>runners := [(''file_hashes'', init_plugin_runner\<lparr>in_queue :=
       [\<lparr>t_virtual_file_path = [], t_path = ''s/a/a'',
         t_dependencies = [(''file_type'', PDict []), (''unpacker'', PNone)],
         t_scheduler_state = example_typed_object\<rparr>]\<rparr>)]\<rparr>"

lemma example_start:
  "start_or_skip_analysis example_env 0 ''file_hashes'' example_typed_object example_hash_state = Inr example_hash_started"
  by (simp add: start_or_skip_analysis_def example_sched_simps example_typed_object_def example_hash_state_def
      example_hash_started_def dict_item_def is_forced_update_def MANDATORY_PLUGINS_def start_analysis_def
      queue_analysis_def unpacker_result_def generate_path_def generate_path_from_uid_def init_plugin_runner_def Let_def)

theorem analysis_started_witness:
  "runners example_hash_started \<noteq> runners example_hash_state \<and>
   (\<exists>md (task :: runner_task). map_of (env_plugins example_env) ''file_hashes'' = Some md \<and>
     list_all (dependency_available (processed_analysis (t_scheduler_state task))) (dependencies md) \<and>
     dependencies md = [''file_type''])"
proof -
  have neq: "runners example_hash_started \<noteq> runners example_hash_state"
    by (simp add: example_hash_started_def example_hash_state_def init_plugin_runner_def)
  have md: "map_of (env_plugins example_env) ''file_hashes'' = Some (example_metadata ''file_hashes'' [''file_type''])"
    by (simp add: example_env_def example_plugins_def)
  from analysis_started_only_if_allowed [OF example_start neq] obtain md' and task :: runner_task where
    md': "map_of (env_plugins example_env) ''file_hashes'' = Some md'" and
    deps: "list_all (dependency_available (processed_analysis (t_scheduler_state task))) (dependencies md')"
    by (elim exE conjE) (rule that)
  have "dependencies md' = [''file_type'']"
    using md md' by (simp add: example_metadata_def)
  with neq md' deps show ?thesis
    by blast
qed

text \<open>
  The updated firmware itself is queued as it was passed in: its list of analyses is neither extended
  by dependencies and mandatory plugins nor brought into an executable order.
\<close>

lemma update_children_last:
  assumes "update_analysis_of_object_and_children env fuel fo s = Inr s'"
  shows "\<exists>s1. s' = check_further_process_or_complete fo s1"
proof (cases "get_list_of_all_included_files fuel (sdb s) fo")
  case None
  then show ?thesis
    using assms unfolding update_analysis_of_object_and_children_def None option.case by simp
next
  case (Some included)
  obtain db' err where up: "update_object fo (sdb s) = (db', err)"
    by (cases "update_object fo (sdb s)") blast
  note eq = assms [unfolded update_analysis_of_object_and_children_def Some option.case Let_def up prod.case]
  show ?thesis
  proof (cases err)
    case None
    from eq [unfolded None option.case] show ?thesis
      unfolding bindE_eq_Inr by blast
  next
    case (Some e)
    from eq [unfolded Some option.case] show ?thesis
      by blast
  qed
qed

lemma update_root_is_not_scheduled:
  assumes "update_analysis_of_object_and_children env fuel fo s = Inr s'" "is_firmware_object fo" "\<not> nothing_scheduled fo"
  shows "\<exists>q. process_queue s' = q @ [fo]"
  using update_children_last [OF assms(1)] assms(2,3) by (auto simp: check_further_process_or_complete_def)

text \<open>A forced update does not start an analysis whose file type is blacklisted.\<close>

lemma forced_update_is_skipped:
  assumes "force_update fo" "p \<notin> set MANDATORY_PLUGINS" "next_analysis_is_blacklisted env (sdb s) p fo = Inr (True, fo1)"
    and "start_or_skip_analysis env now p fo s = Inr s'"
  shows "runners s' = runners s"
  using assms(4)
  by (cases rule: start_or_skip_cases) (use assms finish_skipped_runners skip_up_to_date_runners in auto)

end
