(* ===== verification/Unpacking_Scheduler.thy ===== *)
theory Unpacking_Scheduler
  imports Unpacker Analysis_Scheduler
begin

text \<open>
  \<^verbatim>\<open>src/src/scheduler/unpacking_scheduler.py\<close>: the queue of files to unpack, the worker threads (one per
  extraction container), and the bookkeeping of what has been unpacked of each firmware. The
  scheduler hands every unpacked file to the analysis scheduler, so its state contains the state of
  that component (which holds the database and the unpacking locks they share).

  A thread runs \<open>work_thread\<close>; its phases are the sections between two accesses to shared state:
  before the check of the firmware, unpacking, storing and handing over, the synchronised update,
  and the scheduling of the extracted files. \<open>currently_extracted\<close> is a dictionary of a manager
  process: reading an entry gives a copy, and an exception before the entry is written back leaves it
  unchanged. \<open>un_failed\<close> is what \<open>_work_thread_wrapper\<close> logs.
\<close>

section \<open>State\<close>

record currently_unpacked =
  cu_remaining :: "string set"
  cu_done :: "string set"
  cu_delayed_vfp_update :: "(string \<times> vfp_dict) list"

datatype work_phase =
    Started file_object
  | Running file_object
  | Extracted file_object "file_object list"
  | Submitted file_object "file_object list"
  | Scheduling "file_object list"
  | Finished

record unpacking_state =
  un_queue :: "file_object list"
  un_pending :: "(nat \<times> work_phase) list"
  un_workers :: "extraction_container list"
  currently_extracted :: "(string \<times> currently_unpacked) list"
  un_fs :: filesystem
  un_docker :: docker
  un_analysis :: sched_state
  un_throttle :: bool
  un_stop :: bool
  un_work_load_counter :: nat
  un_failed :: "string list"

record unpack_sched_env =
  ux_unpack :: unpack_env
  ux_sched :: sched_env
  ux_run :: docker_run
  ux_image :: string
  ux_throttle_limit :: int

section \<open>Tasks and workers\<close>

definition add_task :: "file_object \<Rightarrow> unpacking_state \<Rightarrow> unpacking_state" where
  "add_task fw s = s\<lparr>un_queue := un_queue s @ [fw\<lparr>root_uid := Some (uid fw)\<rparr>]\<rparr>"

definition get_scheduled_workload :: "unpacking_state \<Rightarrow> nat \<times> bool" where
  "get_scheduled_workload s = (length (un_queue s), un_throttle s)"

fun create_containers ::
  "docker_run \<Rightarrow> string \<Rightarrow> nat \<Rightarrow> nat list \<Rightarrow> docker \<Rightarrow> extraction_container list result \<times> docker" where
  "create_containers run img base_port [] d = (Inr [], d)"
| "create_containers run img base_port (i # ids) d =
     (case container_start run img (new_container base_port i) d of
        (Inl e, d') \<Rightarrow> (Inl e, d')
      | (Inr c, d') \<Rightarrow> (case create_containers run img base_port ids d' of
            (Inl e, d'') \<Rightarrow> (Inl e, d'')
          | (Inr cs, d'') \<Rightarrow> (Inr (c # cs), d'')))"

definition get_free_worker :: "unpacking_state \<Rightarrow> extraction_container result" where
  "get_free_worker s =
     (case List.find (\<lambda>c. map_of (un_pending s) (ec_id c) = None) (un_workers s) of
        None \<Rightarrow> Inl NoFreeWorker | Some c \<Rightarrow> Inr c)"

fun check_pending_loop :: "unpack_sched_env \<Rightarrow> (nat \<times> work_phase) list \<Rightarrow> unpacking_state \<Rightarrow> unpacking_state result" where
  "check_pending_loop env [] s = Inr s"
| "check_pending_loop env ((i, ph) # rest) s =
     (if ph \<noteq> Finished then check_pending_loop env rest s
      else if length (un_workers s) \<le> i then Inl IndexError
      else
        (let c = un_workers s ! i
         in if exception_occurred c
            then (case container_restart (ux_run env) (ux_image env) c (un_docker s) of
                (Inl e, d) \<Rightarrow> Inl e
              | (Inr c', d) \<Rightarrow> check_pending_loop env rest
                  (s\<lparr>un_workers := (un_workers s)[i := c'], un_docker := d,
                     un_pending := AList.delete i (un_pending s)\<rparr>))
            else check_pending_loop env rest (s\<lparr>un_pending := AList.delete i (un_pending s)\<rparr>)))"

definition check_pending :: "unpack_sched_env \<Rightarrow> unpacking_state \<Rightarrow> unpacking_state result" where
  "check_pending env s = check_pending_loop env (un_pending s) s"

text \<open>
  One pass of \<open>extraction_loop\<close>. Without a free worker it sleeps, with an empty queue it tries again.
\<close>

definition extraction_loop_step :: "unpack_sched_env \<Rightarrow> unpacking_state \<Rightarrow> unpacking_state result" where
  "extraction_loop_step env s =
     (if un_stop s then Inr s
      else bindE (check_pending env s) (\<lambda>s1.
        case get_free_worker s1 of
          Inl _ \<Rightarrow> Inr s1
        | Inr c \<Rightarrow> (case un_queue s1 of
              [] \<Rightarrow> Inr s1
            | task # q \<Rightarrow> Inr (s1\<lparr>un_queue := q, un_pending := AList.update (ec_id c) (Started task) (un_pending s1)\<rparr>))))"

section \<open>The worker thread\<close>

definition init_currently_unpacked ::
  "file_object \<Rightarrow> (string \<times> currently_unpacked) list \<Rightarrow> (string \<times> currently_unpacked) list" where
  "init_currently_unpacked fo ce =
     (if map_of ce (uid fo) \<noteq> None then ce
      else AList.update (uid fo) \<lparr>cu_remaining = {uid fo}, cu_done = {}, cu_delayed_vfp_update = []\<rparr> ce)"

definition lookup_root :: "(string \<times> 'a) list \<Rightarrow> string option \<Rightarrow> 'a option" where
  "lookup_root ce r = Option.bind r (map_of ce)"

definition set_phase :: "nat \<Rightarrow> work_phase \<Rightarrow> unpacking_state \<Rightarrow> unpacking_state" where
  "set_phase i ph s = s\<lparr>un_pending := AList.update i ph (un_pending s)\<rparr>"

definition log_failed :: "file_object \<Rightarrow> unpacking_state \<Rightarrow> unpacking_state" where
  "log_failed task s = s\<lparr>un_failed := un_failed s @ [uid task]\<rparr>"

definition work_begin :: "nat \<Rightarrow> file_object \<Rightarrow> unpacking_state \<Rightarrow> unpacking_state" where
  "work_begin i task s =
     (if is_firmware_object task
      then set_phase i (Running task) (s\<lparr>currently_extracted := init_currently_unpacked task (currently_extracted s)\<rparr>)
      else if lookup_root (currently_extracted s) (root_uid task) = None then set_phase i Finished s
      else set_phase i (Running task) s)"

definition mark_exception :: "nat \<Rightarrow> extraction_container list \<Rightarrow> extraction_container list" where
  "mark_exception i cs = map (\<lambda>c. if ec_id c = i then set_exception c else c) cs"

definition work_unpack ::
  "unpack_sched_env \<Rightarrow> timestamp \<Rightarrow> string \<Rightarrow> extraction_container \<Rightarrow> file_object \<Rightarrow> unpacking_state \<Rightarrow> unpacking_state" where
  "work_unpack env now tmp_dir c task s =
     (case unpack (ux_unpack env) now (Some c) tmp_dir task \<lparr>us_fs = un_fs s, us_locks = locks (un_analysis s)\<rparr> of
        (task', us, r) \<Rightarrow>
          (let s1 = s\<lparr>un_fs := us_fs us, un_analysis := (un_analysis s)\<lparr>locks := us_locks us\<rparr>\<rparr>
           in case r of
                Inr objs \<Rightarrow> set_phase (ec_id c) (Extracted task' objs) s1
              | Inl (Extraction _) \<Rightarrow>
                  set_phase (ec_id c) (Extracted task' []) (s1\<lparr>un_workers := mark_exception (ec_id c) (un_workers s1)\<rparr>)
              | Inl (OtherError _) \<Rightarrow> set_phase (ec_id c) Finished (log_failed task s1)))"

text \<open>\<open>except DbInterfaceError\<close> also catches its subclass.\<close>

definition is_db_error :: "py_error \<Rightarrow> bool" where
  "is_db_error e \<longleftrightarrow> e = DbInterfaceError \<or> e = DbSerializationError"

definition handle_store_error ::
  "nat \<Rightarrow> file_object \<Rightarrow> py_error \<Rightarrow> unpacking_state \<Rightarrow> unpacking_state" where
  "handle_store_error i task e s =
     (if is_db_error e then set_phase i (Submitted task []) s else set_phase i Finished (log_failed task s))"

definition work_store ::
  "unpack_sched_env \<Rightarrow> timestamp \<Rightarrow> nat \<Rightarrow> file_object \<Rightarrow> file_object list \<Rightarrow> unpacking_state \<Rightarrow> unpacking_state" where
  "work_store env now i task objs s =
     (case db_add_object (env_codec (ux_sched env)) (env_flush (ux_sched env)) now task (sdb (un_analysis s)) of
        (db, err) \<Rightarrow>
          (let s1 = s\<lparr>un_analysis := (un_analysis s)\<lparr>sdb := db\<rparr>\<rparr>
           in case err of
                Some e \<Rightarrow> handle_store_error i task e s1
              | None \<Rightarrow> (case start_analysis_of_object (ux_sched env) task (un_analysis s1) of
                    (an, Some e) \<Rightarrow> handle_store_error i task e (s1\<lparr>un_analysis := an\<rparr>)
                  | (an, None) \<Rightarrow> set_phase i (Submitted task objs) (s1\<lparr>un_analysis := an\<rparr>))))"

text \<open>The loop over the delayed paths of the file; each call is a transaction of its own.\<close>

fun delayed_loop :: "string \<Rightarrow> vfp_dict \<Rightarrow> database \<Rightarrow> database \<times> py_error option" where
  "delayed_loop u [] db = (db, None)"
| "delayed_loop u ((parent, paths) # rest) db = (case add_vfp parent u paths db of
       Inl e \<Rightarrow> (db, Some e)
     | Inr db1 \<Rightarrow> delayed_loop u rest (add_child_to_parent parent u db1))"

fun update_extracted_objects ::
  "file_object \<Rightarrow> file_object list \<Rightarrow> currently_unpacked \<Rightarrow> database \<Rightarrow>
   database \<times> (py_error + currently_unpacked \<times> file_object list)" where
  "update_extracted_objects current_fo [] cu db = (db, Inr (cu, []))"
| "update_extracted_objects current_fo (fo # fos) cu db =
     (case map_of (virtual_file_path fo) (uid current_fo) of
        None \<Rightarrow> (db, Inl KeyError)
      | Some path_list \<Rightarrow>
          if uid fo \<in> cu_remaining cu
          then update_extracted_objects current_fo fos
            (cu\<lparr>cu_delayed_vfp_update := dict_modify (uid fo) [] (AList.update (uid current_fo) path_list)
               (cu_delayed_vfp_update cu)\<rparr>) db
          else if uid fo \<notin> cu_done cu
          then (case update_extracted_objects current_fo fos
              (cu\<lparr>cu_remaining := insert (uid fo) (cu_remaining cu)\<rparr>) db of
              (db1, Inl e) \<Rightarrow> (db1, Inl e)
            | (db1, Inr (cu1, kept)) \<Rightarrow> (db1, Inr (cu1, fo # kept)))
          else (case add_vfp (uid current_fo) (uid fo) path_list db of
              Inl e \<Rightarrow> (db, Inl e)
            | Inr db1 \<Rightarrow> update_extracted_objects current_fo fos cu (add_child_to_parent (uid current_fo) (uid fo) db1)))"

definition update_currently_unpacked ::
  "file_object \<Rightarrow> file_object list \<Rightarrow> (string \<times> currently_unpacked) list \<Rightarrow> database \<Rightarrow>
   database \<times> (py_error + (string \<times> currently_unpacked) list \<times> file_object list)" where
  "update_currently_unpacked task objs ce db =
     (case root_uid task of None \<Rightarrow> (db, Inr (ce, []))
      | Some r \<Rightarrow> (case map_of ce r of
           None \<Rightarrow> (db, Inr (ce, []))
         | Some cu \<Rightarrow>
             (case (case map_of (cu_delayed_vfp_update cu) (uid task) of
                  None \<Rightarrow> (db, None) | Some vfps \<Rightarrow> delayed_loop (uid task) vfps db) of
                (db1, Some e) \<Rightarrow> (db1, Inl e)
              | (db1, None) \<Rightarrow>
                  (case update_extracted_objects task objs (cu\<lparr>cu_done := insert (uid task) (cu_done cu)\<rparr>) db1 of
                     (db2, Inl e) \<Rightarrow> (db2, Inl e)
                   | (db2, Inr (cu1, kept)) \<Rightarrow>
                       (let cu2 = cu1\<lparr>cu_remaining := cu_remaining cu1 - {uid task}\<rparr>
                        in (db2, Inr (if cu_remaining cu2 = {} then AList.delete r ce else AList.update r cu2 ce, kept)))))))"

definition work_update :: "nat \<Rightarrow> file_object \<Rightarrow> file_object list \<Rightarrow> unpacking_state \<Rightarrow> unpacking_state" where
  "work_update i task objs s =
     (case update_currently_unpacked task objs (currently_extracted s) (sdb (un_analysis s)) of
        (db, r) \<Rightarrow>
          (let s1 = s\<lparr>un_analysis := (un_analysis s)\<lparr>sdb := db\<rparr>\<rparr>
           in case r of
                Inl e \<Rightarrow> set_phase i Finished (log_failed task s1)
              | Inr (ce, kept) \<Rightarrow> set_phase i (Scheduling kept) (s1\<lparr>currently_extracted := ce\<rparr>)))"

text \<open>
  \<open>_add_object_to_unpack_queue\<close> for the next object: it waits while unpacking is throttled, and the
  object is dropped when the scheduler stops.
\<close>

definition add_object_to_unpack_queue :: "file_object \<Rightarrow> unpacking_state \<Rightarrow> unpacking_state option" where
  "add_object_to_unpack_queue item s =
     (if un_stop s then Some s
      else if un_throttle s then None
      else Some (s\<lparr>un_queue := un_queue s @ [item]\<rparr>))"

definition schedule_extracted_files :: "nat \<Rightarrow> file_object list \<Rightarrow> unpacking_state \<Rightarrow> unpacking_state option" where
  "schedule_extracted_files i items s = (case items of
       [] \<Rightarrow> Some (set_phase i Finished s)
     | item # rest \<Rightarrow> map_option (set_phase i (Scheduling rest)) (add_object_to_unpack_queue item s))"

section \<open>Cancelling and throttling\<close>

definition cancel_unpacking :: "string \<Rightarrow> unpacking_state \<Rightarrow> unpacking_state" where
  "cancel_unpacking r s = s\<lparr>currently_extracted := AList.delete r (currently_extracted s)\<rparr>"

definition work_load_monitor_step :: "unpack_sched_env \<Rightarrow> int \<Rightarrow> unpacking_state \<Rightarrow> unpacking_state" where
  "work_load_monitor_step env workload s =
     (if un_stop s then s
      else s\<lparr>un_work_load_counter := (if un_work_load_counter s \<ge> 25 then 0 else un_work_load_counter s + 1),
             un_throttle := \<not> workload < ux_throttle_limit env\<rparr>)"


section \<open>Steps\<close>

text \<open>The steps of the scheduler loop and of the worker threads\<close>

inductive worker_step :: "unpack_sched_env \<Rightarrow> unpacking_state \<Rightarrow> unpacking_state \<Rightarrow> bool" for env where
  dispatch: "extraction_loop_step env s = Inr s' \<Longrightarrow> s' \<noteq> s \<Longrightarrow> worker_step env s s'"
| start: "map_of (un_pending s) i = Some (Started task) \<Longrightarrow> worker_step env s (work_begin i task s)"
| unpack: "map_of (un_pending s) (ec_id c) = Some (Running task) \<Longrightarrow> c \<in> set (un_workers s) \<Longrightarrow>
     worker_step env s (work_unpack env now tmp_dir c task s)"
| store: "map_of (un_pending s) i = Some (Extracted task objs) \<Longrightarrow> worker_step env s (work_store env now i task objs s)"
| update: "map_of (un_pending s) i = Some (Submitted task objs) \<Longrightarrow> worker_step env s (work_update i task objs s)"
| schedule: "map_of (un_pending s) i = Some (Scheduling items) \<Longrightarrow> schedule_extracted_files i items s = Some s' \<Longrightarrow>
     worker_step env s s'"

text \<open>
  A task is known to the bookkeeping by its UID, its firmware and whether it is the firmware itself.
\<close>

type_synonym task_key = "string \<times> string option \<times> bool"

definition key :: "file_object \<Rightarrow> task_key" where
  "key t = (uid t, root_uid t, is_firmware_object t)"

fun phase_tasks :: "work_phase \<Rightarrow> task_key multiset" where
  "phase_tasks (Started t) = {#key t#}"
| "phase_tasks (Running t) = {#key t#}"
| "phase_tasks (Extracted t _) = {#key t#}"
| "phase_tasks (Submitted t _) = {#key t#}"
| "phase_tasks (Scheduling ts) = mset (map key ts)"
| "phase_tasks Finished = {#}"

definition open_tasks :: "unpacking_state \<Rightarrow> task_key multiset" where
  "open_tasks s = mset (map key (un_queue s)) + (\<Sum>x\<leftarrow>un_pending s. phase_tasks (snd x))"

text \<open>
  The tasks of the firmware \<open>r\<close> that wait or are worked on, and the files that were extracted from it
  among them
\<close>

definition tasks_of :: "string \<Rightarrow> task_key multiset \<Rightarrow> string multiset" where
  "tasks_of r M = image_mset fst (filter_mset (\<lambda>(u, r', f). r' = Some r) M)"

definition extracted_of :: "string \<Rightarrow> task_key multiset \<Rightarrow> string multiset" where
  "extracted_of r M = image_mset fst (filter_mset (\<lambda>(u, r', f). r' = Some r \<and> \<not> f) M)"

text \<open>
  All steps. A firmware can be submitted at any time, also while it is being unpacked, and cancelled at
  any time. The other components may change the state of the analysis at any time.
\<close>

inductive unpack_step :: "unpack_sched_env \<Rightarrow> unpacking_state \<Rightarrow> unpacking_state \<Rightarrow> bool" for env where
  worker: "worker_step env s s' \<Longrightarrow> unpack_step env s s'"
| submit: "is_firmware_object fw \<Longrightarrow> unpack_step env s (add_task fw s)"
| cancel: "unpack_step env s (cancel_unpacking r s)"
| throttle: "unpack_step env s (work_load_monitor_step env workload s)"
| others: "unpack_step env s (s\<lparr>un_analysis := an\<rparr>)"

text \<open>
  A step that does not cancel the unpacking of \<open>r\<close>: only the worker threads may remove its entry.
\<close>

definition uncancelled_step :: "unpack_sched_env \<Rightarrow> string \<Rightarrow> unpacking_state \<Rightarrow> unpacking_state \<Rightarrow> bool" where
  "uncancelled_step env r s s' \<longleftrightarrow> unpack_step env s s' \<and>
     (map_of (currently_extracted s) r \<noteq> None \<and> map_of (currently_extracted s') r = None \<longrightarrow> worker_step env s s')"

section \<open>The bookkeeping invariants\<close>

text \<open>
  The bookkeeping of the firmware \<open>r\<close>: each file of it is open at most once, registered as remaining
  and not done; the firmware itself is registered in one of the two sets. Without an entry no file is open.
\<close>

definition books :: "string \<Rightarrow> (string \<times> currently_unpacked) list \<Rightarrow> task_key multiset \<Rightarrow> bool" where
  "books r ce M = (case map_of ce r of
       None \<Rightarrow> extracted_of r M = {#}
     | Some cu \<Rightarrow> (\<forall>u. count (extracted_of r M) u \<le> 1) \<and> set_mset (extracted_of r M) \<subseteq> cu_remaining cu - {r} \<and>
         cu_remaining cu \<inter> cu_done cu = {} \<and> r \<in> cu_remaining cu \<union> cu_done cu)"

text \<open>Everything that is registered as remaining is open.\<close>

definition covered :: "(string \<times> currently_unpacked) list \<Rightarrow> task_key multiset \<Rightarrow> bool" where
  "covered ce M \<longleftrightarrow> (\<forall>r cu. map_of ce r = Some cu \<longrightarrow> cu_remaining cu \<subseteq> set_mset (tasks_of r M))"

definition roots_ok :: "task_key multiset \<Rightarrow> bool" where
  "roots_ok M \<longleftrightarrow> (\<forall>u r. (u, r, True) \<in># M \<longrightarrow> r = Some u)"

definition unfinished :: "(string \<times> currently_unpacked) list \<Rightarrow> bool" where
  "unfinished ce \<longleftrightarrow> (\<forall>r cu. map_of ce r = Some cu \<longrightarrow> cu_remaining cu \<noteq> {})"

definition phase_ok :: "work_phase \<Rightarrow> bool" where
  "phase_ok ph = (case ph of
       Extracted t objs \<Rightarrow> list_all (child_of t) objs
     | Submitted t objs \<Rightarrow> list_all (child_of t) objs
     | _ \<Rightarrow> True)"

definition threads_ok :: "unpacking_state \<Rightarrow> bool" where
  "threads_ok s \<longleftrightarrow> distinct (map fst (un_pending s)) \<and> list_all (\<lambda>x. phase_ok (snd x)) (un_pending s)"

text \<open>No thread has failed and the scheduler runs.\<close>

definition healthy :: "unpacking_state \<Rightarrow> bool" where
  "healthy s \<longleftrightarrow> un_failed s = [] \<and> \<not> un_stop s"

definition unpack_inv :: "unpacking_state \<Rightarrow> bool" where
  "unpack_inv s \<longleftrightarrow> threads_ok s \<and> roots_ok (open_tasks s) \<and> unfinished (currently_extracted s) \<and>
     (healthy s \<longrightarrow> covered (currently_extracted s) (open_tasks s))"

lemma tasks_of_simps [simp]:
  "tasks_of r {#} = {#}"
  "tasks_of r (add_mset (u, r', f) M) = (if r' = Some r then add_mset u (tasks_of r M) else tasks_of r M)"
  "tasks_of r (M + N) = tasks_of r M + tasks_of r N"
  by (simp_all add: tasks_of_def)

lemma extracted_of_simps [simp]:
  "extracted_of r {#} = {#}"
  "extracted_of r (add_mset (u, r', f) M) = (if r' = Some r \<and> \<not> f then add_mset u (extracted_of r M) else extracted_of r M)"
  "extracted_of r (M + N) = extracted_of r M + extracted_of r N"
  by (simp_all add: extracted_of_def)


lemma tasks_of_split: "u \<in># tasks_of r M \<longleftrightarrow> u \<in># extracted_of r M \<or> (u, Some r, True) \<in># M"
  by (auto simp: tasks_of_def extracted_of_def image_iff)

text \<open>The objects extracted from a task are files of the same firmware.\<close>

lemma children_keys:
  assumes "list_all (child_of t) kept" "root_uid t = Some r'"
  shows "tasks_of r (image_mset key (mset kept)) = (if r = r' then image_mset uid (mset kept) else {#})"
    "extracted_of r (image_mset key (mset kept)) = (if r = r' then image_mset uid (mset kept) else {#})"
    "(v, q, True) \<notin># image_mset key (mset kept)"
proof -
  have "key c = (uid c, Some r', False)" if "c \<in> set kept" for c
    using assms that by (auto simp: list_all_iff child_of_def key_def is_firmware_object_def)
  then have "image_mset key (mset kept) = image_mset (\<lambda>c. (uid c, Some r', False)) (mset kept)"
    by (intro image_mset_cong) simp
  then show "tasks_of r (image_mset key (mset kept)) = (if r = r' then image_mset uid (mset kept) else {#})"
    "extracted_of r (image_mset key (mset kept)) = (if r = r' then image_mset uid (mset kept) else {#})"
    "(v, q, True) \<notin># image_mset key (mset kept)"
    by (auto simp: tasks_of_def extracted_of_def filter_mset_image_mset image_mset.compositionality comp_def)
qed

lemma roots_mono: "roots_ok M \<Longrightarrow> M' \<subseteq># M \<Longrightarrow> roots_ok M'"
  unfolding roots_ok_def by (blast dest: mset_subset_eqD)


text \<open>The synchronised update of the bookkeeping\<close>

lemma update_extracted_objects_spec:
  assumes "update_extracted_objects fo objs cu db = (db', Inr (cu', kept))"
  shows "cu_done cu' = cu_done cu \<and> cu_remaining cu' = cu_remaining cu \<union> uid ` set kept \<and>
     uid ` set kept \<inter> (cu_remaining cu \<union> cu_done cu) = {} \<and> distinct (map uid kept) \<and> set kept \<subseteq> set objs"
  using assms
proof (induction fo objs cu db arbitrary: db' cu' kept rule: update_extracted_objects.induct)
  case (2 current_fo fo fos cu db)
  from "2.prems" obtain paths where paths: "map_of (virtual_file_path fo) (uid current_fo) = Some paths"
    by (auto split: option.splits)
  consider (busy) "uid fo \<in> cu_remaining cu" | (new) "uid fo \<notin> cu_remaining cu" "uid fo \<notin> cu_done cu"
    | (known) "uid fo \<notin> cu_remaining cu" "uid fo \<in> cu_done cu"
    by blast
  then show ?case
  proof cases
    case busy
    have "update_extracted_objects current_fo fos
         (cu\<lparr>cu_delayed_vfp_update := dict_modify (uid fo) [] (AList.update (uid current_fo) paths)
            (cu_delayed_vfp_update cu)\<rparr>) db = (db', Inr (cu', kept))"
      using "2.prems" paths busy by simp
    from "2.IH"(1) [OF paths busy this] show ?thesis
      by (simp add: subset_insertI2)
  next
    case new
    then obtain kept1 where "update_extracted_objects current_fo fos
         (cu\<lparr>cu_remaining := insert (uid fo) (cu_remaining cu)\<rparr>) db = (db', Inr (cu', kept1))" "kept = fo # kept1"
      using "2.prems" paths by (auto split: prod.splits sum.splits)
    from "2.IH"(2) [OF paths new this(1)] this(2) show ?thesis
      using new by auto
  next
    case known
    then obtain db1 where db1: "add_vfp (uid current_fo) (uid fo) paths db = Inr db1"
      and rest: "update_extracted_objects current_fo fos cu (add_child_to_parent (uid current_fo) (uid fo) db1) =
         (db', Inr (cu', kept))"
      using "2.prems" paths by (auto split: sum.splits)
    have "\<not> uid fo \<notin> cu_done cu"
      using known by simp
    from "2.IH"(3) [OF paths known(1) this db1 rest] show ?thesis
      by (simp add: subset_insertI2)
  qed
qed auto


text \<open>
  What a step of the scheduler does to the open tasks and to the bookkeeping: nothing is added, a
  firmware is registered, or a task is replaced by the new files that were extracted from it.
\<close>

inductive effect :: "unpacking_state \<Rightarrow> unpacking_state \<Rightarrow> bool" where
  keep: "currently_extracted s' = currently_extracted s \<Longrightarrow> open_tasks s' \<subseteq># open_tasks s \<Longrightarrow>
     (healthy s' \<Longrightarrow> healthy s \<and> (\<forall>r. map_of (currently_extracted s) r = None \<or>
        tasks_of r (open_tasks s') = tasks_of r (open_tasks s))) \<Longrightarrow> effect s s'"
| register: "currently_extracted s' = init_currently_unpacked fw (currently_extracted s) \<Longrightarrow>
     (uid fw, Some (uid fw), True) \<in># open_tasks s \<Longrightarrow> open_tasks s' = open_tasks s \<Longrightarrow>
     (healthy s' \<Longrightarrow> healthy s) \<Longrightarrow> effect s s'"
| book: "root_uid task = Some r \<Longrightarrow> map_of (currently_extracted s) r = Some cu \<Longrightarrow>
     open_tasks s = add_mset (key task) M \<Longrightarrow> open_tasks s' = M + image_mset key (mset kept) \<Longrightarrow>
     cu_done cu1 = insert (uid task) (cu_done cu) \<Longrightarrow> cu_remaining cu1 = cu_remaining cu \<union> uid ` set kept \<Longrightarrow>
     uid ` set kept \<inter> (cu_remaining cu \<union> insert (uid task) (cu_done cu)) = {} \<Longrightarrow> distinct (map uid kept) \<Longrightarrow>
     list_all (child_of task) kept \<Longrightarrow>
     currently_extracted s' = (if cu_remaining cu1 - {uid task} = {} then AList.delete r (currently_extracted s)
        else AList.update r (cu1\<lparr>cu_remaining := cu_remaining cu1 - {uid task}\<rparr>) (currently_extracted s)) \<Longrightarrow>
     (healthy s' \<Longrightarrow> healthy s) \<Longrightarrow> effect s s'"

lemma inv_effect:
  assumes "effect s s'" "unpack_inv s" "threads_ok s'"
  shows "unpack_inv s'"
  using assms
proof (induction rule: effect.induct)
  case (keep s' s)
  then show ?case
    unfolding unpack_inv_def covered_def by (metis option.distinct(1) roots_mono)
next
  case (register s' fw s)
  have "covered (currently_extracted s') (open_tasks s')" if "covered (currently_extracted s) (open_tasks s)"
    using that register(2) unfolding covered_def register(1,3)
    by (auto simp: init_currently_unpacked_def tasks_of_split split: if_splits)
  moreover have "unfinished (currently_extracted s')"
    using register(5) unfolding unpack_inv_def unfinished_def register(1)
    by (auto simp: init_currently_unpacked_def split: if_splits)
  ultimately show ?case
    using register by (auto simp: unpack_inv_def)
next
  case (book task r s cu M s' kept cu1)
  note kids = children_keys [OF book(9,1)]
  have key: "key task = (uid task, Some r, is_firmware_object task)"
    using book(1) by (simp add: key_def)
  have "covered (currently_extracted s') (open_tasks s')" if cov: "covered (currently_extracted s) (open_tasks s)"
  proof -
    have "cu_remaining cu \<subseteq> insert (uid task) (set_mset (tasks_of r M))"
      using cov [unfolded covered_def, rule_format, OF book(2)] by (simp add: book(3) key)
    moreover have "cu_remaining cu' \<subseteq> set_mset (tasks_of v M)" if "v \<noteq> r" "map_of (currently_extracted s) v = Some cu'" for v cu'
      using cov [unfolded covered_def, rule_format, OF that(2)] that(1) by (simp add: book(3) key)
    ultimately show ?thesis
      unfolding covered_def book(4,10) by (auto simp: kids book(6) split: if_splits)
  qed
  moreover have "unfinished (currently_extracted s')"
    using book(12) unfolding unpack_inv_def unfinished_def book(10) by (auto split: if_splits)
  moreover have "roots_ok (open_tasks s')"
    using book(12) kids(3) by (auto simp: unpack_inv_def roots_ok_def book(3,4))
  ultimately show ?case
    using book by (simp add: unpack_inv_def)
qed




section \<open>Every step keeps the invariants\<close>

lemma open_set_phase:
  assumes "map_of (un_pending s) i = Some old"
  shows "open_tasks (set_phase i new s) + phase_tasks old = open_tasks s + phase_tasks new"
  using sum_list_alist_update [OF assms, of phase_tasks new] by (simp add: open_tasks_def set_phase_def add.assoc)

lemma threads_phase:
  assumes "threads_ok s" "phase_ok new" "un_pending s1 = un_pending s"
  shows "threads_ok (set_phase i new s1)"
  using assms set_update_subset [of i new "un_pending s"] by (force simp: threads_ok_def list_all_iff set_phase_def)

lemma phase_ok_pending: "threads_ok s \<Longrightarrow> map_of (un_pending s) i = Some ph \<Longrightarrow> phase_ok ph"
  by (auto simp: threads_ok_def list_all_iff dest: map_of_SomeD)

lemma sub_cancel:
  fixes X Y A B :: "'a multiset"
  assumes "X + A = Y + B" "B \<subseteq># A"
  shows "X \<subseteq># Y"
proof -
  have "X + B \<subseteq># X + A"
    using assms(2) by simp
  then show ?thesis
    using assms(1) by simp
qed

text \<open>
  A thread changes its phase and nothing else of the bookkeeping: the same task (or none) is open.
\<close>

lemma effect_phase:
  assumes old: "map_of (un_pending s) i = Some old" and drop: "phase_tasks new \<subseteq># phase_tasks old"
    and same: "un_pending s1 = un_pending s" "un_queue s1 = un_queue s" "currently_extracted s1 = currently_extracted s"
      "un_stop s1 = un_stop s"
    and lost: "un_failed s1 \<noteq> [] \<or> un_failed s1 = un_failed s \<and>
       (\<forall>r. tasks_of r (phase_tasks new) = tasks_of r (phase_tasks old) \<or> map_of (currently_extracted s) r = None)"
  shows "effect s (set_phase i new s1)"
proof (rule effect.keep)
  have "map_of (un_pending s1) i = Some old" "open_tasks s1 = open_tasks s"
    using old same by (simp_all add: open_tasks_def)
  from open_set_phase [OF this(1), of new] this(2)
  have ph: "open_tasks (set_phase i new s1) + phase_tasks old = open_tasks s + phase_tasks new"
    by simp
  show "open_tasks (set_phase i new s1) \<subseteq># open_tasks s"
    using ph drop by (rule sub_cancel)
  have "tasks_of r (open_tasks (set_phase i new s1)) + tasks_of r (phase_tasks old) =
      tasks_of r (open_tasks s) + tasks_of r (phase_tasks new)" for r
    using arg_cong [OF ph, of "tasks_of r"] by simp
  then show "healthy s \<and> (\<forall>r. map_of (currently_extracted s) r = None \<or>
        tasks_of r (open_tasks (set_phase i new s1)) = tasks_of r (open_tasks s))"
    if "healthy (set_phase i new s1)"
    using that lost same unfolding healthy_def by (simp add: set_phase_def) (metis add_right_cancel)
qed (simp add: same set_phase_def)

text \<open>A step keeps the threads in order and has one of the effects.\<close>

abbreviation step_ok :: "unpacking_state \<Rightarrow> unpacking_state \<Rightarrow> bool" where
  "step_ok s s' \<equiv> threads_ok s' \<and> effect s s'"

lemma step_phase:
  assumes "threads_ok s" "map_of (un_pending s) i = Some old" "phase_ok new" "phase_tasks new \<subseteq># phase_tasks old"
    and "un_pending s1 = un_pending s" "un_queue s1 = un_queue s" "currently_extracted s1 = currently_extracted s"
      "un_stop s1 = un_stop s"
    and "un_failed s1 \<noteq> [] \<or> un_failed s1 = un_failed s \<and>
       (\<forall>r. tasks_of r (phase_tasks new) = tasks_of r (phase_tasks old) \<or> map_of (currently_extracted s) r = None)"
  shows "step_ok s (set_phase i new s1)"
  using assms by (intro conjI threads_phase [of s] effect_phase) auto

lemma pending_task_open:
  "map_of (un_pending s) i = Some ph \<Longrightarrow> k \<in># phase_tasks ph \<Longrightarrow> k \<in># open_tasks s"
  using open_set_phase [of s i ph Finished] by (metis Un_iff add.right_neutral phase_tasks.simps(6) set_mset_union)

lemma inv_work_begin:
  assumes inv: "unpack_inv s" and old: "map_of (un_pending s) i = Some (Started task)"
  shows "step_ok s (work_begin i task s)"
proof (cases "is_firmware_object task")
  case False
  have ok: "threads_ok s"
    using inv by (simp add: unpack_inv_def)
  show ?thesis
  proof (cases "lookup_root (currently_extracted s) (root_uid task)")
    case None
    then have "step_ok s (set_phase i Finished s)"
      by (intro step_phase [OF ok old]) (auto simp: phase_ok_def key_def lookup_root_def split: option.splits)
    then show ?thesis
      using False None by (simp add: work_begin_def)
  next
    case (Some cu)
    have "step_ok s (set_phase i (Running task) s)"
      by (intro step_phase [OF ok old]) (auto simp: phase_ok_def)
    then show ?thesis
      using False Some by (simp add: work_begin_def)
  qed
next
  case True
  define s1 where "s1 = s\<lparr>currently_extracted := init_currently_unpacked task (currently_extracted s)\<rparr>"
  have step: "work_begin i task s = set_phase i (Running task) s1"
    using True by (simp add: work_begin_def s1_def)
  have "open_tasks s1 = open_tasks s" "map_of (un_pending s1) i = Some (Started task)"
    using old by (simp_all add: s1_def open_tasks_def)
  with open_set_phase [of s1 i "Started task" "Running task"]
  have o: "open_tasks (work_begin i task s) = open_tasks s"
    by (simp add: step)
  have "key task \<in># open_tasks s"
    using old by (rule pending_task_open) simp
  then have "(uid task, Some (uid task), True) \<in># open_tasks s"
    using inv True by (auto simp: unpack_inv_def roots_ok_def key_def)
  then have "effect s (work_begin i task s)"
    using o by (intro effect.register) (auto simp: step s1_def set_phase_def healthy_def)
  moreover have "threads_ok (work_begin i task s)"
    unfolding step using inv by (intro threads_phase [of s]) (auto simp: unpack_inv_def s1_def phase_ok_def)
  ultimately show ?thesis
    by blast
qed

lemma key_same: "uid t' = uid t \<Longrightarrow> root_uid t' = root_uid t \<Longrightarrow> firmware t' = firmware t \<Longrightarrow> key t' = key t"
  by (simp add: key_def is_firmware_object_def)

lemma inv_work_unpack:
  assumes ok: "threads_ok s" and old: "map_of (un_pending s) (ec_id c) = Some (Running task)"
  shows "step_ok s (work_unpack env now tmp_dir c task s)"
proof -
  obtain task' us r where un: "unpack (ux_unpack env) now (Some c) tmp_dir task
      \<lparr>us_fs = un_fs s, us_locks = locks (un_analysis s)\<rparr> = (task', us, r)"
    using prod_cases3 by blast
  have same: "key task' = key task" "child_of task' = child_of task"
    using unpack_same [OF un] by (auto intro!: key_same ext simp: child_of_def)
  show ?thesis
  proof (cases r)
    case (Inr objs)
    have "list_all (child_of task') objs"
      using unpack_objects(2) [OF un [unfolded Inr]] by (simp add: same list_all_iff)
    then show ?thesis
      unfolding work_unpack_def un Inr Let_def prod.case sum.case
      by (intro step_phase [OF ok old]) (auto simp: same phase_ok_def)
  next
    case (Inl e)
    then show ?thesis
      unfolding work_unpack_def un Inl Let_def prod.case sum.case
      by (cases e; simp only: unpack_error.case; intro step_phase [OF ok old])
        (auto simp: same phase_ok_def log_failed_def)
  qed
qed

lemma inv_store_error:
  assumes ok: "threads_ok s" and old: "map_of (un_pending s) i = Some (Extracted task objs)"
    and same: "un_pending s1 = un_pending s" "un_queue s1 = un_queue s" "currently_extracted s1 = currently_extracted s"
      "un_stop s1 = un_stop s" "un_failed s1 = un_failed s"
  shows "step_ok s (handle_store_error i task e s1)"
  unfolding handle_store_error_def using same
  by (cases "is_db_error e"; simp only: if_True if_False; intro step_phase [OF ok old])
    (auto simp: log_failed_def phase_ok_def)

lemma inv_work_store:
  assumes ok: "threads_ok s" and old: "map_of (un_pending s) i = Some (Extracted task objs)"
  shows "step_ok s (work_store env now i task objs s)"
proof -
  have "phase_ok (Submitted task objs)"
    using phase_ok_pending [OF ok old] by (simp add: phase_ok_def)
  then have "step_ok s (set_phase i (Submitted task objs) (s\<lparr>un_analysis := an\<rparr>))" for an
    by (intro step_phase [OF ok old]) auto
  moreover have "step_ok s (handle_store_error i task e (s\<lparr>un_analysis := an\<rparr>))" for e an
    by (rule inv_store_error [OF ok old]) simp_all
  ultimately show ?thesis
    unfolding work_store_def Let_def
    by (simp split: prod.splits option.splits sum.splits)
qed


text \<open>The outcomes of the synchronised section\<close>

lemma update_currently_unpacked_cases:
  assumes "update_currently_unpacked task objs ce db = (db', Inr (ce', kept))"
  obtains (gone) "lookup_root ce (root_uid task) = None" "ce' = ce" "kept = []"
  | (booked) r cu cu1 where "root_uid task = Some r" "map_of ce r = Some cu"
      "cu_done cu1 = insert (uid task) (cu_done cu)" "cu_remaining cu1 = cu_remaining cu \<union> uid ` set kept"
      "uid ` set kept \<inter> (cu_remaining cu \<union> insert (uid task) (cu_done cu)) = {}" "distinct (map uid kept)"
      "set kept \<subseteq> set objs"
      "ce' = (if cu_remaining cu1 - {uid task} = {} then AList.delete r ce
         else AList.update r (cu1\<lparr>cu_remaining := cu_remaining cu1 - {uid task}\<rparr>) ce)"
proof (cases "lookup_root ce (root_uid task)")
  case None
  then have "update_currently_unpacked task objs ce db = (db, Inr (ce, []))"
    by (auto simp: update_currently_unpacked_def lookup_root_def split: option.splits)
  then show thesis
    using gone None assms by simp
next
  case (Some cu)
  then obtain r where r: "root_uid task = Some r" "map_of ce r = Some cu"
    by (auto simp: lookup_root_def bind_eq_Some_conv)
  let ?cu0 = "cu\<lparr>cu_done := insert (uid task) (cu_done cu)\<rparr>"
  obtain db1 db2 cu1 where up: "update_extracted_objects task objs ?cu0 db1 = (db2, Inr (cu1, kept))"
    and ce': "ce' = (if cu_remaining cu1 - {uid task} = {} then AList.delete r ce
         else AList.update r (cu1\<lparr>cu_remaining := cu_remaining cu1 - {uid task}\<rparr>) ce)"
    using assms r unfolding update_currently_unpacked_def
    by (auto simp: Let_def split: prod.splits option.splits sum.splits)
  show thesis
    using update_extracted_objects_spec [OF up] r ce' by (intro booked [of r cu cu1]) auto
qed

lemma inv_work_update:
  assumes ok: "threads_ok s" and old: "map_of (un_pending s) i = Some (Submitted task objs)"
  shows "step_ok s (work_update i task objs s)"
proof -
  obtain db res where up: "update_currently_unpacked task objs (currently_extracted s) (sdb (un_analysis s)) = (db, res)"
    by fastforce
  define s1 where "s1 = s\<lparr>un_analysis := (un_analysis s)\<lparr>sdb := db\<rparr>\<rparr>"
  show ?thesis
  proof (cases res)
    case (Inl e)
    then have "work_update i task objs s = set_phase i Finished (log_failed task s1)"
      by (simp add: work_update_def up s1_def)
    then show ?thesis
      by (simp only:, intro step_phase [OF ok old]) (auto simp: s1_def phase_ok_def log_failed_def)
  next
    case (Inr b)
    then obtain ce kept where b: "res = Inr (ce, kept)"
      by (cases b) auto
    have step: "work_update i task objs s = set_phase i (Scheduling kept) (s1\<lparr>currently_extracted := ce\<rparr>)"
      by (simp add: work_update_def up b s1_def Let_def)
    have pend: "map_of (un_pending (s1\<lparr>currently_extracted := ce\<rparr>)) i = Some (Submitted task objs)"
      "open_tasks (s1\<lparr>currently_extracted := ce\<rparr>) = open_tasks s"
      using old by (simp_all add: s1_def open_tasks_def)
    have threads: "threads_ok (work_update i task objs s)"
      unfolding step using ok by (intro threads_phase [of s]) (auto simp: s1_def phase_ok_def)
    show ?thesis
      using up [unfolded b]
    proof (cases rule: update_currently_unpacked_cases)
      case gone
      then have "effect s (set_phase i (Scheduling []) s1)"
        by (intro effect_phase [OF old]) (auto simp: s1_def key_def lookup_root_def split: option.splits)
      then show ?thesis
        using gone threads by (simp add: step s1_def)
    next
      case (booked r cu cu1)
      have kids: "list_all (child_of task) kept"
        using phase_ok_pending [OF ok old] booked(7) by (auto simp: phase_ok_def list_all_iff)
      have "key task \<in># open_tasks s"
        using old by (rule pending_task_open) simp
      then obtain M where M: "open_tasks s = add_mset (key task) M"
        by (blast dest: multi_member_split)
      have "open_tasks (work_update i task objs s) = M + image_mset key (mset kept)"
        using open_set_phase [OF pend(1), of "Scheduling kept"] by (simp add: step pend(2) M)
      moreover have "currently_extracted (work_update i task objs s) = ce"
        "healthy (work_update i task objs s) \<Longrightarrow> healthy s"
        by (simp_all add: step s1_def set_phase_def healthy_def)
      ultimately have "effect s (work_update i task objs s)"
        using booked(8) by (intro effect.book [OF booked(1,2) M _ booked(3-6) kids]) (simp_all only:)
      then show ?thesis
        using threads by blast
    qed
  qed
qed


lemma inv_schedule:
  assumes ok: "threads_ok s" and old: "map_of (un_pending s) i = Some (Scheduling items)"
    and step: "schedule_extracted_files i items s = Some s'"
  shows "step_ok s s'"
proof (cases items)
  case Nil
  then show ?thesis
    using step step_phase [OF ok old, of Finished s]
    by (simp add: schedule_extracted_files_def phase_ok_def)
next
  case (Cons item rest)
  have split: "open_tasks (set_phase i (Scheduling rest) s) + {#key item#} = open_tasks s"
    using open_set_phase [OF old, of "Scheduling rest"] by (simp add: Cons)
  have ph: "threads_ok (set_phase i (Scheduling rest) s)"
    using ok by (intro threads_phase [of s]) (auto simp: phase_ok_def)
  show ?thesis
  proof (cases "un_stop s")
    case True
    then have s': "s' = set_phase i (Scheduling rest) s"
      using step by (simp add: schedule_extracted_files_def add_object_to_unpack_queue_def Cons)
    have "open_tasks s' \<subseteq># open_tasks s"
      unfolding s' split [symmetric] by (rule mset_subset_eq_add_left)
    then have "effect s s'"
      using True by (intro effect.keep) (simp_all add: s' set_phase_def healthy_def)
    then show ?thesis
      using ph by (simp add: s')
  next
    case False
    then have s': "s' = set_phase i (Scheduling rest) (s\<lparr>un_queue := un_queue s @ [item]\<rparr>)"
      using step by (auto simp: schedule_extracted_files_def add_object_to_unpack_queue_def Cons split: if_splits)
    have "open_tasks s' = open_tasks s"
      using split by (simp add: s' open_tasks_def set_phase_def)
    then have "effect s s'"
      by (intro effect.keep) (simp_all add: s' set_phase_def healthy_def)
    then show ?thesis
      using ph by (simp add: s' threads_ok_def set_phase_def)
  qed
qed

text \<open>Collecting finished threads and starting new ones\<close>

lemma pending_delete_finished:
  assumes "distinct (map fst (un_pending s))" "map_of (un_pending s) i = Some Finished"
  shows "open_tasks (s\<lparr>un_pending := AList.delete i (un_pending s)\<rparr>) = open_tasks s"
  using sum_list_alist_delete [OF assms, of phase_tasks] by (simp add: open_tasks_def)

lemma check_pending_effect:
  assumes "check_pending_loop env rest s = Inr s'" "distinct (map fst (un_pending s))" "distinct (map fst rest)"
    and "set rest \<subseteq> set (un_pending s)"
  shows "open_tasks s' = open_tasks s \<and> distinct (map fst (un_pending s')) \<and>
     set (un_pending s') \<subseteq> set (un_pending s) \<and> currently_extracted s' = currently_extracted s \<and>
     un_failed s' = un_failed s \<and> un_stop s' = un_stop s"
  using assms
proof (induction env rest s arbitrary: s' rule: check_pending_loop.induct)
  case (2 env i ph rest s)
  have mem: "(i, ph) \<in> set (un_pending s)" "set rest \<subseteq> set (un_pending s)" "distinct (map fst rest)" "i \<notin> fst ` set rest"
    using "2.prems" by auto
  show ?case
  proof (cases "ph = Finished")
    case False
    then show ?thesis
      using "2.prems" "2.IH"(1) mem by simp
  next
    case True
    have fin: "map_of (un_pending s) i = Some Finished"
      using mem(1) "2.prems"(2) True by simp
    have sub: "set rest \<subseteq> set (AList.delete i (un_pending s))"
      using mem(2,4) by (force simp: AList.delete_eq)
    have dist: "distinct (map fst (AList.delete i (un_pending s)))"
      using "2.prems"(2) by (rule distinct_delete)
    have del: "set (AList.delete i (un_pending s)) \<subseteq> set (un_pending s)"
      by (auto simp: AList.delete_eq)
    have i: "\<not> length (un_workers s) \<le> i"
      using "2.prems"(1) True by (auto split: if_splits)
    note un = pending_delete_finished [OF "2.prems"(2) fin]
    show ?thesis
    proof (cases "exception_occurred (un_workers s ! i)")
      case exc: True
      obtain c' d where re: "container_restart (ux_run env) (ux_image env) (un_workers s ! i) (un_docker s) = (Inr c', d)"
        using "2.prems"(1) True i exc by (auto simp: Let_def split: prod.splits sum.splits)
      let ?s1 = "s\<lparr>un_workers := (un_workers s)[i := c'], un_docker := d, un_pending := AList.delete i (un_pending s)\<rparr>"
      have "check_pending_loop env rest ?s1 = Inr s'"
        using "2.prems"(1) True i exc re by (simp add: Let_def)
      from "2.IH"(2) [OF _ i refl exc re [symmetric] refl this] True
      show ?thesis
        using dist sub mem(3) del un by (auto simp: open_tasks_def)
    next
      case exc: False
      have "check_pending_loop env rest (s\<lparr>un_pending := AList.delete i (un_pending s)\<rparr>) = Inr s'"
        using "2.prems"(1) True i exc by (simp add: Let_def)
      from "2.IH"(3) [OF _ i refl exc this] True
      show ?thesis
        using dist sub mem(3) del un by auto
    qed
  qed
qed auto


lemma check_pending_facts:
  assumes "check_pending env s = Inr s1" "threads_ok s"
  shows "threads_ok s1" "open_tasks s1 = open_tasks s" "currently_extracted s1 = currently_extracted s"
    "healthy s1 = healthy s"
proof -
  have eff: "open_tasks s1 = open_tasks s \<and> distinct (map fst (un_pending s1)) \<and>
     set (un_pending s1) \<subseteq> set (un_pending s) \<and> currently_extracted s1 = currently_extracted s \<and>
     un_failed s1 = un_failed s \<and> un_stop s1 = un_stop s"
    using assms by (intro check_pending_effect [of env "un_pending s"]) (auto simp: check_pending_def threads_ok_def)
  then show "threads_ok s1" "open_tasks s1 = open_tasks s" "currently_extracted s1 = currently_extracted s"
    "healthy s1 = healthy s"
    using assms(2) by (auto simp: threads_ok_def healthy_def list_all_iff)
qed

lemma free_worker_idle: "get_free_worker s = Inr c \<Longrightarrow> map_of (un_pending s) (ec_id c) = None"
  by (auto simp: get_free_worker_def find_Some_iff split: option.splits)

lemma free_worker_member: "get_free_worker s = Inr c \<Longrightarrow> c \<in> set (un_workers s)"
  by (auto simp: get_free_worker_def find_Some_iff split: option.splits)

lemma inv_dispatch:
  assumes ok: "threads_ok s" and step: "extraction_loop_step env s = Inr s'"
  shows "step_ok s s'"
proof (cases "un_stop s")
  case True
  then show ?thesis
    using step ok by (simp add: extraction_loop_step_def effect.keep)
next
  case False
  then obtain s1 where s1: "check_pending env s = Inr s1"
    using step by (auto simp: extraction_loop_step_def result_simps)
  note facts = check_pending_facts [OF s1 ok]
  consider (idle) "s' = s1" | (task) c task q where "get_free_worker s1 = Inr c" "un_queue s1 = task # q"
      "s' = s1\<lparr>un_queue := q, un_pending := AList.update (ec_id c) (Started task) (un_pending s1)\<rparr>"
    using step False s1 by (auto simp: extraction_loop_step_def split: sum.splits list.splits)
  then show ?thesis
  proof cases
    case idle
    then show ?thesis
      using facts by (auto intro!: effect.keep)
  next
    case task
    have "open_tasks s' = open_tasks s1"
      using free_worker_idle [OF task(1)] task(2) by (simp add: task(3) open_tasks_def sum_list_alist_new)
    then have "effect s s'"
      using facts by (intro effect.keep) (simp_all add: task(3) healthy_def)
    moreover have "threads_ok (set_phase (ec_id c) (Started task) s1)"
      using facts(1) by (intro threads_phase [of s1]) (auto simp: phase_ok_def)
    ultimately show ?thesis
      by (simp add: threads_ok_def task(3) set_phase_def)
  qed
qed

lemma worker_step_ok: "worker_step env s s' \<Longrightarrow> unpack_inv s \<Longrightarrow> step_ok s s'"
proof (induction rule: worker_step.induct)
  case (start s i task)
  then show ?case
    by (intro inv_work_begin)
qed (simp_all only: unpack_inv_def, (rule inv_dispatch inv_work_unpack inv_work_store inv_work_update inv_schedule; blast)+)

lemma inv_worker_step: "worker_step env s s' \<Longrightarrow> unpack_inv s \<Longrightarrow> unpack_inv s'"
  by (blast dest: worker_step_ok intro: inv_effect)

lemma add_task_open:
  "is_firmware_object fw \<Longrightarrow> open_tasks (add_task fw s) = add_mset (uid fw, Some (uid fw), True) (open_tasks s)"
  by (simp add: add_task_def open_tasks_def key_def is_firmware_object_def)

lemma inv_unpack_step: "unpack_step env s s' \<Longrightarrow> unpack_inv s \<Longrightarrow> unpack_inv s'"
proof (induction rule: unpack_step.induct)
  case (worker s s')
  then show ?case
    by (rule inv_worker_step)
next
  case (submit fw s)
  have "covered ce (add_mset x M)" if "covered ce M" for ce x M
    using that by (cases x) (force simp: covered_def)
  then show ?case
    using submit(2) unfolding unpack_inv_def add_task_open [OF submit(1)]
    by (simp add: threads_ok_def roots_ok_def healthy_def add_task_def)
next
  case (cancel s r)
  then show ?case
    by (auto simp: unpack_inv_def cancel_unpacking_def open_tasks_def covered_def unfinished_def threads_ok_def
        healthy_def split: if_splits)
next
  case (throttle s workload)
  then show ?case
    by (simp add: unpack_inv_def work_load_monitor_step_def open_tasks_def threads_ok_def healthy_def)
next
  case (others s an)
  then show ?case
    by (simp add: unpack_inv_def open_tasks_def threads_ok_def healthy_def)
qed


definition init_unpacking :: "extraction_container list \<Rightarrow> filesystem \<Rightarrow> docker \<Rightarrow> sched_state \<Rightarrow> unpacking_state" where
  "init_unpacking workers fs d an = \<lparr>un_queue = [], un_pending = [], un_workers = workers, currently_extracted = [],
     un_fs = fs, un_docker = d, un_analysis = an, un_throttle = False, un_stop = False,
     un_work_load_counter = 25, un_failed = []\<rparr>"

lemma inv_init: "unpack_inv (init_unpacking workers fs d an)"
  by (simp add: unpack_inv_def init_unpacking_def open_tasks_def threads_ok_def roots_ok_def unfinished_def covered_def)

lemma reachable_inv: "(unpack_step env)\<^sup>*\<^sup>* (init_unpacking workers fs d an) s \<Longrightarrow> unpack_inv s"
  by (induction rule: rtranclp_induct) (auto intro: inv_init inv_unpack_step)




section \<open>Unpacking ends\<close>

text \<open>
  The open work as a multiset: what a task can still cause depends on how far its depth is from the
  limit; a step replaces work by smaller work.
\<close>

abbreviation levels :: "unpack_sched_env \<Rightarrow> file_object \<Rightarrow> nat" where
  "levels env t \<equiv> nat (max_depth (ux_unpack env) - depth t)"

fun phase_work :: "unpack_sched_env \<Rightarrow> work_phase \<Rightarrow> nat multiset" where
  "phase_work env (Started t) = {#8 * levels env t + 5#}"
| "phase_work env (Running t) = {#8 * levels env t + 4#}"
| "phase_work env (Extracted t objs) = add_mset (8 * levels env t + 3) (image_mset (\<lambda>c. 8 * levels env c + 9) (mset objs))"
| "phase_work env (Submitted t objs) = add_mset (8 * levels env t + 2) (image_mset (\<lambda>c. 8 * levels env c + 8) (mset objs))"
| "phase_work env (Scheduling ts) = add_mset 1 (image_mset (\<lambda>c. 8 * levels env c + 7) (mset ts))"
| "phase_work env Finished = {#0#}"

definition open_work :: "unpack_sched_env \<Rightarrow> unpacking_state \<Rightarrow> nat multiset" where
  "open_work env s = image_mset (\<lambda>t. 8 * levels env t + 6) (mset (un_queue s)) +
     (\<Sum>x\<leftarrow>un_pending s. phase_work env (snd x))"

abbreviation less_work :: "(nat multiset \<times> nat multiset) set" where
  "less_work \<equiv> mult {(x, y). x < y}"

lemma phase_work_nonempty [simp]: "phase_work env ph \<noteq> {#}"
  by (cases ph) auto

lemma work_set_phase:
  assumes old: "map_of (un_pending s) i = Some old" and same: "un_pending s1 = un_pending s" "un_queue s1 = un_queue s"
    and small: "\<forall>k\<in>#phase_work env new. \<exists>j\<in>#phase_work env old. k < j"
  shows "(open_work env (set_phase i new s1), open_work env s) \<in> less_work"
proof -
  have eq: "open_work env (set_phase i new s1) + phase_work env old = open_work env s + phase_work env new"
    using sum_list_alist_update [OF old, of "phase_work env" new]
    by (simp add: open_work_def set_phase_def same add.assoc)
  have "phase_work env old \<subseteq># open_work env s"
  proof -
    have "(i, old) \<in> set (un_pending s)"
      using old by (rule map_of_SomeD)
    then have "phase_work env old \<in> set (map (\<lambda>x. phase_work env (snd x)) (un_pending s))"
      by force
    then obtain xs ys where "map (\<lambda>x. phase_work env (snd x)) (un_pending s) = xs @ phase_work env old # ys"
      by (meson split_list)
    then show ?thesis
      by (simp add: open_work_def)
  qed
  then obtain I where I: "open_work env s = I + phase_work env old"
    by (metis subset_mset.diff_add)
  then have "open_work env (set_phase i new s1) = I + phase_work env new"
    using eq by simp
  then show ?thesis
    unfolding I using small by (auto intro!: one_step_implies_mult)
qed

lemma levels_child: "child_of t c \<Longrightarrow> depth t < max_depth (ux_unpack env) \<Longrightarrow> levels env t = Suc (levels env c)"
  by (simp add: child_of_def nat_diff_distrib' Suc_nat_eq_nat_zadd1)

lemma work_begin_less:
  "map_of (un_pending s) i = Some (Started task) \<Longrightarrow> (open_work env (work_begin i task s), open_work env s) \<in> less_work"
  by (auto simp: work_begin_def intro!: work_set_phase)

lemma work_unpack_less:
  assumes old: "map_of (un_pending s) (ec_id c) = Some (Running task)"
  shows "(open_work env (work_unpack env now tmp_dir c task s), open_work env s) \<in> less_work"
proof -
  obtain task' us r where un: "unpack (ux_unpack env) now (Some c) tmp_dir task
      \<lparr>us_fs = un_fs s, us_locks = locks (un_analysis s)\<rparr> = (task', us, r)"
    using prod_cases3 by blast
  have lev: "levels env task' = levels env task"
    using unpack_same [OF un] by simp
  show ?thesis
  proof (cases r)
    case (Inr objs)
    have "8 * levels env o' + 9 < 8 * levels env task + 4" if "o' \<in> set objs" for o'
    proof -
      have "objs \<noteq> []"
        using that by auto
      then have "child_of task o'" "depth task < max_depth (ux_unpack env)"
        using unpack_objects(2,3) [OF un [unfolded Inr]] that by auto
      then show ?thesis
        by (simp add: levels_child)
    qed
    then show ?thesis
      unfolding work_unpack_def un Inr by (auto simp: Let_def lev intro!: work_set_phase [OF old])
  next
    case (Inl e)
    then show ?thesis
      unfolding work_unpack_def un Inl
      by (cases e) (auto simp: Let_def lev log_failed_def intro!: work_set_phase [OF old])
  qed
qed


lemma store_error_less:
  assumes "map_of (un_pending s) i = Some (Extracted task objs)" "un_pending s1 = un_pending s" "un_queue s1 = un_queue s"
  shows "(open_work env (handle_store_error i task e s1), open_work env s) \<in> less_work"
  using assms by (auto simp: handle_store_error_def log_failed_def intro!: work_set_phase [OF assms(1)])

lemma work_store_less:
  assumes old: "map_of (un_pending s) i = Some (Extracted task objs)"
  shows "(open_work env (work_store env now i task objs s), open_work env s) \<in> less_work"
proof -
  have "\<forall>k\<in>#phase_work env (Submitted task objs). \<exists>j\<in>#phase_work env (Extracted task objs). k < j"
    by (auto intro: bexI)
  then show ?thesis
    unfolding work_store_def Let_def
    by (auto split: prod.splits option.splits sum.splits simp del: phase_work.simps
        intro!: store_error_less [OF old] work_set_phase [OF old])
qed

lemma work_update_less:
  assumes old: "map_of (un_pending s) i = Some (Submitted task objs)"
  shows "(open_work env (work_update i task objs s), open_work env s) \<in> less_work"
proof -
  obtain db res where up: "update_currently_unpacked task objs (currently_extracted s) (sdb (un_analysis s)) = (db, res)"
    by fastforce
  show ?thesis
  proof (cases res)
    case (Inl e)
    then show ?thesis
      unfolding work_update_def up
      by (auto simp: Let_def log_failed_def intro!: work_set_phase [OF old])
  next
    case (Inr b)
    then obtain ce kept where b: "res = Inr (ce, kept)"
      by (cases b) auto
    have sub: "set kept \<subseteq> set objs"
      using up [unfolded b] by (cases rule: update_currently_unpacked_cases) auto
    have "\<forall>k\<in>#phase_work env (Scheduling kept). \<exists>j\<in>#phase_work env (Submitted task objs). k < j"
      using sub by force
    then show ?thesis
      unfolding work_update_def up b
      by (auto simp: Let_def simp del: phase_work.simps intro!: work_set_phase [OF old])
  qed
qed

lemma schedule_less:
  assumes old: "map_of (un_pending s) i = Some (Scheduling items)" and step: "schedule_extracted_files i items s = Some s'"
  shows "(open_work env s', open_work env s) \<in> less_work"
proof (cases items)
  case Nil
  then show ?thesis
    using step by (auto simp: schedule_extracted_files_def intro!: work_set_phase [OF old])
next
  case (Cons item rest)
  have eq: "open_work env (set_phase i (Scheduling rest) s) + {#8 * levels env item + 7#} = open_work env s"
    using sum_list_alist_update [OF old, of "phase_work env" "Scheduling rest"]
    by (simp add: open_work_def set_phase_def Cons)
  have "open_work env s' = open_work env (set_phase i (Scheduling rest) s) + {#8 * levels env item + 6#} \<or>
      open_work env s' = open_work env (set_phase i (Scheduling rest) s) + {#}"
    using step by (auto simp: schedule_extracted_files_def add_object_to_unpack_queue_def Cons open_work_def
        set_phase_def split: if_splits)
  then show ?thesis
    unfolding eq [symmetric] by (elim disjE) (simp_all only:, (rule one_step_implies_mult; simp)+)
qed


lemma check_pending_less:
  assumes "check_pending_loop env rest s = Inr s'" "distinct (map fst (un_pending s))" "distinct (map fst rest)"
    and "set rest \<subseteq> set (un_pending s)"
  shows "un_queue s' = un_queue s \<and> set (un_pending s') \<subseteq> set (un_pending s) \<and>
     (if Finished \<in> snd ` set rest then open_work env s' \<subset># open_work env s else s' = s) \<and>
     (\<forall>i. (i, Finished) \<in> set rest \<longrightarrow> i \<notin> fst ` set (un_pending s'))"
  using assms
proof (induction rest arbitrary: s)
  case (Cons x rest)
  obtain i ph where x: "x = (i, ph)"
    by (cases x)
  have mem: "(i, ph) \<in> set (un_pending s)" "set rest \<subseteq> set (un_pending s)" "distinct (map fst rest)" "i \<notin> fst ` set rest"
    using Cons.prems by (auto simp: x)
  show ?case
  proof (cases "ph = Finished")
    case False
    then show ?thesis
      using Cons.prems Cons.IH [of s] mem by (auto simp: x)
  next
    case True
    have fin: "map_of (un_pending s) i = Some Finished"
      using mem(1) Cons.prems(2) True by simp
    obtain s1 where s1: "check_pending_loop env rest s1 = Inr s'" "un_pending s1 = AList.delete i (un_pending s)"
        "un_queue s1 = un_queue s"
      using Cons.prems(1) True by (auto simp: x Let_def split: if_splits prod.splits sum.splits)
    have sub: "set rest \<subseteq> set (un_pending s1)" "distinct (map fst (un_pending s1))"
      "set (un_pending s1) \<subseteq> set (un_pending s)" "i \<notin> fst ` set (un_pending s1)"
      using mem(2,4) Cons.prems(2) by (force simp: s1 AList.delete_eq distinct_map_filter)+
    have "open_work env s1 + {#0#} = open_work env s"
      using sum_list_alist_delete [OF Cons.prems(2) fin, of "phase_work env"] by (simp add: open_work_def s1)
    then have "open_work env s1 \<subset># open_work env s"
      by (metis add_mset_add_single mset_subset_add_mset multi_psub_of_add_self)
    moreover have "open_work env s' \<subseteq># open_work env s1"
      using Cons.IH [OF s1(1) sub(2) mem(3) sub(1)] by (auto split: if_splits)
    ultimately have "open_work env s' \<subset># open_work env s"
      by (rule subset_mset.le_less_trans [rotated])
    moreover have "set (un_pending s') \<subseteq> set (un_pending s1)" "un_queue s' = un_queue s1"
      "\<forall>i. (i, Finished) \<in> set rest \<longrightarrow> i \<notin> fst ` set (un_pending s')"
      using Cons.IH [OF s1(1) sub(2) mem(3) sub(1)] by auto
    ultimately show ?thesis
      using sub(3,4) s1(3) True by (auto simp: x)
  qed
qed auto

lemma dispatch_less:
  assumes inv: "unpack_inv s" and step: "extraction_loop_step env s = Inr s'" "s' \<noteq> s"
  shows "(open_work env s', open_work env s) \<in> less_work"
proof -
  have "\<not> un_stop s"
    using step by (auto simp: extraction_loop_step_def)
  then obtain s1 where s1: "check_pending env s = Inr s1"
    using step by (auto simp: extraction_loop_step_def result_simps)
  have "s1 = s \<or> open_work env s1 \<subset># open_work env s"
    using check_pending_less [of env "un_pending s" s s1] s1 inv
    by (auto simp: check_pending_def unpack_inv_def threads_ok_def split: if_splits)
  then have first: "s1 = s \<or> (open_work env s1, open_work env s) \<in> less_work"
    by (auto intro: subset_implies_mult)
  consider (idle) "s' = s1" | (task) c task q where "get_free_worker s1 = Inr c" "un_queue s1 = task # q"
      "s' = s1\<lparr>un_queue := q, un_pending := AList.update (ec_id c) (Started task) (un_pending s1)\<rparr>"
    using step \<open>\<not> un_stop s\<close> s1 by (auto simp: extraction_loop_step_def split: sum.splits list.splits)
  then show ?thesis
  proof cases
    case idle
    then show ?thesis
      using first step(2) by simp
  next
    case task
    obtain I where "open_work env s1 = I + {#8 * levels env task + 6#}" "open_work env s' = I + {#8 * levels env task + 5#}"
      using free_worker_idle [OF task(1)] task(2)
      by (simp add: task(3) open_work_def sum_list_alist_new)
    then have "(open_work env s', open_work env s1) \<in> less_work"
      by (simp only:) (rule one_step_implies_mult; simp)
    then show ?thesis
      using first by (auto simp: mult_def)
  qed
qed

lemma worker_step_less: "worker_step env s s' \<Longrightarrow> unpack_inv s \<Longrightarrow> (open_work env s', open_work env s) \<in> less_work"
  by (induction rule: worker_step.induct)
    (auto intro: dispatch_less work_begin_less work_unpack_less work_store_less work_update_less schedule_less)

text \<open>
  C14. Unpacking a firmware comes to an end, whatever the extractor returns: from every reachable state
  the scheduler loop and the worker threads can make only finitely many steps, in any order, until a
  new firmware is submitted. Nested archives are only unpacked up to the depth limit.
\<close>

theorem unpacking_terminates:
  assumes "(unpack_step env)\<^sup>*\<^sup>* (init_unpacking workers fs d an) s"
  shows "\<not> (\<exists>f. f 0 = s \<and> (\<forall>n. worker_step env (f n) (f (Suc n))))"
proof
  assume "\<exists>f. f 0 = s \<and> (\<forall>n. worker_step env (f n) (f (Suc n)))"
  then obtain f where f: "f 0 = s" "\<And>n. worker_step env (f n) (f (Suc n))"
    by blast
  have "unpack_inv (f n)" for n
    by (induction n) (use f reachable_inv [OF assms] inv_worker_step in auto)
  then have "(open_work env (f (Suc n)), open_work env (f n)) \<in> less_work" for n
    using f(2) worker_step_less by blast
  then have "\<exists>g. \<forall>n. (g (Suc n), g n) \<in> less_work"
    by (intro exI [of _ "\<lambda>n. open_work env (f n)"] allI)
  moreover have "wf less_work"
    using wf by (rule wf_mult)
  ultimately show False
    unfolding wf_iff_no_infinite_down_chain by blast
qed


text \<open>The containers are created with consecutive identifiers, and every thread belongs to one of them.\<close>

definition workers_inv :: "unpacking_state \<Rightarrow> bool" where
  "workers_inv s \<longleftrightarrow> map ec_id (un_workers s) = [0..<length (un_workers s)] \<and>
     fst ` set (un_pending s) \<subseteq> {..<length (un_workers s)}"

lemma workers_id: "workers_inv s \<Longrightarrow> i < length (un_workers s) \<Longrightarrow> ec_id (un_workers s ! i) = i"
  by (metis workers_inv_def add.left_neutral length_map nth_map nth_upt)

lemma start_container_id: "start_container run c d = (Inr c', d') \<Longrightarrow> ec_id c' = ec_id c"
  by (auto simp: start_container_def split: prod.splits sum.splits)

lemma container_start_id: "container_start run img c d = (Inr c', d') \<Longrightarrow> ec_id c' = ec_id c"
  by (auto simp: container_start_def recover_from_port_in_use_def
      split: prod.splits sum.splits if_splits option.splits dest!: start_container_id)

lemma container_restart_id: "container_restart run img c d = (Inr c', d') \<Longrightarrow> ec_id c' = ec_id c"
  by (auto simp: container_restart_def split: sum.splits dest!: container_start_id)

lemma workers_inv_phase:
  assumes "workers_inv s" "map_of (un_pending s) i \<noteq> None" "map ec_id (un_workers s1) = map ec_id (un_workers s)"
    "un_pending s1 = un_pending s"
  shows "workers_inv (set_phase i ph s1)"
proof -
  have "length (un_workers s1) = length (un_workers s)"
    using assms(3) by (metis length_map)
  moreover have "fst ` set (AList.update i ph (un_pending s)) = fst ` set (un_pending s)"
    using assms(2) unfolding dom_map_of_iff by (simp add: dom_update insert_absorb)
  ultimately show ?thesis
    using assms by (simp add: workers_inv_def set_phase_def)
qed

lemma mark_exception_ids: "map ec_id (mark_exception i cs) = map ec_id cs"
  by (simp add: mark_exception_def set_exception_def)

lemma check_pending_workers:
  assumes "check_pending_loop env rest s = Inr s'" "workers_inv s"
  shows "workers_inv s' \<and> length (un_workers s') = length (un_workers s) \<and> un_throttle s' = un_throttle s \<and>
    un_stop s' = un_stop s"
  using assms
proof (induction rest arbitrary: s)
  case (Cons x rest)
  obtain i ph where x: "x = (i, ph)"
    by (cases x)
  have step: "workers_inv s1 \<Longrightarrow> check_pending_loop env rest s1 = Inr s' \<Longrightarrow>
      length (un_workers s1) = length (un_workers s) \<and> un_throttle s1 = un_throttle s \<and> un_stop s1 = un_stop s \<Longrightarrow> ?case" for s1
    using Cons.IH [of s1] by simp
  have del: "workers_inv (s\<lparr>un_pending := AList.delete i (un_pending s)\<rparr>)"
    using Cons.prems(2) by (auto simp: workers_inv_def AList.delete_eq)
  show ?case
  proof (cases "ph = Finished \<and> exception_occurred (un_workers s ! i)")
    case True
    then obtain c' d where re: "container_restart (ux_run env) (ux_image env) (un_workers s ! i) (un_docker s) = (Inr c', d)"
      and i: "i < length (un_workers s)" and rest: "check_pending_loop env rest (s\<lparr>un_workers := (un_workers s)[i := c'],
         un_docker := d, un_pending := AList.delete i (un_pending s)\<rparr>) = Inr s'"
      using Cons.prems(1) by (auto simp: x Let_def split: if_splits prod.splits sum.splits)
    have "map ec_id ((un_workers s)[i := c']) = map ec_id (un_workers s)"
      using container_restart_id [OF re] i by (simp add: map_update list_update_same_conv)
    then show ?thesis
      using del by (intro step [OF _ rest]) (auto simp: workers_inv_def)
  next
    case False
    show ?thesis
    proof (cases "ph = Finished")
      case True
      then show ?thesis
        using Cons.prems(1) False del
        by (intro step [of "s\<lparr>un_pending := AList.delete i (un_pending s)\<rparr>"]) (auto simp: x Let_def split: if_splits)
    next
      case False
      then show ?thesis
        using Cons.prems by (intro step) (auto simp: x)
    qed
  qed
qed auto


lemma workers_dispatch:
  assumes "workers_inv s" "extraction_loop_step env s = Inr s'"
  shows "workers_inv s'"
proof (cases "un_stop s")
  case True
  then show ?thesis
    using assms by (simp add: extraction_loop_step_def)
next
  case False
  then obtain s1 where s1: "check_pending env s = Inr s1"
    using assms by (auto simp: extraction_loop_step_def result_simps)
  have inv1: "workers_inv s1"
    using check_pending_workers [of env "un_pending s" s s1] s1 assms(1) by (simp add: check_pending_def)
  consider (idle) "s' = s1" | (task) c task q where "get_free_worker s1 = Inr c"
      "s' = s1\<lparr>un_queue := q, un_pending := AList.update (ec_id c) (Started task) (un_pending s1)\<rparr>"
    using assms(2) False s1 by (auto simp: extraction_loop_step_def split: sum.splits list.splits)
  then show ?thesis
  proof cases
    case task
    have "ec_id c \<in> set (map ec_id (un_workers s1))"
      using free_worker_member [OF task(1)] by simp
    then have "ec_id c < length (un_workers s1)"
      using inv1 by (simp add: workers_inv_def del: set_map)
    then show ?thesis
      using inv1 by (simp add: workers_inv_def task(2) dom_update)
  qed (use inv1 in simp)
qed

lemma workers_worker_step: "worker_step env s s' \<Longrightarrow> workers_inv s \<Longrightarrow> workers_inv s'"
proof (induction rule: worker_step.induct)
  case (dispatch s s')
  then show ?case
    by (blast intro: workers_dispatch)
next
  case (start s i task)
  then show ?case
    by (auto simp: work_begin_def intro!: workers_inv_phase [of s])
next
  case (unpack s c task now tmp_dir)
  then show ?case
    by (auto simp: work_unpack_def Let_def log_failed_def mark_exception_ids
        split: prod.splits sum.splits unpack_error.splits intro!: workers_inv_phase [of s])
next
  case (store s i task objs now)
  then show ?case
    by (auto simp: work_store_def Let_def handle_store_error_def log_failed_def
        split: prod.splits sum.splits option.splits intro!: workers_inv_phase [of s])
next
  case (update s i task objs)
  then show ?case
    by (auto simp: work_update_def Let_def log_failed_def
        split: prod.splits sum.splits intro!: workers_inv_phase [of s])
next
  case (schedule s i items s')
  then show ?case
    by (auto simp: schedule_extracted_files_def add_object_to_unpack_queue_def
        split: list.splits if_splits intro!: workers_inv_phase [of s])
qed

lemma workers_unpack_step: "unpack_step env s s' \<Longrightarrow> workers_inv s \<Longrightarrow> workers_inv s'"
proof (induction rule: unpack_step.induct)
  case (worker s s')
  then show ?case
    by (rule workers_worker_step)
qed (simp_all add: add_task_def cancel_unpacking_def work_load_monitor_step_def workers_inv_def)

lemma reachable_workers:
  assumes "(unpack_step env)\<^sup>*\<^sup>* (init_unpacking workers fs d an) s" "map ec_id workers = [0..<length workers]"
  shows "workers_inv s"
  using assms(1)
proof (induction rule: rtranclp_induct)
  case base
  then show ?case
    using assms(2) by (simp add: workers_inv_def init_unpacking_def)
qed (rule workers_unpack_step)

text \<open>A thread that is not finished can make a step.\<close>

lemma thread_progress:
  assumes "workers_inv s" "map_of (un_pending s) i = Some ph" "ph \<noteq> Finished" "\<not> un_throttle s \<or> un_stop s"
  shows "\<exists>s'. worker_step env s s'"
proof (cases ph)
  case (Running task)
  have "i \<in> fst ` set (un_pending s)"
    using assms(2) by (force dest: map_of_SomeD)
  then have "i < length (un_workers s)"
    using assms(1) by (auto simp: workers_inv_def)
  then have "un_workers s ! i \<in> set (un_workers s)" "ec_id (un_workers s ! i) = i"
    using workers_id [OF assms(1)] by auto
  then show ?thesis
    using assms(2) Running by (metis worker_step.unpack)
next
  case (Scheduling items)
  have "schedule_extracted_files i items s \<noteq> None"
    using assms(4) by (auto simp: schedule_extracted_files_def add_object_to_unpack_queue_def split: list.splits)
  then show ?thesis
    using assms(2) Scheduling by (auto intro: worker_step.schedule)
qed (use assms in \<open>auto intro: worker_step.intros\<close>)

text \<open>Without a step left there is no thread and no queued task.\<close>

lemma stuck_empty:
  assumes inv: "threads_ok s" "workers_inv s" and stuck: "\<nexists>s'. worker_step env s s'"
    and loop: "is_ok (extraction_loop_step env s)" and run: "\<not> un_throttle s" "\<not> un_stop s" "un_workers s \<noteq> []"
  shows "open_tasks s = {#}"
proof -
  have fixed: "extraction_loop_step env s = Inr s"
    using loop stuck by (auto simp: is_ok_iff intro: worker_step.dispatch)
  then obtain s1 where s1: "check_pending env s = Inr s1"
    using run(2) by (auto simp: extraction_loop_step_def result_simps)
  have "ph = Finished" if "(i, ph) \<in> set (un_pending s)" for i ph
  proof -
    have "map_of (un_pending s) i = Some ph"
      using inv(1) that by (simp add: threads_ok_def)
    then show ?thesis
      using thread_progress [OF inv(2)] stuck run(1) by blast
  qed
  moreover have "(i, Finished) \<notin> set (un_pending s)" for i
  proof
    assume fin: "(i, Finished) \<in> set (un_pending s)"
    have "i \<notin> fst ` set (un_pending s1)"
      using check_pending_less [of env "un_pending s" s s1] s1 inv(1) fin
      unfolding check_pending_def threads_ok_def by blast
    then have gone: "map_of (un_pending s1) i = None"
      by (simp only: map_of_eq_None_iff not_False_eq_True)
    have "map_of (un_pending s') i \<noteq> Some Finished" if "extraction_loop_step env s = Inr s'" for s'
      using that gone run(2) s1
      by (auto simp: extraction_loop_step_def split: sum.splits list.splits if_splits)
    then have "map_of (un_pending s) i \<noteq> Some Finished"
      using fixed by blast
    then show False
      using fin inv(1) by (simp add: threads_ok_def)
  qed
  ultimately have idle: "un_pending s = []"
    by (metis list.set_intros(1) neq_Nil_conv surj_pair)
  then have "s1 = s" "get_free_worker s = Inr (hd (un_workers s))"
    using s1 run(3) by (auto simp: check_pending_def get_free_worker_def neq_Nil_conv)
  then have "un_queue s = []"
    using fixed run(2) s1
    by (cases "un_queue s") (auto simp: extraction_loop_step_def idle dest: arg_cong [where f = un_queue])
  then show ?thesis
    by (simp add: open_tasks_def idle)
qed

text \<open>
  C15. When unpacking has come to an end (no thread can go on, and the scheduler loop, which has workers
  and is neither stopped nor throttled, does nothing any more) and no thread failed, nothing is left
  over: every firmware was unpacked completely or cancelled, and no file of it waits.
\<close>

theorem unpacking_completes:
  assumes "(unpack_step env)\<^sup>*\<^sup>* (init_unpacking workers fs d an) s" "map ec_id workers = [0..<length workers]"
    and "\<nexists>s'. worker_step env s s'" "is_ok (extraction_loop_step env s)"
    and "\<not> un_throttle s" "\<not> un_stop s" "un_workers s \<noteq> []" "un_failed s = []"
  shows "open_tasks s = {#} \<and> (\<forall>r. map_of (currently_extracted s) r = None)"
proof -
  note inv = reachable_inv [OF assms(1)]
  then have "threads_ok s"
    by (simp add: unpack_inv_def)
  then have none: "open_tasks s = {#}"
    using reachable_workers [OF assms(1,2)] assms(3-7) by (rule stuck_empty)
  have "map_of (currently_extracted s) r = None" for r
  proof (rule ccontr)
    assume "map_of (currently_extracted s) r \<noteq> None"
    then obtain cu where cu: "map_of (currently_extracted s) r = Some cu"
      by blast
    then have "cu_remaining cu \<subseteq> {}"
      using inv assms(6,8) none by (force simp: unpack_inv_def covered_def healthy_def)
    then show False
      using inv cu by (auto simp: unpack_inv_def unfinished_def)
  qed
  then show ?thesis
    using none by blast
qed


section \<open>Witnesses\<close>

text \<open>
  A complete run with one worker: a firmware whose extractor finds one file, which contains nothing.
\<close>

definition example_extractor :: unpack_env where
  "example_extractor = example_unpack_env\<lparr>
     ue_start_request := (\<lambda>port dir fs. (Response 200,
        fs(dir @ ''/reports/meta.json'' \<mapsto> ''{}'', ''t/files/a'' \<mapsto> ''x''))),
     ue_rglob := (\<lambda>dir fs. if dir = ''t/files'' then [''t/files/a''] else []),
     ue_json_loads := (\<lambda>text. Inr [(''plugin_version'', PStr ''1''), (''analysis_date'', PFloat 1)])\<rparr>"

definition example_unpacking_env :: unpack_sched_env where
  "example_unpacking_env = \<lparr>ux_unpack = example_extractor, ux_sched = example_env, ux_run = (\<lambda>p d. (Inr ''c'', d)),
     ux_image = ''extractor'', ux_throttle_limit = 10\<rparr>"

abbreviation example_container :: extraction_container where
  "example_container \<equiv> new_container 9900 0"

abbreviation example_unpacking_init :: unpacking_state where
  "example_unpacking_init \<equiv> init_unpacking [example_container] [''i'' \<mapsto> ''image''] []
     ((example_state [])\<lparr>sdb := empty_database\<rparr>)"

definition unpacking_at ::
  "file_object list \<Rightarrow> (nat \<times> work_phase) list \<Rightarrow> (string \<times> currently_unpacked) list \<Rightarrow> filesystem \<Rightarrow> sched_state \<Rightarrow>
   unpacking_state" where
  "unpacking_at q p ce fs an = (init_unpacking [example_container] fs [] an)\<lparr>un_queue := q, un_pending := p,
     currently_extracted := ce\<rparr>"

definition example_image :: file_object where
  "example_image = (empty_file_object ''fw'' True)\<lparr>file_path := Some ''i'', file_name := Some ''i'', sha256 := Some ''s'',
     fo_size := Some 5, root_uid := Some ''fw'', firmware := Some (empty_firmware_data\<lparr>device_name := Some ''d'',
       fw_version := Some ''1'', device_class := Some ''r'', vendor := Some ''v'', release_date := Some ''2020-01-01''\<rparr>)\<rparr>"

definition unpacker_entry :: pyval where
  "unpacker_entry = PDict [(''plugin_version'', PStr ''1''), (''analysis_date'', PFloat 1), (''result'', PDict [])]"

definition example_unpacked_image :: file_object where
  "example_unpacked_image = example_image\<lparr>files_included := {''x_1''}, processed_analysis := [(''unpacker'', unpacker_entry)]\<rparr>"

definition example_file :: file_object where
  "example_file = (empty_file_object ''x_1'' False)\<lparr>parents := [''fw''], root_uid := Some ''fw'', depth := 1,
     parent_firmware_uids := {''fw''}, temporary_data := [(''parent_fo_type'', PStr ''zip'')], binary := Some ''x'',
     sha256 := Some ''x'', fo_size := Some 1, file_name := Some ''a'', file_path := Some ''m/x_/x_1'',
     virtual_file_path := [(''fw'', [''/a''])]\<rparr>"

definition example_unpacked_file :: file_object where
  "example_unpacked_file = example_file\<lparr>processed_analysis := [(''unpacker'', unpacker_entry)]\<rparr>"

lemmas example_file_defs = example_image_def example_unpacked_image_def example_file_def example_unpacked_file_def
  unpacker_entry_def empty_file_object_def empty_firmware_data_def is_firmware_object_def

lemmas at_simps = unpacking_at_def init_unpacking_def new_container_def set_phase_def

text \<open>The extraction of the firmware and of the file\<close>

definition example_extraction :: "file_object \<times> ustate \<times> (unpack_error + file_object list)" where
  "example_extraction = unpack example_extractor 0 (Some example_container) ''t'' example_image
     \<lparr>us_fs = [''i'' \<mapsto> ''image''], us_locks = []\<rparr>"

lemma example_extraction_result:
  "fst example_extraction = example_unpacked_image" "snd (snd example_extraction) = Inr [example_file]"
  "us_fs (fst (snd example_extraction)) ''m/x_/x_1'' = Some ''x''"
  by code_simp+

lemma example_file_extraction:
  assumes "fs ''m/x_/x_1'' = Some ''x''"
  shows "\<exists>us. unpack example_extractor 0 (Some example_container) ''u'' example_file \<lparr>us_fs = fs, us_locks = l\<rparr> =
     (example_unpacked_file, us, Inr [])"
  using assms by (simp add: unpack_def example_file_defs check_path_def extract_files_from_file_def
      extract_with_worker_def start_unpacking_def new_container_def path_name_def HTTP_OK_def Let_def
      generate_objects_and_store_files_def sanitize_processed_analysis_def SANITIZE_KEEP_def
      example_extractor_def example_unpack_env_def)

text \<open>Both are stored and accepted by the analysis scheduler.\<close>

definition example_stored :: database where
  "example_stored = fst (db_add_object plain_codec strict_flush 0 example_unpacked_image empty_database)"

lemma example_stores:
  "snd (db_add_object plain_codec strict_flush 0 example_unpacked_image empty_database) = None"
  "snd (db_add_object plain_codec strict_flush 0 example_unpacked_file example_stored) = None"
  by code_simp+

lemma start_keeps_db: "start_analysis_of_object env fo an = (an', e) \<Longrightarrow> sdb an' = sdb an"
  by (auto simp: start_analysis_of_object_def check_further_process_or_complete_def do_callback_def Let_def
      put_status_def split: option.splits if_splits sum.splits)

lemma example_accepted:
  "\<exists>an'. start_analysis_of_object example_env example_unpacked_image an = (an', None)"
  "\<exists>an'. start_analysis_of_object example_env example_unpacked_file an = (an', None)"
proof -
  have "is_ok (schedule_analysis_tasks (env_shuffle example_env) (env_plugins example_env) example_unpacked_image
      (scheduled_analysis example_unpacked_image) True)"
    by code_simp
  then show "\<exists>an'. start_analysis_of_object example_env example_unpacked_image an = (an', None)"
    by (auto simp: start_analysis_of_object_def is_ok_iff)
  have "is_ok (schedule_analysis_tasks (env_shuffle example_env) (env_plugins example_env) example_unpacked_file
      (scheduled_analysis example_unpacked_file) True)"
    by code_simp
  then show "\<exists>an'. start_analysis_of_object example_env example_unpacked_file an = (an', None)"
    by (auto simp: start_analysis_of_object_def is_ok_iff)
qed

text \<open>One task from the queue to the end of its thread\<close>

lemma schedule_run:
  "(worker_step env)\<^sup>*\<^sup>* (unpacking_at q [(0, Scheduling ts)] ce fs an) (unpacking_at (q @ ts) [(0, Finished)] ce fs an)"
proof (induction ts arbitrary: q)
  case Nil
  have "worker_step env (unpacking_at q [(0, Scheduling [])] ce fs an) (unpacking_at q [(0, Finished)] ce fs an)"
    by (rule worker_step.schedule [of _ 0 "[]"]) (simp_all add: at_simps schedule_extracted_files_def)
  then show ?case
    by simp
next
  case (Cons t ts)
  have "worker_step env (unpacking_at q [(0, Scheduling (t # ts))] ce fs an) (unpacking_at (q @ [t]) [(0, Scheduling ts)] ce fs an)"
    by (rule worker_step.schedule [of _ 0 "t # ts"])
      (simp_all add: at_simps schedule_extracted_files_def add_object_to_unpack_queue_def)
  then show ?case
    using Cons [of "q @ [t]"] by (simp add: converse_rtranclp_into_rtranclp)
qed

lemma take_task:
  assumes "p = [] \<or> p = [(0, Finished)]"
  shows "worker_step env (unpacking_at (t # q) p ce fs an) (unpacking_at q [(0, Started t)] ce fs an)"
  using assms
  by (intro worker_step.dispatch)
    (auto simp: at_simps extraction_loop_step_def check_pending_def get_free_worker_def exception_occurred_def)

lemma task_run:
  assumes p: "p = [] \<or> p = [(0, Finished)]"
    and first: "(if is_firmware_object t then ce1 = init_currently_unpacked t ce
       else ce1 = ce \<and> lookup_root ce (root_uid t) \<noteq> None)"
    and un: "unpack example_extractor 0 (Some example_container) dir t \<lparr>us_fs = fs, us_locks = locks an\<rparr> = (t', us, Inr objs)"
    and db: "db_add_object plain_codec strict_flush 0 t' (sdb an) = (db, None)"
    and an: "start_analysis_of_object example_env t' (an\<lparr>locks := us_locks us, sdb := db\<rparr>) = (an1, None)"
    and up: "update_currently_unpacked t' objs ce1 db = (db1, Inr (ce2, kept))"
  shows "(worker_step example_unpacking_env)\<^sup>*\<^sup>* (unpacking_at (t # q) p ce fs an)
     (unpacking_at (q @ kept) [(0, Finished)] ce2 (us_fs us) (an1\<lparr>sdb := db1\<rparr>))"
proof -
  let ?step = "worker_step example_unpacking_env"
  have "?step (unpacking_at q [(0, Started t)] ce fs an) (unpacking_at q [(0, Running t)] ce1 fs an)"
    using worker_step.start [of "unpacking_at q [(0, Started t)] ce fs an" 0 t] first
    by (simp add: at_simps work_begin_def split: if_splits)
  moreover have "?step (unpacking_at q [(0, Running t)] ce1 fs an)
      (unpacking_at q [(0, Extracted t' objs)] ce1 (us_fs us) (an\<lparr>locks := us_locks us\<rparr>))"
    using worker_step.unpack [of "unpacking_at q [(0, Running t)] ce1 fs an" example_container t
        example_unpacking_env 0 dir] un
    by (simp add: at_simps work_unpack_def example_unpacking_env_def)
  moreover have "?step (unpacking_at q [(0, Extracted t' objs)] ce1 (us_fs us) (an\<lparr>locks := us_locks us\<rparr>))
      (unpacking_at q [(0, Submitted t' objs)] ce1 (us_fs us) an1)"
    using worker_step.store [of "unpacking_at q [(0, Extracted t' objs)] ce1 (us_fs us) (an\<lparr>locks := us_locks us\<rparr>)" 0 t'
        objs example_unpacking_env 0] db an
    by (simp add: at_simps work_store_def example_unpacking_env_def example_env_def)
  moreover have "?step (unpacking_at q [(0, Submitted t' objs)] ce1 (us_fs us) an1)
      (unpacking_at q [(0, Scheduling kept)] ce2 (us_fs us) (an1\<lparr>sdb := db1\<rparr>))"
    using worker_step.update [of "unpacking_at q [(0, Submitted t' objs)] ce1 (us_fs us) an1" 0 t' objs] up
      start_keeps_db [OF an]
    by (simp add: at_simps work_update_def)
  ultimately show ?thesis
    using take_task [OF p, of example_unpacking_env t q ce fs an]
      schedule_run [of example_unpacking_env q kept ce2 "us_fs us" "an1\<lparr>sdb := db1\<rparr>"]
    by (meson converse_rtranclp_into_rtranclp)
qed

text \<open>The firmware has been unpacked and its file waits; then the file has been unpacked, too.\<close>

abbreviation example_half_done :: "(string \<times> currently_unpacked) list" where
  "example_half_done \<equiv> [(''fw'', \<lparr>cu_remaining = {''x_1''}, cu_done = {''fw''}, cu_delayed_vfp_update = []\<rparr>)]"

lemma example_first_run:
  "\<exists>fs an. fs ''m/x_/x_1'' = Some ''x'' \<and> sdb an = example_stored \<and>
     (worker_step example_unpacking_env)\<^sup>*\<^sup>* (add_task example_image example_unpacking_init)
       (unpacking_at [example_file] [(0, Finished)] example_half_done fs an)"
proof -
  let ?an = "(example_state [])\<lparr>sdb := empty_database\<rparr>"
  obtain us where un: "unpack example_extractor 0 (Some example_container) ''t'' example_image
      \<lparr>us_fs = [''i'' \<mapsto> ''image''], us_locks = locks ?an\<rparr> = (example_unpacked_image, us, Inr [example_file])"
    and fs: "us_fs us ''m/x_/x_1'' = Some ''x''"
    using example_extraction_result unfolding example_extraction_def
    by (cases "unpack example_extractor 0 (Some example_container) ''t'' example_image
      \<lparr>us_fs = [''i'' \<mapsto> ''image''], us_locks = []\<rparr>") (auto simp: example_state_def)
  have db: "db_add_object plain_codec strict_flush 0 example_unpacked_image (sdb ?an) = (example_stored, None)"
    using example_stores(1) by (simp add: example_stored_def prod_eq_iff)
  obtain an1 where an1: "start_analysis_of_object example_env example_unpacked_image
      (?an\<lparr>locks := us_locks us, sdb := example_stored\<rparr>) = (an1, None)"
    using example_accepted(1) by blast
  have up: "update_currently_unpacked example_unpacked_image [example_file]
      (init_currently_unpacked example_image []) example_stored = (example_stored, Inr (example_half_done, [example_file]))"
    by (simp add: update_currently_unpacked_def init_currently_unpacked_def example_file_defs insert_Diff_if)
  have start: "add_task example_image example_unpacking_init = unpacking_at [example_image] [] [] [''i'' \<mapsto> ''image''] ?an"
    by (simp add: add_task_def at_simps example_file_defs)
  have fw: "is_firmware_object example_image"
    by (simp add: example_file_defs)
  have "(worker_step example_unpacking_env)\<^sup>*\<^sup>* (add_task example_image example_unpacking_init)
      (unpacking_at ([] @ [example_file]) [(0, Finished)] example_half_done (us_fs us) (an1\<lparr>sdb := example_stored\<rparr>))"
    unfolding start by (rule task_run [OF _ _ un db an1 up]) (simp_all add: fw)
  then show ?thesis
    using fs by (intro exI [of _ "us_fs us"] exI [of _ "an1\<lparr>sdb := example_stored\<rparr>"]) simp
qed

lemma example_second_run:
  "\<exists>fs an. (worker_step example_unpacking_env)\<^sup>*\<^sup>* (add_task example_image example_unpacking_init)
       (unpacking_at [] [(0, Finished)] [] fs an)"
proof -
  obtain fs an where first: "(worker_step example_unpacking_env)\<^sup>*\<^sup>* (add_task example_image example_unpacking_init)
       (unpacking_at [example_file] [(0, Finished)] example_half_done fs an)"
    and an: "sdb an = example_stored" and fs: "fs ''m/x_/x_1'' = Some ''x''"
    using example_first_run by blast
  obtain us where un: "unpack example_extractor 0 (Some example_container) ''u'' example_file
      \<lparr>us_fs = fs, us_locks = locks an\<rparr> = (example_unpacked_file, us, Inr [])"
    using example_file_extraction [where fs = fs] fs by blast
  obtain db where db: "db_add_object plain_codec strict_flush 0 example_unpacked_file (sdb an) = (db, None)"
    using example_stores(2) by (simp add: an prod_eq_iff)
  obtain an1 where an1: "start_analysis_of_object example_env example_unpacked_file
      (an\<lparr>locks := us_locks us, sdb := db\<rparr>) = (an1, None)"
    using example_accepted(2) by blast
  have up: "update_currently_unpacked example_unpacked_file [] example_half_done db = (db, Inr ([], []))"
    by (simp add: update_currently_unpacked_def example_file_defs)
  have "lookup_root example_half_done (root_uid example_file) \<noteq> None" "\<not> is_firmware_object example_file"
    by (simp_all add: example_file_defs lookup_root_def)
  then have "(worker_step example_unpacking_env)\<^sup>*\<^sup>* (unpacking_at [example_file] [(0, Finished)] example_half_done fs an)
      (unpacking_at ([] @ []) [(0, Finished)] [] (us_fs us) (an1\<lparr>sdb := db\<rparr>))"
    by (intro task_run [OF _ _ un db an1 up]) simp_all
  with first show ?thesis
    by (auto intro: rtranclp_trans)
qed

lemma example_submit_step:
  "unpack_step example_unpacking_env example_unpacking_init (add_task example_image example_unpacking_init)"
  by (rule unpack_step.submit) (simp add: example_file_defs)

lemma worker_run: "(worker_step env)\<^sup>*\<^sup>* s s' \<Longrightarrow> (uncancelled_step env r)\<^sup>*\<^sup>* s s'"
  by (erule mono_rtranclp [rule_format, rotated]) (simp add: uncancelled_step_def unpack_step.worker)

lemma uncancelled_run: "(uncancelled_step env r)\<^sup>*\<^sup>* s s' \<Longrightarrow> (unpack_step env)\<^sup>*\<^sup>* s s'"
  by (erule mono_rtranclp [rule_format, rotated]) (simp add: uncancelled_step_def)

lemma example_reached:
  assumes "(worker_step example_unpacking_env)\<^sup>*\<^sup>* (add_task example_image example_unpacking_init) s"
  shows "(uncancelled_step example_unpacking_env r)\<^sup>*\<^sup>* example_unpacking_init s"
proof -
  have "uncancelled_step example_unpacking_env r example_unpacking_init (add_task example_image example_unpacking_init)"
    using example_submit_step by (simp add: uncancelled_step_def init_unpacking_def)
  then show ?thesis
    using worker_run [OF assms] by (rule converse_rtranclp_into_rtranclp)
qed


theorem unpacking_terminates_witness:
  "\<exists>s. (unpack_step example_unpacking_env)\<^sup>*\<^sup>* example_unpacking_init s \<and> (\<exists>s'. worker_step example_unpacking_env s s') \<and>
     \<not> (\<exists>f. f 0 = s \<and> (\<forall>n. worker_step example_unpacking_env (f n) (f (Suc n))))"
proof -
  obtain fs an where run: "(worker_step example_unpacking_env)\<^sup>*\<^sup>* (add_task example_image example_unpacking_init)
       (unpacking_at [example_file] [(0, Finished)] example_half_done fs an)" (is "_\<^sup>*\<^sup>* _ ?s")
    using example_first_run by blast
  have reach: "(unpack_step example_unpacking_env)\<^sup>*\<^sup>* example_unpacking_init ?s"
    using example_reached [OF run] by (rule uncancelled_run)
  have "worker_step example_unpacking_env ?s (unpacking_at [] [(0, Started example_file)] example_half_done fs an)"
    by (rule take_task) simp
  then show ?thesis
    using unpacking_terminates [OF reach] reach by blast
qed

theorem unpacking_completes_witness:
  "\<exists>s. (unpack_step example_unpacking_env)\<^sup>*\<^sup>* (add_task example_image example_unpacking_init) s \<and>
     (\<nexists>s'. worker_step example_unpacking_env s s') \<and>
     open_tasks (add_task example_image example_unpacking_init) \<noteq> {#} \<and>
     open_tasks s = {#} \<and> (\<forall>r. map_of (currently_extracted s) r = None)"
proof -
  obtain fs an where run: "(worker_step example_unpacking_env)\<^sup>*\<^sup>* (add_task example_image example_unpacking_init)
       (unpacking_at [] [(0, Finished)] [] fs an)"
    using example_second_run by blast
  let ?s = "unpacking_at [] [] [] fs an"
  have "worker_step example_unpacking_env (unpacking_at [] [(0, Finished)] [] fs an) ?s"
    by (rule worker_step.dispatch)
      (auto simp: at_simps extraction_loop_step_def check_pending_def get_free_worker_def exception_occurred_def)
  with run have run: "(worker_step example_unpacking_env)\<^sup>*\<^sup>* (add_task example_image example_unpacking_init) ?s"
    by (rule rtranclp.rtrancl_into_rtrancl)
  have idle: "extraction_loop_step example_unpacking_env ?s = Inr ?s"
    by (simp add: at_simps extraction_loop_step_def check_pending_def get_free_worker_def)
  have stuck: "\<nexists>s'. worker_step example_unpacking_env ?s s'"
    using idle by (auto elim!: worker_step.cases simp: at_simps)
  have "(unpack_step example_unpacking_env)\<^sup>*\<^sup>* example_unpacking_init ?s"
    using example_reached [OF run] by (rule uncancelled_run)
  from unpacking_completes [OF this _ stuck] idle
  have "open_tasks ?s = {#} \<and> (\<forall>r. map_of (currently_extracted ?s) r = None)"
    by (simp add: at_simps)
  then show ?thesis
    using stuck uncancelled_run [OF worker_run [OF run]]
    by (intro exI [of _ ?s]) (simp add: open_tasks_def add_task_def)
qed

section \<open>Observations\<close>

text \<open>
  If a thread ends with an unexpected exception, the bookkeeping keeps its file as remaining although
  no task for it is left: the firmware is never reported as completely unpacked.
\<close>

lemma failed_thread_keeps_firmware_open:
  assumes inv: "threads_ok s" "books r (currently_extracted s) (open_tasks s)"
    and old: "map_of (un_pending s) (ec_id c) = Some (Running task)" "\<not> is_firmware_object task"
    and r: "root_uid task = Some r" "map_of (currently_extracted s) r = Some cu"
    and fail: "unpack (ux_unpack env) now (Some c) tmp_dir task \<lparr>us_fs = un_fs s, us_locks = locks (un_analysis s)\<rparr> =
       (task', us, Inl (OtherError e))"
  shows "map_of (currently_extracted (work_unpack env now tmp_dir c task s)) r = Some cu \<and>
     uid task \<in> cu_remaining cu \<and> uid task \<notin># extracted_of r (open_tasks (work_unpack env now tmp_dir c task s))"
proof -
  let ?s' = "work_unpack env now tmp_dir c task s"
  define s1 where "s1 = log_failed task (s\<lparr>un_fs := us_fs us, un_analysis := (un_analysis s)\<lparr>locks := us_locks us\<rparr>\<rparr>)"
  have s': "?s' = set_phase (ec_id c) Finished s1"
    by (simp add: work_unpack_def fail s1_def)
  have "map_of (un_pending s1) (ec_id c) = Some (Running task)" "open_tasks s1 = open_tasks s"
    using old by (simp_all add: s1_def log_failed_def open_tasks_def)
  from open_set_phase [OF this(1), of Finished] this(2)
  have "open_tasks s = add_mset (key task) (open_tasks ?s')"
    by (simp add: s')
  then have ts: "extracted_of r (open_tasks s) = add_mset (uid task) (extracted_of r (open_tasks ?s'))"
    using r(1) old(2) by (simp add: key_def)
  have "count (extracted_of r (open_tasks s)) (uid task) \<le> 1" "set_mset (extracted_of r (open_tasks s)) \<subseteq> cu_remaining cu"
    using inv(2) r(2) by (auto simp: books_def)
  then show ?thesis
    using r(2) unfolding ts by (simp add: not_in_iff s' s1_def log_failed_def set_phase_def)
qed

text \<open>
  Cancelling a firmware leaves the files that were already extracted in the queue. When it is submitted
  again before they are taken from there, such a file is accepted as a file of the new run although it
  is not registered, and when the firmware extracts it again it is scheduled a second time: with a
  cancellation the bookkeeping does not hold for the firmware.
\<close>

lemma resubmitted_after_cancel:
  assumes "map_of (un_pending s) i = Some (Started t)" "\<not> is_firmware_object t" "root_uid t = Some r"
    and "map_of (currently_extracted s) r = Some \<lparr>cu_remaining = {r}, cu_done = {}, cu_delayed_vfp_update = []\<rparr>" "uid t \<noteq> r"
  shows "work_begin i t s = set_phase i (Running t) s \<and> \<not> books r (currently_extracted s) (open_tasks s)"
proof -
  have "key t \<in># open_tasks s"
    using assms(1) by (rule pending_task_open) simp
  then have "uid t \<in># extracted_of r (open_tasks s)"
    using assms(2,3) by (force simp: extracted_of_def key_def)
  then show ?thesis
    using assms by (auto simp: books_def work_begin_def lookup_root_def)
qed

text \<open>
  The lock of a file that is extracted a second time from the same firmware, after it was unpacked,
  is set again by the unpacker, and the update neither schedules the file nor releases the lock.
\<close>

lemma duplicate_stays_locked:
  assumes "uid fo \<in> cu_done cu" "uid fo \<notin> cu_remaining cu" "map_of (virtual_file_path fo) (uid task) = Some paths"
    and "root_uid task = Some r" "map_of (currently_extracted s) r = Some cu" "uid fo \<noteq> uid task"
    and "unpacking_lock_is_set (uid fo) (locks (un_analysis s))"
  shows "unpacking_lock_is_set (uid fo) (locks (un_analysis (work_update i task [fo] s))) \<and>
     un_pending (work_update i task [fo] s) \<in> {AList.update i Finished (un_pending s), AList.update i (Scheduling []) (un_pending s)}"
proof -
  obtain db res where up: "update_currently_unpacked task [fo] (currently_extracted s) (sdb (un_analysis s)) = (db, res)"
    by fastforce
  show ?thesis
  proof (cases res)
    case (Inl e)
    then show ?thesis
      using assms(7) by (simp add: work_update_def up set_phase_def log_failed_def)
  next
    case (Inr b)
    then obtain ce kept where b: "res = Inr (ce, kept)"
      by (cases b) auto
    have "kept = []"
      using up [unfolded b]
    proof (cases rule: update_currently_unpacked_cases)
      case (booked r' cu' cu1)
      then have "set kept \<subseteq> {fo}" "fo \<notin> set kept"
        using assms by auto
      then show ?thesis
        by (cases kept) auto
    qed
    then show ?thesis
      using assms(7) by (simp add: work_update_def up b set_phase_def Let_def)
  qed
qed

end
