(* ===== verification/Comparison_Plugins.thy ===== *)
theory Comparison_Plugins
  imports Dependencies Objects
begin

text \<open>
  \<^verbatim>\<open>src/src/compare/PluginBase.py\<close> and \<open>schedule_comparison_plugins\<close> of
  \<^verbatim>\<open>src/src/compare/compare.py\<close>: the order in which the comparison plugins run (a depth first
  search along their dependencies) and the wrapper that skips a plugin whose requirements are missing.

  The search mutates three local variables, the record \<open>visit_state\<close>. An exception leaves them as they
  are: the temporary marks of the plugins on the call stack stay set. The recursion depth is bounded by
  a fuel argument, \<open>None\<close> meaning that it did not suffice; \<open>schedule_comparison_plugins\<close> passes one more
  than the number of plugins, which is shown to be always enough.
\<close>

section \<open>Plugins\<close>

text \<open>\<open>compare_function\<close> is the abstract method of the plugin: a parameter.\<close>

record compare_plugin =
  cp_name :: string
  comparison_deps :: "string list"
  cp_dependencies :: "string list"
  compare_function :: "file_object list \<Rightarrow> (string \<times> pydict) list \<Rightarrow> pydict result"

definition dependency_was_skipped :: "string \<Rightarrow> (string \<times> pydict) list \<Rightarrow> bool" where
  "dependency_was_skipped dependency dependency_results =
     list_ex (\<lambda>(k, _). substring_of ''skipped'' (py_lower k))
       (case map_of dependency_results dependency of None \<Rightarrow> [] | Some d \<Rightarrow> d)"

definition get_missing_comparison_deps :: "compare_plugin \<Rightarrow> (string \<times> pydict) list \<Rightarrow> string list" where
  "get_missing_comparison_deps p dependency_results =
     filter (\<lambda>dependency. map_of dependency_results dependency = None \<or>
        dependency_was_skipped dependency dependency_results) (comparison_deps p)"

text \<open>The result is a set, iterated in some order: here in the order of the declaration.\<close>

definition get_missing_analysis_deps :: "compare_plugin \<Rightarrow> file_object list \<Rightarrow> string list" where
  "get_missing_analysis_deps p fo_list =
     remdups (filter (\<lambda>dep. list_ex (\<lambda>fo. map_of (processed_analysis fo) dep = None) fo_list) (cp_dependencies p))"

definition plugin_compare :: "compare_plugin \<Rightarrow> file_object list \<Rightarrow> (string \<times> pydict) list \<Rightarrow> pydict result" where
  "plugin_compare p fo_list dependency_results =
     (let missing_comparison_deps = get_missing_comparison_deps p dependency_results;
          missing_analysis_deps = get_missing_analysis_deps p fo_list
      in if missing_comparison_deps \<noteq> [] then
           Inr [(''Comparison Skipped'', PDict [(''all'',
             PStr (''Required comparison results are missing: '' @ py_join '', '' missing_comparison_deps))])]
         else if missing_analysis_deps \<noteq> [] then
           Inr [(''Compare Skipped'', PDict [(''all'',
             PStr (''Required analyses not present: '' @ py_join '', '' missing_analysis_deps))])]
         else compare_function p fo_list dependency_results)"

section \<open>Scheduling\<close>

type_synonym compare_table = "(string \<times> compare_plugin) list"

record visit_state =
  visited :: "string set"
  temp_mark :: "string set"
  sorted_plugins :: "compare_plugin list"

fun visit :: "compare_table \<Rightarrow> nat \<Rightarrow> compare_plugin \<Rightarrow> visit_state \<Rightarrow> (unit result \<times> visit_state) option"
  and visit_deps :: "compare_table \<Rightarrow> nat \<Rightarrow> string list \<Rightarrow> visit_state \<Rightarrow> (unit result \<times> visit_state) option"
where
  "visit plugin_dict 0 p st = None"
| "visit plugin_dict (Suc n) p st =
     (if cp_name p \<in> temp_mark st then Some (Inl ValueError, st)
      else if cp_name p \<notin> visited st then
        (case visit_deps plugin_dict n (comparison_deps p) (st\<lparr>temp_mark := insert (cp_name p) (temp_mark st)\<rparr>) of
           None \<Rightarrow> None
         | Some (Inl e, st1) \<Rightarrow> Some (Inl e, st1)
         | Some (Inr _, st1) \<Rightarrow>
             Some (Inr (), st1\<lparr>temp_mark := temp_mark st1 - {cp_name p},
               visited := insert (cp_name p) (visited st1), sorted_plugins := sorted_plugins st1 @ [p]\<rparr>))
      else Some (Inr (), st))"
| "visit_deps plugin_dict n [] st = Some (Inr (), st)"
| "visit_deps plugin_dict n (dependency # rest) st =
     (case map_of plugin_dict dependency of
        None \<Rightarrow> Some (Inl ValueError, st)
      | Some q \<Rightarrow>
          (case visit plugin_dict n q st of
             None \<Rightarrow> None
           | Some (Inl e, st1) \<Rightarrow> Some (Inl e, st1)
           | Some (Inr _, st1) \<Rightarrow> visit_deps plugin_dict n rest st1))"

text \<open>The loop over all plugins: an exception is logged, the next plugin is visited.\<close>

fun visit_all :: "compare_table \<Rightarrow> nat \<Rightarrow> compare_plugin list \<Rightarrow> visit_state \<Rightarrow> visit_state option" where
  "visit_all plugin_dict n [] st = Some st"
| "visit_all plugin_dict n (p # ps) st = (case visit plugin_dict n p st of
       None \<Rightarrow> None
     | Some (_, st1) \<Rightarrow> visit_all plugin_dict n ps st1)"

definition init_visit :: visit_state where
  "init_visit = \<lparr>visited = {}, temp_mark = {}, sorted_plugins = []\<rparr>"

definition schedule_comparison_plugins :: "compare_table \<Rightarrow> compare_plugin list option" where
  "schedule_comparison_plugins plugin_dict =
     map_option sorted_plugins (visit_all plugin_dict (Suc (length plugin_dict)) (map snd plugin_dict) init_visit)"

section \<open>The search\<close>

text \<open>Every plugin is registered under its name.\<close>

definition table_ok :: "compare_table \<Rightarrow> bool" where
  "table_ok d \<longleftrightarrow> distinct (map fst d) \<and> list_all (\<lambda>(k, p). cp_name p = k) d"

lemma table_lookup:
  assumes "table_ok d" "p \<in> snd ` set d"
  shows "map_of d (cp_name p) = Some p"
  using assms by (auto simp: table_ok_def list_all_iff)

definition compare_deps :: "compare_table \<Rightarrow> string \<Rightarrow> string list option" where
  "compare_deps d k = map_option comparison_deps (map_of d k)"

definition dep_rel :: "('a \<Rightarrow> 'a list option) \<Rightarrow> ('a \<times> 'a) set" where
  "dep_rel deps = {(x, p). \<exists>ds. deps p = Some ds \<and> x \<in> set ds}"

lemma dep_rel_schedulable: "(x, p) \<in> dep_rel deps \<Longrightarrow> schedulable deps W p \<Longrightarrow> schedulable deps W x"
  by (auto simp: dep_rel_def elim: schedulableE)

lemma dep_rel_trancl_schedulable: "(x, p) \<in> (dep_rel deps)\<^sup>+ \<Longrightarrow> schedulable deps W p \<Longrightarrow> schedulable deps W x"
  by (induction rule: converse_trancl_induct) (auto dest: dep_rel_schedulable)

lemma schedulable_acyclic:
  assumes "schedulable deps W p"
  shows "(p, p) \<notin> (dep_rel deps)\<^sup>+"
  using assms
proof (induction rule: schedulable.induct)
  case (schedulableI p ds)
  show ?case
  proof
    assume "(p, p) \<in> (dep_rel deps)\<^sup>+"
    then obtain d where d: "(p, d) \<in> (dep_rel deps)\<^sup>*" "(d, p) \<in> dep_rel deps"
      by (blast dest: tranclD2)
    then have "(d, d) \<in> (dep_rel deps)\<^sup>+"
      by (meson r_into_trancl rtrancl_into_trancl2 trancl_rtrancl_trancl)
    moreover have "d \<in> set ds"
      using d(2) schedulableI.hyps(2) by (auto simp: dep_rel_def)
    ultimately show False
      using schedulableI.IH by blast
  qed
qed

text \<open>What holds of the three variables at every moment of the search\<close>

definition visit_inv :: "compare_table \<Rightarrow> visit_state \<Rightarrow> bool" where
  "visit_inv d st \<longleftrightarrow>
     set (map cp_name (sorted_plugins st)) = visited st \<and> distinct (map cp_name (sorted_plugins st)) \<and>
     deps_respected (compare_deps d) [] (map cp_name (sorted_plugins st)) \<and>
     visited st \<inter> temp_mark st = {} \<and> set (sorted_plugins st) \<subseteq> snd ` set d"

text \<open>Every marked plugin either cannot be scheduled or depends on \<open>x\<close>, the plugin that is visited.\<close>

definition marks_ok :: "compare_table \<Rightarrow> string \<Rightarrow> visit_state \<Rightarrow> bool" where
  "marks_ok d x st \<longleftrightarrow> (\<forall>q\<in>temp_mark st.
     \<not> schedulable (compare_deps d) (fst ` set d) q \<or> (q, x) \<in> ((dep_rel (compare_deps d))\<^sup>+)\<inverse>)"

definition marks_stuck :: "compare_table \<Rightarrow> visit_state \<Rightarrow> bool" where
  "marks_stuck d st \<longleftrightarrow> (\<forall>q\<in>temp_mark st. \<not> schedulable (compare_deps d) (fst ` set d) q)"

lemma marks_stuckI:
  assumes "marks_ok d x st" "\<not> schedulable (compare_deps d) (fst ` set d) x"
  shows "marks_stuck d st"
  using assms dep_rel_trancl_schedulable by (fastforce simp: marks_ok_def marks_stuck_def)

lemma unknown_not_schedulable: "map_of d x = None \<Longrightarrow> \<not> schedulable (compare_deps d) W x"
  by (auto simp: compare_deps_def elim: schedulableE)

lemma marks_ok_marked:
  assumes "marks_ok d x st" "x \<in> temp_mark st"
  shows "\<not> schedulable (compare_deps d) (fst ` set d) x"
  using assms schedulable_acyclic by (fastforce simp: marks_ok_def)

lemma marks_ok_dep:
  assumes "marks_ok d x st" "map_of d x = Some p" "y \<in> set (comparison_deps p)"
  shows "marks_ok d y (st\<lparr>temp_mark := insert x (temp_mark st)\<rparr>)"
proof -
  have "(y, x) \<in> dep_rel (compare_deps d)"
    using assms(2,3) by (auto simp: dep_rel_def compare_deps_def)
  then show ?thesis
    using assms(1) by (auto simp: marks_ok_def intro: trancl_into_trancl2)
qed

definition visit_post :: "compare_table \<Rightarrow> string set \<Rightarrow> visit_state \<Rightarrow> unit result \<Rightarrow> visit_state \<Rightarrow> bool" where
  "visit_post d xs st r st' \<longleftrightarrow> visit_inv d st' \<and> visited st \<subseteq> visited st' \<and> temp_mark st \<subseteq> temp_mark st' \<and>
     (if is_ok r then temp_mark st' = temp_mark st \<and> xs \<subseteq> visited st' else marks_stuck d st')"

lemma visit_finish:
  assumes inv: "visit_inv d st1" and p: "p \<in> snd ` set d" "map_of d (cp_name p) = Some p"
    and marked: "cp_name p \<in> temp_mark st1" and deps: "set (comparison_deps p) \<subseteq> visited st1"
  shows "visit_inv d (st1\<lparr>temp_mark := temp_mark st1 - {cp_name p},
     visited := insert (cp_name p) (visited st1), sorted_plugins := sorted_plugins st1 @ [p]\<rparr>)"
  using assms by (auto simp: visit_inv_def deps_respected_append compare_deps_def list_all_iff)

lemma visit_spec:
  "table_ok d \<Longrightarrow> (p \<in> snd ` set d \<longrightarrow> visit_inv d st \<longrightarrow> marks_ok d (cp_name p) st \<longrightarrow> visit d n p st = Some (r, st') \<longrightarrow>
     visit_post d {cp_name p} st r st' \<and> (is_ok r \<or> cp_name p \<in> temp_mark st'))"
  "table_ok d \<Longrightarrow> (visit_inv d st \<longrightarrow> (\<forall>x\<in>set xs. marks_ok d x st) \<longrightarrow> visit_deps d n xs st = Some (r, st') \<longrightarrow>
     visit_post d (set xs) st r st')"
proof (induction d n p st and d n xs st arbitrary: r st' and r st' rule: visit_visit_deps.induct)
  case (2 d n p st)
  show ?case
  proof (intro impI)
    assume p: "p \<in> snd ` set d" and inv: "visit_inv d st" and ok: "marks_ok d (cp_name p) st"
      and run: "visit d (Suc n) p st = Some (r, st')"
    have look: "map_of d (cp_name p) = Some p"
      using table_lookup [OF \<open>table_ok d\<close> p] .
    consider "cp_name p \<in> temp_mark st" | "cp_name p \<notin> temp_mark st" "cp_name p \<in> visited st"
      | "cp_name p \<notin> temp_mark st" "cp_name p \<notin> visited st"
      by blast
    then show "visit_post d {cp_name p} st r st' \<and> (is_ok r \<or> cp_name p \<in> temp_mark st')"
    proof cases
      case 1
      then show ?thesis
        using run inv marks_stuckI [OF ok marks_ok_marked [OF ok]] by (auto simp: visit_post_def)
    next
      case 2
      then show ?thesis
        using run inv by (auto simp: visit_post_def)
    next
      case 3
      let ?st = "st\<lparr>temp_mark := insert (cp_name p) (temp_mark st)\<rparr>"
      obtain r1 st1 where deps: "visit_deps d n (comparison_deps p) ?st = Some (r1, st1)"
        using run 3 by (auto split: option.splits)
      have "visit_inv d ?st"
        using inv 3 by (auto simp: visit_inv_def)
      moreover have "\<forall>y\<in>set (comparison_deps p). marks_ok d y ?st"
        using marks_ok_dep [OF ok look] by simp
      ultimately have post: "visit_post d (set (comparison_deps p)) ?st r1 st1"
        using "2.IH" [OF 3 \<open>table_ok d\<close>] deps by blast
      show ?thesis
      proof (cases r1)
        case (Inl e)
        then show ?thesis
          using run 3 deps post by (auto simp: visit_post_def)
      next
        case (Inr u)
        have "visit_inv d (st1\<lparr>temp_mark := temp_mark st1 - {cp_name p},
           visited := insert (cp_name p) (visited st1), sorted_plugins := sorted_plugins st1 @ [p]\<rparr>)"
          using post Inr by (intro visit_finish [OF _ p look]) (auto simp: visit_post_def)
        then show ?thesis
          using run 3 deps post Inr by (auto simp: visit_post_def)
      qed
    qed
  qed
next
  case (4 d n x xs st)
  show ?case
  proof (intro impI)
    assume inv: "visit_inv d st" and ok: "\<forall>y\<in>set (x # xs). marks_ok d y st"
      and run: "visit_deps d n (x # xs) st = Some (r, st')"
    show "visit_post d (set (x # xs)) st r st'"
    proof (cases "map_of d x")
      case None
      then show ?thesis
        using run inv marks_stuckI [OF _ unknown_not_schedulable [OF None]] ok by (auto simp: visit_post_def)
    next
      case (Some q)
      then have q: "q \<in> snd ` set d" "cp_name q = x"
        using \<open>table_ok d\<close> by (force dest: map_of_SomeD simp: table_ok_def list_all_iff)+
      obtain r1 st1 where v: "visit d n q st = Some (r1, st1)"
        using run Some by (auto split: option.splits)
      have post: "visit_post d {x} st r1 st1"
        using "4.IH"(1) [OF Some \<open>table_ok d\<close>] q inv ok v by auto
      show ?thesis
      proof (cases r1)
        case (Inl e)
        then show ?thesis
          using run Some v post by (auto simp: visit_post_def)
      next
        case (Inr u)
        have rest: "visit_deps d n xs st1 = Some (r, st')"
          using run Some v Inr by simp
        have "visit_inv d st1" "\<forall>y\<in>set xs. marks_ok d y st1"
          using post Inr ok by (auto simp: visit_post_def marks_ok_def)
        then have "visit_post d (set xs) st1 r st'"
          using "4.IH"(2) [OF Some v _ Inr \<open>table_ok d\<close>] rest by auto
        then show ?thesis
          using post Inr by (auto simp: visit_post_def split: if_splits)
      qed
    qed
  qed
qed (auto simp: visit_post_def)

text \<open>Enough fuel: one more than the number of plugins without a mark\<close>

lemma visit_returns:
  "p \<in> snd ` set d \<Longrightarrow> table_ok d \<Longrightarrow> card (fst ` set d - temp_mark st) < n \<Longrightarrow>
     \<exists>r st'. visit d n p st = Some (r, st') \<and> (is_ok r \<longrightarrow> temp_mark st' = temp_mark st)"
  "table_ok d \<Longrightarrow> card (fst ` set d - temp_mark st) < n \<Longrightarrow>
     \<exists>r st'. visit_deps d n xs st = Some (r, st') \<and> (is_ok r \<longrightarrow> temp_mark st' = temp_mark st)"
proof (induction d n p st and d n xs st rule: visit_visit_deps.induct)
  case (2 d n p st)
  show ?case
  proof (cases "cp_name p \<in> temp_mark st \<or> cp_name p \<in> visited st")
    case False
    let ?st = "st\<lparr>temp_mark := insert (cp_name p) (temp_mark st)\<rparr>"
    have "cp_name p \<in> fst ` set d"
      using 2(2,3) by (force simp: table_ok_def list_all_iff)
    then have "fst ` set d - temp_mark st = insert (cp_name p) (fst ` set d - temp_mark ?st)"
      using False by auto
    then have "card (fst ` set d - temp_mark st) = card (insert (cp_name p) (fst ` set d - temp_mark ?st))"
      by (rule arg_cong)
    moreover have "card (insert (cp_name p) (fst ` set d - temp_mark ?st)) = Suc (card (fst ` set d - temp_mark ?st))"
      by (rule card_insert_disjoint) auto
    ultimately have "card (fst ` set d - temp_mark ?st) < n"
      using 2(4) by linarith
    then obtain r1 st1 where "visit_deps d n (comparison_deps p) ?st = Some (r1, st1)"
        "is_ok r1 \<longrightarrow> temp_mark st1 = temp_mark ?st"
      using 2(1) [OF _ _ 2(3)] False by (metis (no_types, lifting))
    then show ?thesis
      using False by (cases r1) auto
  qed auto
next
  case (4 d n x xs st)
  show ?case
  proof (cases "map_of d x")
    case (Some q)
    then have "q \<in> snd ` set d"
      by (force dest: map_of_SomeD)
    then obtain r1 st1 where v: "visit d n q st = Some (r1, st1)" "is_ok r1 \<longrightarrow> temp_mark st1 = temp_mark st"
      using 4(1) [OF Some _ 4(3,4)] by blast
    show ?thesis
    proof (cases r1)
      case (Inl e)
      then show ?thesis
        using Some v by simp
    next
      case (Inr u)
      then have "card (fst ` set d - temp_mark st1) < n"
        using v 4(4) by simp
      then show ?thesis
        using 4(2) [OF Some v(1) _ Inr 4(3)] Some v Inr by auto
    qed
  qed simp
qed auto

lemma marks_stuck_ok: "marks_stuck d st \<Longrightarrow> marks_ok d x st"
  by (simp add: marks_stuck_def marks_ok_def)

lemma visit_all_spec:
  assumes "table_ok d" "set ps \<subseteq> snd ` set d" "visit_inv d st" "marks_stuck d st" "card (fst ` set d) < n"
  shows "\<exists>st'. visit_all d n ps st = Some st' \<and> visit_inv d st' \<and> marks_stuck d st' \<and> visited st \<subseteq> visited st' \<and>
     (\<forall>p\<in>set ps. cp_name p \<in> visited st' \<or> \<not> schedulable (compare_deps d) (fst ` set d) (cp_name p))"
  using assms(2-4)
proof (induction ps arbitrary: st)
  case (Cons p ps)
  have p: "p \<in> snd ` set d"
    using Cons.prems by simp
  have "card (fst ` set d - temp_mark st) \<le> card (fst ` set d)"
    by (rule card_mono) auto
  then have "card (fst ` set d - temp_mark st) < n"
    using assms(5) by simp
  then obtain r st1 where v: "visit d n p st = Some (r, st1)"
    using visit_returns(1) [OF p assms(1)] by blast
  from visit_spec(1) [OF assms(1)] p Cons.prems(2) marks_stuck_ok [OF Cons.prems(3)] v
  have post: "visit_post d {cp_name p} st r st1" "is_ok r \<or> cp_name p \<in> temp_mark st1"
    by blast+
  have stuck: "marks_stuck d st1"
    using post(1) Cons.prems(3) by (auto simp: visit_post_def marks_stuck_def split: if_splits)
  have done_p: "cp_name p \<in> visited st1 \<or> \<not> schedulable (compare_deps d) (fst ` set d) (cp_name p)"
    using post stuck by (auto simp: visit_post_def marks_stuck_def split: if_splits)
  obtain st' where st': "visit_all d n ps st1 = Some st'" "visit_inv d st'" "marks_stuck d st'"
      "visited st1 \<subseteq> visited st'"
      "\<forall>p\<in>set ps. cp_name p \<in> visited st' \<or> \<not> schedulable (compare_deps d) (fst ` set d) (cp_name p)"
    using Cons.IH [of st1] Cons.prems post(1) stuck by (auto simp: visit_post_def)
  then show ?case
    using v done_p post(1) by (auto simp: visit_post_def)
qed simp

lemma schedule_spec:
  assumes "table_ok d"
  shows "\<exists>ps. schedule_comparison_plugins d = Some ps \<and> set ps \<subseteq> snd ` set d \<and> distinct (map cp_name ps) \<and>
     deps_respected (compare_deps d) [] (map cp_name ps) \<and>
     set (map cp_name ps) = {k. schedulable (compare_deps d) (fst ` set d) k}"
proof -
  have "card (fst ` set d) < Suc (length d)"
    using card_length [of "map fst d"] by (simp add: le_imp_less_Suc)
  then obtain st where st: "visit_all d (Suc (length d)) (map snd d) init_visit = Some st"
      "visit_inv d st"
      "\<forall>p\<in>snd ` set d. cp_name p \<in> visited st \<or> \<not> schedulable (compare_deps d) (fst ` set d) (cp_name p)"
    using visit_all_spec [OF assms, of "map snd d" init_visit "Suc (length d)"]
    by (auto simp: init_visit_def visit_inv_def marks_stuck_def)
  have keys: "cp_name ` snd ` set d = fst ` set d"
    using assms by (force simp: table_ok_def list_all_iff)
  have names: "set (map cp_name (sorted_plugins st)) \<subseteq> fst ` set d"
    using st(2) unfolding visit_inv_def set_map keys [symmetric] by (blast intro: image_mono [THEN subsetD])
  have "k \<in> set (map cp_name (sorted_plugins st))" if k: "schedulable (compare_deps d) (fst ` set d) k" for k
  proof -
    have "k \<in> cp_name ` snd ` set d"
      unfolding keys by (rule schedulable_wanted [OF k])
    then obtain p where "p \<in> snd ` set d" "cp_name p = k"
      by blast
    then show ?thesis
      using st(2,3) k by (auto simp: visit_inv_def)
  qed
  moreover have "schedulable (compare_deps d) (fst ` set d) k" if "k \<in> set (map cp_name (sorted_plugins st))" for k
    using st(2) by (intro respected_schedulable [OF _ _ names that]) (auto simp: visit_inv_def)
  ultimately show ?thesis
    using st(1,2) by (auto simp: schedule_comparison_plugins_def visit_inv_def)
qed

text \<open>The comparison module keeps the same contract as the scheduler of the analyses.\<close>

definition compare_wanted :: "compare_table \<Rightarrow> string set" where
  "compare_wanted d = fst ` set d"

definition compare_plan :: "compare_table \<Rightarrow> string list option" where
  "compare_plan d = map_option (map cp_name) (schedule_comparison_plugins d)"

interpretation cs: dependency_scheduler table_ok compare_deps compare_wanted compare_plan
proof unfold_locales
  fix d xs
  assume "table_ok d" "compare_plan d = Some xs"
  then show "distinct xs" "deps_respected (compare_deps d) [] xs"
    "set xs = {p. schedulable (compare_deps d) (compare_wanted d) p}"
    using schedule_spec [of d] by (auto simp: compare_plan_def compare_wanted_def)
qed

text \<open>
  C19. The depth first search ends for every set of comparison plugins, also for cyclic and unknown
  dependencies, and although the marks of a failed search are never removed: it returns every plugin
  that can be scheduled at all exactly once, and each one after all plugins it depends on.
\<close>

theorem schedule_comparison_correct:
  assumes "table_ok d"
  shows "\<exists>ps. schedule_comparison_plugins d = Some ps \<and> distinct (map cp_name ps) \<and>
     (\<forall>k. k \<in> cp_name ` set ps \<longleftrightarrow> schedulable (compare_deps d) (fst ` set d) k) \<and>
     (\<forall>i<length ps. \<forall>x\<in>set (comparison_deps (ps ! i)). \<exists>j<i. cp_name (ps ! j) = x)"
proof -
  obtain ps where ps: "schedule_comparison_plugins d = Some ps" "set ps \<subseteq> snd ` set d" "distinct (map cp_name ps)"
      "set (map cp_name ps) = {k. schedulable (compare_deps d) (fst ` set d) k}"
    using schedule_spec [OF assms] by blast
  have "\<exists>j<i. cp_name (ps ! j) = x" if i: "i < length ps" "x \<in> set (comparison_deps (ps ! i))" for i x
  proof -
    have "compare_plan d = Some (map cp_name (take i ps) @ cp_name (ps ! i) # map cp_name (drop (Suc i) ps))"
      using ps(1) i(1) by (simp add: compare_plan_def id_take_nth_drop [symmetric] flip: map_append list.map(2))
    from cs.dependencies_run_first [OF assms this] obtain ds where
      "compare_deps d (cp_name (ps ! i)) = Some ds" "set ds \<subseteq> set (map cp_name (take i ps))"
      by blast
    moreover have "map_of d (cp_name (ps ! i)) = Some (ps ! i)"
      using table_lookup [OF assms] ps(2) nth_mem [OF i(1)] by blast
    ultimately have "x \<in> cp_name ` set (take i ps)"
      using i(2) by (auto simp: compare_deps_def)
    then show ?thesis
      using i(1) by (fastforce simp: in_set_conv_nth)
  qed
  then show ?thesis
    using ps by auto
qed

section \<open>Witnesses\<close>

definition example_plugin :: "string \<Rightarrow> string list \<Rightarrow> compare_plugin" where
  "example_plugin k ds = \<lparr>cp_name = k, comparison_deps = ds, cp_dependencies = [],
     compare_function = \<lambda>_ _. Inr [(k, PNone)]\<rparr>"

text \<open>\<open>b\<close> and \<open>c\<close> form a cycle, \<open>d\<close> depends on it, \<open>e\<close> on something unknown.\<close>

definition example_table :: compare_table where
  "example_table = map (\<lambda>(k, ds). (k, example_plugin k ds))
     [(''d'', [''b'']), (''a'', [''f'']), (''b'', [''c'']), (''c'', [''b'']), (''e'', [''x'']), (''f'', [])]"

theorem schedule_comparison_witness:
  "\<exists>ps. schedule_comparison_plugins example_table = Some ps \<and> distinct (map cp_name ps) \<and>
     (\<forall>k. k \<in> cp_name ` set ps \<longleftrightarrow> schedulable (compare_deps example_table) (fst ` set example_table) k) \<and>
     (\<forall>i<length ps. \<forall>x\<in>set (comparison_deps (ps ! i)). \<exists>j<i. cp_name (ps ! j) = x) \<and>
     map cp_name ps = [''f'', ''a'']"
proof -
  have "table_ok example_table"
    by (simp add: table_ok_def example_table_def example_plugin_def)
  moreover have "map_option (map cp_name) (schedule_comparison_plugins example_table) = Some [''f'', ''a'']"
    by (simp add: schedule_comparison_plugins_def init_visit_def example_table_def example_plugin_def)
  ultimately show ?thesis
    using schedule_comparison_correct [of example_table] by auto
qed

end
