(* ===== verification/Comparison.thy ===== *)
theory Comparison
  imports Comparison_Plugins Database_Backend File_Storage
begin

text \<open>
  \<^verbatim>\<open>src/src/compare/compare.py\<close> (class \<open>Compare\<close>), \<^verbatim>\<open>src/src/storage/db_interface_comparison.py\<close>,
  \<^verbatim>\<open>src/src/scheduler/comparison_scheduler.py\<close> and the reading part of
  \<^verbatim>\<open>src/src/storage/binary_service.py\<close>: comparing a set of files and storing and reading the results.

  A result is a dictionary with the sections \<open>general\<close> and \<open>plugins\<close>. Lists that the code builds from
  a set are sorted here. What the JSON column makes of a result is the parameter \<open>flush\<close>, reading a file
  of the storage is the parameter \<open>read_file\<close>. A comparison that runs out of fuel in a recursive query
  is \<open>None\<close>.
\<close>

section \<open>Reading the objects\<close>

definition get_file_name :: "database \<Rightarrow> string \<Rightarrow> string option" where
  "get_file_name db u = (case map_of (file_object_table db) u of None \<Rightarrow> None | Some e \<Rightarrow> e_file_name e)"

definition get_binary_and_file_name ::
  "(string \<Rightarrow> string) \<Rightarrow> string \<Rightarrow> database \<Rightarrow> string \<Rightarrow> string option \<times> string option" where
  "get_binary_and_file_name read_file storage db u = (case get_file_name db u of
       None \<Rightarrow> (None, None)
     | Some name \<Rightarrow> (Some (read_file (generate_path_from_uid storage u)), Some name))"

text \<open>\<open>analysis_result['summary'] = self.get_summary(fo, plugin)\<close> for every analysis\<close>

definition summary_value :: "(string \<times> string list) list option \<Rightarrow> pyval" where
  "summary_value s = (case s of None \<Rightarrow> PNone | Some d \<Rightarrow> PDict (map (\<lambda>(k, us). (k, PList (map PStr us))) d))"

fun set_summaries ::
  "nat \<Rightarrow> database \<Rightarrow> file_object \<Rightarrow> (string \<times> pyval) list \<Rightarrow> (string \<times> pyval) list result option" where
  "set_summaries fuel db fo [] = Some (Inr [])"
| "set_summaries fuel db fo ((plugin, analysis_result) # rest) = (case get_summary fuel db fo plugin of
       None \<Rightarrow> None
     | Some s \<Rightarrow> (case analysis_result of
           PDict d \<Rightarrow> map_option (\<lambda>r. bindE r (\<lambda>rs.
               Inr ((plugin, PDict (AList.update ''summary'' (summary_value s) d)) # rs)))
             (set_summaries fuel db fo rest)
         | _ \<Rightarrow> Some (Inl TypeError)))"

definition get_complete_object_including_all_summaries ::
  "nat \<Rightarrow> database \<Rightarrow> string \<Rightarrow> file_object result option" where
  "get_complete_object_including_all_summaries fuel db u = (case get_object db u None of
       Inl e \<Rightarrow> Some (Inl e)
     | Inr None \<Rightarrow> Some (Inl RuntimeError)
     | Inr (Some fo) \<Rightarrow> (case get_list_of_all_included_files fuel db fo of
           None \<Rightarrow> None
         | Some fs \<Rightarrow>
             (let fo1 = fo\<lparr>list_of_all_included_files := Some fs\<rparr>
              in map_option (\<lambda>r. bindE r (\<lambda>pa. Inr (fo1\<lparr>processed_analysis := pa\<rparr>)))
                   (set_summaries fuel db fo1 (processed_analysis fo1)))))"

section \<open>The comparison module\<close>

record compare_env =
  c_plugins :: compare_table
  c_storage :: string
  c_read_file :: "string \<Rightarrow> string"
  c_flush :: "pydict \<Rightarrow> pydict result"
  c_fuel :: nat

text \<open>
  \<open>_init_plugins\<close>: the constructor of a plugin may raise (\<open>None\<close>). The handler then reads the name
  through an attribute that the modules of comparison plugins do not have, which raises again.
\<close>

fun init_plugins :: "(string \<times> compare_plugin option) list \<Rightarrow> compare_table \<Rightarrow> compare_table result" where
  "init_plugins [] d = Inr d"
| "init_plugins ((k, p) # ps) d = (case p of
       None \<Rightarrow> Inl AttributeError
     | Some q \<Rightarrow> init_plugins ps (AList.update k q d))"

definition opt_val :: "string option \<Rightarrow> pyval" where
  "opt_val x = (case x of None \<Rightarrow> PNone | Some s \<Rightarrow> PStr s)"

definition sorted_strings :: "string set \<Rightarrow> pyval" where
  "sorted_strings S = PList (map PStr (sorted_list_of_set S))"

definition get_vfp_data :: "database \<Rightarrow> file_object list \<Rightarrow> pydict" where
  "get_vfp_data db object_list =
     fold (\<lambda>fo d. if is_firmware_object fo then AList.update (uid fo) (PList [opt_val (file_name fo)]) d else d)
       object_list
       (map (\<lambda>(u, vfp_dict). (u, sorted_strings (get_paths_for_all_parents vfp_dict)))
         (get_vfps_for_uid_list db (map uid object_list) None))"

text \<open>\<open>general.setdefault(key, {})[uid] = value\<close>\<close>

definition put_general :: "string \<Rightarrow> string \<times> pyval \<Rightarrow> (string \<times> pydict) list \<Rightarrow> (string \<times> pydict) list" where
  "put_general u = (\<lambda>(key, v). dict_modify key [] (AList.update u v))"

definition class_section :: "file_object \<Rightarrow> pydict" where
  "class_section fo = (case firmware fo of
       Some fw \<Rightarrow> [(''device_name'', opt_val (device_name fw)), (''device_part'', PStr (part fw)),
         (''device_class'', opt_val (device_class fw)), (''vendor'', opt_val (vendor fw)),
         (''version'', opt_val (fw_version fw)), (''release_date'', opt_val (release_date fw))]
     | None \<Rightarrow> [(''firmwares_including_this_file'', sorted_strings (parent_firmware_uids fo))])"

definition general_section :: "pydict \<Rightarrow> file_object \<Rightarrow> pydict result" where
  "general_section vfp_data fo =
     bindE (dict_item vfp_data (uid fo)) (\<lambda>vfp. case list_of_all_included_files fo of
         None \<Rightarrow> Inl TypeError
       | Some fs \<Rightarrow> Inr (class_section fo @
           [(''hid'', opt_val (get_hid fo)),
            (''size'', case fo_size fo of None \<Rightarrow> PNone | Some n \<Rightarrow> PInt n),
            (''virtual_file_path'', vfp), (''number_of_files'', PInt (int (card fs)))]))"

fun create_general_loop ::
  "pydict \<Rightarrow> file_object list \<Rightarrow> (string \<times> pydict) list \<Rightarrow> (string \<times> pydict) list result" where
  "create_general_loop vfp_data [] general = Inr general"
| "create_general_loop vfp_data (fo # fos) general =
     bindE (general_section vfp_data fo) (\<lambda>entries.
       create_general_loop vfp_data fos (fold (put_general (uid fo)) entries general))"

definition create_general_section_dict :: "database \<Rightarrow> file_object list \<Rightarrow> (string \<times> pydict) list result" where
  "create_general_section_dict db object_list = create_general_loop (get_vfp_data db object_list) object_list []"

text \<open>The loop above also sets \<open>root_uid\<close> of the firmware objects, which the plugins then see.\<close>

definition set_root :: "file_object \<Rightarrow> file_object" where
  "set_root fo = (if is_firmware_object fo then fo\<lparr>root_uid := Some (uid fo)\<rparr> else fo)"

fun execute_loop ::
  "file_object list \<Rightarrow> compare_plugin list \<Rightarrow> (string \<times> pydict) list \<Rightarrow> (string \<times> pydict) list result" where
  "execute_loop fo_list [] comparison_results = Inr comparison_results"
| "execute_loop fo_list (p # ps) comparison_results =
     bindE (plugin_compare p fo_list comparison_results) (\<lambda>r.
       execute_loop fo_list ps (AList.update (cp_name p) r comparison_results))"

definition execute_compare_plugins :: "compare_table \<Rightarrow> file_object list \<Rightarrow> (string \<times> pydict) list result option" where
  "execute_compare_plugins plugins fo_list =
     map_option (\<lambda>ps. execute_loop fo_list ps []) (schedule_comparison_plugins plugins)"

definition dict_of :: "(string \<times> pydict) list \<Rightarrow> pyval" where
  "dict_of d = PDict (map (\<lambda>(k, v). (k, PDict v)) d)"

definition compare_objects :: "compare_env \<Rightarrow> database \<Rightarrow> file_object list \<Rightarrow> pydict result option" where
  "compare_objects env db fo_list = (case create_general_section_dict db fo_list of
       Inl e \<Rightarrow> Some (Inl e)
     | Inr general \<Rightarrow>
         map_option (\<lambda>r. bindE r (\<lambda>plugins. Inr [(''general'', dict_of general), (''plugins'', dict_of plugins)]))
           (execute_compare_plugins (c_plugins env) (map set_root fo_list)))"

fun load_objects :: "compare_env \<Rightarrow> database \<Rightarrow> string list \<Rightarrow> file_object list result option" where
  "load_objects env db [] = Some (Inr [])"
| "load_objects env db (u # us) = (case get_complete_object_including_all_summaries (c_fuel env) db u of
       None \<Rightarrow> None
     | Some (Inl e) \<Rightarrow> Some (Inl e)
     | Some (Inr fo) \<Rightarrow>
         (let fo1 = fo\<lparr>binary := fst (get_binary_and_file_name (c_read_file env) (c_storage env) db (uid fo))\<rparr>
          in map_option (\<lambda>r. bindE r (\<lambda>fos. Inr (fo1 # fos))) (load_objects env db us)))"

definition compare_files :: "compare_env \<Rightarrow> database \<Rightarrow> string list \<Rightarrow> pydict result option" where
  "compare_files env db uid_list = (case load_objects env db uid_list of
       None \<Rightarrow> None
     | Some (Inl e) \<Rightarrow> Some (Inl e)
     | Some (Inr fos) \<Rightarrow> compare_objects env db fos)"

section \<open>The database interface of comparisons\<close>

definition comparison_exists :: "database \<Rightarrow> string \<Rightarrow> bool" where
  "comparison_exists db i \<longleftrightarrow> map_of (comparison_table db) i \<noteq> None \<and> i \<noteq> []"

definition objects_exist :: "database \<Rightarrow> string \<Rightarrow> bool" where
  "objects_exist db i \<longleftrightarrow>
     (let uid_list = convert_compare_id_to_list i
      in length (filter (\<lambda>u. u \<in> set uid_list) (map fst (file_object_table db))) = length uid_list)"

definition calculate_comp_id :: "pydict \<Rightarrow> string result" where
  "calculate_comp_id comparison_result =
     bindE (dict_item comparison_result ''general'') (\<lambda>g.
       bindE (as_dict g) (\<lambda>general.
         bindE (mapE (\<lambda>(_, c). as_dict c) general) (\<lambda>ds.
           Inr (convert_uid_list_to_compare_id (remdups (concat (map (map fst) ds)))))))"

definition update_comparison ::
  "(pydict \<Rightarrow> pydict result) \<Rightarrow> timestamp \<Rightarrow> string \<Rightarrow> pydict \<Rightarrow> database \<Rightarrow> database result" where
  "update_comparison flush now i comparison_result db = (case map_of (comparison_table db) i of
       None \<Rightarrow> Inl AttributeError
     | Some e \<Rightarrow> bindE (flush comparison_result) (\<lambda>data.
         Inr (db\<lparr>comparison_table := AList.update i \<lparr>ce_submission_date = now, ce_data = data\<rparr> (comparison_table db)\<rparr>)))"

text \<open>A missing file object is \<open>None\<close> in the relationship, which cannot be flushed.\<close>

definition insert_comparison ::
  "(pydict \<Rightarrow> pydict result) \<Rightarrow> timestamp \<Rightarrow> string \<Rightarrow> pydict \<Rightarrow> database \<Rightarrow> database result" where
  "insert_comparison flush now i comparison_result db =
     (let uids = py_split (CHR '';'') i
      in if list_ex (\<lambda>u. map_of (file_object_table db) u = None) uids \<or> map_of (comparison_table db) i \<noteq> None
         then Inl DbInterfaceError
         else bindE (flush comparison_result) (\<lambda>data.
           Inr (db\<lparr>comparison_table := comparison_table db @ [(i, \<lparr>ce_submission_date = now, ce_data = data\<rparr>)],
                   comparisons_table := comparisons_table db @ map (\<lambda>u. (i, u)) uids\<rparr>)))"

definition add_comparison_result ::
  "(pydict \<Rightarrow> pydict result) \<Rightarrow> timestamp \<Rightarrow> pydict \<Rightarrow> database \<Rightarrow> database result" where
  "add_comparison_result flush now comparison_result db =
     bindE (calculate_comp_id comparison_result) (\<lambda>i.
       if \<not> objects_exist db i then Inr db
       else if comparison_exists db i then update_comparison flush now i comparison_result db
       else insert_comparison flush now i comparison_result db)"

definition comparison_entry_to_dict :: "comparison_entry \<Rightarrow> string \<Rightarrow> pydict" where
  "comparison_entry_to_dict e i =
     AList.update ''submission_date'' (PFloat (ce_submission_date e)) (AList.update ''_id'' (PStr i) (ce_data e))"

definition get_comparison_result :: "database \<Rightarrow> string \<Rightarrow> pydict option" where
  "get_comparison_result db compare_id =
     (let i = normalize_compare_id compare_id
      in if \<not> comparison_exists db i then None
         else map_option (\<lambda>e. comparison_entry_to_dict e i) (map_of (comparison_table db) i))"

definition page_comparison_results ::
  "nat option \<Rightarrow> nat option \<Rightarrow> database \<Rightarrow> (string \<times> pyval \<times> timestamp) list result" where
  "page_comparison_results skip limit db =
     mapE (\<lambda>(i, e). bindE (subscript (PDict (ce_data e)) ''general'') (\<lambda>g.
         bindE (subscript g ''hid'') (\<lambda>h. Inr (i, h, ce_submission_date e))))
       (apply_offset_and_limit skip limit (sort_key (\<lambda>(_, e). - ce_submission_date e) (comparison_table db)))"

definition get_total_number_of_results :: "database \<Rightarrow> nat" where
  "get_total_number_of_results db = length (comparison_table db)"

text \<open>\<open>AnalysisEntry.result[key]\<close>: \<open>None\<close> if the result has no such key\<close>

definition json_field :: "pyval \<Rightarrow> string \<Rightarrow> pyval" where
  "json_field v k = (case v of PDict d \<Rightarrow> (case map_of d k of None \<Rightarrow> PNone | Some w \<Rightarrow> w) | _ \<Rightarrow> PNone)"

definition result_field_for_uid_list :: "string \<Rightarrow> string \<Rightarrow> database \<Rightarrow> string list \<Rightarrow> pydict" where
  "result_field_for_uid_list plugin field db uid_list =
     fold (\<lambda>((u, p), a) d.
        if p = plugin \<and> u \<in> set uid_list \<and> json_field (ae_result a) field \<noteq> PNone
        then AList.update u (json_field (ae_result a) field) d else d) (analysis_table db) []"

definition get_ssdeep_hash_for_uid_list :: "database \<Rightarrow> string list \<Rightarrow> pydict" where
  "get_ssdeep_hash_for_uid_list = result_field_for_uid_list ''file_hashes'' ''ssdeep''"

definition get_entropy_for_uid_list :: "database \<Rightarrow> string list \<Rightarrow> pydict" where
  "get_entropy_for_uid_list = result_field_for_uid_list ''unpacker'' ''entropy''"

text \<open>A missing comparison result is \<open>None\<close>, and subscripting it raises \<open>TypeError\<close>, which is not caught.\<close>

definition get_exclusive_files :: "database \<Rightarrow> string option \<Rightarrow> string option \<Rightarrow> pyval result" where
  "get_exclusive_files db compare_id rt = (case (compare_id, rt) of
       (Some i, Some r) \<Rightarrow>
         (let result = (case get_comparison_result db i of None \<Rightarrow> PNone | Some d \<Rightarrow> PDict d);
              files = bindE (subscript result ''plugins'') (\<lambda>p. bindE (subscript p ''File_Coverage'') (\<lambda>c.
                bindE (subscript c ''exclusive_files'') (\<lambda>x. subscript x r)))
          in if files = Inl KeyError then Inr (PList []) else files)
     | _ \<Rightarrow> Inr (PList []))"

definition transpose_vfp_dict :: "(string \<times> vfp_dict) list \<Rightarrow> (string \<times> string set) list" where
  "transpose_vfp_dict vfp_data =
     fold (\<lambda>(u, vfp_dict). fold (\<lambda>(_, vfp_list). fold (\<lambda>vfp. dict_modify vfp {} (insert u)) vfp_list) vfp_dict) vfp_data []"

definition is_text_file :: "database \<Rightarrow> string \<Rightarrow> bool" where
  "is_text_file db f \<longleftrightarrow> (case map_of (analysis_table db) (f, ''file_type'') of
       None \<Rightarrow> False
     | Some a \<Rightarrow> (case json_field (ae_result a) ''mime'' of PStr m \<Rightarrow> starts_with ''text/'' m | _ \<Rightarrow> False))"

definition text_file_uids :: "database \<Rightarrow> string \<Rightarrow> string set \<Rightarrow> string list" where
  "text_file_uids db r blacklist =
     map snd (filter (\<lambda>(r', f). r' = r \<and> map_of (file_object_table db) f \<noteq> None \<and> f \<notin> blacklist \<and> is_text_file db f)
       (fw_files_table db))"

definition get_vfp_of_included_text_files :: "database \<Rightarrow> string \<Rightarrow> string set \<Rightarrow> (string \<times> string set) list" where
  "get_vfp_of_included_text_files db r blacklist =
     transpose_vfp_dict (get_vfps_for_uid_list db (text_file_uids db r blacklist) (Some r))"

section \<open>The scheduler\<close>

record comparison_scheduler =
  in_queue :: "(string \<times> bool) list"
  comparisons_done :: "string set"
  cs_db :: database
  cs_callback :: bool
  callbacks_called :: nat

definition cs_add_task :: "string \<times> bool \<Rightarrow> comparison_scheduler \<Rightarrow> comparison_scheduler" where
  "cs_add_task comparison_task s = (case comparison_task of (i, redo) \<Rightarrow>
     (if \<not> objects_exist (cs_db s) i then s else s\<lparr>in_queue := in_queue s @ [(i, redo)]\<rparr>))"

definition comparison_should_start :: "string \<Rightarrow> bool \<Rightarrow> string set \<Rightarrow> bool" where
  "comparison_should_start u redo done_set \<longleftrightarrow> redo \<or> u \<notin> done_set"

text \<open>Every exception is logged and leaves the database as it is.\<close>

definition process_comparison :: "compare_env \<Rightarrow> timestamp \<Rightarrow> string \<Rightarrow> database \<Rightarrow> database option" where
  "process_comparison env now i db =
     map_option (\<lambda>r. case bindE r (\<lambda>res. add_comparison_result (c_flush env) now res db) of Inl _ \<Rightarrow> db | Inr db' \<Rightarrow> db')
       (compare_files env db (convert_compare_id_to_list i))"

definition compare_single_run :: "compare_env \<Rightarrow> timestamp \<Rightarrow> comparison_scheduler \<Rightarrow> comparison_scheduler option" where
  "compare_single_run env now s = (case in_queue s of
       [] \<Rightarrow> Some s
     | (i, redo) # rest \<Rightarrow>
         (let s1 = s\<lparr>in_queue := rest\<rparr>
          in if comparison_should_start i redo (comparisons_done s) then
               let db1 = (if redo then delete_comparison i (cs_db s) else cs_db s)
               in map_option (\<lambda>db2. s1\<lparr>cs_db := db2, comparisons_done := insert i (comparisons_done s),
                      callbacks_called := callbacks_called s + (if cs_callback s then 1 else 0)\<rparr>)
                    (process_comparison env now i db1)
             else Some s1))"

section \<open>Running the plugins\<close>

text \<open>The table of plugins has the form the scheduling relies on.\<close>

lemma init_plugins_table_ok:
  "init_plugins ps d = Inr d' \<Longrightarrow> table_ok d \<Longrightarrow> (\<And>k p. (k, Some p) \<in> set ps \<Longrightarrow> cp_name p = k) \<Longrightarrow> table_ok d'"
proof (induction ps d rule: init_plugins.induct)
  case (2 k p ps d)
  obtain q where q: "p = Some q" "init_plugins ps (AList.update k q d) = Inr d'"
    using "2.prems"(1) by (auto split: option.splits)
  have "cp_name q = k"
    using "2.prems"(3) q(1) by simp
  then have "list_all (\<lambda>(k, p). cp_name p = k) (AList.update k q d)"
    using "2.prems"(2) by (simp add: table_ok_def) (induction d; auto)
  then have "table_ok (AList.update k q d)"
    using "2.prems"(2) by (simp add: table_ok_def)
  then show ?case
    using "2.IH" [OF q] "2.prems"(3) by (meson list.set_intros(2))
qed simp

lemma update_new_key: "k \<notin> fst ` set d \<Longrightarrow> AList.update k v d = d @ [(k, v)]"
  by (induction d) auto

lemma execute_loop_spec:
  assumes "execute_loop fos ps acc = Inr res" "distinct (map cp_name ps)" "cp_name ` set ps \<inter> fst ` set acc = {}"
  shows "\<exists>new. res = acc @ new \<and> map fst new = map cp_name ps \<and>
     (\<forall>i<length ps. plugin_compare (ps ! i) fos (acc @ take i new) = Inr (snd (new ! i)))"
  using assms
proof (induction ps arbitrary: acc)
  case (Cons p ps)
  obtain r where r: "plugin_compare p fos acc = Inr r"
      "execute_loop fos ps (AList.update (cp_name p) r acc) = Inr res"
    using Cons.prems(1) by (auto simp: result_simps)
  have upd: "AList.update (cp_name p) r acc = acc @ [(cp_name p, r)]"
    using Cons.prems(3) by (intro update_new_key) auto
  have "\<exists>new. res = AList.update (cp_name p) r acc @ new \<and> map fst new = map cp_name ps \<and>
     (\<forall>i<length ps. plugin_compare (ps ! i) fos (AList.update (cp_name p) r acc @ take i new) = Inr (snd (new ! i)))"
    using Cons.prems(2,3) by (intro Cons.IH [OF r(2)]) (auto simp: upd)
  then obtain new where new: "res = acc @ (cp_name p, r) # new" "map fst new = map cp_name ps"
      "\<forall>i<length ps. plugin_compare (ps ! i) fos (acc @ (cp_name p, r) # take i new) = Inr (snd (new ! i))"
    by (auto simp: upd)
  show ?case
    using new r(1) by (intro exI [of _ "(cp_name p, r) # new"]) (auto simp: nth_Cons' take_Cons' gr0_conv_Suc)
qed simp

lemma map_of_front: "k \<in> fst ` set xs \<Longrightarrow> map_of (xs @ ys) k = map_of xs k"
  by (induction xs) auto

lemma map_of_take: "k \<in> fst ` set (take i xs) \<Longrightarrow> map_of (take i xs) k = map_of xs k"
  using map_of_front [of k "take i xs" "drop i xs"] by simp

lemma dependency_was_skipped_take:
  assumes "x \<in> fst ` set (take i res)"
  shows "dependency_was_skipped x (take i res) = dependency_was_skipped x res"
  using map_of_take [OF assms] by (simp add: dependency_was_skipped_def)

text \<open>What is expected of the result \<open>r\<close> of plugin \<open>p\<close>, given all results and those computed before\<close>

definition expected_result ::
  "compare_plugin \<Rightarrow> file_object list \<Rightarrow> (string \<times> pydict) list \<Rightarrow> (string \<times> pydict) list \<Rightarrow> pydict \<Rightarrow> bool" where
  "expected_result p fos res before r \<longleftrightarrow>
     (if \<exists>x\<in>set (comparison_deps p). dependency_was_skipped x res then map fst r = [''Comparison Skipped'']
      else if \<exists>a\<in>set (cp_dependencies p). \<exists>fo\<in>set fos. map_of (processed_analysis fo) a = None
        then map fst r = [''Compare Skipped'']
      else compare_function p fos before = Inr r)"

lemma get_missing_analysis_deps_Nil:
  "get_missing_analysis_deps p fos = [] \<longleftrightarrow>
     \<not> (\<exists>a\<in>set (cp_dependencies p). \<exists>fo\<in>set fos. map_of (processed_analysis fo) a = None)"
  by (auto simp: get_missing_analysis_deps_def filter_empty_conv list_ex_iff)

lemma plugin_compare_expected:
  assumes "plugin_compare p fos (take i res) = Inr r"
    and "set (comparison_deps p) \<subseteq> fst ` set (take i res)"
  shows "expected_result p fos res (take i res) r"
proof -
  have "map_of (take i res) x \<noteq> None \<and> dependency_was_skipped x (take i res) = dependency_was_skipped x res"
    if "x \<in> set (comparison_deps p)" for x
    unfolding dom_map_of_iff using that assms(2) dependency_was_skipped_take by blast
  then have missing: "get_missing_comparison_deps p (take i res) =
      filter (\<lambda>x. dependency_was_skipped x res) (comparison_deps p)"
    unfolding get_missing_comparison_deps_def by (intro filter_cong) blast+
  show ?thesis
    using assms(1) unfolding plugin_compare_def missing Let_def get_missing_analysis_deps_Nil expected_result_def
    by (auto simp: filter_empty_conv simp del: not_None_eq split: if_splits)
qed

text \<open>
  C21. A comparison runs every comparison plugin that can be scheduled exactly once. The results a plugin
  depends on are there when it runs, so it is skipped only if one of them was skipped or if an analysis
  it needs is missing for one of the files; otherwise its result is what its comparison function returns.
\<close>

theorem execute_compare_plugins_correct:
  assumes "table_ok d" "execute_compare_plugins d fos = Some (Inr res)"
  shows "distinct (map fst res) \<and> fst ` set res = {k. schedulable (compare_deps d) (fst ` set d) k} \<and>
     (\<forall>i<length res. \<exists>p. map_of d (fst (res ! i)) = Some p \<and>
        set (comparison_deps p) \<subseteq> fst ` set (take i res) \<and> expected_result p fos res (take i res) (snd (res ! i)))"
proof -
  obtain ps where ps: "schedule_comparison_plugins d = Some ps" "set ps \<subseteq> snd ` set d" "distinct (map cp_name ps)"
      "deps_respected (compare_deps d) [] (map cp_name ps)"
      "set (map cp_name ps) = {k. schedulable (compare_deps d) (fst ` set d) k}"
    using schedule_spec [OF assms(1)] by blast
  have "execute_loop fos ps [] = Inr res"
    using assms(2) ps(1) by (simp add: execute_compare_plugins_def)
  from execute_loop_spec [OF this ps(3)] have res: "map fst res = map cp_name ps"
      "\<forall>i<length ps. plugin_compare (ps ! i) fos (take i res) = Inr (snd (res ! i))"
    by auto
  have len: "length res = length ps"
    using res(1) by (metis length_map)
  have "\<exists>p. map_of d (fst (res ! i)) = Some p \<and> set (comparison_deps p) \<subseteq> fst ` set (take i res) \<and>
      expected_result p fos res (take i res) (snd (res ! i))" if i: "i < length res" for i
  proof -
    have name: "fst (res ! i) = cp_name (ps ! i)"
      using i len res(1) by (metis nth_map)
    have look: "map_of d (cp_name (ps ! i)) = Some (ps ! i)"
      using i len ps(2) by (intro table_lookup [OF assms(1)]) auto
    have "map cp_name ps = map cp_name (take i ps) @ cp_name (ps ! i) # map cp_name (drop (Suc i) ps)"
      using i len by (metis id_take_nth_drop list.simps(9) map_append)
    with ps(4) have "deps_respected (compare_deps d) [] (map cp_name (take i ps) @ cp_name (ps ! i) # map cp_name (drop (Suc i) ps))"
      by simp
    then have "set (comparison_deps (ps ! i)) \<subseteq> set (map cp_name (take i ps))"
      using look by (auto dest!: deps_respected_before simp: compare_deps_def)
    also have "\<dots> = fst ` set (take i res)"
      by (metis list.set_map res(1) take_map)
    finally have before: "set (comparison_deps (ps ! i)) \<subseteq> fst ` set (take i res)" .
    show ?thesis
      using plugin_compare_expected [OF _ before] res i len look before by (auto simp: name)
  qed
  then show ?thesis
    using ps(3,5) res(1) by (metis list.set_map)
qed

section \<open>Storing results\<close>

text \<open>An existing comparison is one of distinct files that are all there.\<close>

lemma objects_exist_iff:
  assumes "distinct (map fst (file_object_table db))"
  shows "objects_exist db i \<longleftrightarrow>
     distinct (convert_compare_id_to_list i) \<and> set (convert_compare_id_to_list i) \<subseteq> file_uids db"
proof -
  let ?us = "convert_compare_id_to_list i"
  have "length (filter (\<lambda>u. u \<in> set ?us) (map fst (file_object_table db))) = card (file_uids db \<inter> set ?us)"
    using distinct_card [OF distinct_filter [OF assms, of "\<lambda>u. u \<in> set ?us"]]
    by (simp add: Int_def conj_commute)
  also have "(card (file_uids db \<inter> set ?us) = length ?us) \<longleftrightarrow> distinct ?us \<and> set ?us \<subseteq> file_uids db"
  proof
    assume eq: "card (file_uids db \<inter> set ?us) = length ?us"
    have "card (file_uids db \<inter> set ?us) \<le> card (set ?us)"
      by (rule card_mono) auto
    with eq card_length [of ?us] have c: "card (set ?us) = length ?us"
      by linarith
    then have "file_uids db \<inter> set ?us = set ?us"
      using eq by (intro card_subset_eq) auto
    with c show "distinct ?us \<and> set ?us \<subseteq> file_uids db"
      by (blast intro: card_distinct)
  next
    assume "distinct ?us \<and> set ?us \<subseteq> file_uids db"
    then show "card (file_uids db \<inter> set ?us) = length ?us"
      by (simp add: Int_absorb1 distinct_card)
  qed
  finally show ?thesis
    by (simp add: objects_exist_def Let_def)
qed

lemma get_object_uid: "get_object db u f = Inr (Some fo) \<Longrightarrow> uid fo = u"
  by (auto simp: get_object_def get_firmware_def db_firmware_from_entry_def get_file_object_def result_simps
      firmware_from_entry_def file_object_from_entry_def populate_fo_data_def Let_def split: if_splits option.splits)

lemma get_complete_uid: "get_complete_object_including_all_summaries fuel db u = Some (Inr fo) \<Longrightarrow> uid fo = u"
  by (auto simp: get_complete_object_including_all_summaries_def result_simps Let_def
      split: sum.splits option.splits dest: get_object_uid)

lemma load_objects_uids: "load_objects env db us = Some (Inr fos) \<Longrightarrow> map uid fos = us"
  by (induction us arbitrary: fos)
    (auto simp: result_simps Let_def split: option.splits sum.splits dest!: get_complete_uid)

text \<open>The UIDs that occur in the sections\<close>

definition section_uids :: "(string \<times> pydict) list \<Rightarrow> string set" where
  "section_uids g = (\<Union>d\<in>snd ` set g. fst ` set d)"

lemma section_uids_put: "section_uids (put_general u (k, v) g) = insert u (section_uids g)"
proof (induction g)
  case (Cons x g)
  then show ?case
    by (cases x) (auto simp: section_uids_def put_general_def dict_modify_def dom_update split: option.splits)
qed (simp add: section_uids_def put_general_def dict_modify_def)

lemma section_uids_fold:
  "section_uids (fold (put_general u) es g) = (if es = [] then {} else {u}) \<union> section_uids g"
  by (induction es arbitrary: g) (auto simp: section_uids_put)

lemma general_section_nonempty: "general_section vfps fo = Inr es \<Longrightarrow> es \<noteq> []"
  by (auto simp: general_section_def result_simps split: option.splits)

lemma create_general_uids:
  "create_general_loop vfps fos g = Inr g' \<Longrightarrow> section_uids g' = uid ` set fos \<union> section_uids g"
  by (induction fos arbitrary: g) (auto simp: result_simps section_uids_fold dest!: general_section_nonempty split: if_splits)

lemma calculate_comp_id_general:
  assumes "map_of res ''general'' = Some (dict_of g)" "section_uids g = set us" "distinct us"
  shows "calculate_comp_id res = Inr (convert_uid_list_to_compare_id us)"
proof -
  have ds: "mapE (\<lambda>(_, c). as_dict c) (map (\<lambda>(k, v). (k, PDict v)) g) = Inr (map snd g)"
    by (induction g) auto
  have "set (concat (map (map fst) (map snd g))) = set us"
    using assms(2) by (auto simp: section_uids_def)
  then have "mset (remdups (concat (map (map fst) (map snd g)))) = mset us"
    using assms(3) by (metis distinct_remdups set_eq_iff_mset_eq_distinct set_remdups)
  then have "sort (remdups (concat (map (map fst) (map snd g)))) = sort us"
    by (metis mset_sort properties_for_sort sorted_sort)
  then show ?thesis
    using assms(1) ds by (simp add: calculate_comp_id_def dict_item_def dict_of_def convert_uid_list_to_compare_id_def)
qed

lemma compare_files_id:
  assumes "compare_files env db us = Some (Inr res)" "distinct us"
  shows "calculate_comp_id res = Inr (convert_uid_list_to_compare_id us)"
proof -
  obtain fos where fos: "load_objects env db us = Some (Inr fos)" "compare_objects env db fos = Some (Inr res)"
    using assms(1) by (auto simp: compare_files_def split: option.splits sum.splits)
  obtain g where g: "create_general_section_dict db fos = Inr g" "map_of res ''general'' = Some (dict_of g)"
    using fos(2) by (auto simp: compare_objects_def result_simps split: sum.splits)
  have "section_uids g = set us"
    using create_general_uids [OF g(1) [unfolded create_general_section_dict_def]] load_objects_uids [OF fos(1)]
    by (auto simp: section_uids_def)
  then show ?thesis
    by (rule calculate_comp_id_general [OF g(2) _ assms(2)])
qed

lemma add_comparison_result_stores:
  assumes "calculate_comp_id res = Inr i" "objects_exist db i" "i \<noteq> []" "flush res = Inr data"
    and "distinct (map fst (file_object_table db))"
  shows "\<exists>db'. add_comparison_result flush now res db = Inr db' \<and>
     map_of (comparison_table db') = (map_of (comparison_table db))(i \<mapsto> \<lparr>ce_submission_date = now, ce_data = data\<rparr>) \<and>
     db' = db\<lparr>comparison_table := comparison_table db', comparisons_table := comparisons_table db'\<rparr>"
proof (cases "map_of (comparison_table db) i")
  case (Some e)
  then show ?thesis
    using assms by (simp add: add_comparison_result_def comparison_exists_def update_comparison_def)
next
  case None
  have "set (py_split (CHR '';'') i) \<subseteq> file_uids db"
    using assms(2) objects_exist_iff [OF assms(5)] by (simp add: convert_compare_id_to_list_def)
  then have known: "\<not> list_ex (\<lambda>u. map_of (file_object_table db) u = None) (py_split (CHR '';'') i)"
    by (auto simp: list_ex_iff map_of_eq_None_iff)
  have "map_of (comparison_table db @ [(i, e)]) = (map_of (comparison_table db))(i \<mapsto> e)" for e
    using None by (auto simp: map_add_def fun_eq_iff split: option.splits)
  then show ?thesis
    using assms None known
    by (simp add: add_comparison_result_def comparison_exists_def insert_comparison_def Let_def)
qed

lemma normalize_Nil: "normalize_compare_id c = [] \<Longrightarrow> c = []"
proof -
  assume "normalize_compare_id c = []"
  moreover have "convert_compare_id_to_list (normalize_compare_id c) = sort (convert_compare_id_to_list c)"
    unfolding normalize_compare_id_def Let_def
    by (rule compare_id_roundtrip) (auto simp: convert_compare_id_to_list_def py_split_no_sep)
  ultimately have "sort (py_split (CHR '';'') c) = [[]]"
    by (simp add: convert_compare_id_to_list_def)
  then have "mset (py_split (CHR '';'') c) = {#[]#}"
    by (metis mset_single_iff mset_sort)
  then have "py_split (CHR '';'') c = [[]]"
    by simp
  then show "c = []"
    using py_join_split [of "CHR '';''" c] by simp
qed

lemma objects_exist_normalize:
  assumes "distinct (map fst (file_object_table db))" "objects_exist db c"
  shows "objects_exist db (normalize_compare_id c)"
proof -
  have "convert_compare_id_to_list (normalize_compare_id c) = sort (convert_compare_id_to_list c)"
    unfolding normalize_compare_id_def Let_def
    by (rule compare_id_roundtrip) (auto simp: convert_compare_id_to_list_def py_split_no_sep)
  then show ?thesis
    using assms(2) by (simp add: objects_exist_iff [OF assms(1)])
qed

lemma delete_comparison_frame:
  "file_object_table (delete_comparison c db) = file_object_table db"
  "objects_exist (delete_comparison c db) i = objects_exist db i"
  "get_comparison_result db c' = None \<Longrightarrow> get_comparison_result (delete_comparison c db) c' = None"
  "normalize_compare_id c' \<noteq> c \<Longrightarrow>
     get_comparison_result (delete_comparison c db) c' = get_comparison_result db c'"
proof -
  have look: "map_of (filter (\<lambda>(i, _). i \<noteq> c) d) k = (if k = c then None else map_of d k)" for d :: "(string \<times> 'v) list" and k
    by (induction d) auto
  show "file_object_table (delete_comparison c db) = file_object_table db"
    by (simp add: delete_comparison_def)
  then show "objects_exist (delete_comparison c db) i = objects_exist db i"
    by (simp add: objects_exist_def)
  show "get_comparison_result db c' = None \<Longrightarrow> get_comparison_result (delete_comparison c db) c' = None"
    "normalize_compare_id c' \<noteq> c \<Longrightarrow> get_comparison_result (delete_comparison c db) c' = get_comparison_result db c'"
    by (auto simp: get_comparison_result_def Let_def comparison_exists_def delete_comparison_def remove_comparisons_def look)
qed

text \<open>
  C20. A comparison that is taken from the queue, was not done before (or is to be redone) and succeeds is
  stored: afterwards its result is returned for every order of the compared files, with the time of the
  run; the results of all other comparisons and the files are as before, and the comparison counts as done.
\<close>

theorem comparison_run_stores:
  assumes queue: "in_queue s = (c, redo) # rest" "redo \<or> c \<notin> comparisons_done s"
    and files: "c \<noteq> []" "objects_exist (cs_db s) c" "distinct (map fst (file_object_table (cs_db s)))"
    and run: "compare_files env (if redo then delete_comparison c (cs_db s) else cs_db s) (convert_compare_id_to_list c) =
        Some (Inr res)" "c_flush env res = Inr data"
  shows "\<exists>s'. compare_single_run env now s = Some s' \<and> in_queue s' = rest \<and>
     comparisons_done s' = insert c (comparisons_done s) \<and>
     (\<forall>c'. get_comparison_result (cs_db s') c' =
        (if normalize_compare_id c' = normalize_compare_id c
         then Some (comparison_entry_to_dict \<lparr>ce_submission_date = now, ce_data = data\<rparr> (normalize_compare_id c))
         else get_comparison_result (cs_db s) c')) \<and>
     file_object_table (cs_db s') = file_object_table (cs_db s)"
proof -
  define db1 where "db1 = (if redo then delete_comparison c (cs_db s) else cs_db s)"
  let ?i = "normalize_compare_id c"
  have db1: "objects_exist db1 c" "distinct (map fst (file_object_table db1))"
    "file_object_table db1 = file_object_table (cs_db s)"
    using files by (simp_all add: db1_def delete_comparison_frame)
  have "distinct (convert_compare_id_to_list c)"
    using db1(1) objects_exist_iff [OF db1(2)] by blast
  then have "calculate_comp_id res = Inr ?i"
    using compare_files_id [OF run(1)] by (simp add: normalize_compare_id_def)
  moreover have "?i \<noteq> []"
    using normalize_Nil files(1) by blast
  ultimately
  obtain db' where db': "add_comparison_result (c_flush env) now res db1 = Inr db'"
    "map_of (comparison_table db') = (map_of (comparison_table db1))(?i \<mapsto> \<lparr>ce_submission_date = now, ce_data = data\<rparr>)"
    "db' = db1\<lparr>comparison_table := comparison_table db', comparisons_table := comparisons_table db'\<rparr>"
    using add_comparison_result_stores [where flush = "c_flush env", OF _ objects_exist_normalize [OF db1(2,1)] _ run(2) db1(2)]
    by blast
  have proc: "process_comparison env now c db1 = Some db'"
    using run(1) db'(1) by (simp add: process_comparison_def db1_def)
  have fo: "file_object_table db' = file_object_table (cs_db s)"
    using db1(3) by (subst db'(3)) simp
  have res: "get_comparison_result db' c' =
        (if normalize_compare_id c' = ?i
         then Some (comparison_entry_to_dict \<lparr>ce_submission_date = now, ce_data = data\<rparr> ?i)
         else get_comparison_result db1 c')" for c'
    using db'(2) files(1) normalize_Nil [of c]
    by (auto simp: get_comparison_result_def comparison_exists_def Let_def)
  have "get_comparison_result db1 c' = get_comparison_result (cs_db s) c'"
    if c': "normalize_compare_id c' \<noteq> ?i" for c'
  proof -
    have "normalize_compare_id c' \<noteq> c"
      using c' normalize_compare_id_idem [of c'] by auto
    then show ?thesis
      using delete_comparison_frame(4) by (simp add: db1_def)
  qed
  then show ?thesis
    using queue proc fo res
    by (auto simp: compare_single_run_def comparison_should_start_def Let_def db1_def)
qed



section \<open>Text files by path\<close>

lemma fold_insert_paths:
  "map_of (fold (\<lambda>vfp. dict_modify vfp {} (insert u)) ps d) q =
     (if q \<in> set ps then Some (insert u (case map_of d q of None \<Rightarrow> {} | Some s \<Rightarrow> s)) else map_of d q)"
  by (induction ps arbitrary: d) (auto simp: map_of_dict_modify split: option.splits)

definition path_users :: "(string \<times> string set) list \<Rightarrow> string \<Rightarrow> string set" where
  "path_users d q = (case map_of d q of None \<Rightarrow> {} | Some s \<Rightarrow> s)"

lemma path_users_paths: "path_users (fold (\<lambda>vfp. dict_modify vfp {} (insert u)) ps d) q =
    (if q \<in> set ps then {u} else {}) \<union> path_users d q"
  by (auto simp: path_users_def fold_insert_paths split: option.splits)

lemma path_users_dict:
  "path_users (fold (\<lambda>(_, ps). fold (\<lambda>vfp. dict_modify vfp {} (insert u)) ps) vd d) q =
     (if \<exists>(p, ps)\<in>set vd. q \<in> set ps then {u} else {}) \<union> path_users d q"
  by (induction vd arbitrary: d) (auto simp: path_users_paths split: if_splits)

lemma path_users_transpose:
  "u \<in> path_users (fold (\<lambda>(u, vfp_dict). fold (\<lambda>(_, vfp_list). fold (\<lambda>vfp. dict_modify vfp {} (insert u)) vfp_list) vfp_dict)
      vfp_data d) q \<longleftrightarrow> (\<exists>vd p ps. (u, vd) \<in> set vfp_data \<and> (p, ps) \<in> set vd \<and> q \<in> set ps) \<or> u \<in> path_users d q"
proof (induction vfp_data arbitrary: d)
  case (Cons x vfp_data)
  obtain v vd where x: "x = (v, vd)"
    by (cases x)
  show ?case
    unfolding x fold_simps prod.case o_apply Cons.IH path_users_dict by (auto split: if_splits)
qed simp

lemma transpose_vfp_dict_spec:
  "u \<in> path_users (transpose_vfp_dict vfp_data) q \<longleftrightarrow>
     (\<exists>vd p ps. (u, vd) \<in> set vfp_data \<and> (p, ps) \<in> set vd \<and> q \<in> set ps)"
  by (simp add: transpose_vfp_dict_def path_users_transpose) (simp add: path_users_def)

text \<open>Which paths the dictionary of \<open>get_vfps_for_uid_list\<close> holds\<close>

definition has_path :: "(string \<times> vfp_dict) list \<Rightarrow> vfp_row \<Rightarrow> bool" where
  "has_path d = (\<lambda>(p, u, q). \<exists>vd ps. map_of d u = Some vd \<and> map_of vd p = Some ps \<and> q \<in> set ps)"

definition nested_distinct :: "(string \<times> vfp_dict) list \<Rightarrow> bool" where
  "nested_distinct d \<longleftrightarrow> distinct (map fst d) \<and> (\<forall>vd\<in>snd ` set d. distinct (map fst vd))"

definition put_path :: "vfp_row \<Rightarrow> (string \<times> vfp_dict) list \<Rightarrow> (string \<times> vfp_dict) list" where
  "put_path = (\<lambda>(parent, f, path). dict_modify f [] (dict_modify parent [] (\<lambda>ps. ps @ [path])))"

lemma has_path_put: "has_path (put_path row d) r \<longleftrightarrow> r = row \<or> has_path d r"
  by (cases row; cases r) (auto simp: has_path_def put_path_def map_of_dict_modify split: option.splits if_splits)

lemma nested_distinct_update:
  assumes "nested_distinct d" "distinct (map fst v)"
  shows "nested_distinct (AList.update k v d)"
  using assms set_update_subset [of k v d] by (auto simp: nested_distinct_def)

lemma nested_distinct_put: "nested_distinct d \<Longrightarrow> nested_distinct (put_path row d)"
proof (cases row)
  case (fields parent f path)
  assume d: "nested_distinct d"
  let ?vd = "case map_of d f of None \<Rightarrow> [] | Some v \<Rightarrow> v"
  have vd: "distinct (map fst ?vd)"
    using d by (auto simp: nested_distinct_def split: option.splits dest!: map_of_SomeD)
  then have "distinct (map fst (dict_modify parent [] (\<lambda>ps. ps @ [path]) ?vd))"
    by (simp add: dict_modify_def)
  moreover have "put_path row d = AList.update f (dict_modify parent [] (\<lambda>ps. ps @ [path]) ?vd) d"
    by (simp add: fields put_path_def dict_modify_def)
  ultimately show ?thesis
    using nested_distinct_update [OF d] by simp
qed

lemma fold_put_path:
  "nested_distinct d \<Longrightarrow> nested_distinct (fold put_path rows d) \<and>
     (\<forall>r. has_path (fold put_path rows d) r \<longleftrightarrow> r \<in> set rows \<or> has_path d r)"
  by (induction rows arbitrary: d) (auto simp: has_path_put nested_distinct_put)

lemma transpose_has_path:
  assumes "nested_distinct d"
  shows "u \<in> path_users (transpose_vfp_dict d) q \<longleftrightarrow> (\<exists>p. has_path d (p, u, q))"
proof -
  have "(u, vd) \<in> set d \<longleftrightarrow> map_of d u = Some vd" for vd
    using assms by (simp add: nested_distinct_def)
  moreover have "(p, ps) \<in> set vd \<longleftrightarrow> map_of vd p = Some ps" if "map_of d u = Some vd" for p ps vd
    using assms that by (force simp: nested_distinct_def dest: map_of_SomeD)
  ultimately show ?thesis
    unfolding transpose_vfp_dict_spec has_path_def by fastforce
qed

lemma set_join_row:
  "set (case filter (\<lambda>(r, f). f = p) fws of [] \<Rightarrow> [(row, None)] | a # as \<Rightarrow> map (\<lambda>(r, _). (row, Some r)) (a # as)) =
     (if \<exists>r. (r, p) \<in> set fws then {(row, Some r) | r. (r, p) \<in> set fws} else {(row, None)})"
proof (cases "filter (\<lambda>(r, f). f = p) fws")
  case Nil
  then show ?thesis
    by (auto simp: filter_empty_conv)
next
  case (Cons a as)
  have "set (a # as) = {(r, p) | r. (r, p) \<in> set fws}"
    unfolding Cons [symmetric] by auto
  moreover have "a \<in> set (a # as)"
    by simp
  ultimately show ?thesis
    unfolding Cons list.case set_map by (auto simp del: set_simps)
qed

lemma set_vfp_join_fw:
  "(row, x) \<in> set (vfp_join_fw db rows) \<longleftrightarrow> row \<in> set rows \<and>
     (case x of None \<Rightarrow> \<forall>r. (r, fst row) \<notin> set (fw_files_table db) | Some r \<Rightarrow> (r, fst row) \<in> set (fw_files_table db))"
proof -
  have "set (vfp_join_fw db rows) = (\<Union>row\<in>set rows.
     if \<exists>r. (r, fst row) \<in> set (fw_files_table db)
     then {(row, Some r) | r. (r, fst row) \<in> set (fw_files_table db)} else {(row, None)})"
    unfolding vfp_join_fw_def set_concat set_map image_image proof (rule SUP_cong [OF refl])
    fix row :: vfp_row
    obtain parent f path where "row = (parent, f, path)"
      by (cases row)
    then show "set (case row of (parent, _, _) \<Rightarrow> (case filter (\<lambda>(r, f). f = parent) (fw_files_table db) of
        [] \<Rightarrow> [(row, None)] | a # as \<Rightarrow> map (\<lambda>(r, _). (row, Some r)) (a # as))) =
      (if \<exists>r. (r, fst row) \<in> set (fw_files_table db)
       then {(row, Some r) | r. (r, fst row) \<in> set (fw_files_table db)} else {(row, None)})"
      using set_join_row [where p = parent and fws = "fw_files_table db" and row = row] by (simp only: prod.case fst_conv)
  qed
  then show ?thesis
    by (auto split: option.splits if_splits)
qed

lemma set_filter_vfp_root:
  "row \<in> set (filter_vfp_root db r rows) \<longleftrightarrow>
     row \<in> set rows \<and> (fst row = r \<or> (r, fst row) \<in> set (fw_files_table db))"
proof -
  have "row \<in> set (filter_vfp_root db r rows) \<longleftrightarrow>
     (\<exists>x. (row, x) \<in> set (vfp_join_fw db rows) \<and> (x = Some r \<or> fst row = r))"
    unfolding filter_vfp_root_def by force
  also have "\<dots> \<longleftrightarrow> row \<in> set rows \<and> (fst row = r \<or> (r, fst row) \<in> set (fw_files_table db))"
    unfolding set_vfp_join_fw by (auto split: option.splits)
  finally show ?thesis .
qed

lemma is_text_file_iff:
  "is_text_file db u \<longleftrightarrow> (\<exists>a m. map_of (analysis_table db) (u, ''file_type'') = Some a \<and>
     json_field (ae_result a) ''mime'' = PStr m \<and> (\<exists>t. m = ''text/'' @ t))"
  by (auto simp: is_text_file_def starts_with_iff split: option.splits pyval.splits)

text \<open>
  For every path, the comparison by paths is given exactly the text files of the firmware that are not
  excluded and lie at this path in the firmware or in one of its files.
\<close>

lemma text_file_path_users:
  assumes "r \<noteq> []"
  shows "u \<in> path_users (get_vfp_of_included_text_files db r blacklist) q \<longleftrightarrow>
     (r, u) \<in> set (fw_files_table db) \<and> map_of (file_object_table db) u \<noteq> None \<and> u \<notin> blacklist \<and>
     (\<exists>a m. map_of (analysis_table db) (u, ''file_type'') = Some a \<and>
        json_field (ae_result a) ''mime'' = PStr m \<and> (\<exists>t. m = ''text/'' @ t)) \<and>
     (\<exists>p. (p, u, q) \<in> set (vfp_table db) \<and> (p = r \<or> (r, p) \<in> set (fw_files_table db)))"
proof -
  let ?us = "text_file_uids db r blacklist"
  let ?rows = "filter_vfp_root db r (filter (\<lambda>(_, f, _). f \<in> set ?us) (vfp_table db))"
  have us: "u \<in> set ?us \<longleftrightarrow> (r, u) \<in> set (fw_files_table db) \<and> map_of (file_object_table db) u \<noteq> None \<and> u \<notin> blacklist \<and>
     (\<exists>a m. map_of (analysis_table db) (u, ''file_type'') = Some a \<and>
        json_field (ae_result a) ''mime'' = PStr m \<and> (\<exists>t. m = ''text/'' @ t))"
    unfolding text_file_uids_def is_text_file_iff [symmetric] by (force simp: image_iff)
  have "get_vfps_for_uid_list db ?us (Some r) = (if ?us = [] then [] else fold put_path ?rows [])"
    using assms by (simp add: get_vfps_for_uid_list_def Let_def put_path_def)
  moreover have "nested_distinct []" "\<not> has_path [] x" for x
    by (simp_all add: nested_distinct_def has_path_def split: prod.splits)
  moreover have "?us = [] \<Longrightarrow> ?rows = []"
    by (simp add: filter_vfp_root_def vfp_join_fw_def)
  ultimately have "nested_distinct (get_vfps_for_uid_list db ?us (Some r)) \<and>
      (\<forall>x. has_path (get_vfps_for_uid_list db ?us (Some r)) x \<longleftrightarrow> x \<in> set ?rows)"
    using fold_put_path [of "[]" ?rows] by (cases "?us = []") simp_all
  then have "u \<in> path_users (get_vfp_of_included_text_files db r blacklist) q \<longleftrightarrow> (\<exists>p. (p, u, q) \<in> set ?rows)"
    by (simp add: get_vfp_of_included_text_files_def transpose_has_path)
  also have "\<dots> \<longleftrightarrow> u \<in> set ?us \<and> (\<exists>p. (p, u, q) \<in> set (vfp_table db) \<and> (p = r \<or> (r, p) \<in> set (fw_files_table db)))"
    unfolding set_filter_vfp_root by auto
  finally show ?thesis
    unfolding us by (simp only: conj_assoc)
qed

section \<open>Integrity\<close>

text \<open>Comparisons have unique keys, and rows of the relation between comparisons and files refer to both.\<close>

definition comparisons_ok :: "database \<Rightarrow> bool" where
  "comparisons_ok db \<longleftrightarrow> distinct (map fst (comparison_table db)) \<and>
     fst ` set (comparisons_table db) \<subseteq> fst ` set (comparison_table db)"

lemma add_comparison_cases:
  assumes "add_comparison_result flush now res db = Inr db'"
  shows "db' = db \<or>
    (\<exists>i e. map_of (comparison_table db) i \<noteq> None \<and> db' = db\<lparr>comparison_table := AList.update i e (comparison_table db)\<rparr>) \<or>
    (\<exists>i e us. map_of (comparison_table db) i = None \<and> set us \<subseteq> file_uids db \<and>
       db' = db\<lparr>comparison_table := comparison_table db @ [(i, e)], comparisons_table := comparisons_table db @ map (\<lambda>u. (i, u)) us\<rparr>)"
proof -
  obtain i where i: "db' = db \<or> update_comparison flush now i res db = Inr db' \<or> insert_comparison flush now i res db = Inr db'"
    using assms by (auto simp: add_comparison_result_def result_simps split: if_splits)
  moreover have ?thesis if upd: "update_comparison flush now i res db = Inr db'"
  proof -
    obtain e data where "map_of (comparison_table db) i = Some e"
      "db' = db\<lparr>comparison_table := AList.update i \<lparr>ce_submission_date = now, ce_data = data\<rparr> (comparison_table db)\<rparr>"
      using upd by (auto simp: update_comparison_def result_simps split: option.splits)
    then show ?thesis by blast
  qed
  moreover have ?thesis if ins: "insert_comparison flush now i res db = Inr db'"
  proof -
    obtain data where "map_of (comparison_table db) i = None"
      "\<not> list_ex (\<lambda>u. map_of (file_object_table db) u = None) (py_split (CHR '';'') i)"
      "db' = db\<lparr>comparison_table := comparison_table db @ [(i, \<lparr>ce_submission_date = now, ce_data = data\<rparr>)],
         comparisons_table := comparisons_table db @ map (\<lambda>u. (i, u)) (py_split (CHR '';'') i)\<rparr>"
      using ins by (auto simp: insert_comparison_def result_simps Let_def split: if_splits)
    moreover from this(2) have "set (py_split (CHR '';'') i) \<subseteq> file_uids db"
      by (auto simp: list_ex_iff map_of_eq_None_iff)
    ultimately show ?thesis by blast
  qed
  ultimately show ?thesis by blast
qed

lemma db_ok_comparison_tables:
  assumes "db_ok db" "snd ` set cs \<subseteq> file_uids db"
  shows "db_ok (db\<lparr>comparison_table := ct, comparisons_table := cs\<rparr>)"
  using assms by (simp add: db_ok_def keys_ok_def refs_ok_def refs_at_def)

lemma add_comparison_ok:
  assumes "add_comparison_result flush now res db = Inr db'" "db_ok db" "comparisons_ok db"
  shows "db_ok db' \<and> comparisons_ok db'"
proof -
  have refs: "snd ` set (comparisons_table db) \<subseteq> file_uids db"
    using assms(2) by (simp add: db_ok_def refs_ok_def refs_at_def)
  show ?thesis
    using add_comparison_cases [OF assms(1)]
  proof (elim disjE exE conjE)
    fix i e
    assume i: "map_of (comparison_table db) i \<noteq> None" "db' = db\<lparr>comparison_table := AList.update i e (comparison_table db)\<rparr>"
    have "db_ok db'"
      using db_ok_comparison_tables [OF assms(2) refs, of "AList.update i e (comparison_table db)"] by (simp add: i(2))
    moreover have "comparisons_ok db'"
      using assms(3) by (auto simp: comparisons_ok_def i(2) dom_update)
    ultimately show ?thesis ..
  next
    fix i e us
    assume i: "map_of (comparison_table db) i = None" "set us \<subseteq> file_uids db"
      "db' = db\<lparr>comparison_table := comparison_table db @ [(i, e)], comparisons_table := comparisons_table db @ map (\<lambda>u. (i, u)) us\<rparr>"
    have "db_ok db'"
      using refs i(2) unfolding i(3) by (intro db_ok_comparison_tables [OF assms(2)]) auto
    moreover have "comparisons_ok db'"
      using assms(3) i(1) by (auto simp: comparisons_ok_def i(3) map_of_eq_None_iff)
    ultimately show ?thesis ..
  qed (use assms in simp)
qed

lemma process_comparison_ok:
  assumes "process_comparison env now i db = Some db'" "db_ok db" "comparisons_ok db"
  shows "db_ok db' \<and> comparisons_ok db'"
proof -
  obtain r where "db' = (case bindE r (\<lambda>res. add_comparison_result (c_flush env) now res db) of Inl _ \<Rightarrow> db | Inr db' \<Rightarrow> db')"
    using assms(1) by (auto simp: process_comparison_def)
  then consider "db' = db" | res where "add_comparison_result (c_flush env) now res db = Inr db'"
    by (cases r) (auto split: sum.splits)
  then show ?thesis
    using assms(2,3) add_comparison_ok by cases blast+
qed

lemma comparisons_ok_remove: "comparisons_ok db \<Longrightarrow> comparisons_ok (remove_comparisons ids db)"
  by (force simp: comparisons_ok_def remove_comparisons_def distinct_map_filter)

definition same_comparisons :: "database \<Rightarrow> database \<Rightarrow> bool" where
  "same_comparisons db db' \<longleftrightarrow> comparison_table db' = comparison_table db \<and> comparisons_table db' = comparisons_table db"

named_theorems comparison_frame \<open>operations that leave the comparisons alone\<close>

lemma update_parents_comparisons [comparison_frame]:
  "update_parents roots ps u db = Inr db' \<Longrightarrow> same_comparisons db db'"
  by (auto simp: update_parents_def same_comparisons_def result_simps)

lemma update_file_object_comparisons [comparison_frame]:
  "update_file_object fo db = Inr db' \<Longrightarrow> same_comparisons db db'"
  by (auto simp: update_file_object_def update_virtual_file_path_def same_comparisons_def result_simps Let_def
      split: option.splits if_splits dest!: comparison_frame)

lemma update_object_comparisons: "same_comparisons db (fst (update_object fo db))"
proof -
  have fw: "same_comparisons db db1" if "update_firmware u fw db = Inr db1" for u fw db1
    using that by (auto simp: update_firmware_def same_comparisons_def split: option.splits sum.splits)
  show ?thesis
    using update_file_object_comparisons
    by (auto simp: update_object_def same_comparisons_def split: option.splits sum.splits if_splits dest!: fw)
qed

lemma insert_object_comparisons [comparison_frame]:
  "insert_object decode flush now fo db = Inr db' \<Longrightarrow> same_comparisons db db'"
  by (auto simp: insert_object_def insert_firmware_def insert_file_object_def same_comparisons_def result_simps
      split: option.splits prod.splits dest!: comparison_frame)

lemma add_analysis_comparisons [comparison_frame]:
  "db_add_analysis decode flush u p d db = Inr db' \<Longrightarrow> same_comparisons db db'"
  by (auto simp: db_add_analysis_def insert_analysis_def update_analysis_def same_comparisons_def result_simps
      split: sum.splits py_error.splits if_splits)

lemma same_comparisons_ok: "same_comparisons db db' \<Longrightarrow> comparisons_ok db \<Longrightarrow> comparisons_ok db'"
  by (simp add: same_comparisons_def comparisons_ok_def)

lemma comparisons_ok_remove_files: "comparisons_ok db \<Longrightarrow> comparisons_ok (remove_files us db)"
  by (force simp: comparisons_ok_def remove_files_def)

lemma comparisons_ok_delete_object: "comparisons_ok db \<Longrightarrow> comparisons_ok (delete_object u db)"
  by (simp add: delete_object_def delete_file_orphans_def Let_def comparisons_ok_remove_files comparisons_ok_remove)

lemma simple_comparisons:
  "add_vfp parent child ps db = Inr db' \<Longrightarrow> same_comparisons db db'"
  "update_file_object_parents f r parent db = Inr db' \<Longrightarrow> same_comparisons db db'"
  "add_comment_to_object u c author t p db = Inr db' \<Longrightarrow> same_comparisons db db'"
  "delete_comment u t db = Inr db' \<Longrightarrow> same_comparisons db db'"
  "same_comparisons db (add_child_to_parent parent child db)"
  by (auto simp: same_comparisons_def add_vfp_def update_file_object_parents_def add_comment_to_object_def
      delete_comment_def add_child_to_parent_def result_simps split: option.splits dest!: comparison_frame)

lemma db_step_comparisons: "db_step db db' \<Longrightarrow> comparisons_ok db \<Longrightarrow> comparisons_ok db'"
proof (induction rule: db_step.induct)
  case (delete_fw db u del)
  then show ?case
    by (simp add: delete_firmware_def Let_def comparisons_ok_delete_object split: option.splits)
next
  case (delete_cmp db i)
  then show ?case
    by (simp add: delete_comparison_def comparisons_ok_remove)
qed (erule (1) same_comparisons_ok [OF insert_object_comparisons] same_comparisons_ok [OF add_analysis_comparisons]
      same_comparisons_ok [OF simple_comparisons(1)] same_comparisons_ok [OF simple_comparisons(2)]
      same_comparisons_ok [OF simple_comparisons(3)] same_comparisons_ok [OF simple_comparisons(4)]
    | rule same_comparisons_ok [OF update_object_comparisons] same_comparisons_ok [OF simple_comparisons(5)]
      comparisons_ok_delete_object, assumption)+

text \<open>
  C23. Whatever sequence of comparisons and other database operations is performed, starting from an empty
  database: keys stay unique, every comparison is related to existing files only, and no file is related to a
  comparison that does not exist.
\<close>

theorem comparison_integrity:
  assumes "(\<lambda>db db'. db_step db db' \<or> (\<exists>env now i. process_comparison env now i db = Some db'))\<^sup>*\<^sup>* empty_database db"
  shows "db_ok db \<and> comparisons_ok db"
  using assms
proof (induction rule: rtranclp_induct)
  case base
  show ?case
    using db_ok_empty by (simp add: comparisons_ok_def empty_database_def)
next
  case (step db db')
  then show ?case
    using db_step_ok db_step_comparisons process_comparison_ok by blast
qed

section \<open>Witnesses\<close>

definition example_compare_env :: compare_env where
  "example_compare_env = \<lparr>c_plugins = example_table, c_storage = ''/media'', c_read_file = \<lambda>_. ''content'',
     c_flush = Inr, c_fuel = 1\<rparr>"

definition example_scheduler :: comparison_scheduler where
  "example_scheduler = \<lparr>in_queue = [(''f2;f1'', False)], comparisons_done = {}, cs_db = shared_db,
     cs_callback = True, callbacks_called = 0\<rparr>"

lemma example_load:
  assumes "u = ''f1'' \<or> u = ''f2''"
  shows "\<exists>fo. get_complete_object_including_all_summaries 1 shared_db u = Some (Inr fo) \<and>
     uid fo = u \<and> firmware fo \<noteq> None \<and> list_of_all_included_files fo \<noteq> None"
  using assms
  by (auto simp: get_complete_object_including_all_summaries_def get_object_def is_firmware_def get_firmware_def
      db_firmware_from_entry_def collect_analysis_tags_from_children_def analyses_of_def map_filter_def shared_db_def
      empty_database_def firmware_from_entry_def populate_fo_data_def get_list_of_all_included_files_def
      is_firmware_object_def empty_file_object_def result_simps Let_def)

lemma firmware_general_section:
  assumes "firmware fo \<noteq> None" "list_of_all_included_files fo \<noteq> None" "fo \<in> set fos"
  shows "\<exists>es. general_section (get_vfp_data db fos) fo = Inr es"
proof -
  have "map_of (fold (\<lambda>fo d. if is_firmware_object fo then AList.update (uid fo) (PList [opt_val (file_name fo)]) d else d) xs d)
      (uid fo) \<noteq> None"
    if "fo \<in> set xs \<or> map_of d (uid fo) \<noteq> None" for xs d
    using that
  proof (induction xs arbitrary: d)
    case (Cons x xs)
    have "fo \<in> set xs \<or> map_of (if is_firmware_object x then AList.update (uid x) (PList [opt_val (file_name x)]) d else d)
        (uid fo) \<noteq> None"
      using Cons.prems assms(1) by (auto simp: is_firmware_object_def)
    then show ?case
      unfolding fold_simps by (rule Cons.IH)
  qed simp
  then have "map_of (get_vfp_data db fos) (uid fo) \<noteq> None"
    using assms(3) unfolding get_vfp_data_def by blast
  then show ?thesis
    using assms(2) by (auto simp: general_section_def dict_item_def)
qed

lemma create_general_returns:
  "\<forall>fo\<in>set fos. is_ok (general_section vfps fo) \<Longrightarrow> is_ok (create_general_loop vfps fos g)"
  by (induction fos arbitrary: g) (auto simp: is_ok_iff)

lemma example_comparison: "\<exists>res. compare_files example_compare_env shared_db [''f2'', ''f1''] = Some (Inr res)"
proof -
  obtain f1 f2 where f: "get_complete_object_including_all_summaries 1 shared_db ''f1'' = Some (Inr f1)"
      "get_complete_object_including_all_summaries 1 shared_db ''f2'' = Some (Inr f2)"
      "firmware f1 \<noteq> None \<and> list_of_all_included_files f1 \<noteq> None"
      "firmware f2 \<noteq> None \<and> list_of_all_included_files f2 \<noteq> None"
    using example_load [OF disjI1 [OF refl]] example_load [OF disjI2 [OF refl]] by blast
  let ?bin = "\<lambda>fo. fo\<lparr>binary := fst (get_binary_and_file_name (\<lambda>_. ''content'') ''/media'' shared_db (uid fo))\<rparr>"
  have load: "load_objects example_compare_env shared_db [''f2'', ''f1''] = Some (Inr [?bin f2, ?bin f1])"
    using f by (simp add: example_compare_env_def)
  have "\<forall>fo\<in>set [?bin f2, ?bin f1]. is_ok (general_section (get_vfp_data shared_db [?bin f2, ?bin f1]) fo)"
    using f(3,4) firmware_general_section [of _ "[?bin f2, ?bin f1]" shared_db] by (auto simp: is_ok_iff)
  from create_general_returns [OF this, of "[]"]
  obtain g where g: "create_general_section_dict shared_db [?bin f2, ?bin f1] = Inr g"
    by (auto simp: create_general_section_dict_def is_ok_iff)
  have "\<exists>r. execute_compare_plugins example_table fos = Some (Inr r)" for fos
    by (simp add: execute_compare_plugins_def schedule_comparison_plugins_def init_visit_def example_table_def
        example_plugin_def plugin_compare_def get_missing_comparison_deps_def get_missing_analysis_deps_def
        dependency_was_skipped_def py_lower_def lower_char_def)
  then show ?thesis
    using load g by (fastforce simp: compare_files_def compare_objects_def example_compare_env_def)
qed

lemma example_queue:
  "in_queue example_scheduler = [(''f2;f1'', False)]" "comparisons_done example_scheduler = {}"
  "cs_db example_scheduler = shared_db" "convert_compare_id_to_list ''f2;f1'' = [''f2'', ''f1'']"
  by (simp_all add: example_scheduler_def convert_compare_id_to_list_def)

theorem comparison_run_stores_witness:
  "\<exists>s' d. compare_single_run example_compare_env 7 example_scheduler = Some s' \<and> in_queue s' = [] \<and>
     get_comparison_result (cs_db s') ''f1;f2'' = Some d \<and> map_of d ''submission_date'' = Some (PFloat 7)"
proof -
  obtain res where res: "compare_files example_compare_env shared_db [''f2'', ''f1''] = Some (Inr res)"
    using example_comparison by blast
  have exist: "objects_exist shared_db ''f2;f1''"
    by (simp add: objects_exist_def convert_compare_id_to_list_def shared_db_def)
  have dist: "distinct (map fst (file_object_table shared_db))"
    by (simp add: shared_db_def)
  have flush: "c_flush example_compare_env res = Inr res"
    by (simp add: example_compare_env_def)
  have same: "normalize_compare_id ''f1;f2'' = normalize_compare_id ''f2;f1''"
    by (simp add: normalize_compare_id_def convert_compare_id_to_list_def convert_uid_list_to_compare_id_def)
  have new: "False \<or> ''f2;f1'' \<notin> {}" and ne: "''f2;f1'' \<noteq> []"
    by simp_all
  obtain s' where s': "compare_single_run example_compare_env 7 example_scheduler = Some s'" "in_queue s' = []"
      "\<forall>c'. get_comparison_result (cs_db s') c' = (if normalize_compare_id c' = normalize_compare_id ''f2;f1''
        then Some (comparison_entry_to_dict \<lparr>ce_submission_date = 7, ce_data = res\<rparr> (normalize_compare_id ''f2;f1''))
        else get_comparison_result shared_db c')"
    using comparison_run_stores [where s = example_scheduler and c = "''f2;f1''" and redo = False and rest = "[]" and
      now = 7, unfolded example_queue if_False, OF refl new ne exist dist res flush] by blast
  have "get_comparison_result (cs_db s') ''f1;f2'' =
      Some (comparison_entry_to_dict \<lparr>ce_submission_date = 7, ce_data = res\<rparr> (normalize_compare_id ''f2;f1''))"
    unfolding s'(3) [rule_format] same by (rule if_P) (rule refl)
  then show ?thesis
    using s'(1,2) by (intro exI conjI) (assumption+, simp add: comparison_entry_to_dict_def)
qed


theorem execute_compare_plugins_witness:
  "\<exists>res. execute_compare_plugins example_table [] = Some (Inr res) \<and> distinct (map fst res) \<and>
     fst ` set res = {k. schedulable (compare_deps example_table) (fst ` set example_table) k}"
proof -
  have "table_ok example_table"
    by (simp add: table_ok_def example_table_def example_plugin_def)
  moreover have "\<exists>r. execute_compare_plugins example_table [] = Some (Inr r)"
    by (simp add: execute_compare_plugins_def schedule_comparison_plugins_def init_visit_def example_table_def
        example_plugin_def plugin_compare_def get_missing_comparison_deps_def get_missing_analysis_deps_def
        dependency_was_skipped_def py_lower_def lower_char_def)
  ultimately show ?thesis
    using execute_compare_plugins_correct by blast
qed

theorem comparison_integrity_witness:
  "\<exists>db. (\<lambda>db db'. db_step db db' \<or> (\<exists>env now i. process_comparison env now i db = Some db'))\<^sup>*\<^sup>* empty_database db \<and>
     file_uids db = {''fw''} \<and> db_ok db \<and> comparisons_ok db"
proof -
  obtain db where db: "insert_object plain_codec no_flush 0 example_fw_object empty_database = Inr db"
    "file_uids db = {''fw''}"
    using example_insert_firmware by blast
  have "distinct (map fst (processed_analysis example_fw_object))"
    by (simp add: example_fw_object_def empty_file_object_def)
  then have "db_step empty_database db"
    using db(1) by (blast intro: db_step.insert)
  then have "(\<lambda>db db'. db_step db db' \<or> (\<exists>env now i. process_comparison env now i db = Some db'))\<^sup>*\<^sup>* empty_database db"
    by (intro r_into_rtranclp) simp
  then show ?thesis
    using comparison_integrity db(2) by blast
qed

text \<open>The exclusive files of a comparison that is not in the database cannot be asked for.\<close>

lemma exclusive_files_of_missing_comparison:
  "get_comparison_result db i = None \<Longrightarrow> get_exclusive_files db (Some i) (Some r) = Inl TypeError"
  by (simp add: get_exclusive_files_def)

end
