(* ===== verification/Yara_Search.thy ===== *)
theory Yara_Search
  imports Database File_Storage
begin

text \<open>
  \<^verbatim>\<open>src/src/helperFunctions/yara_binary_search.py\<close>: searching the stored files with YARA rules and parsing
  the text the program prints. The YARA library and program are parameters (\<open>yara_env\<close>). The regular
  expression of \<open>_parse_raw_result\<close> is modelled by the search \<open>findall_results\<close>: at every position from
  left to right it tries to match one block, a line with rule and path followed by lines with matching
  strings, and goes on after the block or one character later. Each part of the expression is followed
  by a character it cannot contain, so the greedy match is the only one.
\<close>

section \<open>The regular expression\<close>

definition newline :: char where "newline = CHR 0x0A"

text \<open>\<^verbatim>\<open>0x[0-9a-f]+:\$[a-zA-Z0-9_]+: .+\n\<close>: the line and the rest of the text\<close>

definition match_string_line :: "string \<Rightarrow> (string \<times> string) option" where
  "match_string_line s =
     (let hex = takeWhile is_hex_char (drop 2 s); r1 = dropWhile is_hex_char (drop 2 s);
          cond = takeWhile is_ident_char (drop 2 r1); r2 = dropWhile is_ident_char (drop 2 r1);
          text = takeWhile (\<lambda>c. c \<noteq> newline) (drop 2 r2); r3 = dropWhile (\<lambda>c. c \<noteq> newline) (drop 2 r2)
      in if starts_with ''0x'' s \<and> hex \<noteq> [] \<and> starts_with '':$'' r1 \<and> cond \<noteq> [] \<and> starts_with '': '' r2 \<and>
            text \<noteq> [] \<and> r3 \<noteq> []
         then Some (''0x'' @ hex @ '':$'' @ cond @ '': '' @ text, tl r3) else None)"

lemma dropWhile_drop_le: "length (dropWhile P (drop n xs)) \<le> length xs"
  using length_dropWhile_le [of P "drop n xs"] by simp

lemma match_string_line_shorter:
  assumes "match_string_line s = Some (l, r)"
  shows "length r < length s"
proof -
  let ?r1 = "dropWhile is_hex_char (drop 2 s)"
  let ?r2 = "dropWhile is_ident_char (drop 2 ?r1)"
  let ?r3 = "dropWhile (\<lambda>c. c \<noteq> newline) (drop 2 ?r2)"
  have "r = tl ?r3" "?r3 \<noteq> []"
    using assms by (auto simp: match_string_line_def Let_def split: if_splits)
  moreover have "length ?r3 \<le> length s"
    using dropWhile_drop_le [of "\<lambda>c. c \<noteq> newline" 2 ?r2] dropWhile_drop_le [of is_ident_char 2 ?r1]
      dropWhile_drop_le [of is_hex_char 2 s] by linarith
  ultimately have "length r < length ?r3"
    by (simp only: length_tl) simp
  with \<open>length ?r3 \<le> length s\<close> show ?thesis
    by (rule less_le_trans [rotated])
qed

function match_string_lines :: "string \<Rightarrow> string list \<times> string" where
  "match_string_lines s = (case match_string_line s of
       None \<Rightarrow> ([], s)
     | Some (l, r) \<Rightarrow> (case match_string_lines r of (ls, r') \<Rightarrow> (l # ls, r')))"
  by pat_completeness auto
termination
  by (relation "measure length") (auto dest: match_string_line_shorter)

declare match_string_lines.simps [simp del]

text \<open>A block: the lines of the match and the rest of the text\<close>

definition match_result :: "string \<Rightarrow> ((string \<times> string list) \<times> string) option" where
  "match_result s = (case s of
       [] \<Rightarrow> None
     | c # t \<Rightarrow>
         (let name = takeWhile is_ident_char t; r1 = dropWhile is_ident_char t;
              path = takeWhile (\<lambda>c. c \<noteq> newline) (tl r1); r2 = dropWhile (\<lambda>c. c \<noteq> newline) (tl r1)
          in case match_string_lines (tl r2) of (ls, r) \<Rightarrow>
               if is_name_start c \<and> name \<noteq> [] \<and> starts_with '' '' r1 \<and> path \<noteq> [] \<and> r2 \<noteq> [] \<and> ls \<noteq> []
               then Some ((c # name @ '' '' @ path, ls), r) else None))"

lemma match_string_lines_le: "match_string_lines s = (ls, r) \<Longrightarrow> length r \<le> length s"
proof (induction s arbitrary: ls rule: match_string_lines.induct)
  case (1 s)
  show ?case
  proof (cases "match_string_line s")
    case None
    then show ?thesis
      using 1(2) by (simp add: match_string_lines.simps [of s])
  next
    case (Some p)
    obtain l r1 where p: "p = (l, r1)"
      by (cases p)
    obtain ls1 where "match_string_lines r1 = (ls1, r)"
      using 1(2) Some p by (auto simp: match_string_lines.simps [of s] split: prod.splits)
    then show ?thesis
      using 1(1) [OF Some p [symmetric]] match_string_line_shorter [of s l r1] Some p by fastforce
  qed
qed

lemma match_result_shorter:
  assumes "match_result s = Some (m, r)"
  shows "length r < length s"
proof -
  obtain c t where s: "s = c # t"
    using assms by (cases s) (auto simp: match_result_def)
  let ?r1 = "dropWhile is_ident_char t"
  let ?r2 = "dropWhile (\<lambda>c. c \<noteq> newline) (tl ?r1)"
  obtain ls where "match_string_lines (tl ?r2) = (ls, r)"
    using assms by (auto simp: match_result_def s Let_def split: prod.splits if_splits)
  then have "length r \<le> length (tl ?r2)"
    by (rule match_string_lines_le)
  also have "\<dots> \<le> length t"
    using length_dropWhile_le [of "\<lambda>c. c \<noteq> newline" "tl ?r1"] length_dropWhile_le [of is_ident_char t] by simp
  finally show ?thesis
    by (simp add: s)
qed

function findall_results :: "string \<Rightarrow> (string \<times> string list) list" where
  "findall_results s = (case s of
       [] \<Rightarrow> []
     | c # t \<Rightarrow> (case match_result s of
           None \<Rightarrow> findall_results t
         | Some (m, r) \<Rightarrow> m # findall_results r))"
  by pat_completeness auto
termination
  by (relation "measure length") (auto dest: match_result_shorter)

declare findall_results.simps [simp del]

section \<open>Parsing\<close>

text \<open>
  The characters at which \<open>splitlines\<close> splits: more than the newline that
  ends a line for the regular expression.
\<close>

definition line_separators :: "char list" where
  "line_separators = [CHR 0x0A, CHR 0x0B, CHR 0x0C, CHR 0x0D, CHR 0x1C, CHR 0x1D, CHR 0x1E, CHR 0x85]"

fun py_splitlines :: "string \<Rightarrow> string list" where
  "py_splitlines [] = []"
| "py_splitlines (c # s) =
     (if c \<in> set line_separators
      then [] # py_splitlines (if c = CHR 0x0D \<and> s \<noteq> [] \<and> hd s = CHR 0x0A then tl s else s)
      else (case py_splitlines s of
          [] \<Rightarrow> [[c]]
        | l # ls \<Rightarrow> (c # l) # ls))"

record yara_match =
  m_offset :: string
  m_condition :: string
  m_match :: string

type_synonym yara_results = "(string \<times> (string \<times> yara_match list) list) list"

definition put_match :: "string \<Rightarrow> string \<Rightarrow> yara_match list \<Rightarrow> yara_results \<Rightarrow> yara_results" where
  "put_match u rule ms results = dict_modify u [] (dict_modify rule [] (\<lambda>xs. xs @ ms)) results"

definition matches_of :: "yara_results \<Rightarrow> string \<Rightarrow> string \<Rightarrow> yara_match list" where
  "matches_of results u rule = (case map_of results u of
       None \<Rightarrow> []
     | Some d \<Rightarrow> (case map_of d rule of None \<Rightarrow> [] | Some ms \<Rightarrow> ms))"

text \<open>A line that does not have three parts cannot be unpacked: \<open>ValueError\<close>.\<close>

definition parse_match_line :: "string \<Rightarrow> yara_match result" where
  "parse_match_line line = (case py_split_max (CHR '':'') 2 line of
       [offset, condition, match_str] \<Rightarrow> Inr \<lparr>m_offset = offset, m_condition = condition, m_match = drop 1 match_str\<rparr>
     | _ \<Rightarrow> Inl ValueError)"

fun parse_match_lines :: "int \<Rightarrow> string \<Rightarrow> string \<Rightarrow> string list \<Rightarrow> yara_results \<Rightarrow> yara_results result" where
  "parse_match_lines limit u rule [] results = Inr results"
| "parse_match_lines limit u rule (line # lines) results =
     bindE (parse_match_line line) (\<lambda>m.
       let results1 = put_match u rule [m] results
       in if int (length (matches_of results1 u rule)) \<ge> limit then Inr results1
          else parse_match_lines limit u rule lines results1)"

definition parse_block :: "int \<Rightarrow> string \<Rightarrow> yara_results \<Rightarrow> yara_results result" where
  "parse_block limit result_str results = (case py_splitlines result_str of
       [] \<Rightarrow> Inl ValueError
     | rule_str # match_lines \<Rightarrow> (case py_split_max (CHR '' '') 1 rule_str of
           [rule, path_text] \<Rightarrow>
             parse_match_lines limit (path_name path_text) rule match_lines (put_match (path_name path_text) rule [] results)
         | _ \<Rightarrow> Inl ValueError))"

fun parse_blocks :: "int \<Rightarrow> string list \<Rightarrow> yara_results \<Rightarrow> yara_results result" where
  "parse_blocks limit [] results = Inr results"
| "parse_blocks limit (b # bs) results = bindE (parse_block limit b results) (parse_blocks limit bs)"

definition block_text :: "string \<times> string list \<Rightarrow> string" where
  "block_text b = fst b @ [newline] @ concat (map (\<lambda>l. l @ [newline]) (snd b))"

definition parse_raw_result :: "int \<Rightarrow> string \<Rightarrow> yara_results result" where
  "parse_raw_result limit raw_result = parse_blocks limit (map block_text (findall_results raw_result)) []"

section \<open>Searching\<close>

text \<open>
  \<open>y_compile\<close> compiles the decoded rules (the text of a \<open>yara.SyntaxError\<close>, another exception, or the compiled
  file), \<open>y_run\<close> is what the program \<open>yara\<close> prints for a rule file and a path. The files of a firmware are
  scanned in some order, here sorted.
\<close>

datatype compile_outcome = Compiled string | SyntaxError string | CompileRaises py_error

record yara_env =
  y_compile :: "string \<Rightarrow> compile_outcome"
  y_run :: "string \<Rightarrow> string \<Rightarrow> string"
  y_storage :: string
  y_limit :: int

definition get_file_paths_of_files_included_in_fw :: "yara_env \<Rightarrow> database \<Rightarrow> string \<Rightarrow> string list" where
  "get_file_paths_of_files_included_in_fw env db fw =
     map (generate_path_from_uid (y_storage env)) (sorted_list_of_set (get_all_files_in_fw db fw))"

definition execute_yara_search :: "yara_env \<Rightarrow> string \<Rightarrow> string option \<Rightarrow> string" where
  "execute_yara_search env rule_file target = y_run env rule_file
     (case target of None \<Rightarrow> y_storage env | Some p \<Rightarrow> if p = [] then y_storage env else p)"

definition execute_yara_search_for_single_firmware :: "yara_env \<Rightarrow> database \<Rightarrow> string \<Rightarrow> string \<Rightarrow> string" where
  "execute_yara_search_for_single_firmware env db rule_file fw =
     py_join [newline] (map (\<lambda>p. execute_yara_search env rule_file (Some p))
       (get_file_paths_of_files_included_in_fw env db fw))"

definition get_raw_result :: "yara_env \<Rightarrow> database \<Rightarrow> string \<Rightarrow> string option \<Rightarrow> string" where
  "get_raw_result env db rule_file fw = (case fw of
       None \<Rightarrow> execute_yara_search env rule_file None
     | Some u \<Rightarrow> execute_yara_search_for_single_firmware env db rule_file u)"

text \<open>The result is a dictionary (\<open>Inr\<close>) or a message (\<open>Inl\<close>).\<close>

definition get_binary_search_result ::
  "yara_env \<Rightarrow> database \<Rightarrow> string \<times> string option \<Rightarrow> (string + yara_results) result" where
  "get_binary_search_result env db task = (case task of (yara_rules, fw) \<Rightarrow>
     (case y_compile env yara_rules of
        SyntaxError e \<Rightarrow> Inr (Inl (''There seems to be an error in the rule file:'' @ [newline] @ e))
      | CompileRaises e \<Rightarrow> Inl e
      | Compiled rule_file \<Rightarrow>
          bindE (parse_raw_result (y_limit env) (get_raw_result env db rule_file fw)) (\<lambda>r. Inr (Inr r))))"

section \<open>Printed results are read back\<close>











lemma char_class_simps [simp]:
  "\<not> is_hex_char (CHR '':'')" "\<not> is_ident_char (CHR '':'')" "\<not> is_ident_char (CHR '' '')"
  by (simp_all add: is_hex_char_def is_ident_char_def is_name_start_def char_between_def is_digit_char_def)













lemma newline_separator [simp]: "newline \<in> set line_separators" "newline \<noteq> CHR 0x0D"
  by (simp_all add: newline_def line_separators_def)




















text \<open>
  YARA allows rule names of one character, but the results of such a rule are not found. The search goes on
  inside of them, so a matching string may even be taken for a rule and a file.
\<close>

lemma short_rule_name_is_lost:
  "findall_results (''r p'' @ [newline] @ ''0x0:$a: f'' @ [newline]) = []"
  "findall_results (''r p'' @ [newline] @ ''0x0:$a: ab cd'' @ [newline] @ ''0x9:$a: f'' @ [newline]) = [(''ab cd'', [''0x9:$a: f''])]"
  by code_simp+

end
