(* ===== verification/Intercom.thy ===== *)
theory Intercom
  imports Redis_Interface Unpacking_Scheduler Comparison Yara_Search
begin

text \<open>
  \<^verbatim>\<open>src/src/intercom\<close>: the front end puts requests into queues in Redis, the listeners of the back end take
  them, and responses come back under the id of the request. \<^verbatim>\<open>src/src/storage/binary_service.py\<close> reads the
  stored files for the listeners, \<^verbatim>\<open>src/src/storage/redis_status_interface.py\<close> publishes the status.

  A listener is a process with a loop; one pass of it is \<open>listener_step\<close>. The threads that compute responses
  are in \<open>ic_threads\<close>, finishing one of them is \<open>respond_step\<close>. A message is a value of \<open>redis_value\<close>. External
  programs and libraries (\<open>difflib\<close>, \<open>yara\<close>, \<open>tar\<close> with the extractor) are parameters in \<open>intercom_env\<close>. An
  operation that may wait forever for a chunk key returns \<open>None\<close> in that case.
\<close>

section \<open>Messages and state\<close>

datatype task_data =
    FwTask file_object
  | ComparisonTask string bool
  | UidsTask "string list"
  | UidTask string
  | UidPairTask string string
  | PeekTask string int int
  | RulesTask bytes_like
  | SearchTask string "string option"
  | NoTask

datatype response_data =
    BinaryResponse "string option" "string option"
  | DiffResponse "string option"
  | BytesResponse string
  | BoolResponse bool
  | LinesResponse "string list"
  | SearchResponse "string + yara_results" task_data
  | ErrorTextResponse string

datatype redis_value =
    TaskValue task_data "string option"
  | ResponseValue response_data
  | PluginsValue "(string \<times> plugin_info option) list"
  | StatusValue string

datatype listener =
    AnalysisL | ReAnalyzeL | CompareL | RawDownloadL | FileDiffL | TarRepackL | BinarySearchL | UpdateL
  | DeleteFileL | SingleFileL | PeekBinaryL | LogsL | CancelL | CheckYaraRuleL

fun connection_type :: "listener \<Rightarrow> string" where
  "connection_type AnalysisL = ''analysis_task''"
| "connection_type ReAnalyzeL = ''re_analyze_task''"
| "connection_type CompareL = ''compare_task''"
| "connection_type RawDownloadL = ''raw_download_task''"
| "connection_type FileDiffL = ''file_diff_task''"
| "connection_type TarRepackL = ''tar_repack_task''"
| "connection_type BinarySearchL = ''binary_search_task''"
| "connection_type UpdateL = ''update_task''"
| "connection_type DeleteFileL = ''file_delete_task''"
| "connection_type SingleFileL = ''single_file_task''"
| "connection_type PeekBinaryL = ''binary_peek_task''"
| "connection_type LogsL = ''logs_task''"
| "connection_type CancelL = ''cancel_task''"
| "connection_type CheckYaraRuleL = ''check_yara_rules_task''"

definition is_responder :: "listener \<Rightarrow> bool" where
  "is_responder l \<longleftrightarrow> l \<in> set [RawDownloadL, FileDiffL, TarRepackL, BinarySearchL, SingleFileL, PeekBinaryL, LogsL, CheckYaraRuleL]"

record 's intercom_env =
  ix_redis :: "('s, redis_value) redis_env"
  ix_unpacking :: unpack_sched_env
  ix_yara :: yara_env
  ix_delete :: "string \<Rightarrow> filesystem \<Rightarrow> filesystem"
  ix_diff :: "string \<Rightarrow> string \<Rightarrow> string \<Rightarrow> string \<Rightarrow> string"
  ix_repack :: "string \<Rightarrow> filesystem \<Rightarrow> string"
  ix_yara_error :: "string \<Rightarrow> string option"
  ix_decode_ignore :: "string \<Rightarrow> string"
  ix_log_lines :: "string list option"
  ix_pickle :: "task_data \<Rightarrow> string"
  ix_time_str :: "timestamp \<Rightarrow> string"
  ix_fuel :: nat

text \<open>
  \<open>ic_events\<close> is the dictionary of the events that single file updates wait for; an event is set when the
  callback with its number was called (field \<open>called\<close> of the analysis scheduler). A thread of a single file
  update that has taken its event and waits for it is in \<open>ic_waiting\<close>.
\<close>

record 's intercom_state =
  ic_server :: 's
  ic_draws :: nat
  ic_unpacking :: unpacking_state
  ic_comparison :: comparison_scheduler
  ic_events :: "(string \<times> nat) list"
  ic_next_event :: nat
  ic_threads :: "(listener \<times> task_data \<times> string option) list"
  ic_waiting :: "(nat \<times> string option) list"

abbreviation ic_db :: "'s intercom_state \<Rightarrow> database" where
  "ic_db s \<equiv> sdb (un_analysis (ic_unpacking s))"

abbreviation ic_fs :: "'s intercom_state \<Rightarrow> filesystem" where
  "ic_fs s \<equiv> un_fs (ic_unpacking s)"

abbreviation ic_locks :: "'s intercom_state \<Rightarrow> unpacking_locks" where
  "ic_locks s \<equiv> locks (un_analysis (ic_unpacking s))"

abbreviation ic_storage :: "'s intercom_env \<Rightarrow> string" where
  "ic_storage env \<equiv> ue_storage (ux_unpack (ix_unpacking env))"

section \<open>binary_service.py\<close>

text \<open>\<open>get_binary_from_file\<close> is modelled by \<open>read_at\<close>; \<open>open\<close> raises when there is no such file.\<close>

definition ic_get_binary_and_file_name :: "'s intercom_env \<Rightarrow> 's intercom_state \<Rightarrow> string \<Rightarrow> string option \<times> string option" where
  "ic_get_binary_and_file_name env s u =
     get_binary_and_file_name (read_at (ux_unpack (ix_unpacking env)) (ic_fs s)) (ic_storage env) (ic_db s) u"

text \<open>\<open>fp.read(length)\<close> with a negative length reads everything; a negative offset cannot be sought.\<close>

definition read_partial_binary :: "'s intercom_env \<Rightarrow> 's intercom_state \<Rightarrow> string \<Rightarrow> int \<Rightarrow> int \<Rightarrow> string result" where
  "read_partial_binary env s u offset len = (case get_file_name (ic_db s) u of
       None \<Rightarrow> Inr []
     | Some _ \<Rightarrow> (case ic_fs s (generate_path_from_uid (ic_storage env) u) of
           None \<Rightarrow> Inl FileNotFoundError
         | Some content \<Rightarrow>
             if offset < 0 then Inl OSError
             else let rest = drop (nat offset) content in Inr (if len < 0 then rest else take (nat len) rest)))"

definition get_repacked_binary_and_file_name ::
  "'s intercom_env \<Rightarrow> 's intercom_state \<Rightarrow> string \<Rightarrow> string option \<times> string option" where
  "get_repacked_binary_and_file_name env s u = (case get_file_name (ic_db s) u of
       None \<Rightarrow> (None, None)
     | Some name \<Rightarrow> (Some (ix_repack env (generate_path_from_uid (ic_storage env) u) (ic_fs s)), Some (name @ ''.tar.gz'')))"

section \<open>The listeners of the back end\<close>

definition get_yara_error :: "'s intercom_env \<Rightarrow> bytes_like \<Rightarrow> string" where
  "get_yara_error env rules =
     (let text = (case rules of Bytes b \<Rightarrow> ix_decode_ignore env b | Str t \<Rightarrow> t | Ints _ \<Rightarrow> [])
      in case ix_yara_error env text of
           Some e \<Rightarrow> e
         | None \<Rightarrow> if text = [] then ''No rules found'' else [])"

definition file_diff :: "'s intercom_env \<Rightarrow> 's intercom_state \<Rightarrow> string \<Rightarrow> string \<Rightarrow> string option" where
  "file_diff env s uid1 uid2 =
     (case (ic_get_binary_and_file_name env s uid1, ic_get_binary_and_file_name env s uid2) of
        ((Some content1, Some name1), (Some content2, Some name2)) \<Rightarrow> Some (ix_diff env content1 content2 name1 name2)
      | _ \<Rightarrow> None)"

text \<open>A message of another type than the one the front end sends cannot be handled: \<open>TypeError\<close>.\<close>

definition response_for ::
  "'s intercom_env \<Rightarrow> listener \<Rightarrow> task_data \<Rightarrow> 's intercom_state \<Rightarrow> response_data result" where
  "response_for env l task s = (case (l, task) of
       (RawDownloadL, UidTask u) \<Rightarrow>
         (case ic_get_binary_and_file_name env s u of (b, n) \<Rightarrow> Inr (BinaryResponse b n))
     | (FileDiffL, UidPairTask u v) \<Rightarrow> Inr (DiffResponse (file_diff env s u v))
     | (PeekBinaryL, PeekTask u offset len) \<Rightarrow>
         bindE (read_partial_binary env s u offset len) (\<lambda>b. Inr (BytesResponse b))
     | (TarRepackL, UidTask u) \<Rightarrow>
         (case get_repacked_binary_and_file_name env s u of (b, n) \<Rightarrow> Inr (BinaryResponse b n))
     | (BinarySearchL, SearchTask rules fw) \<Rightarrow>
         bindE (get_binary_search_result (ix_yara env) (ic_db s) (rules, fw)) (\<lambda>r.
           Inr (SearchResponse r (SearchTask rules fw)))
     | (LogsL, _) \<Rightarrow> Inr (LinesResponse (case ix_log_lines env of None \<Rightarrow> [] | Some ls \<Rightarrow> slice_from (-100) ls))
     | (CheckYaraRuleL, RulesTask rules) \<Rightarrow> Inr (ErrorTextResponse (get_yara_error env rules))
     | _ \<Rightarrow> Inl TypeError)"

text \<open>\<open>InterComBackEndDeleteFile.pre_process\<close>: \<open>uids_in_db\<close> is read once, before the loop.\<close>

definition delete_files :: "'s intercom_env \<Rightarrow> string list \<Rightarrow> 's intercom_state \<Rightarrow> 's intercom_state" where
  "delete_files env task s =
     (let uids_in_db = uid_list_exists (ic_db s) task
      in s\<lparr>ic_unpacking := (ic_unpacking s)\<lparr>un_fs := fold (\<lambda>u fs.
            if unpacking_lock_is_set u (ic_locks s) then fs
            else if u \<notin> uids_in_db then delete_stored_file (ix_delete env) (ic_storage env) u fs
            else fs) task (ic_fs s)\<rparr>\<rparr>)"

text \<open>\<open>InterComBackEndReAnalyzeTask.pre_process\<close>, inherited by the listener for updates\<close>

definition load_firmware :: "'s intercom_env \<Rightarrow> file_object \<Rightarrow> filesystem \<Rightarrow> file_object" where
  "load_firmware env fo fs =
     (let ue = ux_unpack (ix_unpacking env)
      in create_binary_from_path (ue_sha ue) (ue_md5 ue) (read_at ue fs)
           (fo\<lparr>file_path := Some (generate_path (ue_storage ue) fo)\<rparr>))"

text \<open>\<open>InterComBackEndAnalysisTask.pre_process\<close>\<close>

definition store_firmware :: "'s intercom_env \<Rightarrow> file_object \<Rightarrow> filesystem \<Rightarrow> file_object \<times> filesystem" where
  "store_firmware env fo fs =
     (let ue = ux_unpack (ix_unpacking env)
      in store_file (ue_write ue) (ue_sha ue) (ue_md5 ue) (ue_storage ue) fo fs)"

text \<open>\<open>InterComListenerAndResponder.pre_process\<close>\<close>

definition start_response_thread ::
  "listener \<Rightarrow> task_data \<Rightarrow> string option \<Rightarrow> 's intercom_state \<Rightarrow> 's intercom_state" where
  "start_response_thread l task task_id s = s\<lparr>ic_threads := ic_threads s @ [(l, task, task_id)]\<rparr>"

text \<open>\<open>InterComBackEndSingleFileTask.pre_process\<close>\<close>

definition register_single_file ::
  "file_object \<Rightarrow> string option \<Rightarrow> 's intercom_state \<Rightarrow> file_object \<times> 's intercom_state" where
  "register_single_file fo task_id s =
     (let event = ic_next_event s; fo' = fo\<lparr>callback := Some event\<rparr>
      in (fo', start_response_thread SingleFileL (FwTask fo') task_id
           (s\<lparr>ic_events := AList.update (uid fo) event (ic_events s), ic_next_event := Suc event\<rparr>)))"

definition pre_process ::
  "'s intercom_env \<Rightarrow> listener \<Rightarrow> task_data \<Rightarrow> string option \<Rightarrow> 's intercom_state \<Rightarrow>
   task_data option result \<times> 's intercom_state" where
  "pre_process env l task task_id s =
     (if l \<in> {AnalysisL, ReAnalyzeL, UpdateL, SingleFileL} then
        (case task of
           FwTask fo \<Rightarrow>
             (if l = AnalysisL then
                (case store_firmware env fo (ic_fs s) of (fo', fs') \<Rightarrow>
                   (Inr (Some (FwTask fo')), s\<lparr>ic_unpacking := (ic_unpacking s)\<lparr>un_fs := fs'\<rparr>\<rparr>))
              else if l = SingleFileL then
                (case register_single_file fo task_id s of (fo', s') \<Rightarrow> (Inr (Some (FwTask fo')), s'))
              else (Inr (Some (FwTask (load_firmware env fo (ic_fs s)))), s))
         | _ \<Rightarrow> (Inl TypeError, s))
      else if l = DeleteFileL then
        (case task of UidsTask us \<Rightarrow> (Inr None, delete_files env us s) | _ \<Rightarrow> (Inl TypeError, s))
      else (Inr (Some task), if is_responder l then start_response_thread l task task_id s else s))"

definition on_unpacking :: "(unpacking_state \<Rightarrow> unpacking_state) \<Rightarrow> 's intercom_state \<Rightarrow> 's intercom_state" where
  "on_unpacking f s = s\<lparr>ic_unpacking := f (ic_unpacking s)\<rparr>"

definition on_analysis ::
  "(sched_state \<Rightarrow> sched_state result) \<Rightarrow> 's intercom_state \<Rightarrow> py_error option \<times> 's intercom_state" where
  "on_analysis f s = (case f (un_analysis (ic_unpacking s)) of
       Inl e \<Rightarrow> (Some e, s)
     | Inr a \<Rightarrow> (None, on_unpacking (\<lambda>u. u\<lparr>un_analysis := a\<rparr>) s))"

definition cancel_task :: "string \<Rightarrow> 's intercom_state \<Rightarrow> 's intercom_state" where
  "cancel_task r s = on_unpacking (\<lambda>u. (cancel_unpacking r u)\<lparr>un_analysis := sched_cancel_analysis r (un_analysis u)\<rparr>) s"

text \<open>The functions the listeners are created with. Both schedulers use the same database.\<close>

definition processing_function ::
  "'s intercom_env \<Rightarrow> listener \<Rightarrow> task_data \<Rightarrow> 's intercom_state \<Rightarrow> py_error option \<times> 's intercom_state" where
  "processing_function env l task s = (case task of
       FwTask fo \<Rightarrow>
         (if l = AnalysisL \<or> l = ReAnalyzeL then (None, on_unpacking (add_task fo) s)
          else if l = UpdateL then
            on_analysis (update_analysis_of_object_and_children (ux_sched (ix_unpacking env)) (ix_fuel env) fo) s
          else if l = SingleFileL then
            on_analysis (update_analysis_of_single_object (ux_sched (ix_unpacking env)) fo) s
          else if is_responder l then (None, s) else (Some TypeError, s))
     | ComparisonTask i redo \<Rightarrow>
         (if l = CompareL then (None, s\<lparr>ic_comparison := cs_add_task (i, redo) ((ic_comparison s)\<lparr>cs_db := ic_db s\<rparr>)\<rparr>)
          else if is_responder l then (None, s) else (Some TypeError, s))
     | UidTask r \<Rightarrow>
         (if l = CancelL then (None, cancel_task r s)
          else if is_responder l then (None, s) else (Some TypeError, s))
     | _ \<Rightarrow> if is_responder l then (None, s) else (Some TypeError, s))"

text \<open>
  One pass of \<open>_worker\<close> with \<open>get_next_task\<close>. An exception ends the listener process; the message it was
  processing is no longer in the queue.
\<close>

definition listener_step :: "'s intercom_env \<Rightarrow> listener \<Rightarrow> 's intercom_state \<Rightarrow> py_error option \<times> 's intercom_state" where
  "listener_step env l s = (case queue_get (ix_redis env) (connection_type l) (ic_server s) of (r, server) \<Rightarrow>
     (let s1 = s\<lparr>ic_server := server\<rparr>
      in case r of
           Inl e \<Rightarrow> (Some e, s1)
         | Inr None \<Rightarrow> (None, s1)
         | Inr (Some (TaskValue task task_id)) \<Rightarrow>
             (case pre_process env l task task_id s1 of
                (Inl e, s2) \<Rightarrow> (Some e, s2)
              | (Inr None, s2) \<Rightarrow> (None, s2)
              | (Inr (Some task'), s2) \<Rightarrow> processing_function env l task' s2)
         | Inr (Some _) \<Rightarrow> (Some TypeError, s1)))"

text \<open>
  The thread of a responder. An exception in \<open>get_response\<close> ends the thread: there is no response. The thread of a
  single file update first takes the event out of the dictionary; waiting ends with the callback or the timeout,
  and the answer is decided by the event then (\<open>finish_single_file\<close>).
\<close>

definition store_response ::
  "'s intercom_env \<Rightarrow> string option \<Rightarrow> response_data \<Rightarrow> 's intercom_state \<Rightarrow> 's intercom_state option" where
  "store_response env task_id response s = (case task_id of
       None \<Rightarrow> Some s
     | Some i \<Rightarrow> map_option (\<lambda>(server, n). s\<lparr>ic_server := server, ic_draws := n\<rparr>)
         (redis_set (ix_redis env) i (ResponseValue response) (ic_server s) (ic_draws s)))"

definition take_event ::
  "'s intercom_env \<Rightarrow> string \<Rightarrow> string option \<Rightarrow> 's intercom_state \<Rightarrow> 's intercom_state option" where
  "take_event env u task_id s = (case map_of (ic_events s) u of
       None \<Rightarrow> store_response env task_id (BoolResponse False) s
     | Some event \<Rightarrow> Some (s\<lparr>ic_events := AList.delete u (ic_events s), ic_waiting := ic_waiting s @ [(event, task_id)]\<rparr>))"

definition finish_single_file ::
  "'s intercom_env \<Rightarrow> nat \<times> string option \<Rightarrow> 's intercom_state \<Rightarrow> 's intercom_state option" where
  "finish_single_file env = (\<lambda>(event, task_id) s.
     store_response env task_id (BoolResponse (event \<in> set (called (un_analysis (ic_unpacking s)))))
       (s\<lparr>ic_waiting := remove1 (event, task_id) (ic_waiting s)\<rparr>))"

definition respond_step ::
  "'s intercom_env \<Rightarrow> listener \<times> task_data \<times> string option \<Rightarrow> 's intercom_state \<Rightarrow> 's intercom_state option" where
  "respond_step env = (\<lambda>(l, task, task_id) s.
     (let s1 = s\<lparr>ic_threads := remove1 (l, task, task_id) (ic_threads s)\<rparr>
      in if l = SingleFileL then
           (case task of FwTask fo \<Rightarrow> take_event env (uid fo) task_id s1 | _ \<Rightarrow> Some s1)
         else (case response_for env l task s1 of
             Inl e \<Rightarrow> Some s1
           | Inr response \<Rightarrow> store_response env task_id response s1)))"

section \<open>The front end\<close>

definition generate_task_id :: "'s intercom_env \<Rightarrow> timestamp \<Rightarrow> task_data \<Rightarrow> string" where
  "generate_task_id env now input_data =
     ue_sha (ux_unpack (ix_unpacking env)) (ix_pickle env input_data) @ ''_'' @ ix_time_str env now"

definition add_to_redis_queue ::
  "'s intercom_env \<Rightarrow> string \<Rightarrow> task_data \<Rightarrow> string option \<Rightarrow> 's intercom_state \<Rightarrow> 's intercom_state option" where
  "add_to_redis_queue env k data task_id s =
     map_option (\<lambda>(server, n). s\<lparr>ic_server := server, ic_draws := n\<rparr>)
       (queue_put (ix_redis env) k (TaskValue data task_id) (ic_server s) (ic_draws s))"

definition add_analysis_task :: "'s intercom_env \<Rightarrow> file_object \<Rightarrow> 's intercom_state \<Rightarrow> 's intercom_state option" where
  "add_analysis_task env fw = add_to_redis_queue env ''analysis_task'' (FwTask fw) (Some (uid fw))"

definition add_re_analyze_task ::
  "'s intercom_env \<Rightarrow> file_object \<Rightarrow> bool \<Rightarrow> 's intercom_state \<Rightarrow> 's intercom_state option" where
  "add_re_analyze_task env fw do_unpack =
     add_to_redis_queue env (if do_unpack then ''re_analyze_task'' else ''update_task'') (FwTask fw) (Some (uid fw))"

definition add_compare_task :: "'s intercom_env \<Rightarrow> string \<Rightarrow> bool \<Rightarrow> 's intercom_state \<Rightarrow> 's intercom_state option" where
  "add_compare_task env compare_id force =
     add_to_redis_queue env ''compare_task'' (ComparisonTask compare_id force) (Some compare_id)"

definition fe_delete_file :: "'s intercom_env \<Rightarrow> string list \<Rightarrow> 's intercom_state \<Rightarrow> 's intercom_state option" where
  "fe_delete_file env uid_list = add_to_redis_queue env ''file_delete_task'' (UidsTask uid_list) None"

definition fe_cancel_analysis :: "'s intercom_env \<Rightarrow> string \<Rightarrow> 's intercom_state \<Rightarrow> 's intercom_state option" where
  "fe_cancel_analysis env r = add_to_redis_queue env ''cancel_task'' (UidTask r) None"

definition publish_available_analysis_plugins ::
  "'s intercom_env \<Rightarrow> (string \<times> plugin_info option) list \<Rightarrow> 's intercom_state \<Rightarrow> 's intercom_state option" where
  "publish_available_analysis_plugins env plugin_dict s =
     map_option (\<lambda>(server, n). s\<lparr>ic_server := server, ic_draws := n\<rparr>)
       (redis_set (ix_redis env) ''analysis_plugins'' (PluginsValue plugin_dict) (ic_server s) (ic_draws s))"

definition get_available_analysis_plugins :: "'s intercom_env \<Rightarrow> 's intercom_state \<Rightarrow> redis_value result" where
  "get_available_analysis_plugins env s =
     bindE (fst (redis_get (ix_redis env) ''analysis_plugins'' False (ic_server s))) (\<lambda>v. case v of
       None \<Rightarrow> Inl RuntimeError
     | Some d \<Rightarrow> Inr d)"

text \<open>
  \<open>_response_listener\<close> polls until a response is there or the time is over. The list holds what the other
  processes do while it sleeps after each unsuccessful attempt; its length is the number of attempts before
  the timeout. A response that is \<open>None\<close> in Python looks like no response: it has been deleted, and the
  polling goes on.
\<close>

definition py_none :: "redis_value \<Rightarrow> bool" where
  "py_none v \<longleftrightarrow> v = ResponseValue (DiffResponse None)"

fun response_listener ::
  "'s intercom_env \<Rightarrow> string \<Rightarrow> ('s intercom_state \<Rightarrow> 's intercom_state) list \<Rightarrow> 's intercom_state \<Rightarrow>
   redis_value option result \<times> 's intercom_state" where
  "response_listener env request_id [] s = (Inr None, s)"
| "response_listener env request_id (others # rest) s =
     (case redis_get (ix_redis env) request_id True (ic_server s) of (r, server) \<Rightarrow>
        (let s1 = s\<lparr>ic_server := server\<rparr>
         in case r of
              Inr None \<Rightarrow> response_listener env request_id rest (others s1)
            | Inr (Some output_data) \<Rightarrow>
                if py_none output_data then response_listener env request_id rest (others s1) else (r, s1)
            | Inl e \<Rightarrow> (r, s1)))"

definition request_response_listener ::
  "'s intercom_env \<Rightarrow> timestamp \<Rightarrow> task_data \<Rightarrow> string \<Rightarrow> ('s intercom_state \<Rightarrow> 's intercom_state) list \<Rightarrow>
   's intercom_state \<Rightarrow> (redis_value option result \<times> 's intercom_state) option" where
  "request_response_listener env now input_data request_connection sleeps s =
     (let request_id = generate_task_id env now input_data
      in map_option (response_listener env request_id sleeps)
           (add_to_redis_queue env request_connection input_data (Some request_id) s))"

definition add_single_file_task where
  "add_single_file_task env now fw = request_response_listener env now (FwTask fw) ''single_file_task''"

definition get_binary_and_filename where
  "get_binary_and_filename env now u = request_response_listener env now (UidTask u) ''raw_download_task''"

definition get_file_diff where
  "get_file_diff env now u v = request_response_listener env now (UidPairTask u v) ''file_diff_task''"

definition peek_in_binary where
  "peek_in_binary env now u offset len = request_response_listener env now (PeekTask u offset len) ''binary_peek_task''"

definition fe_get_repacked_binary where
  "fe_get_repacked_binary env now u = request_response_listener env now (UidTask u) ''tar_repack_task''"

definition fe_get_yara_error where
  "fe_get_yara_error env now rules = request_response_listener env now (RulesTask rules) ''check_yara_rules_task''"

definition get_backend_logs where
  "get_backend_logs env now = request_response_listener env now NoTask ''logs_task''"

definition add_binary_search_request ::
  "'s intercom_env \<Rightarrow> timestamp \<Rightarrow> string \<Rightarrow> string option \<Rightarrow> 's intercom_state \<Rightarrow> (string \<times> 's intercom_state) option" where
  "add_binary_search_request env now rules fw s =
     (let request_id = generate_task_id env now (RulesTask (Bytes rules))
      in map_option (\<lambda>s'. (request_id, s'))
           (add_to_redis_queue env ''binary_search_task'' (SearchTask rules fw) (Some request_id) s))"

text \<open>The answer \<open>(None, None)\<close> is \<open>None\<close>.\<close>

definition fe_get_binary_search_result where
  "fe_get_binary_search_result env request_id sleeps s = response_listener env request_id sleeps s"

section \<open>The status of the analyses\<close>

text \<open>
  The status is stored as text in JSON. \<open>json.loads(None)\<close> raises \<open>TypeError\<close>: there is no status yet, and the
  default is returned (\<open>None\<close>).
\<close>

definition ANALYSIS_STATUS_REDIS_KEY :: string where
  "ANALYSIS_STATUS_REDIS_KEY = ''__fact_analysis_status__''"

definition set_analysis_status :: "'s intercom_env \<Rightarrow> string \<Rightarrow> 's intercom_state \<Rightarrow> 's intercom_state option" where
  "set_analysis_status env status s =
     map_option (\<lambda>(server, n). s\<lparr>ic_server := server, ic_draws := n\<rparr>)
       (redis_set (ix_redis env) ANALYSIS_STATUS_REDIS_KEY (StatusValue status) (ic_server s) (ic_draws s))"

definition get_analysis_status :: "'s intercom_env \<Rightarrow> 's intercom_state \<Rightarrow> string option result" where
  "get_analysis_status env s =
     bindE (fst (redis_get (ix_redis env) ANALYSIS_STATUS_REDIS_KEY False (ic_server s))) (\<lambda>v. case v of
       Some (StatusValue t) \<Rightarrow> Inr (Some t)
     | _ \<Rightarrow> Inr None)"

section \<open>Deleting files\<close>

lemma path_of_uid_inj: "generate_path_from_uid storage u = generate_path_from_uid storage v \<longleftrightarrow> u = v"
proof
  assume eq: "generate_path_from_uid storage u = generate_path_from_uid storage v"
  then have "length (generate_path_from_uid storage u) = length (generate_path_from_uid storage v)"
    by simp
  then have "length u = length v"
    by (auto simp: generate_path_from_uid_def min_def split: if_splits)
  then show "u = v"
    using eq generate_path_inj by blast
qed simp

definition may_delete :: "'s intercom_state \<Rightarrow> string \<Rightarrow> bool" where
  "may_delete s u \<longleftrightarrow> \<not> unpacking_lock_is_set u (ic_locks s) \<and> u \<notin> file_uids (ic_db s)"

lemma uid_list_exists_iff: "u \<in> uid_list_exists db us \<longleftrightarrow> u \<in> set us \<and> u \<in> file_uids db"
  by (auto simp: uid_list_exists_def)

lemma delete_files_fs:
  assumes "delete_law (ix_delete env)"
  shows "ic_fs (delete_files env us s) p =
     (if \<exists>u\<in>set us. p = generate_path_from_uid (ic_storage env) u \<and> may_delete s u then None else ic_fs s p)"
proof -
  have "fold (\<lambda>u fs. if unpacking_lock_is_set u (ic_locks s) then fs
            else if u \<notin> uid_list_exists (ic_db s) us then delete_stored_file (ix_delete env) (ic_storage env) u fs
            else fs) xs fs p =
     (if \<exists>u\<in>set xs. p = generate_path_from_uid (ic_storage env) u \<and> may_delete s u then None else fs p)"
    if "set xs \<subseteq> set us" for xs fs
    using that
    by (induction xs arbitrary: fs)
      (auto simp: delete_stored_file_def may_delete_def uid_list_exists_iff assms [unfolded delete_law_def])
  then show ?thesis
    by (simp add: delete_files_def Let_def)
qed

lemma delete_files_frame:
  "ic_db (delete_files env us s) = ic_db s" "ic_locks (delete_files env us s) = ic_locks s"
  "un_queue (ic_unpacking (delete_files env us s)) = un_queue (ic_unpacking s)"
  by (simp_all add: delete_files_def Let_def)

section \<open>Messages arrive\<close>

abbreviation redis_ok :: "'s intercom_env \<Rightarrow> string list \<Rightarrow> 's intercom_state \<Rightarrow> bool" where
  "redis_ok env qs s \<equiv> queues_ok (ix_redis env, qs) (ic_server s, ic_draws s)"

definition messages :: "'s intercom_env \<Rightarrow> 's intercom_state \<Rightarrow> string \<Rightarrow> redis_value list" where
  "messages env s k = queue_content (ix_redis env, []) (ic_server s, ic_draws s) k"

lemma queue_content_messages: "queue_content (ix_redis env, qs) (ic_server s, ic_draws s) k = messages env s k"
  by (simp add: messages_def queue_content_def)

lemma add_message:
  assumes "redis_ok env qs s" "k \<in> set qs" "picklable (ix_redis env) (TaskValue d i)" "add_to_redis_queue env k d i s = Some s'"
  shows "redis_ok env qs s'"
    "k' \<in> set qs \<Longrightarrow> messages env s' k' = messages env s k' @ (if k' = k then [TaskValue d i] else [])"
    "s' = s\<lparr>ic_server := ic_server s', ic_draws := ic_draws s'\<rparr>"
proof -
  obtain server n where q: "put_message (ix_redis env, qs) k (TaskValue d i) (ic_server s, ic_draws s) = Some (server, n)"
    and s': "s' = s\<lparr>ic_server := server, ic_draws := n\<rparr>"
    using assms(4) by (auto simp: add_to_redis_queue_def put_message_def)
  have law: "queues_ok (ix_redis env, qs) (server, n)"
    "\<forall>k'\<in>set qs. queue_content (ix_redis env, qs) (server, n) k' =
       (if k' = k then queue_content (ix_redis env, qs) (ic_server s, ic_draws s) k @ [TaskValue d i]
        else queue_content (ix_redis env, qs) (ic_server s, ic_draws s) k')"
    using redis_queues.put_law [OF assms(1) _ _ q] assms(2,3) by (auto simp: queue_names_def)
  show "redis_ok env qs s'"
    using law(1) by (simp add: s')
  show "k' \<in> set qs \<Longrightarrow> messages env s' k' = messages env s k' @ (if k' = k then [TaskValue d i] else [])"
    using law(2) queue_content_messages [of env qs s'] queue_content_messages [of env qs s] by (auto simp: s')
  show "s' = s\<lparr>ic_server := ic_server s', ic_draws := ic_draws s'\<rparr>"
    by (simp add: s')
qed

lemma take_message:
  assumes "redis_ok env qs s" "k \<in> set qs" "messages env s k = v # vs"
  shows "\<exists>server. queue_get (ix_redis env) k (ic_server s) = (Inr (Some v), server) \<and>
     redis_ok env qs (s\<lparr>ic_server := server\<rparr>) \<and>
     (\<forall>k'\<in>set qs. messages env (s\<lparr>ic_server := server\<rparr>) k' = (if k' = k then vs else messages env s k'))"
proof -
  obtain r server where q: "queue_get (ix_redis env) k (ic_server s) = (r, server)"
    by fastforce
  then have g: "get_message (ix_redis env, qs) k (ic_server s, ic_draws s) = (r, server, ic_draws s)"
    by (simp add: get_message_def)
  have law: "queues_ok (ix_redis env, qs) (server, ic_draws s)" "r = Inr (Some v)"
    "\<forall>k'\<in>set qs. queue_content (ix_redis env, qs) (server, ic_draws s) k' =
       (if k' = k then vs else queue_content (ix_redis env, qs) (ic_server s, ic_draws s) k')"
    using redis_queues.get_law [OF assms(1) _ g] assms(2,3) by (auto simp: queue_names_def queue_content_messages)
  then show ?thesis
    using q queue_content_messages [of env qs "s\<lparr>ic_server := server\<rparr>"] queue_content_messages [of env qs s] by auto
qed

section \<open>Deleting a firmware\<close>

lemma listener_delete:
  assumes "redis_ok env qs s" "''file_delete_task'' \<in> set qs" "messages env s ''file_delete_task'' = TaskValue (UidsTask us) i # vs"
  shows "\<exists>server. listener_step env DeleteFileL s = (None, delete_files env us (s\<lparr>ic_server := server\<rparr>))"
  using take_message [OF assms] by (auto simp: listener_step_def pre_process_def)

lemma delete_files_server: "ic_fs (delete_files env us (s\<lparr>ic_server := server\<rparr>)) = ic_fs (delete_files env us s)"
  "ic_db (delete_files env us (s\<lparr>ic_server := server\<rparr>)) = ic_db s"
  by (simp_all add: delete_files_def Let_def)

lemma delete_request_carried_out:
  assumes ok: "redis_ok env qs s" "''file_delete_task'' \<in> set qs" "messages env s ''file_delete_task'' = []"
    and msg: "picklable (ix_redis env) (TaskValue (UidsTask us) None)"
    and req: "fe_delete_file env us s = Some s1" and del: "delete_law (ix_delete env)"
  shows "\<exists>s2. listener_step env DeleteFileL s1 = (None, s2) \<and> ic_db s2 = ic_db s \<and>
     (\<forall>p. ic_fs s2 p = (if \<exists>u\<in>set us. p = generate_path_from_uid (ic_storage env) u \<and> may_delete s u then None else ic_fs s p))"
proof -
  note add = add_message [OF ok(1,2) msg req [unfolded fe_delete_file_def]]
  have same: "ic_fs s1 = ic_fs s" "ic_db s1 = ic_db s" "ic_locks s1 = ic_locks s"
    by (subst add(3), simp)+
  have "messages env s1 ''file_delete_task'' = [TaskValue (UidsTask us) None]"
    using add(2) [OF ok(2)] ok(3) by simp
  from listener_delete [OF add(1) ok(2) this] obtain server where
    "listener_step env DeleteFileL s1 = (None, delete_files env us (s1\<lparr>ic_server := server\<rparr>))"
    by blast
  moreover have "may_delete s1 u = may_delete s u" for u
    by (simp add: may_delete_def same)
  ultimately show ?thesis
    using delete_files_fs [OF del, of us s1] by (auto simp: delete_files_server same)
qed

lemma deleted_firmware_gone: "u \<notin> file_uids (delete_object u db)"
  by (auto simp: delete_object_def delete_file_orphans_def remove_files_def remove_comparisons_def in_files_def
      map_of_eq_None_iff Let_def split: if_splits)

section \<open>Requests and responses\<close>

text \<open>Servers that cannot be told apart by reading\<close>

definition same_data :: "('s, 'v) redis_env \<Rightarrow> 's \<Rightarrow> 's \<Rightarrow> bool" where
  "same_data env t t' \<longleftrightarrow> (\<forall>k. r_get env k t' = r_get env k t \<and> r_lrange env k t' = r_lrange env k t)"

lemma entry_same_data:
  assumes "queues_ok (env, qs) (t, n)" "same_data env t t'" "q \<in> set qs" "v \<in> set (r_lrange env q t)"
  shows "entry_ok env t' v" "entry_value env t' v = entry_value env t v"
proof -
  have "redis_laws env" "entry_ok env t v"
    using assms(1,3,4) by (auto simp: queues_ok_def list_all_iff)
  then show "entry_ok env t' v" "entry_value env t' v = entry_value env t v"
    using entry_frame [of env t v t'] assms(2) by (auto simp: same_data_def)
qed

lemma queues_ok_same_data:
  assumes "queues_ok (env, qs) (t, n)" "same_data env t t'"
  shows "queues_ok (env, qs) (t', n)"
    "q \<in> set qs \<Longrightarrow> queue_content (env, qs) (t', n) q = queue_content (env, qs) (t, n) q"
proof -
  have lr: "r_lrange env k t' = r_lrange env k t" "r_get env k t' = r_get env k t" for k
    using assms(2) by (auto simp: same_data_def)
  have refs: "queue_refs env t' = queue_refs env t"
    by (simp add: queue_refs_def lr fun_eq_iff)
  show "queues_ok (env, qs) (t', n)"
    using assms(1) entry_same_data(1) [OF assms] unfolding queues_ok_def prod.case refs lr by (auto simp: list_all_iff)
  show "q \<in> set qs \<Longrightarrow> queue_content (env, qs) (t', n) q = queue_content (env, qs) (t, n) q"
    using entry_same_data(2) [OF assms] by (simp add: queue_content_def lr)
qed

lemma poll_nothing:
  assumes "redis_laws env" "r_get env i t = None" "r_lrange env i t = []"
  shows "\<exists>t'. redis_get env i True t = (Inr None, t') \<and> same_data env t t'"
  using assms by (auto simp: redis_get_def fetch_def redis_pop_def combine_if_split_def same_data_def redis_simps [OF assms(1)])

lemma same_data_free: "redis_laws env \<Longrightarrow> same_data env t t' \<Longrightarrow> free_draws env t' = free_draws env t"
  by (simp add: free_draws_def same_data_def redis_simps)

lemma response_for_frame:
  assumes "ic_db s' = ic_db s" "ic_fs s' = ic_fs s"
  shows "response_for env l task s' = response_for env l task s"
proof -
  have eqs: "ic_get_binary_and_file_name env s' = ic_get_binary_and_file_name env s" "file_diff env s' = file_diff env s"
    "read_partial_binary env s' = read_partial_binary env s"
    "get_repacked_binary_and_file_name env s' = get_repacked_binary_and_file_name env s"
    unfolding fun_eq_iff ic_get_binary_and_file_name_def file_diff_def read_partial_binary_def
      get_repacked_binary_and_file_name_def assms by simp_all
  show ?thesis
    unfolding response_for_def eqs assms(1) ..
qed

definition chunks_for :: "'s intercom_env \<Rightarrow> redis_value \<Rightarrow> nat" where
  "chunks_for env v = length (chunks_of (chunk_size (ix_redis env)) (r_dumps (ix_redis env) v))"

text \<open>The back end answers one request: the listener takes it, its thread stores the response.\<close>

definition serve :: "'s intercom_env \<Rightarrow> listener \<Rightarrow> task_data \<times> string option \<Rightarrow> 's intercom_state \<Rightarrow> 's intercom_state option" where
  "serve env l = (\<lambda>(task, i) s. respond_step env (l, task, i) (snd (listener_step env l s)))"

lemma listener_step_responder:
  assumes ok: "redis_ok env qs s" "connection_type l \<in> set qs" "messages env s (connection_type l) = TaskValue task i # vs"
    and l: "is_responder l" "l \<noteq> SingleFileL"
  shows "\<exists>server. listener_step env l s = (None, start_response_thread l task i (s\<lparr>ic_server := server\<rparr>)) \<and>
     redis_ok env qs (s\<lparr>ic_server := server\<rparr>) \<and>
     (\<forall>k'\<in>set qs. messages env (s\<lparr>ic_server := server\<rparr>) k' = (if k' = connection_type l then vs else messages env s k')) \<and>
     card (free_draws (ix_redis env) (ic_server s)) \<le> card (free_draws (ix_redis env) server)"
proof -
  obtain server where server: "queue_get (ix_redis env) (connection_type l) (ic_server s) = (Inr (Some (TaskValue task i)), server)"
    "redis_ok env qs (s\<lparr>ic_server := server\<rparr>)"
    "\<forall>k'\<in>set qs. messages env (s\<lparr>ic_server := server\<rparr>) k' = (if k' = connection_type l then vs else messages env s k')"
    using take_message [OF ok] by blast
  have "get_message (ix_redis env, qs) (connection_type l) (ic_server s, ic_draws s) =
      (Inr (Some (TaskValue task i)), server, ic_draws s)"
    using server(1) by (simp add: get_message_def)
  from get_free [OF ok(1,2) this]
  have "card (free_draws (ix_redis env) (ic_server s)) \<le> card (free_draws (ix_redis env) server)" .
  moreover have "listener_step env l s = (None, start_response_thread l task i (s\<lparr>ic_server := server\<rparr>))"
    using server(1) l
    by (cases l) (auto simp: listener_step_def pre_process_def processing_function_def is_responder_def Let_def split: task_data.splits)
  ultimately show ?thesis
    using server by blast
qed

lemma serve_stores_response:
  assumes ok: "redis_ok env (i # qs) s" "connection_type l \<in> set qs" "messages env s (connection_type l) = [TaskValue task (Some i)]"
    and l: "is_responder l" "l \<noteq> SingleFileL" and resp: "response_for env l task s = Inr r"
    and i: "messages env s i = []" and fair: "fair_draws (ix_redis env)" and pick: "picklable (ix_redis env) (ResponseValue r)"
    and enough: "chunks_for env (ResponseValue r) \<le> card (free_draws (ix_redis env) (ic_server s))"
  shows "\<exists>s'. serve env l (task, Some i) s = Some s' \<and> ic_db s' = ic_db s \<and> ic_fs s' = ic_fs s \<and> ic_threads s' = remove1 (l, task, Some i) (ic_threads s @ [(l, task, Some i)]) \<and>
     (\<exists>server. redis_get (ix_redis env) i True (ic_server s') = (Inr (Some (ResponseValue r)), server) \<and>
        redis_ok env (i # qs) (s'\<lparr>ic_server := server\<rparr>) \<and> messages env (s'\<lparr>ic_server := server\<rparr>) i = [])"
proof -
  have l_in: "connection_type l \<in> set (i # qs)"
    using ok(2) by simp
  obtain server where step: "listener_step env l s = (None, start_response_thread l task (Some i) (s\<lparr>ic_server := server\<rparr>))"
    and okr: "redis_ok env (i # qs) (s\<lparr>ic_server := server\<rparr>)"
    and msgs: "\<forall>k'\<in>set (i # qs). messages env (s\<lparr>ic_server := server\<rparr>) k' = (if k' = connection_type l then [] else messages env s k')"
    and free: "card (free_draws (ix_redis env) (ic_server s)) \<le> card (free_draws (ix_redis env) server)"
    using listener_step_responder [OF ok(1) l_in ok(3) l] by blast
  have laws: "redis_laws (ix_redis env)" "0 < chunk_size (ix_redis env)" "i \<notin> range chunk_key"
    using ok(1) by (auto simp: queues_ok_def)
  have "messages env (s\<lparr>ic_server := server\<rparr>) i = []"
    using msgs i by auto
  then have lr: "r_lrange (ix_redis env) i server = []"
    by (simp add: messages_def queue_content_def)
  have "length (chunks_of (chunk_size (ix_redis env)) (r_dumps (ix_redis env) (ResponseValue r))) \<le> card (free_draws (ix_redis env) server)"
    using enough free by (simp add: chunks_for_def)
  from redis_set_get [OF laws(1) pick fair laws(2) this laws(3) lr, of "ic_draws s"]
  obtain server1 n1 server2 where set: "redis_set (ix_redis env) i (ResponseValue r) server (ic_draws s) = Some (server1, n1)"
    "redis_get (ix_redis env) i True server1 = (Inr (Some (ResponseValue r)), server2)"
    "\<forall>k. r_get (ix_redis env) k server2 = (if k = i then None else r_get (ix_redis env) k server) \<and>
       r_lrange (ix_redis env) k server2 = r_lrange (ix_redis env) k server"
    by blast
  have "r_get (ix_redis env) i server = None"
    using okr by (simp add: queues_ok_def)
  then have same: "same_data (ix_redis env) server server2"
    using set(3) by (simp add: same_data_def)
  have "queues_ok (ix_redis env, i # qs) (server, ic_draws s)"
    using okr by simp
  from queues_ok_same_data(1) [OF this same] have okr2: "queues_ok (ix_redis env, i # qs) (server2, n1)"
    by (simp add: queues_ok_def)
  let ?s1 = "(start_response_thread l task (Some i) (s\<lparr>ic_server := server\<rparr>))\<lparr>ic_threads := remove1 (l, task, Some i) (ic_threads s @ [(l, task, Some i)])\<rparr>"
  have "response_for env l task ?s1 = Inr r"
    using resp response_for_frame [of ?s1 s env l task] by (simp add: start_response_thread_def)
  then have "serve env l (task, Some i) s = Some (?s1\<lparr>ic_server := server1, ic_draws := n1\<rparr>)"
    using set(1) l(2) by (simp add: serve_def step respond_step_def store_response_def start_response_thread_def)
  then show ?thesis
    using set(2,3) okr2 lr by (simp add: start_response_thread_def messages_def queue_content_def)
qed

lemma add_message_returns:
  assumes ok: "redis_ok env qs s" "k \<in> set qs" "picklable (ix_redis env) (TaskValue d i)" and fair: "fair_draws (ix_redis env)"
    and enough: "chunks_for env (TaskValue d i) + m \<le> card (free_draws (ix_redis env) (ic_server s))"
  shows "\<exists>s'. add_to_redis_queue env k d i s = Some s' \<and> m \<le> card (free_draws (ix_redis env) (ic_server s'))"
proof -
  have laws: "redis_laws (ix_redis env)"
    using ok(1) by (simp add: queues_ok_def)
  obtain t n where q: "queue_put (ix_redis env) k (TaskValue d i) (ic_server s) (ic_draws s) = Some (t, n)"
    using put_returns [OF laws fair] enough unfolding chunks_for_def by (metis add_leD1)
  have "put_message (ix_redis env, qs) k (TaskValue d i) (ic_server s, ic_draws s) = Some (t, n)"
    using q by (simp add: put_message_def)
  from put_free [OF ok this] show ?thesis
    using q enough by (auto simp: add_to_redis_queue_def chunks_for_def)
qed

text \<open>
  C26. Deleting a firmware, from the database to the disk: when the deletion was committed, its request
  goes through the queue to the back end, and exactly the stored files of the firmware and of those of its
  files that are no longer in the database are removed, except those that are being unpacked at the moment.
  The stored file of every object that still has a database entry, in particular of a file that also belongs
  to another firmware, is kept. The request gets into the queue as long as the free chunk keys suffice.
\<close>

theorem firmware_deletion_safe:
  assumes del: "delete_firmware u True db = (db', counts, Some uids)" and us: "set us = uids"
    and state: "ic_db s = db'" "redis_ok env qs s" "''file_delete_task'' \<in> set qs" "messages env s ''file_delete_task'' = []"
    and msg: "picklable (ix_redis env) (TaskValue (UidsTask us) None)" "fair_draws (ix_redis env)"
      "chunks_for env (TaskValue (UidsTask us) None) \<le> card (free_draws (ix_redis env) (ic_server s))"
    and law: "delete_law (ix_delete env)"
  shows "\<exists>s1 s2. fe_delete_file env us s = Some s1 \<and> listener_step env DeleteFileL s1 = (None, s2) \<and>
     (\<forall>v. ic_fs s2 (generate_path_from_uid (ic_storage env) v) =
        (if v = u \<or> v \<in> get_all_files_in_fw db u \<and> v \<notin> file_uids db'
         then if unpacking_lock_is_set v (ic_locks s) then ic_fs s (generate_path_from_uid (ic_storage env) v) else None
         else ic_fs s (generate_path_from_uid (ic_storage env) v))) \<and>
     (\<forall>v\<in>file_uids db'. ic_fs s2 (generate_path_from_uid (ic_storage env) v) = ic_fs s (generate_path_from_uid (ic_storage env) v))"
proof -
  obtain s1 where req: "fe_delete_file env us s = Some s1"
    using add_message_returns [OF state(2,3) msg(1,2), of 0] msg(3) by (auto simp: fe_delete_file_def)
  obtain s2 where s2: "listener_step env DeleteFileL s1 = (None, s2)"
    "\<forall>p. ic_fs s2 p = (if \<exists>v\<in>set us. p = generate_path_from_uid (ic_storage env) v \<and> may_delete s v
       then None else ic_fs s p)"
    using delete_request_carried_out [OF state(2-4) msg(1) req law] by blast
  have db': "db' = delete_object u db"
    and uids: "uids = insert u (get_all_files_in_fw db u - find_files_still_in_db (get_all_files_in_fw db u) db')"
    using del by (auto simp: delete_firmware_def Let_def split: option.splits if_splits)
  have mem: "v \<in> uids \<longleftrightarrow> v = u \<or> v \<in> get_all_files_in_fw db u \<and> v \<notin> file_uids db'" for v
    by (auto simp: uids find_files_still_in_db_def)
  have gone: "u \<notin> file_uids db'"
    using deleted_firmware_gone by (simp add: db')
  have fs: "ic_fs s2 (generate_path_from_uid (ic_storage env) v) =
      (if v \<in> uids \<and> may_delete s v then None else ic_fs s (generate_path_from_uid (ic_storage env) v))" for v
    using s2(2) by (auto simp: us path_of_uid_inj)
  show ?thesis
    using req s2(1) gone state(1) by (intro exI [of _ s1] exI [of _ s2]) (simp add: fs mem may_delete_def)
qed

lemma poll_before_response:
  assumes "redis_ok env qs s" "i \<in> set qs" "messages env s i = []"
  shows "\<exists>t. redis_get (ix_redis env) i True (ic_server s) = (Inr None, t) \<and> redis_ok env qs (s\<lparr>ic_server := t\<rparr>) \<and>
     (\<forall>k\<in>set qs. messages env (s\<lparr>ic_server := t\<rparr>) k = messages env s k) \<and>
     free_draws (ix_redis env) t = free_draws (ix_redis env) (ic_server s)"
proof -
  have laws: "redis_laws (ix_redis env)" "r_get (ix_redis env) i (ic_server s) = None"
    using assms(1,2) by (auto simp: queues_ok_def)
  have "r_lrange (ix_redis env) i (ic_server s) = []"
    using assms(3) by (simp add: messages_def queue_content_def)
  from poll_nothing [OF laws this] obtain t where
    t: "redis_get (ix_redis env) i True (ic_server s) = (Inr None, t)" "same_data (ix_redis env) (ic_server s) t"
    by blast
  then show ?thesis
    using queues_ok_same_data [OF assms(1) t(2)] same_data_free [OF laws(1) t(2)]
      queue_content_messages [of env qs s] queue_content_messages [of env qs "s\<lparr>ic_server := t\<rparr>"]
    by auto
qed

text \<open>Other processes that leave the queues, the database, the stored files and the threads as they are\<close>

definition undisturbed :: "'s intercom_env \<Rightarrow> string list \<Rightarrow> ('s intercom_state \<Rightarrow> 's intercom_state) \<Rightarrow> bool" where
  "undisturbed env qs f \<longleftrightarrow> (\<forall>s. redis_ok env qs s \<longrightarrow> redis_ok env qs (f s) \<and>
     (\<forall>k\<in>set qs. messages env (f s) k = messages env s k) \<and>
     card (free_draws (ix_redis env) (ic_server s)) \<le> card (free_draws (ix_redis env) (ic_server (f s))) \<and>
     ic_db (f s) = ic_db s \<and> ic_fs (f s) = ic_fs s \<and> ic_threads (f s) = ic_threads s)"

lemma polling_continues:
  assumes "redis_ok env qs s" "i \<in> set qs" "messages env s i = []" "list_all (undisturbed env qs) fs"
  shows "\<exists>s'. response_listener env i (fs @ rest) s = response_listener env i rest s' \<and> redis_ok env qs s' \<and>
     (\<forall>k\<in>set qs. messages env s' k = messages env s k) \<and>
     card (free_draws (ix_redis env) (ic_server s)) \<le> card (free_draws (ix_redis env) (ic_server s')) \<and>
     ic_db s' = ic_db s \<and> ic_fs s' = ic_fs s \<and> ic_threads s' = ic_threads s"
  using assms
proof (induction fs arbitrary: s)
  case Nil
  then show ?case
    by auto
next
  case (Cons f fs)
  obtain t where poll: "redis_get (ix_redis env) i True (ic_server s) = (Inr None, t)" "redis_ok env qs (s\<lparr>ic_server := t\<rparr>)"
    "\<forall>k\<in>set qs. messages env (s\<lparr>ic_server := t\<rparr>) k = messages env s k"
    "free_draws (ix_redis env) t = free_draws (ix_redis env) (ic_server s)"
    using poll_before_response [OF Cons.prems(1-3)] by blast
  let ?s1 = "f (s\<lparr>ic_server := t\<rparr>)"
  have f: "undisturbed env qs f"
    using Cons.prems(4) by simp
  have s1: "redis_ok env qs ?s1" "\<forall>k\<in>set qs. messages env ?s1 k = messages env s k"
    "card (free_draws (ix_redis env) (ic_server s)) \<le> card (free_draws (ix_redis env) (ic_server ?s1))"
    "ic_db ?s1 = ic_db s" "ic_fs ?s1 = ic_fs s" "ic_threads ?s1 = ic_threads s"
    using f [unfolded undisturbed_def, rule_format, OF poll(2)] poll(3,4) by simp_all
  have "response_listener env i ((f # fs) @ rest) s = response_listener env i (fs @ rest) ?s1"
    using poll(1) by simp
  then show ?case
    using Cons.IH [OF s1(1) Cons.prems(2)] s1 Cons.prems(2-4) by (auto intro: order_trans)
qed

text \<open>
  C27. A request of the front end is answered: the front end puts the request into the queue of the listener,
  which is empty, and polls for the response under a new id. After any number of attempts during which the other
  processes leave the queues and the data alone (\<open>before\<close>), the listener takes the request and its thread computes
  the response without raising; if there is time for another attempt, it returns exactly what the back end
  computed for this request. No thread is left behind, and database and stored files stay as they were. This holds
  for requests and responses of any size that the free chunk keys suffice for, and for every listener that
  responds except the one for single files, whose answer waits for the analysis. The one response that is
  \<open>None\<close>, of a comparison with an unknown file, is taken for a missing one: the front end polls until the time is
  over (\<open>after\<close>) and then returns \<open>None\<close>, too.
\<close>

theorem request_answered:
  assumes id: "i = generate_task_id env now task"
    and ok: "redis_ok env (i # qs) s" "connection_type l \<in> set qs" "i \<notin> set qs"
    and quiet: "messages env s (connection_type l) = []" "messages env s i = []"
    and l: "is_responder l" "l \<noteq> SingleFileL" and resp: "response_for env l task s = Inr r"
    and pick: "picklable (ix_redis env) (TaskValue task (Some i))" "picklable (ix_redis env) (ResponseValue r)"
    and fair: "fair_draws (ix_redis env)"
    and enough: "chunks_for env (TaskValue task (Some i)) + chunks_for env (ResponseValue r)
       \<le> card (free_draws (ix_redis env) (ic_server s))"
    and others: "list_all (undisturbed env (i # qs)) before" "after \<noteq> []"
      "r = DiffResponse None \<longrightarrow> list_all (undisturbed env (i # qs)) after"
  shows "\<exists>s'. request_response_listener env now task (connection_type l)
       (before @ (\<lambda>t. the (serve env l (task, Some i) t)) # after) s =
         Some (Inr (if r = DiffResponse None then None else Some (ResponseValue r)), s') \<and>
     ic_threads s' = remove1 (l, task, Some i) (ic_threads s @ [(l, task, Some i)]) \<and> ic_db s' = ic_db s \<and> ic_fs s' = ic_fs s"
proof -
  let ?serve = "\<lambda>t. the (serve env l (task, Some i) t)"
  have conn: "connection_type l \<in> set (i # qs)" and i_in: "i \<in> set (i # qs)" and ne: "connection_type l \<noteq> i"
    using ok(2,3) by auto
  obtain s0 where s0: "add_to_redis_queue env (connection_type l) task (Some i) s = Some s0"
    "chunks_for env (ResponseValue r) \<le> card (free_draws (ix_redis env) (ic_server s0))"
    using add_message_returns [OF ok(1) conn pick(1) fair enough] by blast
  note add = add_message [OF ok(1) conn pick(1) s0(1)]
  have same0: "ic_db s0 = ic_db s" "ic_fs s0 = ic_fs s" "ic_threads s0 = ic_threads s"
    by (subst add(3), simp)+
  have msgs0: "messages env s0 (connection_type l) = [TaskValue task (Some i)]" "messages env s0 i = []"
    using add(2) [OF conn] add(2) [OF i_in] quiet ne by auto
  obtain s1 where s1: "response_listener env i (before @ ?serve # after) s0 = response_listener env i (?serve # after) s1"
    "redis_ok env (i # qs) s1" "\<forall>k\<in>set (i # qs). messages env s1 k = messages env s0 k"
    "card (free_draws (ix_redis env) (ic_server s0)) \<le> card (free_draws (ix_redis env) (ic_server s1))"
    "ic_db s1 = ic_db s0" "ic_fs s1 = ic_fs s0" "ic_threads s1 = ic_threads s0"
    using polling_continues [OF add(1) i_in msgs0(2) others(1), of "?serve # after"] by blast
  have msgs1: "messages env s1 (connection_type l) = [TaskValue task (Some i)]" "messages env s1 i = []"
    using s1(3) msgs0 conn i_in by metis+
  obtain t where poll: "redis_get (ix_redis env) i True (ic_server s1) = (Inr None, t)"
    "redis_ok env (i # qs) (s1\<lparr>ic_server := t\<rparr>)"
    "\<forall>k\<in>set (i # qs). messages env (s1\<lparr>ic_server := t\<rparr>) k = messages env s1 k"
    "free_draws (ix_redis env) t = free_draws (ix_redis env) (ic_server s1)"
    using poll_before_response [OF s1(2) i_in msgs1(2)] by blast
  let ?s2 = "s1\<lparr>ic_server := t\<rparr>"
  have msgs2: "messages env ?s2 (connection_type l) = [TaskValue task (Some i)]" "messages env ?s2 i = []"
    using poll(3) msgs1 ok(2) i_in by simp_all
  have resp2: "response_for env l task ?s2 = Inr r"
    using resp response_for_frame [of ?s2 s env l task] same0 s1(5,6) by simp
  have enough2: "chunks_for env (ResponseValue r) \<le> card (free_draws (ix_redis env) (ic_server ?s2))"
    using s0(2) s1(4) poll(4) by simp
  obtain s3 t' where s3: "serve env l (task, Some i) ?s2 = Some s3" "ic_db s3 = ic_db s" "ic_fs s3 = ic_fs s"
    "ic_threads s3 = remove1 (l, task, Some i) (ic_threads s @ [(l, task, Some i)])"
    "redis_get (ix_redis env) i True (ic_server s3) = (Inr (Some (ResponseValue r)), t')"
    "redis_ok env (i # qs) (s3\<lparr>ic_server := t'\<rparr>)" "messages env (s3\<lparr>ic_server := t'\<rparr>) i = []"
    using serve_stores_response [OF poll(2) ok(2) msgs2(1) l resp2 msgs2(2) fair pick(2) enough2] same0 s1(5-7) by auto
  obtain f fs where after: "after = f # fs"
    using others(2) by (cases after) auto
  have start: "request_response_listener env now task (connection_type l) (before @ ?serve # after) s =
      Some (response_listener env i after s3)"
    using s0(1) s1(1) poll(1) s3(1) by (simp add: request_response_listener_def Let_def flip: id)
  show ?thesis
  proof (cases "r = DiffResponse None")
    case False
    then have "response_listener env i after s3 = (Inr (Some (ResponseValue r)), s3\<lparr>ic_server := t'\<rparr>)"
      using s3(5) by (simp add: after py_none_def)
    then show ?thesis
      using start s3(2-4) False by simp
  next
    case True
    let ?s4 = "f (s3\<lparr>ic_server := t'\<rparr>)"
    have inert: "undisturbed env (i # qs) f" "list_all (undisturbed env (i # qs)) fs"
      using others(3) True by (simp_all add: after)
    note s4 = inert(1) [unfolded undisturbed_def, rule_format, OF s3(6)]
    have msgs4: "messages env ?s4 i = []"
      using s4 s3(7) by simp
    obtain s5 where s5: "response_listener env i (fs @ []) ?s4 = response_listener env i [] s5"
      "ic_db s5 = ic_db ?s4" "ic_fs s5 = ic_fs ?s4" "ic_threads s5 = ic_threads ?s4"
      using polling_continues [OF _ i_in msgs4 inert(2), of "[]"] s4 by blast
    have "response_listener env i after s3 = (Inr None, s5)"
      using s3(5) s5(1) True by (simp add: after py_none_def)
    then show ?thesis
      using start s3(2-4) s4 s5(2-4) True by simp
  qed
qed

text \<open>
  Two updates of the same file at the same time: the second event replaces the first one in the dictionary. The
  thread of the first request then waits for the second event, and the second request fails at once, although its
  analysis is running.
\<close>

lemma concurrent_single_file_updates:
  assumes "register_single_file fo i s = (fo1, s1)" "register_single_file fo j s1 = (fo2, s2)"
  shows "\<exists>s3. respond_step env (SingleFileL, FwTask fo1, i) s2 = Some s3 \<and>
     (ic_next_event s1, i) \<in> set (ic_waiting s3) \<and> callback fo1 \<noteq> Some (ic_next_event s1) \<and>
     respond_step env (SingleFileL, FwTask fo2, j) s3 =
       store_response env j (BoolResponse False) (s3\<lparr>ic_threads := remove1 (SingleFileL, FwTask fo2, j) (ic_threads s3)\<rparr>)"
  using assms
  by (auto simp: register_single_file_def start_response_thread_def respond_step_def take_event_def Let_def
      update_Some_unfold map_of_update delete_conv)

section \<open>Witnesses\<close>

text \<open>A pickle of two values, \<open>v\<close> and any other one\<close>

definition example_intercom :: "redis_value \<Rightarrow> redis_value \<Rightarrow> example_server intercom_env" where
  "example_intercom v w = \<lparr>
     ix_redis = example_redis_for (\<lambda>x. if x = v then ''value'' else ''w'') (\<lambda>b. Inr (if b = ''value'' then v else w)),
     ix_unpacking = example_unpacking_env,
     ix_yara = \<lparr>y_compile = Compiled, y_run = (\<lambda>_ _. []), y_storage = ''m'', y_limit = 20\<rparr>,
     ix_delete = (\<lambda>p fs. fs(p := None)), ix_diff = (\<lambda>a b _ _. a @ b), ix_repack = (\<lambda>_ _. []), ix_yara_error = (\<lambda>_. None),
     ix_decode_ignore = id, ix_log_lines = None, ix_pickle = (\<lambda>_. ''p''), ix_time_str = (\<lambda>_. ''t''), ix_fuel = 1\<rparr>"

definition example_intercom_state :: "database \<Rightarrow> example_server intercom_state" where
  "example_intercom_state db = \<lparr>ic_server = example_server, ic_draws = 0,
     ic_unpacking = init_unpacking [] [''m/a/a'' \<mapsto> ''firmware'', ''m/b/b'' \<mapsto> ''shared'', ''m/f1/f1'' \<mapsto> ''image''] []
       ((example_state [])\<lparr>sdb := db\<rparr>),
     ic_comparison = example_scheduler, ic_events = [], ic_next_event = 0, ic_threads = [],
     ic_waiting = []\<rparr>"

lemma example_intercom_simps:
  "ix_redis (example_intercom v w) = example_redis_for (\<lambda>x. if x = v then ''value'' else ''w'') (\<lambda>b. Inr (if b = ''value'' then v else w))"
  "ix_delete (example_intercom v w) = (\<lambda>p fs. fs(p := None))" "ic_storage (example_intercom v w) = ''m''"
  "ic_server (example_intercom_state db) = example_server" "ic_draws (example_intercom_state db) = 0"
  "ic_db (example_intercom_state db) = db" "ic_locks (example_intercom_state db) = []"
  by (simp_all add: example_intercom_def example_intercom_state_def example_unpacking_env_def example_extractor_def example_unpack_env_def
      init_unpacking_def example_state_def)

lemma example_messages: "messages (example_intercom v w) (example_intercom_state db) k = []"
  by (simp add: messages_def queue_content_def example_intercom_simps example_redis_for_def)

lemma example_intercom_ok:
  assumes "distinct qs" "set qs \<inter> range chunk_key = {}"
  shows "redis_ok (example_intercom v w) qs (example_intercom_state db)"
  using example_queues_ok [OF assms] by (simp add: example_intercom_simps)

lemma example_intercom_picklable:
  "picklable (ix_redis (example_intercom v w)) v" "picklable (ix_redis (example_intercom v w)) w"
  by (auto simp: picklable_def example_intercom_simps example_redis_for_def CHUNK_MAGIC_def)

lemma example_chunks_for: "chunks_for (example_intercom v w) x \<le> 3"
  by (auto simp: chunks_for_def chunks_of_def example_intercom_simps example_redis_for_def)

lemma example_intercom_free:
  "fair_draws (ix_redis (example_intercom v w))"
  "card (free_draws (ix_redis (example_intercom v w)) (ic_server (example_intercom_state db))) = 10000"
  unfolding example_intercom_simps by (rule example_fair example_free)+

lemma shared_db_deletion:
  "\<exists>db' counts uids. delete_firmware ''f1'' True shared_db = (db', counts, Some uids) \<and> set [''f1'', ''a''] = uids \<and> ''b'' \<in> file_uids db'"
proof -
  have "file_uids (delete_object ''f1'' shared_db) = {''f2'', ''b''}"
    by code_simp
  moreover have "get_all_files_in_fw shared_db ''f1'' = {''a'', ''b''}"
    by code_simp
  ultimately show ?thesis
    by (auto simp: delete_firmware_def Let_def find_files_still_in_db_def shared_db_def example_entry_def)
qed

theorem firmware_deletion_safe_witness:
  "\<exists>db' s1 s2. let task = UidsTask [''f1'', ''a'']; env = example_intercom (TaskValue task None) (StatusValue []);
       s = example_intercom_state db'
     in fst (delete_firmware ''f1'' True shared_db) = db' \<and> fe_delete_file env [''f1'', ''a''] s = Some s1 \<and>
        listener_step env DeleteFileL s1 = (None, s2) \<and>
        ic_fs s (generate_path_from_uid ''m'' ''b'') = ic_fs s2 (generate_path_from_uid ''m'' ''b'')"
proof -
  obtain db' counts uids where del: "delete_firmware ''f1'' True shared_db = (db', counts, Some uids)"
    and uids: "set [''f1'', ''a''] = uids" and left: "''b'' \<in> file_uids db'"
    using shared_db_deletion by blast
  let ?task = "UidsTask [''f1'', ''a'']"
  let ?env = "example_intercom (TaskValue ?task None) (StatusValue [])" and ?s = "example_intercom_state db'"
  have ok: "redis_ok ?env [''file_delete_task''] ?s"
    by (rule example_intercom_ok) (auto simp: chunk_key_def)
  have "chunks_for ?env (TaskValue ?task None) \<le> card (free_draws (ix_redis ?env) (ic_server ?s))"
    using example_chunks_for [of "TaskValue ?task None" "StatusValue []" "TaskValue ?task None"] example_intercom_free(2) by simp
  from firmware_deletion_safe [OF del uids example_intercom_simps(6) ok _ example_messages example_intercom_picklable(1)
    example_intercom_free(1) this] left del
  show ?thesis
    unfolding Let_def by (force simp: delete_law_def example_intercom_simps)
qed

theorem request_answered_witness:
  "let task = PeekTask ''a'' 1 2; i = ''p_t''; r = ResponseValue (BytesResponse ''ir''); l = PeekBinaryL;
     env = example_intercom (TaskValue task (Some i)) r
   in \<exists>s'. request_response_listener env 0 task (connection_type l) [id, \<lambda>t. the (serve env l (task, Some i) t), id]
        (example_intercom_state shared_db) = Some (Inr (Some r), s')"
proof -
  let ?task = "PeekTask ''a'' 1 2" and ?r = "BytesResponse ''ir''" and ?i = "''p_t''" and ?s = "example_intercom_state shared_db"
  let ?env = "example_intercom (TaskValue ?task (Some ?i)) (ResponseValue ?r)"
  have id: "?i = generate_task_id ?env 0 ?task"
    by (simp add: generate_task_id_def example_intercom_def example_unpacking_env_def example_extractor_def example_unpack_env_def)
  have ok: "redis_ok ?env [?i, ''binary_peek_task''] ?s"
    by (rule example_intercom_ok) (auto simp: chunk_key_def)
  have resp: "response_for ?env PeekBinaryL ?task ?s = Inr ?r"
    by (simp add: response_for_def read_partial_binary_def get_file_name_def example_intercom_simps shared_db_def
        example_entry_def result_simps generate_path_from_uid_def example_intercom_state_def init_unpacking_def)
  have enough: "chunks_for ?env (TaskValue ?task (Some ?i)) + chunks_for ?env (ResponseValue ?r)
      \<le> card (free_draws (ix_redis ?env) (ic_server ?s))"
    using example_chunks_for [of "TaskValue ?task (Some ?i)" "ResponseValue ?r" "TaskValue ?task (Some ?i)"]
      example_chunks_for [of "TaskValue ?task (Some ?i)" "ResponseValue ?r" "ResponseValue ?r"] example_intercom_free(2)
    by simp
  have "connection_type PeekBinaryL \<in> set [''binary_peek_task'']" "?i \<notin> set [''binary_peek_task'']"
    "is_responder PeekBinaryL" "PeekBinaryL \<noteq> SingleFileL"
    by (simp_all add: is_responder_def)
  note answer = request_answered [OF id ok this(1,2) example_messages example_messages this(3,4) resp
    example_intercom_picklable example_intercom_free(1) enough, of "[id]" "[id]"]
  have "list_all (undisturbed ?env [?i, ''binary_peek_task'']) [id]"
    by (simp add: undisturbed_def)
  with answer show ?thesis
    unfolding Let_def by auto
qed

end
