(* ===== verification/Upload.thy ===== *)
theory Upload
  imports Intercom
begin

text \<open>
  How a firmware gets into the system: the upload form and the REST interface
  (\<^verbatim>\<open>src/src/helperFunctions/task_conversion.py\<close>, the upload of \<^verbatim>\<open>src/src/web_interface/components/io_routes.py\<close>,
  the new analysis of \<^verbatim>\<open>src/src/web_interface/components/analysis_routes.py\<close>, and
  \<^verbatim>\<open>src/src/web_interface/rest/helper.py\<close> and \<^verbatim>\<open>rest_firmware.py\<close>) turn a request into a firmware object and put
  it into the queue of the back end. Flask, \<open>markupsafe\<close> (\<open>escape\<close>), \<open>json\<close> and \<open>base64\<close> are parameters; templates
  and the access control are left out. A missing form field is a \<open>KeyError\<close> (\<open>BadRequestKeyError\<close>).
\<close>

section \<open>task_conversion.py\<close>

record upload_file =
  up_filename :: string
  up_content :: string

record request =
  rq_form :: "(string \<times> string) list"
  rq_file :: "upload_file option"

text \<open>The task is a dictionary; \<open>file_name\<close>, \<open>binary\<close>, \<open>uid\<close> and \<open>tags\<close> may be missing or \<open>None\<close>.\<close>

record analysis_task =
  t_device_name :: string
  t_device_part :: string
  t_device_class :: string
  t_vendor :: string
  t_version :: string
  t_release_date :: string
  t_requested_analysis_systems :: "string list"
  t_tags :: "string option"
  t_file_name :: "string option"
  t_binary :: "string option"
  t_uid :: "string option"

text \<open>\<open>form[key]\<close> and \<open>form.getlist(key)\<close>\<close>

definition form_item :: "request \<Rightarrow> string \<Rightarrow> string result" where
  "form_item rq k = dict_item (rq_form rq) k"

definition form_list :: "request \<Rightarrow> string \<Rightarrow> string list" where
  "form_list rq k = map snd (filter (\<lambda>(k', _). k' = k) (rq_form rq))"

definition meta_from_dropdown :: "(string \<Rightarrow> string) \<Rightarrow> request \<Rightarrow> string \<Rightarrow> string \<Rightarrow> string result" where
  "meta_from_dropdown escape rq field v =
     (if v \<noteq> [] then Inr v
      else bindE (form_item rq (field @ ''_dropdown'')) (\<lambda>dd. Inr (if dd \<noteq> ''new entry'' then escape dd else v)))"

definition get_meta_from_request :: "(string \<Rightarrow> string) \<Rightarrow> request \<Rightarrow> analysis_task result" where
  "get_meta_from_request escape rq =
     bindE (form_item rq ''device_name'') (\<lambda>name. bindE (form_item rq ''device_part'') (\<lambda>dpart.
     bindE (form_item rq ''device_class'') (\<lambda>dclass. bindE (form_item rq ''vendor'') (\<lambda>dvendor.
     bindE (form_item rq ''version'') (\<lambda>version. bindE (form_item rq ''release_date'') (\<lambda>date.
     bindE (form_item rq ''tags'') (\<lambda>tags.
     bindE (meta_from_dropdown escape rq ''device_name'' (escape name)) (\<lambda>name.
     bindE (meta_from_dropdown escape rq ''device_part'' (escape dpart)) (\<lambda>dpart.
     bindE (meta_from_dropdown escape rq ''device_class'' (escape dclass)) (\<lambda>dclass.
     bindE (meta_from_dropdown escape rq ''vendor'' (escape dvendor)) (\<lambda>dvendor.
       Inr \<lparr>t_device_name = name, t_device_part = dpart, t_device_class = dclass, t_vendor = dvendor,
            t_version = escape version, t_release_date = escape date,
            t_requested_analysis_systems = form_list rq ''analysis_systems'', t_tags = Some (escape tags),
            t_file_name = map_option escape (map_of (rq_form rq) ''file_name''), t_binary = None, t_uid = None\<rparr>)))))))))))"

definition get_uid_of_analysis_task :: "(string \<Rightarrow> string) \<Rightarrow> analysis_task \<Rightarrow> string option result" where
  "get_uid_of_analysis_task sha task = (case t_binary task of
       None \<Rightarrow> Inl KeyError
     | Some b \<Rightarrow> if b = [] then Inr None else bindE (create_uid sha (Bytes b)) (\<lambda>u. Inr (Some u)))"

text \<open>An uploaded file counts as present if it has a name.\<close>

definition get_file_name_and_binary_from_request :: "(string \<Rightarrow> string) \<Rightarrow> upload_file \<Rightarrow> string \<times> string option" where
  "get_file_name_and_binary_from_request escape f =
     (escape (up_filename f), if up_filename f \<noteq> [] then Some (up_content f) else None)"

definition default_release_date :: "analysis_task \<Rightarrow> analysis_task" where
  "default_release_date task = (if t_release_date task = [] then task\<lparr>t_release_date := ''1970-01-01''\<rparr> else task)"

definition create_analysis_task :: "(string \<Rightarrow> string) \<Rightarrow> (string \<Rightarrow> string) \<Rightarrow> request \<Rightarrow> analysis_task result" where
  "create_analysis_task escape sha rq =
     bindE (get_meta_from_request escape rq) (\<lambda>task.
     case rq_file rq of
       None \<Rightarrow> Inl KeyError
     | Some f \<Rightarrow>
         let (name, content) = get_file_name_and_binary_from_request escape f;
             task = (if up_filename f \<noteq> [] then task\<lparr>t_file_name := Some name, t_binary := content\<rparr> else task)
         in bindE (get_uid_of_analysis_task sha task) (\<lambda>u. Inr (default_release_date (task\<lparr>t_uid := u\<rparr>))))"

definition create_re_analyze_task :: "(string \<Rightarrow> string) \<Rightarrow> request \<Rightarrow> string \<Rightarrow> analysis_task result" where
  "create_re_analyze_task escape rq u =
     bindE (get_meta_from_request escape rq) (\<lambda>task. Inr (default_release_date (task\<lparr>t_uid := Some u\<rparr>)))"

definition upload_tag_list :: "string option \<Rightarrow> string list" where
  "upload_tag_list tag_string = (case tag_string of None \<Rightarrow> [] | Some s \<Rightarrow> if s = [] then [] else py_split (CHR '','') s)"

text \<open>An object that is no firmware has no \<open>set_part_name\<close>.\<close>

definition task_metadata :: "analysis_task \<Rightarrow> file_object \<Rightarrow> file_object result" where
  "task_metadata task fw = (case firmware fw of
       None \<Rightarrow> Inl AttributeError
     | Some d \<Rightarrow>
         let d = set_part_name (t_device_part task) (d\<lparr>device_name := Some (t_device_name task)\<rparr>);
             d = d\<lparr>fw_version := Some (t_version task), device_class := Some (t_device_class task), vendor := Some (t_vendor task),
                   release_date := Some (t_release_date task), fw_tags := []\<rparr>
         in Inr (fw\<lparr>firmware := Some (fold set_tag (upload_tag_list (t_tags task)) d)\<rparr>))"

definition convert_analysis_task_to_fw_obj ::
  "(string \<Rightarrow> string) \<Rightarrow> (string \<Rightarrow> string) \<Rightarrow> analysis_task \<Rightarrow> file_object option \<Rightarrow> file_object result" where
  "convert_analysis_task_to_fw_obj sha md5 task base_fw =
     (let fw = (case base_fw of None \<Rightarrow> empty_file_object [] True | Some b \<Rightarrow> b);
          fw = fw\<lparr>scheduled_analysis := Some (t_requested_analysis_systems task)\<rparr>
      in bindE (case t_binary task of
             Some b \<Rightarrow>
               (case t_file_name task of
                  None \<Rightarrow> Inl KeyError
                | Some n \<Rightarrow> Inr ((set_binary sha md5 b fw)\<lparr>file_name := Some n\<rparr>))
           | None \<Rightarrow>
               (case t_uid task of
                  None \<Rightarrow> Inl KeyError
                | Some u \<Rightarrow>
                    Inr ((case t_file_name task of None \<Rightarrow> fw | Some n \<Rightarrow> fw\<lparr>file_name := Some n\<rparr>)\<lparr>uid := u\<rparr>)))
         (task_metadata task))"

section \<open>The routes\<close>

text \<open>\<open>post_upload\<close>: the page shows the UID of the task. The inner \<open>None\<close> is a request that never gets into the queue.\<close>

definition post_upload ::
  "(string \<Rightarrow> string) \<Rightarrow> (string \<Rightarrow> string) \<Rightarrow> (string \<Rightarrow> string) \<Rightarrow> 's intercom_env \<Rightarrow> request \<Rightarrow> 's intercom_state \<Rightarrow>
   (string option \<times> 's intercom_state) option result" where
  "post_upload escape sha md5 env rq s =
     bindE (create_analysis_task escape sha rq) (\<lambda>task.
     bindE (convert_analysis_task_to_fw_obj sha md5 task None) (\<lambda>fw.
       Inr (map_option (Pair (t_uid task)) (add_analysis_task env fw s))))"

text \<open>
  \<open>post_update_analysis\<close> without \<open>re_do\<close>: a new analysis of a stored firmware with changed metadata. An object that is not
  in the database has no attribute to set.
\<close>

definition post_update_analysis ::
  "(string \<Rightarrow> string) \<Rightarrow> (string \<Rightarrow> string) \<Rightarrow> (string \<Rightarrow> string) \<Rightarrow> 's intercom_env \<Rightarrow> request \<Rightarrow> string \<Rightarrow> 's intercom_state \<Rightarrow>
   's intercom_state option result" where
  "post_update_analysis escape sha md5 env rq u s =
     bindE (create_re_analyze_task escape rq u) (\<lambda>task.
     bindE (get_object (ic_db s) u None) (\<lambda>base_fw. case base_fw of
       None \<Rightarrow> Inl AttributeError
     | Some base \<Rightarrow>
         bindE (convert_analysis_task_to_fw_obj sha md5 task
             (Some (base\<lparr>force_update := (map_of (rq_form rq) ''force_reanalysis'' = Some ''true'')\<rparr>))) (\<lambda>fw.
           Inr (add_re_analyze_task env fw False s))))"

text \<open>
  With \<open>re_do\<close> the binary is fetched from the back end (\<open>downloaded\<close>, \<open>None\<close> after a timeout), the firmware is deleted from the
  database and analysed from scratch. The first result is the exception that ends the request, if any.
\<close>

definition redo_analysis ::
  "(string \<Rightarrow> string) \<Rightarrow> (string \<Rightarrow> string) \<Rightarrow> (string \<Rightarrow> string) \<Rightarrow> 's intercom_env \<Rightarrow> request \<Rightarrow> string \<Rightarrow>
   (string option \<times> string option) option \<Rightarrow> 's intercom_state \<Rightarrow> (py_error option \<times> 's intercom_state) option" where
  "redo_analysis escape sha md5 env rq u downloaded s =
     (case create_re_analyze_task escape rq u of
        Inl e \<Rightarrow> Some (Some e, s)
      | Inr task \<Rightarrow>
          (case downloaded of
             None \<Rightarrow> Some (Some TypeError, s)
           | Some (content, _) \<Rightarrow>
               (case delete_firmware u False (ic_db s) of (db', _, uids) \<Rightarrow>
                  let s1 = on_unpacking (\<lambda>v. v\<lparr>un_analysis := (un_analysis v)\<lparr>sdb := db'\<rparr>\<rparr>) s
                  in case (case uids of None \<Rightarrow> Some s1 | Some us \<Rightarrow> fe_delete_file env (sorted_list_of_set us) s1) of
                       None \<Rightarrow> None
                     | Some s2 \<Rightarrow>
                         (case (case content of
                              None \<Rightarrow> Inl TypeError
                            | Some b \<Rightarrow> convert_analysis_task_to_fw_obj sha md5 (task\<lparr>t_binary := Some b\<rparr>) None) of
                            Inl e \<Rightarrow> Some (Some e, s2)
                          | Inr fw \<Rightarrow> map_option (Pair None) (add_re_analyze_task env fw True s2)))))"

section \<open>REST\<close>

text \<open>
  The reasons for which a request is refused; a refused request leaves the queues as they are. The values of
  \<open>json.loads\<close> and \<open>int\<close> are parameters (\<open>None\<close>: the text is malformed).
\<close>

datatype rest_failure =
    MalformedOffset | MalformedLimit
  | QueryNoDocument
  | NotBoolean string
  | UpdateMissing | UpdateNoList | UpdateEmpty
  | RecursiveWithoutQuery | InvertedWithoutRecursive
  | UnavailablePlugins "string set"
  | BinaryNotBase64
  | UnknownFirmware string
  | UnknownAnalysisSystem pyval

type_synonym parameters = "(string \<times> string) list"

definition get_paging :: "(string \<Rightarrow> int option) \<Rightarrow> parameters \<Rightarrow> rest_failure + (int \<times> int)" where
  "get_paging py_int ps =
     bindE (case map_of ps ''offset'' of None \<Rightarrow> Inr 0 | Some t \<Rightarrow> (case py_int t of None \<Rightarrow> Inl MalformedOffset | Some i \<Rightarrow> Inr i)) (\<lambda>offset.
     bindE (case map_of ps ''limit'' of None \<Rightarrow> Inr 0 | Some t \<Rightarrow> (case py_int t of None \<Rightarrow> Inl MalformedLimit | Some i \<Rightarrow> Inr i)) (\<lambda>limit.
       Inr (offset, limit)))"

definition get_query :: "(string \<Rightarrow> pyval option) \<Rightarrow> parameters \<Rightarrow> rest_failure + pydict" where
  "get_query json_loads ps = (case map_of ps ''query'' of
       None \<Rightarrow> Inr []
     | Some t \<Rightarrow>
         if t = [] then Inr []
         else (case json_loads t of Some (PDict d) \<Rightarrow> Inr d | _ \<Rightarrow> Inl QueryNoDocument))"

definition get_boolean_from_request :: "(string \<Rightarrow> pyval option) \<Rightarrow> parameters \<Rightarrow> string \<Rightarrow> rest_failure + bool" where
  "get_boolean_from_request json_loads ps name = (case map_of ps name of
       None \<Rightarrow> Inr False
     | Some t \<Rightarrow> (case json_loads t of Some (PBool b) \<Rightarrow> Inr b | _ \<Rightarrow> Inl (NotBoolean name)))"

definition get_update :: "(string \<Rightarrow> pyval option) \<Rightarrow> parameters \<Rightarrow> rest_failure + pyval list" where
  "get_update json_loads ps = (case map_of ps ''update'' of
       None \<Rightarrow> Inl UpdateMissing
     | Some t \<Rightarrow>
         (case json_loads t of
            Some (PList us) \<Rightarrow> if us = [] then Inl UpdateEmpty else Inr us
          | _ \<Rightarrow> Inl UpdateNoList))"

definition get_parameters_from_request ::
  "(string \<Rightarrow> pyval option) \<Rightarrow> (string \<Rightarrow> int option) \<Rightarrow> parameters \<Rightarrow> rest_failure + (pydict \<times> bool \<times> bool \<times> int \<times> int)" where
  "get_parameters_from_request json_loads py_int ps =
     bindE (get_query json_loads ps) (\<lambda>query.
     bindE (get_boolean_from_request json_loads ps ''recursive'') (\<lambda>recursive.
     bindE (get_boolean_from_request json_loads ps ''inverted'') (\<lambda>inverted.
     bindE (get_paging py_int ps) (\<lambda>(offset, limit).
       if recursive \<and> query = [] then Inl RecursiveWithoutQuery
       else if inverted \<and> \<not> recursive then Inl InvertedWithoutRecursive
       else Inr (query, recursive, inverted, offset, limit)))))"

text \<open>The keys of the dictionary that the back end publishes\<close>

definition available_plugins :: "'s intercom_env \<Rightarrow> 's intercom_state \<Rightarrow> string list result" where
  "available_plugins env s = bindE (get_available_analysis_plugins env s) (\<lambda>v. case v of
       PluginsValue d \<Rightarrow> Inr (map fst d)
     | _ \<Rightarrow> Inl AttributeError)"

text \<open>\<open>put\<close> of the firmware resource; the validated data have the form of a task whose binary is base64 text.\<close>

definition rest_put_firmware ::
  "(string \<Rightarrow> string option) \<Rightarrow> (string \<Rightarrow> string) \<Rightarrow> (string \<Rightarrow> string) \<Rightarrow> 's intercom_env \<Rightarrow> analysis_task \<Rightarrow> 's intercom_state \<Rightarrow>
   (rest_failure + (string \<times> 's intercom_state) option) result" where
  "rest_put_firmware b64decode sha md5 env data s =
     bindE (available_plugins env s) (\<lambda>plugins.
       let unavailable = set (t_requested_analysis_systems data) - (set plugins - {''unpacker''}) in
       if unavailable \<noteq> {} then Inr (Inl (UnavailablePlugins unavailable))
       else (case t_binary data of
           None \<Rightarrow> Inl KeyError
         | Some text \<Rightarrow>
             (case b64decode text of
                None \<Rightarrow> Inr (Inl BinaryNotBase64)
              | Some b \<Rightarrow>
                  bindE (convert_analysis_task_to_fw_obj sha md5 (data\<lparr>t_binary := Some b\<rparr>) None) (\<lambda>fw.
                    Inr (Inr (map_option (Pair (uid fw)) (add_analysis_task env fw s)))))))"

text \<open>\<open>item not in supported_plugins\<close> raises for a list or a dictionary.\<close>

fun unknown_system :: "string list \<Rightarrow> pyval list \<Rightarrow> pyval option result" where
  "unknown_system plugins [] = Inr None"
| "unknown_system plugins (v # vs) = (case v of
       PStr p \<Rightarrow> if p \<in> set plugins then unknown_system plugins vs else Inr (Some v)
     | PList _ \<Rightarrow> Inl TypeError
     | PDict _ \<Rightarrow> Inl TypeError
     | _ \<Rightarrow> Inr (Some v))"

definition rest_update_analysis ::
  "'s intercom_env \<Rightarrow> string \<Rightarrow> pyval list \<Rightarrow> 's intercom_state \<Rightarrow> (rest_failure + 's intercom_state option) result" where
  "rest_update_analysis env u update s =
     bindE (get_object (ic_db s) u None) (\<lambda>fw. case fw of
       None \<Rightarrow> Inr (Inl (UnknownFirmware u))
     | Some fw \<Rightarrow>
         let do_unpack = PStr ''unpacker'' \<in> set update; update = filter (\<lambda>v. v \<noteq> PStr ''unpacker'') update
         in bindE (available_plugins env s) (\<lambda>plugins. bindE (unknown_system plugins update) (\<lambda>bad. case bad of
              Some v \<Rightarrow> Inr (Inl (UnknownAnalysisSystem v))
            | None \<Rightarrow> Inr (Inr (add_re_analyze_task env (fw\<lparr>scheduled_analysis := Some (map str_of_py update)\<rparr>) do_unpack s)))))"

section \<open>From the form to the queue of the unpacker\<close>

text \<open>What the user chose: the text field, or the entry of the menu if the field is empty\<close>

definition chosen :: "(string \<Rightarrow> string) \<Rightarrow> request \<Rightarrow> string \<Rightarrow> string option" where
  "chosen escape rq field = (case map_of (rq_form rq) field of
       None \<Rightarrow> None
     | Some v \<Rightarrow>
         if escape v \<noteq> [] then Some (escape v)
         else map_option (\<lambda>dd. if dd = ''new entry'' then [] else escape dd) (map_of (rq_form rq) (field @ ''_dropdown'')))"

definition complete_form :: "(string \<Rightarrow> string) \<Rightarrow> request \<Rightarrow> bool" where
  "complete_form escape rq \<longleftrightarrow>
     list_all (\<lambda>field. chosen escape rq field \<noteq> None) [''device_name'', ''device_part'', ''device_class'', ''vendor''] \<and>
     list_all (\<lambda>field. map_of (rq_form rq) field \<noteq> None) [''version'', ''release_date'', ''tags'']"

definition form_text :: "(string \<Rightarrow> string) \<Rightarrow> request \<Rightarrow> string \<Rightarrow> string" where
  "form_text escape rq field = escape (the (map_of (rq_form rq) field))"

text \<open>The firmware that a request with a file describes\<close>

definition described_metadata :: "(string \<Rightarrow> string) \<Rightarrow> (string \<Rightarrow> string) \<Rightarrow> request \<Rightarrow> string \<Rightarrow> firmware_data" where
  "described_metadata escape md5 rq content = \<lparr>
     device_name = chosen escape rq ''device_name'', fw_version = Some (form_text escape rq ''version''),
     device_class = chosen escape rq ''device_class'', vendor = chosen escape rq ''vendor'',
     part = (if chosen escape rq ''device_part'' = Some ''complete'' then [] else the (chosen escape rq ''device_part'')),
     release_date = Some (if form_text escape rq ''release_date'' = [] then ''1970-01-01'' else form_text escape rq ''release_date''),
     fw_tags = fold (\<lambda>t. AList.update t TagColor_GRAY) (upload_tag_list (Some (form_text escape rq ''tags''))) [],
     fw_md5 = Some (md5 content)\<rparr>"

definition described_firmware ::
  "(string \<Rightarrow> string) \<Rightarrow> (string \<Rightarrow> string) \<Rightarrow> (string \<Rightarrow> string) \<Rightarrow> request \<Rightarrow> upload_file \<Rightarrow> file_object" where
  "described_firmware escape sha md5 rq f =
     (let u = sha (up_content f) @ ''_'' @ nat_str (length (up_content f)) in
      (empty_file_object u True)\<lparr>scheduled_analysis := Some (form_list rq ''analysis_systems''), root_uid := Some u,
        binary := Some (up_content f), sha256 := Some (sha (up_content f)), fo_size := Some (int (length (up_content f))),
        file_name := Some (escape (up_filename f)), firmware := Some (described_metadata escape md5 rq (up_content f))\<rparr>)"

lemma dropdown_chosen:
  assumes "chosen escape rq field = Some c" "form_item rq field = Inr v"
  shows "meta_from_dropdown escape rq field (escape v) = Inr c"
  using assms by (auto simp: chosen_def meta_from_dropdown_def form_item_def dict_simps dict_item_def split: if_splits option.splits)

lemma chosen_item:
  assumes "chosen escape rq field = Some c"
  obtains v where "form_item rq field = Inr v" "meta_from_dropdown escape rq field (escape v) = Inr c"
proof -
  obtain v where "form_item rq field = Inr v"
    using assms by (auto simp: chosen_def form_item_def dict_item_def split: option.splits)
  then show ?thesis
    using dropdown_chosen [OF assms] that by blast
qed

lemma complete_form_meta:
  assumes "complete_form escape rq"
  shows "get_meta_from_request escape rq = Inr \<lparr>t_device_name = the (chosen escape rq ''device_name''),
    t_device_part = the (chosen escape rq ''device_part''), t_device_class = the (chosen escape rq ''device_class''),
    t_vendor = the (chosen escape rq ''vendor''), t_version = form_text escape rq ''version'',
    t_release_date = form_text escape rq ''release_date'', t_requested_analysis_systems = form_list rq ''analysis_systems'',
    t_tags = Some (form_text escape rq ''tags''), t_file_name = map_option escape (map_of (rq_form rq) ''file_name''),
    t_binary = None, t_uid = None\<rparr>"
proof -
  obtain a b c d where "chosen escape rq ''device_name'' = Some a" "chosen escape rq ''device_part'' = Some b"
      "chosen escape rq ''device_class'' = Some c" "chosen escape rq ''vendor'' = Some d"
    using assms by (auto simp: complete_form_def)
  note chosen = this
  obtain av bv cv dv where items:
      "form_item rq ''device_name'' = Inr av" "meta_from_dropdown escape rq ''device_name'' (escape av) = Inr a"
      "form_item rq ''device_part'' = Inr bv" "meta_from_dropdown escape rq ''device_part'' (escape bv) = Inr b"
      "form_item rq ''device_class'' = Inr cv" "meta_from_dropdown escape rq ''device_class'' (escape cv) = Inr c"
      "form_item rq ''vendor'' = Inr dv" "meta_from_dropdown escape rq ''vendor'' (escape dv) = Inr d"
    using chosen by (meson chosen_item)
  obtain v date tags where texts: "map_of (rq_form rq) ''version'' = Some v" "map_of (rq_form rq) ''release_date'' = Some date"
      "map_of (rq_form rq) ''tags'' = Some tags"
    using assms by (auto simp: complete_form_def)
  then have "form_item rq ''version'' = Inr v" "form_item rq ''release_date'' = Inr date" "form_item rq ''tags'' = Inr tags"
    by (simp_all add: form_item_def dict_item_def)
  then show ?thesis
    by (simp add: get_meta_from_request_def items chosen texts form_text_def)
qed

lemma fold_set_tag: "fold set_tag ts d = d\<lparr>fw_tags := fold (\<lambda>t. AList.update t TagColor_GRAY) ts (fw_tags d)\<rparr>"
  by (induction ts arbitrary: d) (simp_all add: set_tag_def)

lemma upload_converted:
  assumes form: "complete_form escape rq" and upload: "rq_file rq = Some f" "up_filename f \<noteq> []" "up_content f \<noteq> []"
  shows "\<exists>task. create_analysis_task escape sha rq = Inr task \<and> t_uid task = Some (uid (described_firmware escape sha md5 rq f)) \<and>
    convert_analysis_task_to_fw_obj sha md5 task None = Inr (described_firmware escape sha md5 rq f)"
proof -
  obtain a b c d where chosen: "chosen escape rq ''device_name'' = Some a" "chosen escape rq ''device_part'' = Some b"
      "chosen escape rq ''device_class'' = Some c" "chosen escape rq ''vendor'' = Some d"
    using form by (auto simp: complete_form_def)
  let ?task = "default_release_date \<lparr>t_device_name = a, t_device_part = b, t_device_class = c, t_vendor = d,
    t_version = form_text escape rq ''version'', t_release_date = form_text escape rq ''release_date'',
    t_requested_analysis_systems = form_list rq ''analysis_systems'', t_tags = Some (form_text escape rq ''tags''),
    t_file_name = Some (escape (up_filename f)), t_binary = Some (up_content f),
    t_uid = Some (sha (up_content f) @ ''_'' @ nat_str (length (up_content f)))\<rparr>"
  have task: "create_analysis_task escape sha rq = Inr ?task"
    using complete_form_meta [OF form] upload chosen
    by (simp add: create_analysis_task_def get_file_name_and_binary_from_request_def get_uid_of_analysis_task_def create_uid_bytes)
  have "convert_analysis_task_to_fw_obj sha md5 ?task None = Inr (described_firmware escape sha md5 rq f)"
    by (simp add: convert_analysis_task_to_fw_obj_def default_release_date_def task_metadata_def described_firmware_def
      described_metadata_def chosen set_binary_def empty_file_object_def empty_firmware_data_def set_part_name_def fold_set_tag Let_def)
  moreover have "t_uid ?task = Some (uid (described_firmware escape sha md5 rq f))"
    by (simp add: default_release_date_def described_firmware_def empty_file_object_def Let_def)
  ultimately show ?thesis
    using task by blast
qed

lemma described_firmware_simps:
  "binary (described_firmware escape sha md5 rq f) = Some (up_content f)"
  "file_name (described_firmware escape sha md5 rq f) = Some (escape (up_filename f))"
  "root_uid (described_firmware escape sha md5 rq f) = Some (uid (described_firmware escape sha md5 rq f))"
  "uid (described_firmware escape sha md5 rq f) = sha (up_content f) @ ''_'' @ nat_str (length (up_content f))"
  "firmware (described_firmware escape sha md5 rq f) = Some (described_metadata escape md5 rq (up_content f))"
  by (simp_all add: described_firmware_def empty_file_object_def Let_def)

text \<open>The listener stores the file of a firmware and hands the firmware to the unpacker.\<close>

lemma listener_analysis:
  assumes "redis_ok env qs s" "''analysis_task'' \<in> set qs" "messages env s ''analysis_task'' = TaskValue (FwTask fw) i # vs"
    and fw: "binary fw = Some b" "file_name fw \<noteq> None" "root_uid fw = Some (uid fw)"
  shows "\<exists>s'. listener_step env AnalysisL s = (None, s') \<and>
    un_queue (ic_unpacking s') = un_queue (ic_unpacking s) @ [fw\<lparr>file_path := Some (generate_path (ic_storage env) fw)\<rparr>] \<and>
    ic_fs s' = ue_write (ux_unpack (ix_unpacking env)) b (generate_path (ic_storage env) fw) (ic_fs s) \<and> ic_db s' = ic_db s"
proof -
  obtain server where get: "queue_get (ix_redis env) ''analysis_task'' (ic_server s) = (Inr (Some (TaskValue (FwTask fw) i)), server)"
    using take_message [OF assms(1-3)] by blast
  let ?path = "generate_path (ic_storage env) fw" and ?fs = "ue_write (ux_unpack (ix_unpacking env)) b (generate_path (ic_storage env) fw) (ic_fs s)"
  have store: "store_firmware env fw (ic_fs s) = (fw\<lparr>file_path := Some ?path\<rparr>, ?fs)"
    using fw by (auto simp: store_firmware_def store_file_def create_binary_from_path_def Let_def)
  have "add_task (fw\<lparr>file_path := Some ?path\<rparr>) u = u\<lparr>un_queue := un_queue u @ [fw\<lparr>file_path := Some ?path\<rparr>]\<rparr>" for u
    using fw(3) by (simp add: add_task_def)
  then show ?thesis
    by (simp add: listener_step_def get pre_process_def processing_function_def store on_unpacking_def)
qed

text \<open>
  C36. From the upload form to the unpacker: an upload with a complete form and a file that has a name and content is
  answered with the UID made of hash and size of the content. The next pass of the back end's listener stores the
  content under that UID and puts exactly one firmware into the queue of the unpacker, with the metadata of the
  form (a menu entry where a field is empty, 1970-01-01 for a missing date), the requested analyses and the tags.
  Nothing else changes.
\<close>

theorem upload_reaches_unpacker:
  assumes form: "complete_form escape rq" and upload: "rq_file rq = Some f" "up_filename f \<noteq> []" "up_content f \<noteq> []"
    and fw: "fw = described_firmware escape sha md5 rq f" and ok: "redis_ok env qs s" "''analysis_task'' \<in> set qs"
    and quiet: "messages env s ''analysis_task'' = []" and pick: "picklable (ix_redis env) (TaskValue (FwTask fw) (Some (uid fw)))"
    and fair: "fair_draws (ix_redis env)"
    and enough: "chunks_for env (TaskValue (FwTask fw) (Some (uid fw))) \<le> card (free_draws (ix_redis env) (ic_server s))"
    and law: "write_law (ue_write (ux_unpack (ix_unpacking env)))" and new: "ic_fs s (generate_path (ic_storage env) fw) \<in> {None, Some (up_content f)}"
  shows "\<exists>s1 s2. post_upload escape sha md5 env rq s = Inr (Some (Some (sha (up_content f) @ ''_'' @ nat_str (length (up_content f))), s1)) \<and>
    listener_step env AnalysisL s1 = (None, s2) \<and>
    un_queue (ic_unpacking s2) = un_queue (ic_unpacking s) @ [fw\<lparr>file_path := Some (generate_path (ic_storage env) fw)\<rparr>] \<and>
    firmware fw = Some (described_metadata escape md5 rq (up_content f)) \<and>
    ic_fs s2 = (ic_fs s)(generate_path (ic_storage env) fw \<mapsto> up_content f) \<and> ic_db s2 = ic_db s"
proof -
  note facts = described_firmware_simps [of escape sha md5 rq f, folded fw]
  obtain s1 where s1: "add_to_redis_queue env ''analysis_task'' (FwTask fw) (Some (uid fw)) s = Some s1"
    using add_message_returns [OF ok pick fair, of 0] enough by auto
  note add = add_message [OF ok pick s1]
  have same: "ic_db s1 = ic_db s" "ic_fs s1 = ic_fs s" "un_queue (ic_unpacking s1) = un_queue (ic_unpacking s)"
    by (subst add(3), simp)+
  have "messages env s1 ''analysis_task'' = [TaskValue (FwTask fw) (Some (uid fw))]"
    using add(2) [OF ok(2)] quiet by simp
  moreover have "file_name fw \<noteq> None"
    by (simp add: facts)
  ultimately obtain s2 where s2: "listener_step env AnalysisL s1 = (None, s2)"
      "un_queue (ic_unpacking s2) = un_queue (ic_unpacking s) @ [fw\<lparr>file_path := Some (generate_path (ic_storage env) fw)\<rparr>]"
      "ic_fs s2 = ue_write (ux_unpack (ix_unpacking env)) (up_content f) (generate_path (ic_storage env) fw) (ic_fs s)" "ic_db s2 = ic_db s"
    using listener_analysis [OF add(1) ok(2) _ facts(1) _ facts(3)] unfolding same by blast
  have "post_upload escape sha md5 env rq s = Inr (Some (Some (uid fw), s1))"
    using upload_converted [OF form upload, of sha md5] s1 by (auto simp: post_upload_def add_analysis_task_def fw)
  moreover have "ic_fs s2 = (ic_fs s)(generate_path (ic_storage env) fw \<mapsto> up_content f)"
    using s2(3) law new by (auto simp: write_law_def)
  ultimately show ?thesis
    using s2 facts(4,5) by auto
qed

text \<open>
  A form that is sent without choosing a file raises \<open>KeyError\<close>: there is no entry \<open>binary\<close> to look at, although the
  comment of \<open>_get_uid_of_analysis_task\<close> says that the UID is \<open>None\<close> then.
\<close>

lemma upload_without_file:
  assumes "complete_form escape rq" "rq_file rq = Some f" "up_filename f = []"
  shows "post_upload escape sha md5 env rq s = Inl KeyError"
  using complete_form_meta [OF assms(1)] assms(2,3)
  by (simp add: post_upload_def create_analysis_task_def get_uid_of_analysis_task_def get_file_name_and_binary_from_request_def)

text \<open>
  A repeated analysis whose form lacks the file name fails after the firmware has been deleted: it is gone from the
  database and no new analysis is queued.
\<close>

lemma add_to_queue_db: "add_to_redis_queue env k d i s = Some s' \<Longrightarrow> ic_db s' = ic_db s"
  by (auto simp: add_to_redis_queue_def)

lemma redo_without_file_name_loses_firmware:
  assumes "complete_form escape rq" "map_of (rq_form rq) ''file_name'' = None" "delete_firmware u False (ic_db s) = (db', n, Some us)"
    and "redo_analysis escape sha md5 env rq u (Some (Some b, name)) s = Some r"
  shows "fst r = Some KeyError" "ic_db (snd r) = db'" "u \<notin> file_uids db'"
proof -
  let ?s = "on_unpacking (\<lambda>v. v\<lparr>un_analysis := (un_analysis v)\<lparr>sdb := db'\<rparr>\<rparr>) s"
  obtain s2 where s2: "fe_delete_file env (sorted_list_of_set us) ?s = Some s2"
    using assms(1-4) by (auto simp: redo_analysis_def create_re_analyze_task_def complete_form_meta Let_def split: option.splits)
  then show "fst r = Some KeyError"
    using assms by (auto simp: redo_analysis_def create_re_analyze_task_def complete_form_meta default_release_date_def
      convert_analysis_task_to_fw_obj_def Let_def split: if_splits)
  have "snd r = s2"
    using s2 assms by (auto simp: redo_analysis_def create_re_analyze_task_def complete_form_meta default_release_date_def
      convert_analysis_task_to_fw_obj_def Let_def split: if_splits)
  then show "ic_db (snd r) = db'"
    using add_to_queue_db [OF s2 [unfolded fe_delete_file_def]] by (simp add: on_unpacking_def)
  show "u \<notin> file_uids db'"
    using assms(3) deleted_firmware_gone by (auto simp: delete_firmware_def Let_def split: option.splits if_splits)
qed

definition sample_request :: request where
  "sample_request = \<lparr>rq_form = [(''device_name'', ''R7''), (''device_part'', ''complete''), (''device_class'', []),
     (''device_class_dropdown'', ''Router''), (''vendor'', ''ACME''), (''version'', ''1.0''), (''release_date'', []),
     (''tags'', ''a,b''), (''analysis_systems'', ''file_type''), (''analysis_systems'', ''cve_lookup'')],
     rq_file = Some \<lparr>up_filename = ''fw.bin'', up_content = ''image''\<rparr>\<rparr>"

definition sample_firmware :: file_object where
  "sample_firmware = described_firmware id id id sample_request \<lparr>up_filename = ''fw.bin'', up_content = ''image''\<rparr>"

lemma sample_metadata: "described_metadata id id sample_request ''image'' = \<lparr>device_name = Some ''R7'', fw_version = Some ''1.0'',
    device_class = Some ''Router'', vendor = Some ''ACME'', part = [], release_date = Some ''1970-01-01'',
    fw_tags = [(''a'', ''secondary''), (''b'', ''secondary'')], fw_md5 = Some ''image''\<rparr>"
  by code_simp

theorem upload_reaches_unpacker_witness:
  "let env = example_intercom (TaskValue (FwTask sample_firmware) (Some (uid sample_firmware))) (StatusValue []);
     s = example_intercom_state shared_db
   in \<exists>s1 s2. post_upload id id id env sample_request s = Inr (Some (Some ''image_5'', s1)) \<and>
     listener_step env AnalysisL s1 = (None, s2) \<and>
     un_queue (ic_unpacking s2) = un_queue (ic_unpacking s) @ [sample_firmware\<lparr>file_path := Some (generate_path ''m'' sample_firmware)\<rparr>] \<and>
     ic_fs s2 = (ic_fs s)(generate_path ''m'' sample_firmware \<mapsto> ''image'')"
proof -
  let ?v = "TaskValue (FwTask sample_firmware) (Some (uid sample_firmware))"
  let ?env = "example_intercom ?v (StatusValue [])" and ?s = "example_intercom_state shared_db"
  let ?f = "\<lparr>up_filename = ''fw.bin'', up_content = ''image''\<rparr>"
  have form: "complete_form id sample_request"
    by code_simp
  have upload: "rq_file sample_request = Some ?f" "up_filename ?f \<noteq> []" "up_content ?f \<noteq> []"
    by (simp_all add: sample_request_def)
  have ok: "redis_ok ?env [''analysis_task''] ?s" "''analysis_task'' \<in> set [''analysis_task'']"
    by (rule example_intercom_ok) (auto simp: chunk_key_def)
  have enough: "chunks_for ?env ?v \<le> card (free_draws (ix_redis ?env) (ic_server ?s))"
    using example_chunks_for [of ?v "StatusValue []" ?v] example_intercom_free(2) by simp
  have law: "write_law (ue_write (ux_unpack (ix_unpacking ?env)))"
    using keep_existing_law by (simp add: example_intercom_def example_unpacking_env_def example_extractor_def example_unpack_env_def)
  have name: "id (up_content ?f) @ ''_'' @ nat_str (length (up_content ?f)) = ''image_5''"
    by code_simp
  have "uid sample_firmware = ''image_5''"
    by code_simp
  then have new: "ic_fs ?s (generate_path (ic_storage ?env) sample_firmware) \<in> {None, Some (up_content ?f)}"
    by (simp add: example_intercom_simps(3) generate_path_def generate_path_from_uid_def example_intercom_state_def init_unpacking_def)
  show ?thesis
    using upload_reaches_unpacker [OF form upload sample_firmware_def ok example_messages example_intercom_picklable(1)
      example_intercom_free(1) enough law new]
    unfolding Let_def example_intercom_simps(3) name by auto
qed

end
