(* ===== verification/Query_Conversion.thy ===== *)
theory Query_Conversion
  imports Database
begin

text \<open>
  \<^verbatim>\<open>src/src/storage/query_conversion.py\<close>: a search of the web interface, a dictionary in the style of MongoDB, becomes a
  query of the database. What the operators of PostgreSQL mean for a row (comparison of columns, regular
  expressions, JSON documents) is a parameter: a condition holds, does not hold, or is unknown (\<open>NULL\<close>).

  Building a query changes the dictionary of the caller: \<open>_id\<close> is renamed, and the operands of the operators on JSON
  documents are replaced by their text. Every operation therefore also returns the changed dictionary.
\<close>

section \<open>Text of a JSON value\<close>

text \<open>\<open>json.dumps\<close>; the text of a floating point number is the parameter \<open>flt\<close>.\<close>

definition hex_digit :: "nat \<Rightarrow> char" where
  "hex_digit n = ''0123456789abcdef'' ! (n mod 16)"

definition json_char :: "char \<Rightarrow> string" where
  "json_char c = (let n = of_char c :: nat in
     if c = CHR 0x22 then [CHR 0x5C, CHR 0x22] else if c = CHR 0x5C then [CHR 0x5C, CHR 0x5C]
     else if n = 10 then [CHR 0x5C, CHR ''n''] else if n = 13 then [CHR 0x5C, CHR ''r''] else if n = 9 then [CHR 0x5C, CHR ''t'']
     else if n = 12 then [CHR 0x5C, CHR ''f''] else if n = 8 then [CHR 0x5C, CHR ''b'']
     else if n < 32 \<or> 126 < n then [CHR 0x5C, CHR ''u'', CHR ''0'', CHR ''0'', hex_digit (n div 16), hex_digit n] else [c])"

definition json_string :: "string \<Rightarrow> string" where
  "json_string s = [CHR 0x22] @ concat (map json_char s) @ [CHR 0x22]"

definition int_str :: "int \<Rightarrow> string" where
  "int_str i = (if i < 0 then ''-'' else []) @ nat_str (nat \<bar>i\<bar>)"

fun json_dumps :: "(real \<Rightarrow> string) \<Rightarrow> pyval \<Rightarrow> string result" and
  json_elements :: "(real \<Rightarrow> string) \<Rightarrow> pyval list \<Rightarrow> string list result" and
  json_items :: "(real \<Rightarrow> string) \<Rightarrow> (string \<times> pyval) list \<Rightarrow> string list result" where
  "json_dumps flt PNone = Inr ''null''"
| "json_dumps flt (PBool b) = Inr (if b then ''true'' else ''false'')"
| "json_dumps flt (PInt i) = Inr (int_str i)"
| "json_dumps flt (PFloat x) = Inr (flt x)"
| "json_dumps flt (PStr s) = Inr (json_string s)"
| "json_dumps flt (PBytes s) = Inl TypeError"
| "json_dumps flt (PVersion s) = Inl TypeError"
| "json_dumps flt (PTuple vs) = bindE (json_elements flt vs) (\<lambda>ts. Inr (''['' @ py_join '', '' ts @ '']''))"
| "json_dumps flt (PList vs) = bindE (json_elements flt vs) (\<lambda>ts. Inr (''['' @ py_join '', '' ts @ '']''))"
| "json_dumps flt (PDict d) = bindE (json_items flt d) (\<lambda>ts. Inr (''{'' @ py_join '', '' ts @ ''}''))"
| "json_elements flt [] = Inr []"
| "json_elements flt (v # vs) = bindE (json_dumps flt v) (\<lambda>t. bindE (json_elements flt vs) (\<lambda>ts. Inr (t # ts)))"
| "json_items flt [] = Inr []"
| "json_items flt ((k, v) # d) =
     bindE (json_dumps flt v) (\<lambda>t. bindE (json_items flt d) (\<lambda>ts. Inr ((json_string k @ '': '' @ t) # ts)))"

section \<open>Columns and conditions\<close>

datatype sql_table = FileObjectT | FirmwareT | AnalysisT

text \<open>A column, the release date as text, an array as text, an element of the JSON document of a result, its text\<close>

datatype column =
    Column sql_table string
  | DateText
  | ArrayText sql_table string
  | ResultPath "string list"
  | ResultText "string list"

datatype condition =
    Eq column pyval
  | EqJson column pyval
  | HasKey column string
  | Regex column pyval
  | ILike column pyval
  | In column pyval
  | Ne column pyval
  | Lt column pyval
  | Gt column pyval
  | Contains column pyval
  | Overlap column "pyval list"
  | PluginIs string
  | Both condition condition

text \<open>\<open>hasattr(table, key)\<close>: the columns. Names of relations and methods of the classes cannot be searched for.\<close>

fun table_columns :: "sql_table \<Rightarrow> string list" where
  "table_columns FileObjectT = [''uid'', ''sha256'', ''file_name'', ''depth'', ''size'', ''comments'', ''is_firmware'']"
| "table_columns FirmwareT = [''uid'', ''submission_date'', ''release_date'', ''version'', ''vendor'', ''device_name'',
     ''device_class'', ''device_part'', ''firmware_tags'']"
| "table_columns AnalysisT = [''uid'', ''plugin'', ''plugin_version'', ''system_version'', ''analysis_date'', ''summary'',
     ''tags'', ''result'']"

definition get_search_keys_from_dict :: "pydict \<Rightarrow> sql_table \<Rightarrow> string list \<Rightarrow> pydict" where
  "get_search_keys_from_dict query_dict table blacklist =
     filter (\<lambda>(k, _). k \<notin> set blacklist \<and> k \<in> set (table_columns table)) query_dict"

text \<open>Only JSON columns have the operator \<open>has_key\<close>.\<close>

fun is_json_column :: "column \<Rightarrow> bool" where
  "is_json_column (ResultPath _) = True"
| "is_json_column (Column t k) = ((t, k) \<in> {(FileObjectT, ''comments''), (AnalysisT, ''result''), (AnalysisT, ''tags'')})"
| "is_json_column _ = False"

definition has_item :: "pydict \<Rightarrow> string \<Rightarrow> bool" where
  "has_item d k \<longleftrightarrow> map_of d k \<noteq> None"

definition item :: "pydict \<Rightarrow> string \<Rightarrow> pyval" where
  "item d k = (case map_of d k of None \<Rightarrow> PNone | Some v \<Rightarrow> v)"

definition dict_key_to_filter :: "column \<Rightarrow> string \<Rightarrow> pyval \<Rightarrow> condition result" where
  "dict_key_to_filter column key v = (case v of
       PDict d \<Rightarrow>
         (if has_item d ''$exists'' then
            (if is_json_column column then Inr (HasKey column (last (py_split (CHR ''.'') key))) else Inl AttributeError)
          else if has_item d ''$regex'' then Inr (Regex column (item d ''$regex''))
          else if has_item d ''$like'' then Inr (ILike column (item d ''$like''))
          else if has_item d ''$in'' then Inr (In column (item d ''$in''))
          else if has_item d ''$ne'' then Inr (Ne column (item d ''$ne''))
          else if has_item d ''$lt'' then Inr (Lt column (item d ''$lt''))
          else if has_item d ''$gt'' then Inr (Gt column (item d ''$gt''))
          else if has_item d ''$contains'' then Inr (Contains column (item d ''$contains''))
          else Inl QueryConversionException)
     | _ \<Rightarrow> Inr (Eq column v))"

definition get_column :: "string \<Rightarrow> sql_table \<Rightarrow> column" where
  "get_column key table = (if key = ''release_date'' then DateText else Column table key)"

definition to_list :: "pyval \<Rightarrow> pyval list" where
  "to_list v = (case v of PList xs \<Rightarrow> xs | _ \<Rightarrow> [v])"

definition get_array_filter :: "sql_table \<Rightarrow> string \<Rightarrow> string \<Rightarrow> pyval \<Rightarrow> condition result" where
  "get_array_filter table field key v = (case v of
       PList xs \<Rightarrow> Inr (Contains (Column table field) v)
     | PDict d \<Rightarrow>
         (if has_item d ''$regex'' then dict_key_to_filter (ArrayText table field) key v
          else if has_item d ''$contains'' then Inr (Contains (Column table field) (item d ''$contains''))
          else if has_item d ''$overlap'' then Inr (Overlap (Column table field) (to_list (item d ''$overlap'')))
          else Inl QueryConversionException)
     | _ \<Rightarrow> Inr (Contains (Column table field) (PList [v])))"

text \<open>
  The loop of \<open>_add_json_filter\<close> over the operators: whether the text of the element is compared, and the changed
  dictionary.
\<close>

fun dump_operands :: "(real \<Rightarrow> string) \<Rightarrow> pydict \<Rightarrow> bool result \<times> pydict" where
  "dump_operands flt [] = (Inr False, [])"
| "dump_operands flt ((k, v) # d) =
     (if k = ''$in'' \<or> k = ''$like'' then (Inr True, (k, v) # d)
      else case json_dumps flt v of
          Inl e \<Rightarrow> (Inl e, (k, v) # d)
        | Inr t \<Rightarrow> (case dump_operands flt d of (r, d') \<Rightarrow> (r, (k, PStr t) # d')))"

definition add_json_filter :: "(real \<Rightarrow> string) \<Rightarrow> string \<Rightarrow> pyval \<Rightarrow> string \<Rightarrow> condition result \<times> pyval" where
  "add_json_filter flt key v subkey =
     (let path = py_split (CHR ''.'') subkey
      in case v of
          PDict d \<Rightarrow>
            (let path' = (if has_item d ''$exists'' then butlast path else path)
             in case dump_operands flt d of
                 (Inl e, d') \<Rightarrow> (Inl e, PDict d')
               | (Inr as_text, d') \<Rightarrow>
                   (dict_key_to_filter (if as_text then ResultText path' else ResultPath path') key (PDict d'), PDict d'))
        | _ \<Rightarrow> (Inr (EqJson (ResultPath path) v), v))"

definition add_analysis_filter_to_query ::
  "(real \<Rightarrow> string) \<Rightarrow> string \<Rightarrow> pyval \<Rightarrow> string \<Rightarrow> condition result \<times> pyval" where
  "add_analysis_filter_to_query flt key v subkey =
     (if subkey \<in> set (table_columns AnalysisT) then
        (if subkey = ''summary'' then get_array_filter AnalysisT subkey key v else Inr (Eq (Column AnalysisT subkey) v), v)
      else add_json_filter flt key v subkey)"

section \<open>Building a query\<close>

datatype join_kind = InnerJoin | OuterJoin

record select_query =
  q_fw_only :: bool
  q_analysis_join :: bool
  q_firmware_join :: "join_kind option"
  q_file_join :: bool
  q_filters :: "condition list"
  q_or :: bool

text \<open>The filters for analyses and the changed values\<close>

fun analysis_filters :: "(real \<Rightarrow> string) \<Rightarrow> pydict \<Rightarrow> condition list result \<times> pydict" where
  "analysis_filters flt [] = (Inr [], [])"
| "analysis_filters flt ((k, v) # d) = (case py_split_max (CHR ''.'') 2 k of
       [_, plugin, subkey] \<Rightarrow>
         (case add_analysis_filter_to_query flt k v subkey of
            (Inl e, v') \<Rightarrow> (Inl e, [(k, v')])
          | (Inr c, v') \<Rightarrow> (case analysis_filters flt d of
                (r, changed) \<Rightarrow> (bindE r (\<lambda>cs. Inr (Both c (PluginIs plugin) # cs)), (k, v') # changed)))
     | _ \<Rightarrow> (Inl ValueError, []))"

definition firmware_filter :: "string \<times> pyval \<Rightarrow> condition result" where
  "firmware_filter = (\<lambda>(k, v).
     if k = ''firmware_tags'' then get_array_filter FirmwareT k k v else dict_key_to_filter (get_column k FirmwareT) k v)"

definition file_filter :: "string \<times> pyval \<Rightarrow> condition result" where
  "file_filter = (\<lambda>(k, v). dict_key_to_filter (get_column k FileObjectT) k v)"

definition rename_id :: "pydict \<Rightarrow> pydict" where
  "rename_id d = (case map_of d ''_id'' of None \<Rightarrow> d | Some v \<Rightarrow> AList.update ''uid'' v (AList.delete ''_id'' d))"

definition is_analysis_key :: "string \<Rightarrow> bool" where
  "is_analysis_key k = starts_with ''processed_analysis'' k"

definition build_flat_query ::
  "(real \<Rightarrow> string) \<Rightarrow> pydict \<Rightarrow> bool \<Rightarrow> bool \<Rightarrow> select_query result \<times> pydict" where
  "build_flat_query flt query_dict fw_only or_query =
     (let d = rename_id query_dict;
          analysis_search = filter (\<lambda>(k, _). is_analysis_key k) d;
          firmware_search = get_search_keys_from_dict d FirmwareT [''uid''];
          file_search = get_search_keys_from_dict d FileObjectT []
      in case analysis_filters flt analysis_search of (r, changed) \<Rightarrow>
        (bindE r (\<lambda>an. bindE (mapE firmware_filter firmware_search) (\<lambda>fw. bindE (mapE file_filter file_search) (\<lambda>fo.
           Inr \<lparr>q_fw_only = fw_only, q_analysis_join = analysis_search \<noteq> [],
             q_firmware_join = (if firmware_search \<noteq> [] \<and> \<not> fw_only
               then Some (if or_query then OuterJoin else InnerJoin) else None),
             q_file_join = (file_search \<noteq> [] \<and> fw_only), q_filters = an @ fw @ fo, q_or = or_query\<rparr>))),
         fold (\<lambda>(k, v). AList.update k v) changed d))"

text \<open>\<open>build_query_from_dict\<close>; a value that is no dictionary can only come from \<open>$or\<close>.\<close>

function build_query_from_dict ::
  "(real \<Rightarrow> string) \<Rightarrow> pyval \<Rightarrow> bool \<Rightarrow> bool \<Rightarrow> select_query result \<times> pyval" where
  "build_query_from_dict flt v fw_only or_query = (case v of
       PDict d \<Rightarrow> (case map_of d ''$or'' of
           Some sub \<Rightarrow> (case build_query_from_dict flt sub fw_only True of
               (r, sub') \<Rightarrow> (r, PDict (AList.update ''$or'' sub' d)))
         | None \<Rightarrow> (case build_flat_query flt d fw_only or_query of (r, d') \<Rightarrow> (r, PDict d')))
     | PList xs \<Rightarrow> (Inl (if PStr ''$or'' \<in> set xs \<or> PStr ''_id'' \<in> set xs then TypeError else AttributeError), v)
     | _ \<Rightarrow> (Inl (if py_contains ''$or'' v = Inr False then AttributeError else TypeError), v))"
  by pat_completeness auto
termination
proof (relation "measure (\<lambda>(_, v, _, _). size v)", goal_cases)
  case (2 flt v fw_only or_query d sub)
  then have "size sub \<le> size_list (size_prod (\<lambda>_. 0) size) d"
    by (intro size_list_estimation' [of "(''$or'', sub)"]) (auto dest: map_of_SomeD)
  then show ?case
    using 2 by simp
qed simp

declare build_query_from_dict.simps [simp del]

section \<open>What a query selects\<close>

record joined_row =
  j_file :: "(string \<times> file_object_entry) option"
  j_firmware :: "(string \<times> firmware_entry) option"
  j_analysis :: "((string \<times> string) \<times> analysis_entry) option"

type_synonym operators = "condition \<Rightarrow> joined_row \<Rightarrow> bool option"

fun and3 :: "bool option \<Rightarrow> bool option \<Rightarrow> bool option" where
  "and3 (Some False) _ = Some False"
| "and3 _ (Some False) = Some False"
| "and3 (Some True) (Some True) = Some True"
| "and3 _ _ = None"

fun holds :: "operators \<Rightarrow> condition \<Rightarrow> joined_row \<Rightarrow> bool option" where
  "holds ops (Both a b) r = and3 (holds ops a r) (holds ops b r)"
| "holds ops (PluginIs p) r = map_option (\<lambda>((_, plugin), _). plugin = p) (j_analysis r)"
| "holds ops c r = ops c r"

text \<open>\<open>or_\<close> without arguments adds no condition.\<close>

definition selected :: "operators \<Rightarrow> select_query \<Rightarrow> joined_row \<Rightarrow> bool" where
  "selected ops q r \<longleftrightarrow> q_filters q = [] \<or>
     (if q_or q then list_ex (\<lambda>c. holds ops c r = Some True) (q_filters q)
      else list_all (\<lambda>c. holds ops c r = Some True) (q_filters q))"

definition rows_of :: "string \<Rightarrow> (string \<times> 'a) list \<Rightarrow> (string \<times> 'a) list" where
  "rows_of u t = filter (\<lambda>(v, _). v = u) t"

definition analysis_join :: "select_query \<Rightarrow> database \<Rightarrow> string \<Rightarrow> ((string \<times> string) \<times> analysis_entry) option list" where
  "analysis_join q db u =
     (if q_analysis_join q then map Some (filter (\<lambda>((v, _), _). v = u) (analysis_table db)) else [None])"

definition firmware_join :: "select_query \<Rightarrow> database \<Rightarrow> string \<Rightarrow> (string \<times> firmware_entry) option list" where
  "firmware_join q db u = (case q_firmware_join q of
       None \<Rightarrow> [None]
     | Some InnerJoin \<Rightarrow> map Some (rows_of u (firmware_table db))
     | Some OuterJoin \<Rightarrow> (case rows_of u (firmware_table db) of [] \<Rightarrow> [None] | ms \<Rightarrow> map Some ms))"

definition file_join :: "select_query \<Rightarrow> database \<Rightarrow> string \<Rightarrow> (string \<times> file_object_entry) option list" where
  "file_join q db u = (if q_file_join q then map Some (rows_of u (file_object_table db)) else [None])"

text \<open>The joined rows of one file object, and those of one firmware for a query with \<open>fw_only\<close>\<close>

definition file_rows :: "select_query \<Rightarrow> database \<Rightarrow> string \<times> file_object_entry \<Rightarrow> joined_row list" where
  "file_rows q db f = concat (map (\<lambda>a. map (\<lambda>w. \<lparr>j_file = Some f, j_firmware = w, j_analysis = a\<rparr>)
     (firmware_join q db (fst f))) (analysis_join q db (fst f)))"

definition firmware_rows :: "select_query \<Rightarrow> database \<Rightarrow> string \<times> firmware_entry \<Rightarrow> joined_row list" where
  "firmware_rows q db w = concat (map (\<lambda>a. map (\<lambda>f. \<lparr>j_file = f, j_firmware = Some w, j_analysis = a\<rparr>)
     (file_join q db (fst w))) (analysis_join q db (fst w)))"

text \<open>\<open>SELECT DISTINCT\<close> of the entries\<close>

definition matching_files :: "operators \<Rightarrow> database \<Rightarrow> select_query \<Rightarrow> (string \<times> file_object_entry) list" where
  "matching_files ops db q = filter (\<lambda>f. list_ex (selected ops q) (file_rows q db f)) (file_object_table db)"

definition matching_firmware :: "operators \<Rightarrow> database \<Rightarrow> select_query \<Rightarrow> (string \<times> firmware_entry) list" where
  "matching_firmware ops db q = filter (\<lambda>w. list_ex (selected ops q) (firmware_rows q db w)) (firmware_table db)"

section \<open>Searching\<close>

text \<open>
  \<open>ORDER BY\<close> in ascending order: \<open>NULL\<close> comes last. Texts are compared by code points. Rows with the same key come in
  the order in which the plan of the database finds them: the rank of their UID, a parameter. PostgreSQL may choose
  another plan for every query, in particular for every offset and limit, so that \<open>query_plan\<close> depends on them.
\<close>

type_synonym ranks = "string \<Rightarrow> nat"
type_synonym query_plan = "nat option \<Rightarrow> nat option \<Rightarrow> ranks"

definition sort_asc :: "('a \<Rightarrow> string option) \<Rightarrow> 'a list \<Rightarrow> 'a list" where
  "sort_asc f xs = sort_key (the \<circ> f) (filter (\<lambda>x. f x \<noteq> None) xs) @ filter (\<lambda>x. f x = None) xs"

definition as_found :: "ranks \<Rightarrow> (string \<times> 'a) list \<Rightarrow> (string \<times> 'a) list" where
  "as_found rank xs = sort_key (rank \<circ> fst) xs"

definition order_asc :: "ranks \<Rightarrow> (string \<times> 'a \<Rightarrow> string option) \<Rightarrow> (string \<times> 'a) list \<Rightarrow> (string \<times> 'a) list" where
  "order_asc rank f xs = sort_asc f (as_found rank xs)"

definition firmware_order :: "ranks \<Rightarrow> (string \<times> firmware_entry) list \<Rightarrow> (string \<times> firmware_entry) list" where
  "firmware_order rank ws = sort_asc (e_vendor \<circ> snd) (order_asc rank (e_device_name \<circ> snd) ws)"

text \<open>The firmware that a matching file is or belongs to\<close>

definition is_parent_firmware :: "operators \<Rightarrow> database \<Rightarrow> select_query \<Rightarrow> string \<Rightarrow> bool" where
  "is_parent_firmware ops db q r \<longleftrightarrow> map_of (file_object_table db) r \<noteq> None \<and>
     list_ex (\<lambda>(f, _). f = r \<or> (r, f) \<in> set (fw_files_table db)) (matching_files ops db q)"

definition query_parent_firmware :: "operators \<Rightarrow> database \<Rightarrow> select_query \<Rightarrow> bool \<Rightarrow> (string \<times> firmware_entry) list" where
  "query_parent_firmware ops db q inverted =
     filter (\<lambda>(u, _). is_parent_firmware ops db q u \<noteq> inverted) (firmware_table db)"

datatype search_row = FirmwareRow string firmware_entry | FileRow string file_object_entry

fun row_uid :: "search_row \<Rightarrow> string" where
  "row_uid (FirmwareRow u _) = u"
| "row_uid (FileRow u _) = u"

text \<open>\<open>build_generic_search_query\<close>, executed; and the changed dictionary\<close>

definition run_generic_search_query ::
  "ranks \<Rightarrow> operators \<Rightarrow> (real \<Rightarrow> string) \<Rightarrow> database \<Rightarrow> pydict \<Rightarrow> bool \<Rightarrow> bool \<Rightarrow> search_row list result \<times> pyval" where
  "run_generic_search_query rank ops flt db search_dict only_fo_parent_firmware inverted =
     (if search_dict = [] then (Inr (map (\<lambda>(u, w). FirmwareRow u w) (firmware_order rank (firmware_table db))), PDict [])
      else case build_query_from_dict flt (PDict search_dict) False False of (r, d') \<Rightarrow>
        (bindE r (\<lambda>q. Inr (
           if only_fo_parent_firmware
           then map (\<lambda>(u, w). FirmwareRow u w) (firmware_order rank (query_parent_firmware ops db q inverted))
           else map (\<lambda>(u, e). FileRow u e) (order_asc rank (e_file_name \<circ> snd) (matching_files ops db q)))), d'))"

definition search_rows ::
  "query_plan \<Rightarrow> operators \<Rightarrow> (real \<Rightarrow> string) \<Rightarrow> database \<Rightarrow> pydict \<Rightarrow> nat option \<Rightarrow> nat option \<Rightarrow> bool \<Rightarrow> bool \<Rightarrow>
   search_row list result \<times> pyval" where
  "search_rows plan ops flt db search_dict skip limit only_fo_parent_firmware inverted =
     (case run_generic_search_query (plan skip limit) ops flt db search_dict only_fo_parent_firmware inverted of
        (r, d') \<Rightarrow> (bindE r (\<lambda>rows. Inr (apply_offset_and_limit skip limit rows)), d'))"

definition generic_search ::
  "query_plan \<Rightarrow> operators \<Rightarrow> (real \<Rightarrow> string) \<Rightarrow> database \<Rightarrow> pydict \<Rightarrow> nat option \<Rightarrow> nat option \<Rightarrow> bool \<Rightarrow> bool \<Rightarrow>
   string list result \<times> pyval" where
  "generic_search plan ops flt db search_dict skip limit only_fo_parent_firmware inverted =
     (case search_rows plan ops flt db search_dict skip limit only_fo_parent_firmware inverted of
        (r, d') \<Rightarrow> (bindE r (\<lambda>rows. Inr (map row_uid rows)), d'))"

text \<open>
  \<open>get_firmware_number\<close> counts the joined rows: \<open>DISTINCT\<close> applies to the one row with the result.
\<close>

definition get_firmware_number ::
  "operators \<Rightarrow> (real \<Rightarrow> string) \<Rightarrow> database \<Rightarrow> pydict \<Rightarrow> nat result \<times> pyval" where
  "get_firmware_number ops flt db query =
     (if query = [] then (Inr (length (firmware_table db)), PDict [])
      else case build_query_from_dict flt (PDict query) True False of (r, d') \<Rightarrow>
        (bindE r (\<lambda>q. Inr (length (filter (selected ops q) (concat (map (firmware_rows q db) (firmware_table db)))))), d'))"

definition get_file_object_number ::
  "operators \<Rightarrow> (real \<Rightarrow> string) \<Rightarrow> database \<Rightarrow> pydict \<Rightarrow> bool \<Rightarrow> nat result \<times> pyval" where
  "get_file_object_number ops flt db query zero_on_empty_query =
     (if zero_on_empty_query \<and> query = [] then (Inr 0, PDict [])
      else case build_query_from_dict flt (PDict query) False False of (r, d') \<Rightarrow>
        (bindE r (\<lambda>q. Inr (card (fst ` set (matching_files ops db q)))), d'))"

definition get_number_of_total_matches ::
  "operators \<Rightarrow> (real \<Rightarrow> string) \<Rightarrow> database \<Rightarrow> pydict \<Rightarrow> bool \<Rightarrow> bool \<Rightarrow> nat result \<times> pyval" where
  "get_number_of_total_matches ops flt db search_dict only_parent_firmwares inverted =
     (if search_dict = [] then get_firmware_number ops flt db []
      else if \<not> only_parent_firmwares then get_file_object_number ops flt db search_dict True
      else case build_query_from_dict flt (PDict search_dict) False False of (r, d') \<Rightarrow>
        (bindE r (\<lambda>q. Inr (length (query_parent_firmware ops db q inverted))), d'))"

text \<open>Without \<open>ORDER BY\<close> the files come as they are found. The order by UID is added after offset and limit, but applies before them.\<close>

definition rest_get_firmware_uids ::
  "query_plan \<Rightarrow> operators \<Rightarrow> (real \<Rightarrow> string) \<Rightarrow> database \<Rightarrow> nat option \<Rightarrow> nat option \<Rightarrow> pydict \<Rightarrow> bool \<Rightarrow> bool \<Rightarrow>
   string list result \<times> pyval" where
  "rest_get_firmware_uids plan ops flt db offset limit query recursive inverted =
     (if recursive then generic_search plan ops flt db query offset limit True inverted
      else case build_query_from_dict flt (PDict query) True False of (r, d') \<Rightarrow>
        (bindE r (\<lambda>q. Inr (apply_offset_and_limit offset limit (sort (map fst (matching_firmware ops db q))))), d'))"

definition rest_get_file_object_uids ::
  "query_plan \<Rightarrow> operators \<Rightarrow> (real \<Rightarrow> string) \<Rightarrow> database \<Rightarrow> nat option \<Rightarrow> nat option \<Rightarrow> pydict \<Rightarrow> string list result \<times> pyval" where
  "rest_get_file_object_uids plan ops flt db offset limit query =
     (if query \<noteq> [] then generic_search plan ops flt db query offset limit False False
      else (Inr (apply_offset_and_limit offset limit (map fst (as_found (plan offset limit) (file_object_table db)))), PDict []))"

section \<open>The pages of a search\<close>

lemma order_asc_perm: "mset (order_asc rank f xs) = mset xs"
  by (simp add: order_asc_def sort_asc_def as_found_def)

lemma firmware_order_perm: "mset (firmware_order rank ws) = mset ws"
  using order_asc_perm [of rank "e_device_name \<circ> snd" ws] by (simp add: firmware_order_def sort_asc_def)

lemma firmware_order_set [simp]: "set (firmware_order rank ws) = set ws" "length (firmware_order rank ws) = length ws"
  using firmware_order_perm mset_eq_setD mset_eq_length by blast+

text \<open>Rows with pairwise different keys have only one order.\<close>

lemma order_asc_determined:
  assumes "inj_on f (set xs)"
  shows "order_asc rank f xs = order_asc rank' f xs"
proof -
  let ?P = "\<lambda>x. f x \<noteq> None" and ?r = "as_found rank xs" and ?r' = "as_found rank' xs"
  have same: "mset (filter Q ?r) = mset (filter Q ?r')" for Q
    by (simp add: as_found_def)
  have set: "set ?r = set xs" "set ?r' = set xs"
    by (simp_all add: as_found_def)
  have "inj_on (the \<circ> f) (set (filter ?P ?r))"
  proof (rule inj_onI)
    fix x y
    assume xy: "x \<in> set (filter ?P ?r)" "y \<in> set (filter ?P ?r)" "(the \<circ> f) x = (the \<circ> f) y"
    then have "f x = f y"
      by (auto simp: option.expand)
    then show "x = y"
      using xy(1,2) set by (intro inj_onD [OF assms]) auto
  qed
  then have some: "sort_key (the \<circ> f) (filter ?P ?r) = sort_key (the \<circ> f) (filter ?P ?r')"
    using same [of ?P] by (intro sort_key_inj_key_eq) simp_all
  have one: "ys = replicate (length ys) z" if "set ys \<subseteq> {x \<in> set xs. f x = None}" "z \<in> set xs" "f z = None" for ys z
  proof (rule replicate_eqI)
    fix y
    assume "y \<in> set ys"
    then have "y \<in> set xs" "f y = f z"
      using that by auto
    then show "y = z"
      using that(2) by (intro inj_onD [OF assms]) auto
  qed simp
  let ?n = "filter (\<lambda>x. f x = None) ?r" and ?n' = "filter (\<lambda>x. f x = None) ?r'"
  have sub: "set ?n \<subseteq> {x \<in> set xs. f x = None}" "set ?n' \<subseteq> {x \<in> set xs. f x = None}"
    using set by auto
  have len: "length ?n = length ?n'"
    using same [of "\<lambda>x. f x = None"] by (rule mset_eq_length)
  have none: "?n = ?n'"
  proof (cases ?n)
    case Nil
    then show ?thesis
      using len by simp
  next
    case (Cons z zs)
    then have z: "z \<in> set xs" "f z = None"
      using sub(1) by auto
    show ?thesis
      using one [OF sub(1) z] one [OF sub(2) z] len by simp
  qed
  show ?thesis
    unfolding order_asc_def sort_asc_def some none ..
qed

lemma ordered_keys:
  assumes "mset ys = mset xs" "distinct (map fst xs)"
  shows "distinct (map fst ys)"
proof -
  have "mset (map fst ys) = mset (map fst xs)"
    using assms(1) by simp
  then show ?thesis
    using assms(2) mset_eq_imp_distinct_iff by blast
qed

lemma distinct_keys_filter: "distinct (map fst xs) \<Longrightarrow> distinct (map fst (filter P xs))"
  by (induction xs) auto

lemma row_uids [simp]:
  "row_uid (case x of (u, w) \<Rightarrow> FirmwareRow u w) = fst x" "row_uid (case y of (u, e) \<Rightarrow> FileRow u e) = fst y"
  by (simp_all split: prod.splits)

lemma page: "apply_offset_and_limit (Some k) (Some n) xs = take n (drop k xs)" if "0 < n"
  using that by (simp add: apply_offset_and_limit_def)

lemma search_page:
  assumes "fst (run_generic_search_query (plan skip limit) ops flt db d only negated) = Inr rows"
  shows "fst (generic_search plan ops flt db d skip limit only negated) = Inr (map row_uid (apply_offset_and_limit skip limit rows))"
  using assms
  by (cases "run_generic_search_query (plan skip limit) ops flt db d only negated") (simp add: generic_search_def search_rows_def)

lemma search_whole:
  assumes "fst (generic_search plan ops flt db d None None only negated) = Inr uids"
  shows "\<exists>rows. fst (run_generic_search_query (plan None None) ops flt db d only negated) = Inr rows \<and> uids = map row_uid rows"
  using assms
  by (auto simp: generic_search_def search_rows_def apply_offset_and_limit_def result_simps split: prod.splits)

text \<open>
  Searching page by page: the pages of a search show every match exactly once and nothing else, and the number
  of matches that is used to number the pages is the number of different objects found, for every search, with and
  without the restriction to firmware, if the order of the matches does not depend on the plan of the database. An
  inverted search for firmware finds exactly the other firmware.
\<close>

theorem search_pages_complete:
  assumes keys: "distinct (map fst (file_object_table db))" "distinct (map fst (firmware_table db))"
    and determined: "\<And>skip limit. run_generic_search_query (plan skip limit) ops flt db d only negated =
      run_generic_search_query (plan None None) ops flt db d only negated"
    and whole: "fst (generic_search plan ops flt db d None None only negated) = Inr uids"
  shows "distinct uids \<and> fst (get_number_of_total_matches ops flt db d only negated) = Inr (length uids) \<and>
     (\<forall>n>0. \<exists>pages. mapE (\<lambda>i. fst (generic_search plan ops flt db d (Some (n * i)) (Some n) only negated))
         [0..<(length uids + n - 1) div n] = Inr pages \<and> concat pages = uids) \<and>
     (d \<noteq> [] \<and> only \<longrightarrow> (\<exists>others. fst (generic_search plan ops flt db d None None only (\<not> negated)) = Inr others \<and>
        set others = fst ` set (firmware_table db) - set uids))"
proof -
  obtain rows where rows: "fst (run_generic_search_query (plan None None) ops flt db d only negated) = Inr rows" and uids: "uids = map row_uid rows"
    using search_whole [OF whole] by blast
  have pages: "\<exists>pages. mapE (\<lambda>i. fst (generic_search plan ops flt db d (Some (n * i)) (Some n) only negated))
         [0..<(length uids + n - 1) div n] = Inr pages \<and> concat pages = uids" if n: "0 < n" for n
  proof -
    have "fst (generic_search plan ops flt db d (Some (n * i)) (Some n) only negated) = Inr (take n (drop (n * i) uids))" for i
      using search_page [of plan "Some (n * i)" "Some n"] determined [of "Some (n * i)" "Some n"] rows
      by (simp add: page [OF n] uids take_map drop_map)
    then have "mapE (\<lambda>i. fst (generic_search plan ops flt db d (Some (n * i)) (Some n) only negated)) is = Inr (map (\<lambda>i. take n (drop (n * i) uids)) is)" for "is"
      by (intro mapE_all_Inr) simp
    then show ?thesis
      using concat_pages [OF n] by blast
  qed
  show ?thesis
  proof (cases "d = []")
    case True
    then have "uids = map fst (firmware_order (plan None None) (firmware_table db))"
      using rows by (auto simp: uids run_generic_search_query_def comp_def)
    then show ?thesis
      using pages True ordered_keys [OF firmware_order_perm keys(2)]
      by (simp add: get_number_of_total_matches_def get_firmware_number_def)
  next
    case False
    then obtain q d' where q: "build_query_from_dict flt (PDict d) False False = (Inr q, d')"
      using rows by (auto simp: run_generic_search_query_def result_simps split: prod.splits)
    let ?fw = "query_parent_firmware ops db q" and ?fo = "matching_files ops db q"
    have uids': "uids = (if only then map fst (firmware_order (plan None None) (?fw negated)) else map fst (order_asc (plan None None) (e_file_name \<circ> snd) ?fo))"
      using rows q False by (auto simp: uids run_generic_search_query_def comp_def)
    have fw: "distinct (map fst (?fw i))" for i
      using keys(2) by (simp add: query_parent_firmware_def distinct_keys_filter)
    have fo: "distinct (map fst ?fo)"
      using keys(1) by (simp add: matching_files_def distinct_keys_filter)
    have dist: "distinct uids"
      using ordered_keys [OF firmware_order_perm fw] ordered_keys [OF order_asc_perm fo] by (simp add: uids')
    have "card (fst ` set ?fo) = length uids" if "\<not> only"
    proof -
      have "length uids = length ?fo"
        using that mset_eq_length [OF order_asc_perm] by (simp add: uids')
      then show ?thesis
        using distinct_card [OF fo] by simp
    qed
    then have number: "fst (get_number_of_total_matches ops flt db d only negated) = Inr (length uids)"
      using False q by (auto simp: get_number_of_total_matches_def get_file_object_number_def uids')
    have "fst (generic_search plan ops flt db d None None True (\<not> negated)) = Inr (map fst (firmware_order (plan None None) (?fw (\<not> negated))))"
      using False q
      by (simp add: generic_search_def search_rows_def run_generic_search_query_def apply_offset_and_limit_def comp_def)
    moreover have "fst ` set (?fw (\<not> negated)) = fst ` set (firmware_table db) - fst ` set (?fw negated)"
      by (auto simp: query_parent_firmware_def image_iff)
    ultimately show ?thesis
      using pages dist number by (auto simp: uids')
  qed
qed

section \<open>Searches that do not find what they ask for\<close>

text \<open>
  The order of files with the same name is left to the database. When it differs between two pages, a file is shown
  twice and another one never.
\<close>

definition same_name_db :: database where
  "same_name_db = empty_database\<lparr>file_object_table := [(''a'', example_entry False), (''b'', example_entry False)]\<rparr>"

lemma same_name_lost:
  "let plan = (\<lambda>skip limit u. if (skip = Some 1) = (u = ''a'') then 1 else 0);
     page = (\<lambda>i. fst (generic_search plan (\<lambda>_ _. Some True) (\<lambda>_. []) same_name_db [(''size'', PInt 1)] (Some i) (Some 1) False False))
   in page 0 = Inr [''a''] \<and> page 1 = Inr [''a'']"
  by code_simp

text \<open>
  Criteria for the results of two different plugins are checked on the same joined row, which belongs to one
  plugin: nothing is found.
\<close>

lemma two_plugins_never_match:
  assumes "Both a (PluginIs p) \<in> set (q_filters q)" "Both b (PluginIs p') \<in> set (q_filters q)" "p \<noteq> p'" "\<not> q_or q"
  shows "matching_files ops db q = []"
proof -
  have and3_True: "and3 x y = Some True \<longleftrightarrow> x = Some True \<and> y = Some True" for x y
    by (induction x y rule: and3.induct) auto
  have "\<not> selected ops q r" for r
  proof
    assume "selected ops q r"
    then have "holds ops (Both a (PluginIs p)) r = Some True" "holds ops (Both b (PluginIs p')) r = Some True"
      using assms by (auto simp: selected_def list_all_iff)
    then show False
      using assms(3) by (auto simp: and3_True)
  qed
  then show ?thesis
    by (simp add: matching_files_def list_ex_iff)
qed

lemma two_plugins_example:
  "\<exists>q. fst (build_query_from_dict flt (PDict [(''processed_analysis.file_type.mime'', PStr ''text/plain''),
       (''processed_analysis.cpu_architecture.x'', PStr ''y'')]) False False) = Inr q \<and> matching_files ops db q = []"
    (is "\<exists>q. fst (?build) = _ \<and> _")
proof -
  have split: "py_split_max (CHR ''.'') 2 ''processed_analysis.file_type.mime'' = [''processed_analysis'', ''file_type'', ''mime'']"
    "py_split_max (CHR ''.'') 2 ''processed_analysis.cpu_architecture.x'' = [''processed_analysis'', ''cpu_architecture'', ''x'']"
    by code_simp+
  have "map_sum id (\<lambda>q. (q_filters q, q_or q)) (fst ?build) = Inr ([
      Both (EqJson (ResultPath [''mime'']) (PStr ''text/plain'')) (PluginIs ''file_type''),
      Both (EqJson (ResultPath [''x'']) (PStr ''y'')) (PluginIs ''cpu_architecture'')], False)"
    by (subst build_query_from_dict.simps)
      (simp add: build_flat_query_def rename_id_def is_analysis_key_def split add_analysis_filter_to_query_def
        add_json_filter_def get_search_keys_from_dict_def Let_def)
  then obtain q where q: "fst ?build = Inr q" "\<not> q_or q" "q_filters q = [
      Both (EqJson (ResultPath [''mime'']) (PStr ''text/plain'')) (PluginIs ''file_type''),
      Both (EqJson (ResultPath [''x'']) (PStr ''y'')) (PluginIs ''cpu_architecture'')]"
    by (cases "fst ?build") auto
  have "matching_files ops db q = []"
    by (rule two_plugins_never_match [of "EqJson (ResultPath [''mime'']) (PStr ''text/plain'')" "''file_type''" q
        "EqJson (ResultPath [''x'']) (PStr ''y'')" "''cpu_architecture''"]) (simp_all add: q(2,3))
  then show ?thesis
    using q(1) by blast
qed

text \<open>With \<open>$or\<close> all other criteria of the dictionary are ignored.\<close>

lemma or_ignores_other_criteria:
  assumes "map_of d ''$or'' = Some sub"
  shows "fst (build_query_from_dict flt (PDict d) fw_only or_query) = fst (build_query_from_dict flt sub fw_only True)"
  using assms by (subst build_query_from_dict.simps) (simp split: prod.splits)

text \<open>
  The search for the matches changes the operands of operators on results; the second search with the same
  dictionary, for their number, then compares with another value: a text instead of a number.
\<close>

lemma second_search_differs:
  "let key = ''processed_analysis.p.x''; d = PDict [(key, PDict [(''$gt'', PInt 5)])];
     d1 = snd (build_query_from_dict flt d False False);
     filters = \<lambda>v. map_sum id q_filters (fst (build_query_from_dict flt v False False))
   in filters d = Inr [Both (Gt (ResultPath [''x'']) (PStr ''5'')) (PluginIs ''p'')] \<and>
      filters d1 = Inr [Both (Gt (ResultPath [''x'']) (PStr (json_string ''5''))) (PluginIs ''p'')]"
proof -
  have split: "py_split_max (CHR ''.'') 2 ''processed_analysis.p.x'' = [''processed_analysis'', ''p'', ''x'']"
    by code_simp
  have five: "json_dumps flt (PInt 5) = Inr ''5''"
    by (simp add: int_str_def nat_str.simps)
  have build: "build_query_from_dict flt (PDict [(''processed_analysis.p.x'', PDict [(''$gt'', v)])]) False False =
      (Inr \<lparr>q_fw_only = False, q_analysis_join = True, q_firmware_join = None, q_file_join = False,
         q_filters = [Both (Gt (ResultPath [''x'']) (PStr t)) (PluginIs ''p'')], q_or = False\<rparr>,
       PDict [(''processed_analysis.p.x'', PDict [(''$gt'', PStr t)])])" if "json_dumps flt v = Inr t" for v t
    using that
    by (subst build_query_from_dict.simps)
      (simp add: build_flat_query_def rename_id_def is_analysis_key_def split add_analysis_filter_to_query_def
        add_json_filter_def get_search_keys_from_dict_def dict_key_to_filter_def has_item_def item_def Let_def)
  show ?thesis
    by (simp add: build [OF five] build [of "PStr ''5''" "json_string ''5''"] Let_def)
qed

section \<open>Witness\<close>

definition example_ops :: operators where
  "example_ops c r = (case c of
       Eq (Column FileObjectT k) v \<Rightarrow> map_option (\<lambda>(u, e). v = PStr u) (j_file r)
     | _ \<Rightarrow> None)"

theorem search_pages_witness:
  "distinct [''a''] \<and>
   fst (get_number_of_total_matches example_ops (\<lambda>_. []) example_db [(''uid'', PStr ''a'')] False False) = Inr (length [''a''])"
proof -
  have "fst (generic_search (\<lambda>_ _ _. 0) example_ops (\<lambda>_. []) example_db [(''uid'', PStr ''a'')] None None False False) = Inr [''a'']"
    by code_simp
  moreover have "distinct (map fst (file_object_table example_db))" "distinct (map fst (firmware_table example_db))"
    by (simp_all add: example_db_def empty_database_def)
  ultimately show ?thesis
    using search_pages_complete [of example_db "\<lambda>_ _ _. 0"] by blast
qed

end
