(* ===== verification/File_Tree.thy ===== *)
theory File_Tree
  imports Database
begin

text \<open>
  \<^verbatim>\<open>src/src/web_interface/file_tree\<close>: one layer of the file tree of a firmware, built from the virtual paths of
  the files that were unpacked from one file.
\<close>

section \<open>file_tree_node.py\<close>

text \<open>
  The children of a node are a dictionary with the ids of the nodes as keys. Name and \<open>virtual\<close> of a node never
  change after its creation.
\<close>

type_synonym node_id = "string option \<times> bool"

record node_data =
  n_uid :: "string option"
  n_root_uid :: "string option"
  n_virtual :: bool
  n_name :: "string option"
  n_size :: "int option"
  n_mode :: pyval
  n_type :: pyval
  n_not_analyzed :: bool

datatype file_tree_node = Node (node_info: node_data) (has_children: bool) (node_children: "(node_id \<times> file_tree_node) list")

definition get_id :: "file_tree_node \<Rightarrow> node_id" where
  "get_id n = (n_name (node_info n), n_virtual (node_info n))"

definition node_contains :: "file_tree_node \<Rightarrow> file_tree_node \<Rightarrow> bool" where
  "node_contains n item \<longleftrightarrow> map_of (node_children n) (get_id item) \<noteq> None"

definition node_eq :: "file_tree_node \<Rightarrow> file_tree_node \<Rightarrow> bool" where
  "node_eq n other \<longleftrightarrow> n_uid (node_info n) = n_uid (node_info other) \<and> n_name (node_info n) = n_name (node_info other) \<and>
     n_virtual (node_info n) = n_virtual (node_info other)"

definition get_list_of_child_nodes :: "file_tree_node \<Rightarrow> file_tree_node list" where
  "get_list_of_child_nodes n = map snd (node_children n)"

definition get_names_of_children :: "file_tree_node \<Rightarrow> string option list" where
  "get_names_of_children n = map (n_name \<circ> node_info) (get_list_of_child_nodes n)"

text \<open>
  \<open>merge_node\<close> is only called for a node whose id is known; otherwise the access to the dictionary would raise
  \<open>KeyError\<close>.
\<close>

function (sequential)
  merge_node :: "file_tree_node \<Rightarrow> file_tree_node \<Rightarrow> file_tree_node" and
  merge_children :: "file_tree_node \<Rightarrow> (node_id \<times> file_tree_node) list \<Rightarrow> file_tree_node" and
  add_child_node :: "file_tree_node \<Rightarrow> file_tree_node \<Rightarrow> file_tree_node" where
  "merge_node (Node d h cs) n = Node d h (case map_of cs (get_id n) of
       None \<Rightarrow> cs
     | Some current_node \<Rightarrow> AList.update (get_id n) (merge_children current_node (node_children n)) cs)"
| "merge_children current_node [] = current_node"
| "merge_children current_node ((k, child) # rest) =
     merge_children (if node_contains current_node child then merge_node current_node child
       else add_child_node current_node child) rest"
| "add_child_node (Node d h cs) n =
     (if node_contains (Node d h cs) n then merge_node (Node d h cs) n
      else Node d True (AList.update (get_id n) n cs))"
  by pat_completeness auto
termination
proof (relation "measure (\<lambda>x. case x of
      Inl (self, n) \<Rightarrow> 2 * size n + 1
    | Inr (Inl (self, cs)) \<Rightarrow> 2 * size (Node undefined True cs)
    | Inr (Inr (self, n)) \<Rightarrow> 2 * size n + 2)", goal_cases)
  case (2 d h cs n x)
  then show ?case
    by (cases n) simp
qed auto

section \<open>Stores that keep what is there\<close>

text \<open>
  The contract of a store to which things are added and in which nothing that is there is replaced: what is found
  after adding is what was found before or else what was added.
\<close>

definition overlay :: "'a option \<Rightarrow> 'a option \<Rightarrow> 'a option" where
  "overlay a b = (case a of Some v \<Rightarrow> Some v | None \<Rightarrow> b)"

lemma overlay_simps [simp]: "overlay None b = b" "overlay (Some v) b = Some v" "overlay a None = a"
  "overlay (overlay a b) c = overlay a (overlay b c)"
  by (auto simp: overlay_def split: option.splits)

primrec first_match :: "('a \<Rightarrow> 'b option) \<Rightarrow> 'a list \<Rightarrow> 'b option" where
  "first_match f [] = None"
| "first_match f (x # xs) = overlay (f x) (first_match f xs)"

lemma first_match_append [simp]: "first_match f (xs @ ys) = overlay (first_match f xs) (first_match f ys)"
  by (induction xs) auto

lemma first_match_None: "first_match f xs = None \<longleftrightarrow> (\<forall>x\<in>set xs. f x = None)"
  by (induction xs) (auto simp: overlay_def split: option.splits)

lemma first_match_SomeD: "first_match f xs = Some y \<Longrightarrow> \<exists>x\<in>set xs. f x = Some y"
  by (induction xs) (auto simp: overlay_def split: option.splits)

locale overlay_store =
  fixes ok :: "'t \<Rightarrow> bool" and found :: "'t \<Rightarrow> 'k \<Rightarrow> 'v option" and good :: "'n \<Rightarrow> bool"
    and holds :: "'n \<Rightarrow> 'k \<Rightarrow> 'v option" and add :: "'t \<Rightarrow> 'n \<Rightarrow> 't"
  assumes add_ok: "ok t \<Longrightarrow> good n \<Longrightarrow> ok (add t n)"
    and found_add: "ok t \<Longrightarrow> good n \<Longrightarrow> found (add t n) k = overlay (found t k) (holds n k)"
begin

lemma add_all:
  assumes "ok t" "\<forall>n\<in>set ns. good n"
  shows "ok (fold (\<lambda>n t. add t n) ns t)"
    "found (fold (\<lambda>n t. add t n) ns t) k = overlay (found t k) (first_match (\<lambda>n. holds n k) ns)"
  using assms by (induction ns arbitrary: t) (simp_all add: add_ok found_add)

end

section \<open>Laws of the tree\<close>

text \<open>The node at a path of ids\<close>

fun node_at :: "file_tree_node \<Rightarrow> node_id list \<Rightarrow> node_data option" where
  "node_at n [] = Some (node_info n)"
| "node_at n (i # p) = (case map_of (node_children n) i of None \<Rightarrow> None | Some c \<Rightarrow> node_at c p)"

text \<open>
  The shape of a file tree: every node is stored under its own id, ids of siblings are different, directories
  have no UID, and only nodes with \<open>has_children\<close> have children. Below the root, exactly the directories have
  children.
\<close>

definition leaf_ok :: "file_tree_node \<Rightarrow> bool" where
  "leaf_ok n \<longleftrightarrow> (n_virtual (node_info n) \<longleftrightarrow> node_children n \<noteq> [])"

inductive wf_node :: "file_tree_node \<Rightarrow> bool" where
  "distinct (map fst cs) \<Longrightarrow> (\<forall>e\<in>set cs. fst e = get_id (snd e) \<and> wf_node (snd e) \<and> leaf_ok (snd e)) \<Longrightarrow> (cs \<noteq> [] \<longrightarrow> h) \<Longrightarrow>
   (n_virtual d \<longrightarrow> n_uid d = None) \<Longrightarrow> wf_node (Node d h cs)"

abbreviation good_node :: "file_tree_node \<Rightarrow> bool" where
  "good_node n \<equiv> wf_node n \<and> leaf_ok n"

inductive_simps wf_node_Node: "wf_node (Node d h cs)"

lemma update_nonempty: "AList.update k v cs \<noteq> []"
  by (cases cs) auto

lemma node_info_add [simp]:
  "node_info (merge_node n m) = node_info n" "node_info (merge_children n cs) = node_info n"
  "node_info (add_child_node n m) = node_info n"
  by (induction n m and n cs and n m rule: merge_node_merge_children_add_child_node.induct) simp_all

lemma get_id_add [simp]: "get_id (merge_children n cs) = get_id n"
  by (simp add: get_id_def)

lemma wf_put:
  assumes "wf_node (Node d h cs)" "good_node m" "i = get_id m"
  shows "wf_node (Node d True (AList.update i m cs))" "map_of cs i \<noteq> None \<Longrightarrow> wf_node (Node d h (AList.update i m cs))"
proof -
  have "\<forall>e\<in>set (AList.update i m cs). fst e = get_id (snd e) \<and> good_node (snd e)"
    using set_update_subset [of i m cs] assms by (fastforce simp: wf_node_Node)
  moreover have "h" if "map_of cs i \<noteq> None"
    using that assms(1) by (auto simp: wf_node_Node)
  ultimately show "wf_node (Node d True (AList.update i m cs))" "map_of cs i \<noteq> None \<Longrightarrow> wf_node (Node d h (AList.update i m cs))"
    using assms(1) by (simp_all add: wf_node_Node)
qed

lemma wf_child:
  assumes "wf_node (Node d h cs)" "map_of cs i = Some c"
  shows "good_node c" "get_id c = i"
  using assms(1) map_of_SomeD [OF assms(2)] by (fastforce simp: wf_node_Node)+

lemma children_empty:
  "node_children (merge_node n m) = [] \<longleftrightarrow> node_children n = []"
  "node_children (merge_children n cs) = [] \<longleftrightarrow> node_children n = [] \<and> cs = []"
  "node_children (add_child_node n m) \<noteq> []"
proof (induction n m and n cs and n m rule: merge_node_merge_children_add_child_node.induct)
  case (1 d h cs n)
  then show ?case
    using update_nonempty by (auto split: option.splits)
next
  case (4 d h cs n)
  then show ?case
    using update_nonempty by (auto simp: node_contains_def)
qed (auto simp: node_contains_def)

lemma wf_add:
  "wf_node n \<Longrightarrow> good_node m \<Longrightarrow> wf_node (merge_node n m)"
  "wf_node n \<Longrightarrow> (\<forall>e\<in>set cs. good_node (snd e)) \<Longrightarrow> wf_node (merge_children n cs)"
  "wf_node n \<Longrightarrow> good_node m \<Longrightarrow> wf_node (add_child_node n m)"
proof (induction n m and n cs and n m rule: merge_node_merge_children_add_child_node.induct)
  case (1 d h cs n)
  show ?case
  proof (cases "map_of cs (get_id n)")
    case (Some cur)
    have cur: "good_node cur" "get_id cur = get_id n"
      using 1(2) Some by (rule wf_child)+
    have "\<forall>e\<in>set (node_children n). good_node (snd e)"
      using 1(3) by (cases n) (simp add: wf_node_Node)
    then have "wf_node (merge_children cur (node_children n))"
      using 1(1) [OF Some] cur(1) by blast
    moreover have "leaf_ok (merge_children cur (node_children n))"
      using cur 1(3) by (auto simp: leaf_ok_def children_empty get_id_def)
    ultimately show ?thesis
      using wf_put(2) [OF 1(2), of "merge_children cur (node_children n)" "get_id n"] Some cur(2) by simp
  qed (use 1 in simp)
next
  case (3 cur k child rest)
  then show ?case
    by simp
next
  case (4 d h cs n)
  then show ?case
    using wf_put(1) [OF 4(2,3) refl] by auto
qed simp

definition placed_at :: "file_tree_node \<Rightarrow> node_id list \<Rightarrow> node_data option" where
  "placed_at m p = (case p of [] \<Rightarrow> None | i # q \<Rightarrow> if i = get_id m then node_at m q else None)"

definition children_at :: "(node_id \<times> file_tree_node) list \<Rightarrow> node_id list \<Rightarrow> node_data option" where
  "children_at cs p = (case p of [] \<Rightarrow> None | i # q \<Rightarrow> (case map_of cs i of None \<Rightarrow> None | Some c \<Rightarrow> node_at c q))"

lemma children_at_Cons:
  "k = get_id c \<Longrightarrow> k \<notin> fst ` set cs \<Longrightarrow> children_at ((k, c) # cs) p = overlay (placed_at c p) (children_at cs p)"
  by (auto simp: children_at_def placed_at_def split: list.splits option.splits simp flip: map_of_eq_None_iff)

lemma node_at_children: "node_at n p = overlay (if p = [] then Some (node_info n) else None) (children_at (node_children n) p)"
  by (cases p) (auto simp: children_at_def)

lemma node_at_add:
  "good_node m \<Longrightarrow> node_contains n m \<Longrightarrow> node_at (merge_node n m) p = overlay (node_at n p) (placed_at m p)"
  "distinct (map fst cs) \<Longrightarrow> (\<forall>e\<in>set cs. fst e = get_id (snd e) \<and> good_node (snd e)) \<Longrightarrow>
     node_at (merge_children n cs) p = overlay (node_at n p) (children_at cs p)"
  "good_node m \<Longrightarrow> node_at (add_child_node n m) p = overlay (node_at n p) (placed_at m p)"
proof (induction n m and n cs and n m arbitrary: p and p and p rule: merge_node_merge_children_add_child_node.induct)
  case (1 d h cs n)
  then obtain cur where cur: "map_of cs (get_id n) = Some cur"
    by (auto simp: node_contains_def)
  have wf: "distinct (map fst (node_children n))" "\<forall>e\<in>set (node_children n). fst e = get_id (snd e) \<and> good_node (snd e)"
    using 1(2) by (cases n; simp add: wf_node_Node)+
  show ?case
  proof (cases p)
    case (Cons i q)
    then show ?thesis
      using cur 1(1) [OF cur wf] by (auto simp: placed_at_def node_at_children [of n] split: option.splits)
  qed simp
next
  case (2 n)
  then show ?case
    by (simp add: children_at_def split: list.splits)
next
  case (3 n k child rest)
  then show ?case
    by (auto simp: children_at_Cons)
next
  case (4 d h cs n)
  show ?case
  proof (cases "node_contains (Node d h cs) n")
    case True
    then show ?thesis
      using 4 by simp
  next
    case False
    then show ?thesis
      by (cases p) (auto simp: node_contains_def placed_at_def split: option.splits)
  qed
qed

interpretation tree: overlay_store wf_node node_at good_node placed_at add_child_node
  by unfold_locales (simp_all add: wf_add node_at_add)

section \<open>file_tree.py\<close>

text \<open>
  \<open>FileTreeData\<close>: \<open>fd_vfp\<close> is \<open>None\<close> when the database has no path of the file.
\<close>

record file_tree_data =
  fd_uid :: string
  fd_file_name :: "string option"
  fd_size :: "int option"
  fd_vfp :: "vfp_dict option"
  fd_mime :: pyval
  fd_included :: "string set"
  fd_mode_data :: "(string \<times> pyval) list"

record virtual_path_file_tree =
  vt_root_uid :: "string option"
  vt_parent_uid :: "string option"
  vt_data :: file_tree_data
  vt_whitelist :: "string list option"

definition lstrip_slash :: "string \<Rightarrow> string" where
  "lstrip_slash = dropWhile (\<lambda>c. c = CHR ''/'')"

text \<open>\<open>virtual_file_paths\<close> as set by the constructor; an empty dictionary counts as missing.\<close>

definition virtual_file_paths :: "virtual_path_file_tree \<Rightarrow> string list option" where
  "virtual_file_paths t = (case (fd_vfp (vt_data t), vt_parent_uid t) of
       (Some d, Some p) \<Rightarrow> map_of d p
     | _ \<Rightarrow> None)"

definition tree_has_children :: "virtual_path_file_tree \<Rightarrow> bool" where
  "tree_has_children t = (case vt_whitelist t of
       Some (f # fs) \<Rightarrow> \<exists>g\<in>set (f # fs). g \<in> fd_included (vt_data t)
     | _ \<Rightarrow> fd_included (vt_data t) \<noteq> {})"

definition get_node_for_real_file :: "virtual_path_file_tree \<Rightarrow> string option \<Rightarrow> pyval \<Rightarrow> file_tree_node" where
  "get_node_for_real_file t virtual_path mode =
     Node \<lparr>n_uid = Some (fd_uid (vt_data t)), n_root_uid = vt_root_uid t, n_virtual = False,
         n_name = (case virtual_path of Some (c # s) \<Rightarrow> Some (c # s) | _ \<Rightarrow> fd_file_name (vt_data t)),
         n_size = fd_size (vt_data t), n_mode = mode, n_type = fd_mime (vt_data t), n_not_analyzed = False\<rparr>
       (tree_has_children t) []"

text \<open>
  \<open>_create_node_from_virtual_path\<close> with \<open>_get_node_for_virtual_file\<close>; the path is the result of \<open>split\<close> and never
  empty.
\<close>

fun create_node_from_virtual_path :: "virtual_path_file_tree \<Rightarrow> string list \<Rightarrow> pyval \<Rightarrow> file_tree_node" where
  "create_node_from_virtual_path t (current_element # next_element # rest) mode =
     add_child_node
       (Node \<lparr>n_uid = None, n_root_uid = vt_root_uid t, n_virtual = True, n_name = Some current_element,
          n_size = None, n_mode = PNone, n_type = PNone, n_not_analyzed = False\<rparr> False [])
       (create_node_from_virtual_path t (next_element # rest) mode)"
| "create_node_from_virtual_path t [element] mode = get_node_for_real_file t (Some element) mode"
| "create_node_from_virtual_path t [] mode = get_node_for_real_file t None mode"

definition get_file_tree_nodes :: "virtual_path_file_tree \<Rightarrow> file_tree_node list" where
  "get_file_tree_nodes t = (case virtual_file_paths t of
       None \<Rightarrow> [get_node_for_real_file t None PNone]
     | Some paths \<Rightarrow> map (\<lambda>path.
         let p = lstrip_slash path
         in create_node_from_virtual_path t (py_split (CHR ''/'') p)
              (case map_of (fd_mode_data (vt_data t)) p of None \<Rightarrow> PNone | Some m \<Rightarrow> m)) paths)"

text \<open>The ids on the way to a file\<close>

definition path_ids :: "string option \<Rightarrow> string list \<Rightarrow> node_id list" where
  "path_ids name ps = map (\<lambda>x. (Some x, True)) (butlast ps) @
     [(if ps = [] \<or> last ps = [] then name else Some (last ps), False)]"

lemma real_file_id:
  "get_id (get_node_for_real_file t (Some x) mode) = (if x = [] then fd_file_name (vt_data t) else Some x, False)"
  "get_id (get_node_for_real_file t None mode) = (fd_file_name (vt_data t), False)"
  by (auto simp: get_id_def get_node_for_real_file_def split: list.splits)

lemma real_file_at:
  "placed_at (get_node_for_real_file t x mode) p =
     (if p = [get_id (get_node_for_real_file t x mode)] then Some (node_info (get_node_for_real_file t x mode)) else None)"
proof -
  have "node_at (get_node_for_real_file t x mode) q = (if q = [] then Some (node_info (get_node_for_real_file t x mode)) else None)" for q
    by (cases q) (simp_all add: get_node_for_real_file_def)
  then show ?thesis
    by (cases p) (auto simp: placed_at_def)
qed

lemma wf_real_file: "good_node (get_node_for_real_file t x mode)"
  by (simp add: get_node_for_real_file_def wf_node_Node leaf_ok_def)

lemma add_to_empty:
  "add_child_node (Node d h []) m = Node d True [(get_id m, m)]"
  by (simp add: node_contains_def)

definition directory_data :: "virtual_path_file_tree \<Rightarrow> string option \<Rightarrow> node_data" where
  "directory_data t name = \<lparr>n_uid = None, n_root_uid = vt_root_uid t, n_virtual = True, n_name = name,
     n_size = None, n_mode = PNone, n_type = PNone, n_not_analyzed = False\<rparr>"

definition file_data :: "virtual_path_file_tree \<Rightarrow> string list \<Rightarrow> pyval \<Rightarrow> node_data" where
  "file_data t ps mode = node_info (get_node_for_real_file t (if ps = [] then None else Some (last ps)) mode)"

lemma created_wf: "good_node (create_node_from_virtual_path t ps mode)"
  by (induction t ps mode rule: create_node_from_virtual_path.induct)
    (simp_all add: add_to_empty wf_real_file wf_node_Node leaf_ok_def [of "Node _ _ _"] del: add_child_node.simps)

lemma path_ids_ne [simp]: "path_ids name ps \<noteq> []" "[] \<noteq> path_ids name ps"
  by (simp_all add: path_ids_def)

lemma path_ids_Cons: "path_ids name (x # y # r) = (Some x, True) # path_ids name (y # r)"
  by (simp add: path_ids_def)

lemma created_node:
  "placed_at (create_node_from_virtual_path t ps mode) p =
     (if p = path_ids (fd_file_name (vt_data t)) ps then Some (file_data t ps mode)
      else if p \<noteq> [] \<and> (\<exists>q. path_ids (fd_file_name (vt_data t)) ps = p @ q) then Some (directory_data t (fst (last p))) else None)"
proof (induction t ps mode arbitrary: p rule: create_node_from_virtual_path.induct)
  case (1 t x y r mode)
  let ?m = "create_node_from_virtual_path t (y # r) mode"
  have node: "create_node_from_virtual_path t (x # y # r) mode = Node (directory_data t (Some x)) True [(get_id ?m, ?m)]"
    by (simp add: add_to_empty directory_data_def del: add_child_node.simps)
  have at: "node_at (Node (directory_data t (Some x)) True [(get_id ?m, ?m)]) q =
      (if q = [] then Some (directory_data t (Some x)) else placed_at ?m q)" for q
    by (cases q) (auto simp: placed_at_def)
  have id: "get_id (Node (directory_data t (Some x)) True [(get_id ?m, ?m)]) = (Some x, True)"
    by (simp add: get_id_def directory_data_def)
  show ?case
  proof (cases p)
    case Nil
    then show ?thesis
      by (simp add: placed_at_def path_ids_Cons)
  next
    case (Cons i q)
    then show ?thesis
      using 1 [of q] unfolding node placed_at_def [of "Node (directory_data t (Some x)) True [(get_id ?m, ?m)]"]
      by (auto simp: at id path_ids_Cons file_data_def)
  qed
next
  case (2 t x mode)
  have "path_ids (fd_file_name (vt_data t)) [x] = [get_id (get_node_for_real_file t (Some x) mode)]"
    by (simp add: path_ids_def real_file_id)
  then show ?case
    by (auto simp: real_file_at file_data_def Cons_eq_append_conv)
next
  case (3 t mode)
  have "path_ids (fd_file_name (vt_data t)) [] = [get_id (get_node_for_real_file t None mode)]"
    by (simp add: path_ids_def real_file_id)
  then show ?case
    by (auto simp: real_file_at file_data_def Cons_eq_append_conv)
qed

section \<open>The data of one layer\<close>

text \<open>The element of a JSON document: \<open>NULL\<close> if there is none.\<close>

fun json_item :: "pyval \<Rightarrow> string \<Rightarrow> pyval" where
  "json_item (PDict d) k = (case map_of d k of None \<Rightarrow> PNone | Some v \<Rightarrow> v)"
| "json_item _ k = PNone"

definition mode_entry :: "pyval \<Rightarrow> (string \<times> pyval) option result" where
  "mode_entry meta = (case meta of
       PDict d \<Rightarrow> (case (map_of d ''path'', map_of d ''mode'') of
           (Some p, Some m) \<Rightarrow> (case p of
               PStr s \<Rightarrow> Inr (Some (lstrip_slash s, m))
             | PBytes _ \<Rightarrow> Inl TypeError
             | _ \<Rightarrow> Inl AttributeError)
         | _ \<Rightarrow> Inr None)
     | _ \<Rightarrow> Inr None)"

definition get_mode_dict :: "database \<Rightarrow> string option \<Rightarrow> (string \<times> pyval) list result" where
  "get_mode_dict db parent_uid = (case parent_uid of
       Some (c # p) \<Rightarrow> (case db_get_analysis db (c # p) ''file_system_metadata'' of
           None \<Rightarrow> Inr []
         | Some d \<Rightarrow>
             bindE (as_dict (dict_get d ''result'' (PDict []))) (\<lambda>r.
             bindE (py_iter (dict_get r ''files'' (PList []))) (\<lambda>metas.
             bindE (mapE mode_entry metas) (\<lambda>es.
               Inr (fold (\<lambda>e modes. case e of None \<Rightarrow> modes | Some (k, v) \<Rightarrow> AList.update k v modes) es [])))))
     | _ \<Rightarrow> Inr [])"

definition get_mime_types_for_uid_list :: "database \<Rightarrow> string list \<Rightarrow> (string \<times> pyval) list" where
  "get_mime_types_for_uid_list db us =
     map (\<lambda>((u, _), a). (u, json_item (ae_result a) ''mime''))
       (filter (\<lambda>((u, p), _). p = ''file_type'' \<and> u \<in> set us) (analysis_table db))"

definition get_included_files_for_uid_list :: "database \<Rightarrow> string list \<Rightarrow> (string \<times> string list) list" where
  "get_included_files_for_uid_list db us =
     filter (\<lambda>(_, cs). cs \<noteq> [])
       (map (\<lambda>u. (u, map snd (filter (\<lambda>(p, c). p = u) (included_files_table db))))
          (filter (\<lambda>u. u \<in> set us) (map fst (file_object_table db))))"

definition get_file_tree_data :: "database \<Rightarrow> string list \<Rightarrow> string option \<Rightarrow> file_tree_data list result" where
  "get_file_tree_data db us parent_uid =
     bindE (get_mode_dict db parent_uid) (\<lambda>mode_data.
       let included = get_included_files_for_uid_list db us;
           type_analyses = get_mime_types_for_uid_list db us;
           vfp_data = get_vfps_for_uid_list db us None
       in Inr (map (\<lambda>(u, e).
            \<lparr>fd_uid = u, fd_file_name = e_file_name e, fd_size = e_size e, fd_vfp = map_of vfp_data u,
             fd_mime = (case map_of type_analyses u of None \<Rightarrow> PNone | Some m \<Rightarrow> m),
             fd_included = (case map_of included u of None \<Rightarrow> {} | Some cs \<Rightarrow> set cs), fd_mode_data = mode_data\<rparr>)
          (filter (\<lambda>(u, _). u \<in> set us) (file_object_table db))))"

text \<open>
  \<open>generate_file_tree_level\<close>: creating the nodes raises neither \<open>KeyError\<close> nor \<open>TypeError\<close>, so the handler for
  files that are not analyzed yet is never reached. An object that is not in the database raises \<open>IndexError\<close>.
\<close>

definition generate_file_tree_level ::
  "database \<Rightarrow> string \<Rightarrow> string option \<Rightarrow> string option \<Rightarrow> string list option \<Rightarrow> file_tree_data option \<Rightarrow>
   file_tree_node list result" where
  "generate_file_tree_level db u rt parent_uid whitelist data =
     bindE (case data of
         Some d \<Rightarrow> Inr d
       | None \<Rightarrow> bindE (get_file_tree_data db [u] parent_uid) (\<lambda>ds. case ds of [] \<Rightarrow> Inl IndexError | d # _ \<Rightarrow> Inr d))
       (\<lambda>d. Inr (get_file_tree_nodes \<lparr>vt_root_uid = rt, vt_parent_uid = parent_uid, vt_data = d, vt_whitelist = whitelist\<rparr>))"

definition generate_file_tree_nodes_for_uid_list ::
  "database \<Rightarrow> string list \<Rightarrow> string option \<Rightarrow> string option \<Rightarrow> string list option \<Rightarrow> file_tree_node list result" where
  "generate_file_tree_nodes_for_uid_list db us rt parent_uid whitelist =
     bindE (get_file_tree_data db us parent_uid) (\<lambda>ds.
     bindE (mapE (\<lambda>d. generate_file_tree_level db (fd_uid d) rt parent_uid whitelist (Some d)) ds) (\<lambda>ns.
       Inr (concat ns)))"

text \<open>
  \<open>AjaxRoutes._generate_file_tree\<close>. Without a root some firmware the file belongs to is taken; here the last one in
  the order of the UIDs. The order of the children does not matter, they only occur in queries.
\<close>

definition root_node :: file_tree_node where
  "root_node = Node \<lparr>n_uid = None, n_root_uid = None, n_virtual = False, n_name = None, n_size = None, n_mode = PNone,
     n_type = PNone, n_not_analyzed = False\<rparr> False []"

definition layer_uids :: "string set \<Rightarrow> string list option \<Rightarrow> string list" where
  "layer_uids included whitelist =
     filter (\<lambda>c. case whitelist of None \<Rightarrow> True | Some w \<Rightarrow> c \<in> set w) (sorted_list_of_set included)"

definition generate_file_tree ::
  "database \<Rightarrow> string option \<Rightarrow> string \<Rightarrow> string list option \<Rightarrow> file_tree_node result" where
  "generate_file_tree db rt u whitelist =
     bindE (case rt of
         Some r \<Rightarrow> Inr r
       | None \<Rightarrow> bindE (list_pop (sorted_list_of_set (get_parent_fw db u))) (\<lambda>(r, _). Inr r)) (\<lambda>r.
     bindE (get_object db u None) (\<lambda>fo. case fo of
         None \<Rightarrow> Inl AttributeError
       | Some fo \<Rightarrow>
           bindE (generate_file_tree_nodes_for_uid_list db (layer_uids (files_included fo) whitelist) (Some r) (Some u) whitelist)
             (\<lambda>ns. Inr (fold (\<lambda>n root. add_child_node root n) ns root_node))))"

section \<open>The layer is right\<close>

text \<open>Every node of a layer stands for one path of one file.\<close>

definition layer_paths :: "virtual_path_file_tree \<Rightarrow> string list list" where
  "layer_paths t = (case virtual_file_paths t of
       None \<Rightarrow> [[]]
     | Some paths \<Rightarrow> map (py_split (CHR ''/'') \<circ> lstrip_slash) paths)"

lemma file_tree_nodes:
  "n \<in> set (get_file_tree_nodes t) \<Longrightarrow>
     \<exists>ps\<in>set (layer_paths t). \<exists>mode. n = create_node_from_virtual_path t ps mode"
  "ps \<in> set (layer_paths t) \<Longrightarrow> \<exists>mode. create_node_from_virtual_path t ps mode \<in> set (get_file_tree_nodes t)"
  by (auto simp: get_file_tree_nodes_def layer_paths_def Let_def split: option.splits)

definition layer_of :: "string option \<Rightarrow> string \<Rightarrow> string list option \<Rightarrow> file_tree_data \<Rightarrow> virtual_path_file_tree" where
  "layer_of rt u whitelist d = \<lparr>vt_root_uid = rt, vt_parent_uid = Some u, vt_data = d, vt_whitelist = whitelist\<rparr>"

lemma nodes_for_uid_list:
  assumes "generate_file_tree_nodes_for_uid_list db us rt (Some u) whitelist = Inr ns"
  shows "\<exists>ds. get_file_tree_data db us (Some u) = Inr ds \<and>
     ns = concat (map (\<lambda>d. get_file_tree_nodes (layer_of rt u whitelist d)) ds)"
proof -
  have level: "generate_file_tree_level db (fd_uid d) rt (Some u) whitelist (Some d) = Inr (get_file_tree_nodes (layer_of rt u whitelist d))" for d
    by (simp add: generate_file_tree_level_def layer_of_def)
  have "mapE (\<lambda>d. generate_file_tree_level db (fd_uid d) rt (Some u) whitelist (Some d)) ds =
      Inr (map (\<lambda>d. get_file_tree_nodes (layer_of rt u whitelist d)) ds)" for ds
    by (rule mapE_all_Inr) (rule level)
  then show ?thesis
    using assms by (auto simp: generate_file_tree_nodes_for_uid_list_def result_simps)
qed

lemma nodes_wf: "n \<in> set (get_file_tree_nodes t) \<Longrightarrow> good_node n"
  using file_tree_nodes(1) created_wf by blast

lemma root_wf: "wf_node root_node"
  by (simp add: root_node_def wf_node_Node)

lemma root_at: "node_at root_node p = (if p = [] then Some (node_info root_node) else None)"
  by (cases p) (simp_all add: root_node_def)

text \<open>What the tables say about the layer: the paths of a file below the unfolded file.\<close>

definition stored_paths :: "database \<Rightarrow> string \<Rightarrow> string \<Rightarrow> string list" where
  "stored_paths db u c = map (snd \<circ> snd) (filter (\<lambda>(p, f, _). p = u \<and> f = c) (vfp_table db))"

definition paths_below :: "database \<Rightarrow> string \<Rightarrow> string \<Rightarrow> string list list" where
  "paths_below db u c = (case stored_paths db u c of
       [] \<Rightarrow> [[]]
     | ps \<Rightarrow> map (py_split (CHR ''/'') \<circ> lstrip_slash) ps)"

definition layer_path :: "database \<Rightarrow> string \<Rightarrow> string list \<Rightarrow> string \<Rightarrow> node_id list \<Rightarrow> bool" where
  "layer_path db u us c ids \<longleftrightarrow> c \<in> set us \<and>
     (\<exists>(v, e)\<in>set (file_object_table db). v = c \<and> ids \<in> path_ids (e_file_name e) ` set (paths_below db u c))"

definition nested_item :: "(string \<times> (string \<times> 'a) list) list \<Rightarrow> string \<Rightarrow> string \<Rightarrow> 'a option" where
  "nested_item d c u = (case map_of d c of None \<Rightarrow> None | Some m \<Rightarrow> map_of m u)"

lemma nested_item_modify:
  "nested_item (dict_modify f [] (dict_modify parent [] (\<lambda>ps. ps @ [path])) d) c u =
     (if f = c \<and> parent = u then Some ((case nested_item d c u of None \<Rightarrow> [] | Some ps \<Rightarrow> ps) @ [path])
      else nested_item d c u)"
  by (auto simp: nested_item_def map_of_dict_modify split: option.splits)

lemma fold_vfps:
  "nested_item (fold (\<lambda>(parent, f, path). dict_modify f [] (dict_modify parent [] (\<lambda>ps. ps @ [path]))) rows d) c u =
   (let new = map (snd \<circ> snd) (filter (\<lambda>(p, f, _). p = u \<and> f = c) rows)
    in if new = [] then nested_item d c u
       else Some ((case nested_item d c u of None \<Rightarrow> [] | Some ps \<Rightarrow> ps) @ new))"
proof (induction rows arbitrary: d)
  case (Cons row rows)
  then show ?case
    by (cases row) (simp add: nested_item_modify Let_def)
qed simp

lemma vfps_below:
  assumes "c \<in> set us"
  shows "nested_item (get_vfps_for_uid_list db us None) c u =
     (if stored_paths db u c = [] then None else Some (stored_paths db u c))"
proof -
  have "filter (\<lambda>(p, f, _). p = u \<and> f = c) (filter (\<lambda>(_, f, _). f \<in> set us) (vfp_table db)) =
      filter (\<lambda>(p, f, _). p = u \<and> f = c) (vfp_table db)"
    using assms by (auto intro!: filter_cong)
  moreover have "us \<noteq> []"
    using assms by auto
  ultimately show ?thesis
    unfolding get_vfps_for_uid_list_def by (simp add: fold_vfps stored_paths_def nested_item_def [of "[]"] Let_def)
qed

lemma tree_data_layer:
  assumes "get_file_tree_data db us (Some u) = Inr ds" "d \<in> set ds"
  shows "fd_uid d \<in> set us" "layer_paths (layer_of rt u whitelist d) = paths_below db u (fd_uid d)"
    "\<exists>e. (fd_uid d, e) \<in> set (file_object_table db) \<and> fd_file_name d = e_file_name e"
proof -
  obtain e where d: "fd_uid d \<in> set us" "fd_vfp d = map_of (get_vfps_for_uid_list db us None) (fd_uid d)"
    "(fd_uid d, e) \<in> set (file_object_table db)" "fd_file_name d = e_file_name e"
    using assms by (auto simp: get_file_tree_data_def Let_def result_simps)
  have "virtual_file_paths (layer_of rt u whitelist d) = nested_item (get_vfps_for_uid_list db us None) (fd_uid d) u"
    by (simp add: virtual_file_paths_def layer_of_def nested_item_def d(2) split: option.splits)
  then show "layer_paths (layer_of rt u whitelist d) = paths_below db u (fd_uid d)"
    by (simp add: layer_paths_def vfps_below [OF d(1)] paths_below_def split: list.splits)
  show "fd_uid d \<in> set us" "\<exists>e. (fd_uid d, e) \<in> set (file_object_table db) \<and> fd_file_name d = e_file_name e"
    using d by auto
qed

lemma tree_data_complete:
  assumes "get_file_tree_data db us (Some u) = Inr ds" "c \<in> set us" "(c, e) \<in> set (file_object_table db)"
  shows "\<exists>d\<in>set ds. fd_uid d = c \<and> fd_file_name d = e_file_name e"
  using assms by (force simp: get_file_tree_data_def Let_def result_simps)

lemma layer_node:
  assumes "get_file_tree_data db us (Some u) = Inr ds" "d \<in> set ds" "n \<in> set (get_file_tree_nodes (layer_of rt u whitelist d))"
  shows "\<exists>ids. layer_path db u us (fd_uid d) ids \<and>
     (\<forall>p v. placed_at n p = Some v \<longrightarrow> (if p = ids then \<not> n_virtual v \<and> n_uid v = Some (fd_uid d) else n_virtual v \<and> (\<exists>q. q \<noteq> [] \<and> ids = p @ q)))"
proof -
  let ?t = "layer_of rt u whitelist d"
  obtain ps mode where n: "ps \<in> set (layer_paths ?t)" "n = create_node_from_virtual_path ?t ps mode"
    using file_tree_nodes(1) [OF assms(3)] by blast
  obtain e where e: "(fd_uid d, e) \<in> set (file_object_table db)" "fd_file_name d = e_file_name e"
    using tree_data_layer(3) [OF assms(1,2)] by blast
  have name: "fd_file_name (vt_data ?t) = e_file_name e"
    by (simp add: layer_of_def e(2))
  have fdat: "\<not> n_virtual (file_data ?t ps mode)" "n_uid (file_data ?t ps mode) = Some (fd_uid d)"
    by (simp_all add: file_data_def get_node_for_real_file_def layer_of_def)
  have "layer_path db u us (fd_uid d) (path_ids (e_file_name e) ps)"
    using tree_data_layer(1,2) [OF assms(1,2)] n(1) e(1) by (fastforce simp: layer_path_def)
  then show ?thesis
    using fdat created_node [of ?t ps mode] unfolding n(2) name
    by (intro exI [of _ "path_ids (e_file_name e) ps"]) (auto simp: directory_data_def)
qed

text \<open>The last id of a path is that of a file, all others are those of directories.\<close>

lemma layer_path_kind:
  assumes "layer_path db u us c (p @ q)" "p \<noteq> []"
  shows "snd (last p) \<longleftrightarrow> q \<noteq> []"
proof -
  obtain ds x where ids: "p @ q = map (\<lambda>x. (Some x, True)) ds @ [(x, False)]"
    using assms(1) by (auto simp: layer_path_def path_ids_def)
  show ?thesis
  proof (cases q rule: rev_cases)
    case Nil
    then show ?thesis
      using ids by simp
  next
    case (snoc q' z)
    then have "set p \<subseteq> set (map (\<lambda>x. (Some x, True)) ds)"
      using ids by (metis append.assoc butlast_snoc set_append Un_upper1)
    then show ?thesis
      using last_in_set [OF assms(2)] snoc by auto
  qed
qed

lemma layer_path_ne: "layer_path db u us c ids \<Longrightarrow> ids \<noteq> []"
  by (auto simp: layer_path_def)

lemma layer_path_node:
  assumes "get_file_tree_data db us (Some u) = Inr ds" "layer_path db u us c ids"
  shows "\<exists>d\<in>set ds. \<exists>n\<in>set (get_file_tree_nodes (layer_of rt u whitelist d)). \<forall>p q. ids = p @ q \<longrightarrow> p \<noteq> [] \<longrightarrow> placed_at n p \<noteq> None"
proof -
  obtain e ps where e: "c \<in> set us" "(c, e) \<in> set (file_object_table db)" "ps \<in> set (paths_below db u c)"
    "ids = path_ids (e_file_name e) ps"
    using assms(2) by (auto simp: layer_path_def)
  obtain d where d: "d \<in> set ds" "fd_uid d = c" "fd_file_name d = e_file_name e"
    using tree_data_complete [OF assms(1) e(1,2)] by blast
  let ?t = "layer_of rt u whitelist d"
  have "ps \<in> set (layer_paths ?t)"
    using e(3) tree_data_layer(2) [OF assms(1) d(1)] d(2) by simp
  then obtain mode where "create_node_from_virtual_path ?t ps mode \<in> set (get_file_tree_nodes ?t)"
    using file_tree_nodes(2) by blast
  moreover have "path_ids (fd_file_name (vt_data ?t)) ps = ids"
    by (simp add: layer_of_def d(3) e(4))
  ultimately show ?thesis
    using d(1) created_node [of ?t ps mode]
    by (intro bexI [of _ d] bexI [of _ "create_node_from_virtual_path ?t ps mode"]) auto
qed

lemma included_finite:
  assumes "get_object db u None = Inr (Some fo)"
  shows "finite (files_included fo)"
proof -
  have "finite (get_included_uids db u)"
    by (simp add: get_included_uids_def)
  then show ?thesis
    using assms
    by (auto simp: get_object_def get_firmware_def get_file_object_def db_firmware_from_entry_def firmware_from_entry_def
        file_object_from_entry_def populate_fo_data_def Let_def result_simps split: if_splits option.splits)
qed

lemma layer_added:
  assumes "generate_file_tree_nodes_for_uid_list db us rt (Some u) whitelist = Inr ns"
  shows "wf_node (fold (\<lambda>n root. add_child_node root n) ns root_node)"
    "p \<noteq> [] \<Longrightarrow> node_at (fold (\<lambda>n root. add_child_node root n) ns root_node) p = first_match (\<lambda>n. placed_at n p) ns"
proof -
  have "\<forall>n\<in>set ns. good_node n"
    using nodes_for_uid_list [OF assms] nodes_wf by auto
  from tree.add_all [OF root_wf this]
  show "wf_node (fold (\<lambda>n root. add_child_node root n) ns root_node)"
    "p \<noteq> [] \<Longrightarrow> node_at (fold (\<lambda>n root. add_child_node root n) ns root_node) p = first_match (\<lambda>n. placed_at n p) ns"
    by (simp_all add: root_at)
qed

text \<open>
  C29. Unfolding a file in the file tree shows exactly the files that were unpacked from it (all of them, or those
  of a comparison's whitelist), each at each of its virtual paths, and the directories on the way there: no file
  and no path is lost when the paths of different files are merged into one tree, and every node of the tree
  comes from such a path. A file and a directory of the same name are kept apart; of several files with the very
  same path one is shown.
\<close>

theorem file_tree_layer_correct:
  assumes "generate_file_tree db rt u whitelist = Inr tree"
  shows "\<exists>fo us. get_object db u None = Inr (Some fo) \<and>
     (\<forall>c. c \<in> set us \<longleftrightarrow> c \<in> files_included fo \<and> (\<forall>w. whitelist = Some w \<longrightarrow> c \<in> set w)) \<and>
     (\<forall>c ids. layer_path db u us c ids \<longrightarrow>
        (\<exists>v c'. node_at tree ids = Some v \<and> \<not> n_virtual v \<and> n_uid v = Some c' \<and> layer_path db u us c' ids) \<and>
        (\<forall>p q. ids = p @ q \<and> p \<noteq> [] \<and> q \<noteq> [] \<longrightarrow> (\<exists>v. node_at tree p = Some v \<and> n_virtual v))) \<and>
     (\<forall>ids v. ids \<noteq> [] \<and> node_at tree ids = Some v \<longrightarrow>
        (\<exists>c q. layer_path db u us c (ids @ q) \<and> (if n_virtual v then q \<noteq> [] else q = [] \<and> n_uid v = Some c)))"
proof -
  obtain r fo ns where fo: "get_object db u None = Inr (Some fo)"
    and ns: "generate_file_tree_nodes_for_uid_list db (layer_uids (files_included fo) whitelist) (Some r) (Some u) whitelist = Inr ns"
    and tree: "tree = fold (\<lambda>n root. add_child_node root n) ns root_node"
    using assms by (auto simp: generate_file_tree_def result_simps split: option.splits)
  let ?us = "layer_uids (files_included fo) whitelist"
  obtain ds where ds: "get_file_tree_data db ?us (Some u) = Inr ds"
    "ns = concat (map (\<lambda>d. get_file_tree_nodes (layer_of (Some r) u whitelist d)) ds)"
    using nodes_for_uid_list [OF ns] by blast
  have at: "p \<noteq> [] \<Longrightarrow> node_at tree p = first_match (\<lambda>n. placed_at n p) ns" for p
    using layer_added(2) [OF ns] by (simp add: tree)
  have from_node: "\<exists>c q. layer_path db u ?us c (ids @ q) \<and> (if n_virtual v then q \<noteq> [] else q = [] \<and> n_uid v = Some c)"
    if found: "ids \<noteq> []" "node_at tree ids = Some v" for ids v
  proof -
    obtain n where n: "n \<in> set ns" "placed_at n ids = Some v"
      using found at first_match_SomeD by metis
    then obtain d where "d \<in> set ds" "n \<in> set (get_file_tree_nodes (layer_of (Some r) u whitelist d))"
      using ds(2) by auto
    from layer_node [OF ds(1) this] obtain ids' where ids': "layer_path db u ?us (fd_uid d) ids'"
      "if ids = ids' then \<not> n_virtual v \<and> n_uid v = Some (fd_uid d) else n_virtual v \<and> (\<exists>q. q \<noteq> [] \<and> ids' = ids @ q)"
      using n(2) by blast
    then show ?thesis
      by (cases "ids = ids'") (force split: if_splits)+
  qed
  have to_node: "\<exists>v. node_at tree p = Some v" if path: "layer_path db u ?us c (p @ q)" "p \<noteq> []" for c p q
  proof -
    obtain d n where "d \<in> set ds" "n \<in> set (get_file_tree_nodes (layer_of (Some r) u whitelist d))" "placed_at n p \<noteq> None"
      using layer_path_node [OF ds(1) path(1)] path(2) by metis
    then have "first_match (\<lambda>n. placed_at n p) ns \<noteq> None"
      using ds(2) by (auto simp: first_match_None)
    then show ?thesis
      using at [OF path(2)] by auto
  qed
  have kind: "n_virtual v \<longleftrightarrow> q \<noteq> []" if "layer_path db u ?us c (p @ q)" "p \<noteq> []" "node_at tree p = Some v" for c p q v
    using from_node [OF that(2,3)] layer_path_kind [OF _ that(2)] that(1) by (metis append_Nil2)
  have us: "c \<in> set ?us \<longleftrightarrow> c \<in> files_included fo \<and> (\<forall>w. whitelist = Some w \<longrightarrow> c \<in> set w)" for c
    using included_finite [OF fo] by (auto simp: layer_uids_def split: option.splits)
  have "\<exists>v c'. node_at tree ids = Some v \<and> \<not> n_virtual v \<and> n_uid v = Some c' \<and> layer_path db u ?us c' ids"
    if "layer_path db u ?us c ids" for c ids
  proof -
    have ne: "ids \<noteq> []" "layer_path db u ?us c (ids @ [])"
      using that layer_path_ne by auto
    obtain v where v: "node_at tree ids = Some v"
      using to_node [OF ne(2,1)] by blast
    then show ?thesis
      using kind [OF ne(2,1) v] from_node [OF ne(1) v] by force
  qed
  moreover have "\<exists>v. node_at tree p = Some v \<and> n_virtual v" if "layer_path db u ?us c (p @ q)" "p \<noteq> []" "q \<noteq> []" for c p q
    using to_node [OF that(1,2)] kind [OF that(1,2)] that(3) by blast
  ultimately show ?thesis
    using fo us from_node by (intro exI [of _ fo] exI [of _ ?us]) blast
qed

definition example_tree_db :: database where
  "example_tree_db = empty_database\<lparr>
     file_object_table := [(''fw'', example_entry True), (''a'', example_entry False), (''b'', example_entry False)],
     firmware_table := [(''fw'', \<lparr>e_submission_date = 0, e_release_date = (2024, 2, 29), e_version = Some ''1'',
       e_vendor = Some ''v'', e_device_name = Some ''d'', e_device_class = Some ''c'', e_device_part = [],
       e_firmware_tags = []\<rparr>)],
     included_files_table := [(''fw'', ''a''), (''fw'', ''b'')],
     fw_files_table := [(''fw'', ''a''), (''fw'', ''b'')],
     vfp_table := [(''fw'', ''a'', ''/bin/sh''), (''fw'', ''b'', ''/bin/ls''), (''fw'', ''b'', ''/sh'')]\<rparr>"

theorem file_tree_layer_witness:
  "\<exists>tree v. generate_file_tree example_tree_db (Some ''fw'') ''fw'' None = Inr tree \<and>
     node_at tree [(Some ''bin'', True), (Some ''ls'', False)] = Some v \<and> \<not> n_virtual v"
proof -
  have "is_ok (generate_file_tree example_tree_db (Some ''fw'') ''fw'' None)"
    by code_simp
  then obtain tree where tree: "generate_file_tree example_tree_db (Some ''fw'') ''fw'' None = Inr tree"
    by (auto simp: is_ok_iff)
  from file_tree_layer_correct [OF this] obtain fo us where
    fo: "get_object example_tree_db ''fw'' None = Inr (Some fo)" and us: "\<forall>c. c \<in> set us \<longleftrightarrow> c \<in> files_included fo"
    and paths: "\<forall>c ids. layer_path example_tree_db ''fw'' us c ids \<longrightarrow>
      (\<exists>v c'. node_at tree ids = Some v \<and> \<not> n_virtual v \<and> n_uid v = Some c' \<and> layer_path example_tree_db ''fw'' us c' ids)"
    by auto
  have "map_sum id (map_option files_included) (get_object example_tree_db ''fw'' None) = Inr (Some {''a'', ''b''})"
    by code_simp
  then have "''b'' \<in> set us"
    using fo us by simp
  then have "layer_path example_tree_db ''fw'' us ''b'' [(Some ''bin'', True), (Some ''ls'', False)]"
    by (simp add: layer_path_def example_tree_db_def paths_below_def stored_paths_def lstrip_slash_def path_ids_def)
  then show ?thesis
    using tree paths by blast
qed

end
