(* ===== verification/Jstree.thy ===== *)
theory Jstree
  imports File_Tree
begin

text \<open>
  Icons and labels of the nodes of a file tree (\<^verbatim>\<open>src/src/web_interface/file_tree/file_tree.py\<close>) and their conversion to
  the data of the tree widget (\<^verbatim>\<open>jstree_conversion.py\<close>). The icon files in the directory of the web server and
  \<open>human_readable_file_size\<close> of \<open>common_helper_files\<close> are parameters.
\<close>

section \<open>Icons\<close>

definition extra_icons :: "(string \<times> string) list" where
  "extra_icons = [
     (''application-x-pie-executable'', ''/static/file_icons/mimetypes/application-x-executable.svg''),
     (''application-x-dosexec'', ''/static/file_icons/mimetypes/application-x-ms-dos-executable.svg''),
     (''application-vnd.microsoft.portable-executable'', ''/static/file_icons/mimetypes/application-x-ms-dos-executable.svg''),
     (''linux-device-tree'', ''/static/file_icons/firmware.svg''),
     (''text-postscript'', ''/static/file_icons/mimetypes/application-postscript.svg''),
     (''text-x-c'', ''/static/file_icons/mimetypes/text-x-csrc.svg''),
     (''text-x-php'', ''/static/file_icons/mimetypes/application-x-php.svg''),
     (''text-x-script.python'', ''/static/file_icons/mimetypes/text-x-python.svg''),
     (''text-x-shellscript'', ''/static/file_icons/mimetypes/application-x-shellscript.svg'')]"

definition EXTENSION_TO_MIME :: "(string \<times> string) list" where
  "EXTENSION_TO_MIME = [
     (''c'', ''text-x-csrc''), (''cert'', ''application-certificate''), (''cfg'', ''text-x-makefile''),
     (''cnf'', ''text-x-makefile''), (''conf'', ''text-x-makefile''), (''control'', ''application-x-deb''),
     (''cpp'', ''text-x-c++src''), (''crt'', ''application-certificate''),
     (''eps'', ''application-postscript''), (''h'', ''text-x-chdr''), (''htm'', ''text-html''),
     (''image'', ''package-x-generic''), (''ini'', ''text-x-makefile''),
     (''js'', ''application-x-javascript''), (''key'', ''application-pgp''), (''md'', ''text-x-markdown''),
     (''pem'', ''application-certificate''), (''pl'', ''application-x-perl''),
     (''properties'', ''text-x-java''), (''ps'', ''application-postscript''), (''pub'', ''application-pgp''),
     (''py'', ''text-x-python''), (''rb'', ''application-x-ruby''), (''sh'', ''text-x-shellscript''),
     (''svg'', ''image-svg+xml''), (''ts'', ''application-x-javascript''), (''xsd'', ''text-xml''),
     (''yml'', ''application-x-yaml'')]"

definition SPECIAL_FILES :: "(string \<times> string) list" where
  "SPECIAL_FILES = [
     (''authors'', ''text-x-credits''), (''license'', ''text-x-copying''), (''readme'', ''text-x-readme''),
     (''version'', ''text-x-readme'')]"

definition TYPE_CATEGORY_TO_ICON :: "(string \<times> string) list" where
  "TYPE_CATEGORY_TO_ICON = [
     (''audio/'', ''/static/file_icons/mimetypes/audio-x-generic.svg''),
     (''filesystem/'', ''/static/file_icons/filesystem.svg''),
     (''firmware/'', ''/static/file_icons/firmware.svg''),
     (''font/'', ''/static/file_icons/mimetypes/font-x-generic.svg''),
     (''image/'', ''/static/file_icons/mimetypes/image-x-generic.svg''),
     (''text/'', ''/static/file_icons/mimetypes/text-x-generic.svg''),
     (''video/'', ''/static/file_icons/mimetypes/video-x-generic.svg''),
     (''linux/'', ''/static/file_icons/linux.svg'')]"

definition ARCHIVE_FILE_TYPES :: "string list" where
  "ARCHIVE_FILE_TYPES = [
     ''application/java-archive'', ''application/rar'', ''application/x-adf'', ''application/x-alzip'',
     ''application/x-bzip2'', ''application/x-cab'', ''application/x-debian-package'', ''application/x-dms'',
     ''application/x-iso9660-image'', ''application/x-lrzip'', ''application/x-lzh'', ''application/x-lzip'',
     ''application/x-redhat-package-manager'', ''application/x-rzip'', ''application/x-shar'',
     ''application/x-sit'', ''application/x-sitx'', ''application/x-stuffitx'', ''application/x-xz'',
     ''application/x-zip-compressed'', ''application/zpaq'', ''compression/zlib'']"

definition GNOME_PREFIX :: string where "GNOME_PREFIX = ''gnome-mime-''"

text \<open>\<open>MIME_TO_ICON_PATH\<close>: \<open>icons\<close> are the files in the directory, by their stem.\<close>

definition MIME_TO_ICON_PATH :: "(string \<times> string) list \<Rightarrow> (string \<times> string) list" where
  "MIME_TO_ICON_PATH icons =
     (let known = fold (\<lambda>(k, v). AList.update k v) extra_icons icons;
          gnome = map (\<lambda>(k, v). (py_replace GNOME_PREFIX [] k, v))
            (filter (\<lambda>(k, v). starts_with GNOME_PREFIX k \<and> map_of known (py_replace GNOME_PREFIX [] k) = None) known)
      in fold (\<lambda>(k, v). AList.update k v) gnome known)"

text \<open>\<open>Path(name).suffix\<close> without the dot, in lower case: nothing for a dot at either end of the name\<close>

definition path_suffix :: "string \<Rightarrow> string" where
  "path_suffix name =
     (let n = path_name name; s = rev (takeWhile (\<lambda>c. c \<noteq> CHR ''.'') (rev n)); stem = take (length n - length s - 1) n
      in if CHR ''.'' \<in> set n \<and> s \<noteq> [] \<and> stem \<noteq> [] then py_lower s else [])"

definition get_mime_for_text_file :: "(string \<times> string) list \<Rightarrow> string \<Rightarrow> string" where
  "get_mime_for_text_file icons filename = (case map_of SPECIAL_FILES (py_lower filename) of
       Some mime \<Rightarrow> mime
     | None \<Rightarrow>
         (let suffix = path_suffix filename
          in if suffix = [] then ''text/plain''
             else case map_of EXTENSION_TO_MIME suffix of
                 Some mime \<Rightarrow> mime
               | None \<Rightarrow>
                   (case filter (\<lambda>mime. map_of (MIME_TO_ICON_PATH icons) mime \<noteq> None)
                       (map (\<lambda>prefix. prefix @ ''-'' @ suffix) [''text'', ''text-x'', ''application'', ''application-x'']) of
                      mime # _ \<Rightarrow> mime
                    | [] \<Rightarrow> ''text/plain'')))"

definition get_icon_for_mime :: "(string \<times> string) list \<Rightarrow> pyval \<Rightarrow> string result" where
  "get_icon_for_mime icons mime_type = (case mime_type of
       PNone \<Rightarrow> dict_item (MIME_TO_ICON_PATH icons) ''unknown''
     | PStr mime \<Rightarrow>
         (case map_of (MIME_TO_ICON_PATH icons) (py_replace ''/'' ''-'' mime) of
            Some icon \<Rightarrow> Inr icon
          | None \<Rightarrow>
              if mime \<in> set ARCHIVE_FILE_TYPES then dict_item (MIME_TO_ICON_PATH icons) ''package-x-generic''
              else (case filter (\<lambda>(category, _). starts_with category mime) TYPE_CATEGORY_TO_ICON of
                  (_, icon) # _ \<Rightarrow> Inr icon
                | [] \<Rightarrow> dict_item (MIME_TO_ICON_PATH icons) ''unknown''))
     | _ \<Rightarrow> Inl AttributeError)"

section \<open>Labels\<close>

record jstree_env =
  js_icons :: "(string \<times> string) list"
  js_human_readable_file_size :: "int \<Rightarrow> string"

definition BYTE_FORMAT_THRESHOLD :: int where "BYTE_FORMAT_THRESHOLD = 2 ^ 10"

definition byte_number_filter :: "jstree_env \<Rightarrow> int option \<Rightarrow> string" where
  "byte_number_filter env i = (case i of
       None \<Rightarrow> ''not available''
     | Some n \<Rightarrow>
         (let output = js_human_readable_file_size env n
          in if n < BYTE_FORMAT_THRESHOLD
             then py_replace ''.00'' [] (py_replace ''Byte'' (if n = 1 then ''byte'' else ''bytes'') output)
             else output))"

text \<open>
  \<open>int(mode, 8)\<close>, for digits with or without the prefix that \<open>oct\<close> writes, and \<open>stat.filemode\<close>: the type of the
  file, then the permissions of owner, group and others with the set-user-id, set-group-id and sticky bits.
\<close>

definition octal_int :: "string \<Rightarrow> nat result" where
  "octal_int s =
     (let digits = (if starts_with ''0o'' s then drop 2 s else s)
      in if digits \<noteq> [] \<and> list_all (\<lambda>c. c \<in> set ''01234567'') digits
         then Inr (fold (\<lambda>c n. 8 * n + (of_char c - 48)) digits 0) else Inl ValueError)"

definition permission_chars :: "nat \<Rightarrow> bool \<Rightarrow> char \<times> char \<Rightarrow> string" where
  "permission_chars n special = (\<lambda>(both, only).
     [if n div 4 mod 2 = 1 then CHR ''r'' else CHR ''-'', if n div 2 mod 2 = 1 then CHR ''w'' else CHR ''-'',
      if n mod 2 = 1 then (if special then both else CHR ''x'') else (if special then only else CHR ''-'')])"

definition filemode :: "nat \<Rightarrow> string" where
  "filemode n =
     [case map_of [(10, CHR ''l''), (12, CHR ''s''), (8, CHR ''-''), (6, CHR ''b''), (4, CHR ''d''), (2, CHR ''c''), (1, CHR ''p'')]
        (n div 4096 mod 16) of None \<Rightarrow> CHR ''?'' | Some c \<Rightarrow> c] @
     permission_chars (n div 64 mod 8) (n div 2048 mod 2 = 1) (CHR ''s'', CHR ''S'') @
     permission_chars (n div 8 mod 8) (n div 1024 mod 2 = 1) (CHR ''s'', CHR ''S'') @
     permission_chars (n mod 8) (n div 512 mod 2 = 1) (CHR ''t'', CHR ''T'')"

definition mode_label :: "pyval \<Rightarrow> string result" where
  "mode_label mode =
     (if \<not> truthy mode then Inr []
      else case mode of
          PStr s \<Rightarrow> bindE (octal_int s) (\<lambda>n. Inr ('', '' @ dropWhile (\<lambda>c. c = CHR ''?'') (filemode n)))
        | _ \<Rightarrow> Inl TypeError)"

section \<open>jstree_conversion.py\<close>

text \<open>The value of \<open>children\<close> is missing, \<open>True\<close> (to be loaded later) or a list.\<close>

datatype jstree_node = JNode (jt_text: string) (jt_href: string) (jt_icon: string) (jt_uid: "string option")
  (jt_children: "jstree_node list option option")

definition get_jstree_node_contents :: "string \<Rightarrow> string \<Rightarrow> string \<Rightarrow> jstree_node" where
  "get_jstree_node_contents txt' link icon = JNode txt' link icon None None"

definition get_directory_jstree_node :: "node_data \<Rightarrow> jstree_node" where
  "get_directory_jstree_node d = get_jstree_node_contents (fmt (n_name d)) ''#'' ''/static/file_icons/folder.svg''"

definition node_link :: "node_data \<Rightarrow> string" where
  "node_link d = ''/analysis/'' @ fmt (n_uid d) @ ''/ro/'' @ fmt (n_root_uid d)"

definition get_not_analyzed_jstree_node :: "node_data \<Rightarrow> jstree_node" where
  "get_not_analyzed_jstree_node d =
     get_jstree_node_contents (fmt (n_name d)) (node_link d) ''/static/file_icons/not_analyzed.svg''"

definition get_file_jstree_node :: "jstree_env \<Rightarrow> node_data \<Rightarrow> jstree_node result" where
  "get_file_jstree_node env d =
     bindE (mode_label (n_mode d)) (\<lambda>mode.
     bindE (if n_type d = PStr ''text/plain''
            then (case n_name d of None \<Rightarrow> Inl AttributeError | Some name \<Rightarrow> Inr (PStr (get_mime_for_text_file (js_icons env) name)))
            else Inr (n_type d)) (\<lambda>mime.
     bindE (get_icon_for_mime (js_icons env) mime) (\<lambda>icon.
       Inr (JNode (''<b>'' @ fmt (n_name d) @ ''</b> (<span style=\"color:gray;\">'' @ byte_number_filter env (n_size d) @
           mode @ ''</span>)'') (node_link d) icon (n_uid d) None))))"

fun convert_to_jstree_node :: "jstree_env \<Rightarrow> file_tree_node \<Rightarrow> jstree_node result" and
  get_jstree_child_nodes :: "jstree_env \<Rightarrow> (node_id \<times> file_tree_node) list \<Rightarrow> jstree_node list result" where
  "convert_to_jstree_node env (Node d h cs) =
     bindE (if n_virtual d then Inr (get_directory_jstree_node d)
            else if n_not_analyzed d then Inr (get_not_analyzed_jstree_node d)
            else get_file_jstree_node env d) (\<lambda>j.
       if \<not> h then Inr j
       else if cs = [] then Inr (JNode (jt_text j) (jt_href j) (jt_icon j) (jt_uid j) (Some None))
       else bindE (get_jstree_child_nodes env cs) (\<lambda>js.
         Inr (JNode (jt_text j) (jt_href j) (jt_icon j) (jt_uid j) (Some (Some js)))))"
| "get_jstree_child_nodes env [] = Inr []"
| "get_jstree_child_nodes env ((_, child) # cs) =
     bindE (convert_to_jstree_node env child) (\<lambda>j. bindE (get_jstree_child_nodes env cs) (\<lambda>js. Inr (j # js)))"

section \<open>The root of the tree\<close>

definition root_is_virtual :: "jstree_node list \<Rightarrow> bool" where
  "root_is_virtual rt = (case rt of [] \<Rightarrow> False | j # _ \<Rightarrow> jt_href j = ''#'')"

function remove_virtual_path_from_root :: "jstree_node list \<Rightarrow> jstree_node list result" where
  "remove_virtual_path_from_root [] = Inr []"
| "remove_virtual_path_from_root (j # js) =
     (if root_is_virtual (j # js)
      then case jt_children j of
          None \<Rightarrow> Inl KeyError
        | Some None \<Rightarrow> Inl TypeError
        | Some (Some js') \<Rightarrow> remove_virtual_path_from_root js'
      else Inr (j # js))"
  by pat_completeness auto
termination
proof (relation "measure (size_list size)", goal_cases)
  case (2 j js a js')
  then show ?case
    by (cases j) simp
qed simp

text \<open>\<open>ajax_get_tree_children\<close> and \<open>ajax_get_tree_root\<close>\<close>

definition ajax_get_tree_children ::
  "jstree_env \<Rightarrow> database \<Rightarrow> string option \<Rightarrow> string \<Rightarrow> string list option \<Rightarrow> jstree_node list result" where
  "ajax_get_tree_children env db rt u whitelist =
     bindE (generate_file_tree db (none_to_none rt) u whitelist) (\<lambda>tree. mapE (convert_to_jstree_node env) (get_list_of_child_nodes tree))"

definition ajax_get_tree_root :: "jstree_env \<Rightarrow> database \<Rightarrow> string \<Rightarrow> string option \<Rightarrow> jstree_node list result" where
  "ajax_get_tree_root env db u rt =
     bindE (generate_file_tree_level db u rt None None None) (\<lambda>ns.
     bindE (mapE (convert_to_jstree_node env) ns) (\<lambda>js.
       remove_virtual_path_from_root (if js = [] then [] else [last js])))"

section \<open>The data for the widget are well formed\<close>

text \<open>
  A directory has a list of children that is not empty and no UID. All other nodes stand for one of the objects
  \<open>us\<close>: they carry its UID, link to its page below the firmware \<open>r\<close> and have no list of children.
\<close>

inductive wf_jstree :: "string \<Rightarrow> string set \<Rightarrow> jstree_node \<Rightarrow> bool" for r us where
  directory: "js \<noteq> [] \<Longrightarrow> \<forall>j\<in>set js. wf_jstree r us j \<Longrightarrow>
     wf_jstree r us (JNode name ''#'' ''/static/file_icons/folder.svg'' None (Some (Some js)))"
| item: "u \<in> us \<Longrightarrow> ch = None \<or> ch = Some None \<Longrightarrow>
     wf_jstree r us (JNode name (''/analysis/'' @ u @ ''/ro/'' @ r) icon (Some u) ch)"

inductive_cases wf_jstree_JNode: "wf_jstree r us (JNode name href icon u ch)"

text \<open>The nodes of a file tree that stand for files: \<open>us\<close> are the files, \<open>r\<close> is the root.\<close>

definition file_node :: "string \<Rightarrow> string set \<Rightarrow> node_data \<Rightarrow> bool" where
  "file_node r us v \<longleftrightarrow> n_virtual v \<or> n_uid v \<in> Some ` us \<and> n_root_uid v = Some r \<and> \<not> n_not_analyzed v"

definition file_nodes :: "string \<Rightarrow> string set \<Rightarrow> file_tree_node \<Rightarrow> bool" where
  "file_nodes r us n \<longleftrightarrow> (\<forall>p v. node_at n p = Some v \<longrightarrow> file_node r us v)"

lemma file_nodes_child:
  assumes "distinct (map fst cs)" "(i, c) \<in> set cs" "\<forall>p v. p \<noteq> [] \<longrightarrow> node_at (Node d h cs) p = Some v \<longrightarrow> file_node r us v"
  shows "file_nodes r us c"
  unfolding file_nodes_def
proof (intro allI impI)
  fix p v
  assume "node_at c p = Some v"
  moreover have "map_of cs i = Some c"
    using assms(1,2) by simp
  ultimately show "file_node r us v"
    using assms(3) [rule_format, of "i # p" v] by simp
qed

lemma created_file_nodes:
  assumes "vt_root_uid t \<noteq> None"
  shows "file_nodes (the (vt_root_uid t)) {fd_uid (vt_data t)} (create_node_from_virtual_path t ps mode)"
  unfolding file_nodes_def
proof (intro allI impI)
  fix p v
  let ?n = "create_node_from_virtual_path t ps mode"
  assume "node_at ?n p = Some v"
  then have "placed_at ?n (get_id ?n # p) = Some v"
    by (simp add: placed_at_def)
  then have "v = file_data t ps mode \<or> v = directory_data t (fst (last (get_id ?n # p)))"
    unfolding created_node by (auto split: if_splits)
  then show "file_node (the (vt_root_uid t)) {fd_uid (vt_data t)} v"
    using assms by (auto simp: file_node_def file_data_def directory_data_def get_node_for_real_file_def)
qed

lemma file_node_mono: "file_node r us v \<Longrightarrow> us \<subseteq> vs \<Longrightarrow> file_node r vs v"
  by (auto simp: file_node_def)

lemma node_link_file:
  assumes "file_node r us d" "\<not> n_virtual d"
  obtains u where "u \<in> us" "n_uid d = Some u" "node_link d = ''/analysis/'' @ u @ ''/ro/'' @ r"
  using assms by (auto simp: file_node_def node_link_def fmt_def)

lemma file_jstree_node:
  "get_file_jstree_node env d = Inr j \<Longrightarrow> \<exists>name icon. j = JNode name (node_link d) icon (n_uid d) None"
  by (auto simp: get_file_jstree_node_def result_simps)

lemma converted_wf:
  "good_node n \<Longrightarrow> file_nodes r us n \<Longrightarrow> convert_to_jstree_node env n = Inr j \<Longrightarrow> wf_jstree r us j"
  "\<forall>e\<in>set cs. good_node (snd e) \<and> file_nodes r us (snd e) \<Longrightarrow> get_jstree_child_nodes env cs = Inr js \<Longrightarrow>
     (\<forall>j\<in>set js. wf_jstree r us j) \<and> length js = length cs"
proof (induction env n and env cs arbitrary: j and js rule: convert_to_jstree_node_get_jstree_child_nodes.induct)
  case (1 env d h cs)
  have good: "\<forall>e\<in>set cs. good_node (snd e)" "n_virtual d \<longleftrightarrow> cs \<noteq> []" "cs \<noteq> [] \<Longrightarrow> h" "distinct (map fst cs)"
    using 1(2) by (simp_all add: wf_node_Node leaf_ok_def)
  show ?case
  proof (cases "cs = []")
    case True
    have d: "file_node r us d" "\<not> n_virtual d"
      using True good(2) 1(3) [unfolded file_nodes_def, rule_format, of "[]"] by simp_all
    then obtain u where u: "u \<in> us" "n_uid d = Some u" "node_link d = ''/analysis/'' @ u @ ''/ro/'' @ r"
      by (rule node_link_file)
    obtain j0 where j0: "get_file_jstree_node env d = Inr j0"
      "j = (if h then JNode (jt_text j0) (jt_href j0) (jt_icon j0) (jt_uid j0) (Some None) else j0)"
      using 1(4) True d by (cases h) (auto simp: file_node_def result_simps split: if_splits)
    obtain name icon where "j0 = JNode name (node_link d) icon (n_uid d) None"
      using file_jstree_node [OF j0(1)] by blast
    then have j: "j = JNode name (''/analysis/'' @ u @ ''/ro/'' @ r) icon (Some u) (if h then Some None else None)"
      using j0(2) u by simp
    show ?thesis
      unfolding j by (rule wf_jstree.item) (use u in simp_all)
  next
    case False
    then obtain js where js: "get_jstree_child_nodes env cs = Inr js"
      "j = JNode (fmt (n_name d)) ''#'' ''/static/file_icons/folder.svg'' None (Some (Some js))"
      using 1(4) good(2,3) by (auto simp: get_directory_jstree_node_def get_jstree_node_contents_def result_simps split: if_splits)
    have "\<forall>e\<in>set cs. file_nodes r us (snd e)"
      using file_nodes_child [OF good(4)] 1(3) unfolding file_nodes_def [of r us "Node d h cs"] by fastforce
    then have "(\<forall>j\<in>set js. wf_jstree r us j) \<and> length js = length cs"
      using 1(1) [OF _ _ _ js(1)] False good by auto
    then show ?thesis
      using False unfolding js(2) by (intro wf_jstree.directory) auto
  qed
next
  case (3 env k child cs)
  then show ?case
    by (auto simp: result_simps)
qed simp

text \<open>Removing leading directories never raises an exception, ends and leaves a node that is no directory in front.\<close>

lemma remove_virtual_path:
  "\<forall>j\<in>set js. wf_jstree r us j \<Longrightarrow>
     \<exists>js'. remove_virtual_path_from_root js = Inr js' \<and> \<not> root_is_virtual js' \<and> (js' = [] \<longleftrightarrow> js = []) \<and>
       (\<forall>j\<in>set js'. wf_jstree r us j)"
proof (induction js rule: remove_virtual_path_from_root.induct)
  case (2 j js)
  show ?case
  proof (cases "root_is_virtual (j # js)")
    case True
    have "wf_jstree r us j"
      using "2.prems" by simp
    then obtain js' where "jt_children j = Some (Some js')" "js' \<noteq> []" "\<forall>j\<in>set js'. wf_jstree r us j"
      using True by (cases j) (auto simp: root_is_virtual_def elim!: wf_jstree_JNode)
    then show ?thesis
      using "2.IH" [OF True, of "Some js'" js'] True by auto
  qed (use "2.prems" in auto)
qed (simp add: root_is_virtual_def)

text \<open>The layer of a file and the node of a root, converted\<close>

lemma layer_file_nodes:
  assumes "generate_file_tree_nodes_for_uid_list db us (Some r) (Some u) whitelist = Inr ns"
    and "p \<noteq> []" "node_at (fold (\<lambda>n root. add_child_node root n) ns root_node) p = Some v"
  shows "file_node r (set us) v"
proof -
  obtain ds where ds: "get_file_tree_data db us (Some u) = Inr ds"
    "ns = concat (map (\<lambda>d. get_file_tree_nodes (layer_of (Some r) u whitelist d)) ds)"
    using nodes_for_uid_list [OF assms(1)] by blast
  obtain n where n: "n \<in> set ns" "placed_at n p = Some v"
    using layer_added(2) [OF assms(1,2)] assms(3) first_match_SomeD by metis
  then obtain d where d: "d \<in> set ds" "n \<in> set (get_file_tree_nodes (layer_of (Some r) u whitelist d))"
    using ds(2) by auto
  then obtain ps mode where "n = create_node_from_virtual_path (layer_of (Some r) u whitelist d) ps mode"
    using file_tree_nodes(1) by blast
  then have "file_nodes r {fd_uid d} n"
    using created_file_nodes [of "layer_of (Some r) u whitelist d"] by (simp add: layer_of_def)
  moreover have "\<exists>q. node_at n q = Some v"
    using n(2) by (cases p) (auto simp: placed_at_def split: if_splits)
  ultimately have "file_node r {fd_uid d} v"
    by (auto simp: file_nodes_def)
  then show ?thesis
    by (rule file_node_mono) (simp add: tree_data_layer(1) [OF ds(1) d(1)])
qed

lemma children_wf:
  assumes "generate_file_tree_nodes_for_uid_list db us (Some r) (Some u) whitelist = Inr ns"
    and "mapE (convert_to_jstree_node env) (get_list_of_child_nodes (fold (\<lambda>n root. add_child_node root n) ns root_node)) = Inr js"
  shows "\<forall>j\<in>set js. wf_jstree r (set us) j"
proof -
  let ?tree = "fold (\<lambda>n root. add_child_node root n) ns root_node"
  obtain d h cs where tree: "?tree = Node d h cs"
    by (cases ?tree)
  have "wf_node (Node d h cs)"
    using layer_added(1) [OF assms(1)] by (simp add: tree)
  then have cs: "distinct (map fst cs)" "\<forall>e\<in>set cs. good_node (snd e)"
    by (simp_all add: wf_node_Node)
  have "\<forall>p v. p \<noteq> [] \<longrightarrow> node_at (Node d h cs) p = Some v \<longrightarrow> file_node r (set us) v"
    using layer_file_nodes [OF assms(1)] by (simp add: tree)
  then have "\<forall>c\<in>set (map snd cs). good_node c \<and> file_nodes r (set us) c"
    using cs file_nodes_child [OF cs(1)] by fastforce
  then show ?thesis
    using assms(2) converted_wf(1) unfolding mapE_Inr_iff tree get_list_of_child_nodes_def
    by (fastforce simp: list_all2_conv_all_nth in_set_conv_nth)
qed

lemma root_level:
  assumes "generate_file_tree_level db u (Some r) None None None = Inr ns" "mapE (convert_to_jstree_node env) ns = Inr js"
  shows "\<exists>j. js = [j] \<and> wf_jstree r {u} j \<and> jt_uid j = Some u"
proof -
  obtain ds d where ds: "get_file_tree_data db [u] None = Inr ds" "(case ds of [] \<Rightarrow> Inl IndexError | d # _ \<Rightarrow> Inr d) = Inr d"
    and ns': "ns = get_file_tree_nodes \<lparr>vt_root_uid = Some r, vt_parent_uid = None, vt_data = d, vt_whitelist = None\<rparr>"
    using assms(1) by (auto simp only: generate_file_tree_level_def option.case bindE_eq_Inr Inr_inject)
  have "d \<in> set ds"
    using ds(2) by (cases ds) auto
  then have d: "fd_uid d = u"
    using ds(1) by (auto simp: get_file_tree_data_def Let_def result_simps)
  let ?t = "\<lparr>vt_root_uid = Some r, vt_parent_uid = None, vt_data = d, vt_whitelist = None\<rparr>"
  let ?n = "get_node_for_real_file ?t None PNone"
  have ns: "ns = [?n]"
    by (simp add: ns' get_file_tree_nodes_def virtual_file_paths_def split: option.splits)
  then obtain j where j: "js = [j]" "convert_to_jstree_node env ?n = Inr j"
    using assms(2) by (auto simp: result_simps)
  have "file_nodes r {u} ?n"
    using created_file_nodes [of ?t "[]" PNone] d by simp
  then have "wf_jstree r {u} j"
    using converted_wf(1) [OF wf_real_file _ j(2)] by blast
  moreover have "jt_uid j = Some u"
    using j(2) d by (auto simp: get_node_for_real_file_def result_simps dest!: file_jstree_node split: if_splits)
  ultimately show ?thesis
    using j(1) by blast
qed

lemma parent_popped:
  assumes "list_pop (sorted_list_of_set A) = Inr (r, ys)"
  shows "r \<in> A"
proof (cases "finite A")
  case True
  then have "A = set (ys @ [r])"
    using assms set_sorted_list_of_set [OF True] by (simp only: list_pop_Inr)
  then show ?thesis
    by simp
qed (use assms in \<open>simp add: list_pop_Inr\<close>)

lemma children_parts:
  assumes "ajax_get_tree_children env db rt u whitelist = Inr js"
  obtains r fo ns where "case none_to_none rt of Some r' \<Rightarrow> r = r' | None \<Rightarrow> r \<in> get_parent_fw db u"
    "get_object db u None = Inr (Some fo)"
    "generate_file_tree_nodes_for_uid_list db (layer_uids (files_included fo) whitelist) (Some r) (Some u) whitelist = Inr ns"
    "mapE (convert_to_jstree_node env) (get_list_of_child_nodes (fold (\<lambda>n root. add_child_node root n) ns root_node)) = Inr js"
proof -
  obtain r fo ns where r: "(case none_to_none rt of Some r \<Rightarrow> Inr r
       | None \<Rightarrow> bindE (list_pop (sorted_list_of_set (get_parent_fw db u))) (\<lambda>(r, _). Inr r)) = Inr r"
    and rest: "get_object db u None = Inr (Some fo)"
    "generate_file_tree_nodes_for_uid_list db (layer_uids (files_included fo) whitelist) (Some r) (Some u) whitelist = Inr ns"
    "mapE (convert_to_jstree_node env) (get_list_of_child_nodes (fold (\<lambda>n root. add_child_node root n) ns root_node)) = Inr js"
    using assms by (auto simp: ajax_get_tree_children_def generate_file_tree_def result_simps split: option.splits)
  have "case none_to_none rt of Some r' \<Rightarrow> r = r' | None \<Rightarrow> r \<in> get_parent_fw db u"
    using r parent_popped by (auto simp: result_simps split: option.splits)
  then show thesis
    using rest that by blast
qed

text \<open>
  C30. Both answers with which the back end fills the tree widget have the form the widget expects. When a file is
  unfolded, directories come with their children (they cannot be loaded later, as they have no UID), and every
  other node carries the UID of a file that was unpacked from it, links to the page of this file below the
  firmware that is shown, and is either a leaf or marked to be loaded later. The root of the tree is the single
  node of the object itself, of the same form; removing leading directories from it neither raises an exception
  nor removes anything.
\<close>

theorem tree_widget_data_well_formed:
  "(\<forall>js. ajax_get_tree_children env db rt u whitelist = Inr js \<longrightarrow>
      (\<exists>r fo. get_object db u None = Inr (Some fo) \<and>
         (case none_to_none rt of Some r' \<Rightarrow> r = r' | None \<Rightarrow> r \<in> get_parent_fw db u) \<and>
         (\<forall>j\<in>set js. wf_jstree r {c \<in> files_included fo. \<forall>w. whitelist = Some w \<longrightarrow> c \<in> set w} j))) \<and>
   (\<forall>r js. bindE (generate_file_tree_level db u (Some r) None None None) (mapE (convert_to_jstree_node env)) = Inr js \<longrightarrow>
      ajax_get_tree_root env db u (Some r) = Inr js \<and>
      (\<exists>j. js = [j] \<and> wf_jstree r {u} j \<and> jt_uid j = Some u))"
proof (intro conjI allI impI)
  fix js
  assume "ajax_get_tree_children env db rt u whitelist = Inr js"
  then obtain r fo ns where r: "case none_to_none rt of Some r' \<Rightarrow> r = r' | None \<Rightarrow> r \<in> get_parent_fw db u"
    and fo: "get_object db u None = Inr (Some fo)"
    and ns: "generate_file_tree_nodes_for_uid_list db (layer_uids (files_included fo) whitelist) (Some r) (Some u) whitelist = Inr ns"
    and js: "mapE (convert_to_jstree_node env) (get_list_of_child_nodes (fold (\<lambda>n root. add_child_node root n) ns root_node)) = Inr js"
    by (rule children_parts)
  have "set (layer_uids (files_included fo) whitelist) = {c \<in> files_included fo. \<forall>w. whitelist = Some w \<longrightarrow> c \<in> set w}"
    using included_finite [OF fo] by (auto simp: layer_uids_def split: option.splits)
  then show "\<exists>r fo. get_object db u None = Inr (Some fo) \<and>
         (case none_to_none rt of Some r' \<Rightarrow> r = r' | None \<Rightarrow> r \<in> get_parent_fw db u) \<and>
         (\<forall>j\<in>set js. wf_jstree r {c \<in> files_included fo. \<forall>w. whitelist = Some w \<longrightarrow> c \<in> set w} j)"
    using r fo children_wf [OF ns js] by auto
next
  fix r js
  assume "bindE (generate_file_tree_level db u (Some r) None None None) (mapE (convert_to_jstree_node env)) = Inr js"
  then obtain ns where ns: "generate_file_tree_level db u (Some r) None None None = Inr ns" "mapE (convert_to_jstree_node env) ns = Inr js"
    by (auto simp: result_simps)
  then obtain j where j: "js = [j]" "wf_jstree r {u} j" "jt_uid j = Some u"
    using root_level by blast
  have "\<not> root_is_virtual [j]"
    using j(2,3) by (cases j) (auto simp: root_is_virtual_def elim!: wf_jstree_JNode)
  then show "ajax_get_tree_root env db u (Some r) = Inr js" "\<exists>j. js = [j] \<and> wf_jstree r {u} j \<and> jt_uid j = Some u"
    using ns j by (simp_all add: ajax_get_tree_root_def)
qed

definition example_jstree_env :: jstree_env where
  "example_jstree_env = \<lparr>js_icons = [(''unknown'', ''/static/file_icons/mimetypes/unknown.svg'')],
     js_human_readable_file_size = (\<lambda>_. ''10.00 Byte'')\<rparr>"

theorem tree_widget_data_witness:
  "(\<exists>js. ajax_get_tree_children example_jstree_env example_tree_db (Some ''fw'') ''fw'' None = Inr js \<and> js \<noteq> [] \<and>
      (\<exists>us. \<forall>j\<in>set js. wf_jstree ''fw'' us j)) \<and>
   (\<exists>j. ajax_get_tree_root example_jstree_env example_tree_db ''fw'' (Some ''fw'') = Inr [j] \<and> wf_jstree ''fw'' {''fw''} j)"
proof -
  have "case ajax_get_tree_children example_jstree_env example_tree_db (Some ''fw'') ''fw'' None of Inr js \<Rightarrow> js \<noteq> [] | Inl _ \<Rightarrow> False"
    by code_simp
  then obtain js where js: "ajax_get_tree_children example_jstree_env example_tree_db (Some ''fw'') ''fw'' None = Inr js" "js \<noteq> []"
    by (auto split: sum.splits)
  have "is_ok (bindE (generate_file_tree_level example_tree_db ''fw'' (Some ''fw'') None None None) (mapE (convert_to_jstree_node example_jstree_env)))"
    by code_simp
  then obtain js' where js': "bindE (generate_file_tree_level example_tree_db ''fw'' (Some ''fw'') None None None)
      (mapE (convert_to_jstree_node example_jstree_env)) = Inr js'"
    by (auto simp: is_ok_iff)
  have "none_to_none (Some ''fw'') = Some ''fw''"
    by code_simp
  then show ?thesis
    using js js' tree_widget_data_well_formed [of example_jstree_env example_tree_db "Some ''fw''" "''fw''" None] by auto
qed

end
