(* ===== verification/Frontend_Database.thy ===== *)
theory Frontend_Database
  imports Query_Conversion Jstree Yara_Search
begin

text \<open>
  \<^verbatim>\<open>src/src/storage/db_interface_frontend.py\<close>: what the web interface reads from the database, beside the file tree and
  the generic search. Rows come in the order of the tables where the query does not order them.
\<close>

section \<open>Human readable identifiers\<close>

definition get_hid_firmware :: "firmware_entry \<Rightarrow> string" where
  "get_hid_firmware w = fmt (e_vendor w) @ '' '' @ fmt (e_device_name w) @ '' -'' @
     (if e_device_part w = [] then [] else '' '' @ e_device_part w) @ '' '' @ fmt (e_version w) @
     '' ('' @ fmt (e_device_class w) @ '')''"

definition get_hid_fo :: "database \<Rightarrow> string \<Rightarrow> string option \<Rightarrow> string option" where
  "get_hid_fo db u rt = (case filter (\<lambda>ps. ps \<noteq> []) (map snd (get_vfps db u None rt)) of
       (p # _) # _ \<Rightarrow> Some p
     | _ \<Rightarrow> None)"

definition path_or_name :: "string option \<Rightarrow> file_object_entry \<Rightarrow> string option" where
  "path_or_name p e = (case p of Some (c # s) \<Rightarrow> Some (c # s) | _ \<Rightarrow> e_file_name e)"

definition fe_get_hid :: "database \<Rightarrow> string \<Rightarrow> string option \<Rightarrow> string option result" where
  "fe_get_hid db u rt = (case map_of (file_object_table db) u of
       None \<Rightarrow> Inr (Some [])
     | Some e \<Rightarrow>
         if e_is_firmware e then
           (case map_of (firmware_table db) u of None \<Rightarrow> Inl AttributeError | Some w \<Rightarrow> Inr (Some (get_hid_firmware w)))
         else Inr (path_or_name (get_hid_fo db u rt) e))"

definition get_hid_dict :: "database \<Rightarrow> string list \<Rightarrow> string option \<Rightarrow> (string \<times> string option) list result" where
  "get_hid_dict db us rt =
     (let fws = map (\<lambda>(u, w). (u, Some (get_hid_firmware w))) (filter (\<lambda>(u, _). u \<in> set us) (firmware_table db));
          vfp_data = get_vfps_for_uid_list db (filter (\<lambda>u. u \<notin> fst ` set fws) us) rt
      in bindE (mapE (\<lambda>(u, vfp). bindE (get_some_vfp vfp) (\<lambda>p. Inr (u, p))) vfp_data) (\<lambda>ps.
           Inr (fold (\<lambda>(u, p). AList.update u p) ps fws)))"

section \<open>The list of files\<close>

record nice_list_item =
  nl_uid :: string
  nl_size :: "int option"
  nl_file_name :: "string option"
  nl_mime :: pyval
  nl_paths :: "string option list list"

definition nice_list_data :: "nat \<Rightarrow> database \<Rightarrow> string list \<Rightarrow> string option \<Rightarrow> nice_list_item list option" where
  "nice_list_data fuel db us rt =
     map_option (\<lambda>file_tree.
       map (\<lambda>(u, e). \<lparr>nl_uid = u, nl_size = e_size e, nl_file_name = e_file_name e,
           nl_mime = (case map_of (get_mime_types_for_uid_list db us) u of
               None \<Rightarrow> PStr ''file-type-plugin/not-run-yet'' | Some m \<Rightarrow> m),
           nl_paths = (case map_of file_tree u of None \<Rightarrow> [[e_file_name e]] | Some ps \<Rightarrow> map (map Some) ps)\<rparr>)
         (filter (\<lambda>(u, _). u \<in> set us) (file_object_table db)))
       (get_file_tree_path_for_uid_list fuel db us rt)"

text \<open>Joining a path with a part that is \<open>None\<close> raises \<open>TypeError\<close>.\<close>

definition path_text :: "(string \<times> string option) list \<Rightarrow> string option list \<Rightarrow> string result" where
  "path_text hids us =
     bindE (mapE (\<lambda>u. case u of
         None \<Rightarrow> Inl TypeError
       | Some v \<Rightarrow> (case map_of hids v of None \<Rightarrow> Inr v | Some None \<Rightarrow> Inl TypeError | Some (Some h) \<Rightarrow> Inr h)) us)
       (\<lambda>parts. Inr (py_join '' | '' parts))"

definition replace_uids_in_nice_list ::
  "database \<Rightarrow> nice_list_item list \<Rightarrow> string option \<Rightarrow> (nice_list_item \<times> string list) list result" where
  "replace_uids_in_nice_list db items rt =
     (let uids_in_vfp = remdups (List.map_filter id (concat (concat (map nl_paths items))))
      in bindE (get_hid_dict db uids_in_vfp rt) (\<lambda>hids.
           mapE (\<lambda>i. bindE (mapE (path_text hids) (nl_paths i)) (\<lambda>ps. Inr (i, ps))) items))"

definition get_data_for_nice_list ::
  "nat \<Rightarrow> database \<Rightarrow> string list \<Rightarrow> string option \<Rightarrow> (nice_list_item \<times> string list) list result option" where
  "get_data_for_nice_list fuel db us rt =
     map_option (\<lambda>items. replace_uids_in_nice_list db items rt) (nice_list_data fuel db us rt)"

definition fe_get_file_name :: "database \<Rightarrow> string \<Rightarrow> string option" where
  "fe_get_file_name db u = (case map_of (file_object_table db) u of None \<Rightarrow> Some ''unknown'' | Some e \<Rightarrow> e_file_name e)"

section \<open>Values of attributes\<close>

definition get_firmware_attribute_list :: "(firmware_entry \<Rightarrow> string option) \<Rightarrow> database \<Rightarrow> string list" where
  "get_firmware_attribute_list attribute db = sort (remdups (List.map_filter (attribute \<circ> snd) (firmware_table db)))"

definition get_device_class_list :: "database \<Rightarrow> string list" where
  "get_device_class_list = get_firmware_attribute_list e_device_class"

definition get_vendor_list :: "database \<Rightarrow> string list" where
  "get_vendor_list = get_firmware_attribute_list e_vendor"

definition get_tag_list :: "database \<Rightarrow> string list" where
  "get_tag_list db = sort (remdups (concat (map (e_firmware_tags \<circ> snd) (firmware_table db))))"

definition get_device_name_dict ::
  "database \<Rightarrow> (string option \<times> (string option \<times> string option list) list) list" where
  "get_device_name_dict db = fold (\<lambda>(_, w).
     dict_modify (e_device_class w) [] (dict_modify (e_vendor w) [] (\<lambda>names. names @ [e_device_name w]))) (firmware_table db) []"

text \<open>A comparison with \<open>NULL\<close> is never true, one with \<open>None\<close> asks for \<open>NULL\<close>: both are equality of options.\<close>

definition get_other_versions_of_firmware :: "ranks \<Rightarrow> database \<Rightarrow> file_object \<Rightarrow> (string \<times> string option) list" where
  "get_other_versions_of_firmware rank db fo = (case firmware fo of
       None \<Rightarrow> []
     | Some f \<Rightarrow> map (\<lambda>(u, w). (u, e_version w)) (order_asc rank (e_version \<circ> snd)
         (filter (\<lambda>(u, w). e_vendor w = vendor f \<and> e_device_name w = device_name f \<and> e_device_part w = part f \<and> u \<noteq> uid fo)
           (firmware_table db))))"

section \<open>Search results with meta data\<close>

record meta_entry =
  me_uid :: string
  me_hid :: string
  me_tags :: "(pyval \<times> string) list"
  me_submission_date :: timestamp

definition get_unpacker_name :: "database \<Rightarrow> string \<Rightarrow> pyval result" where
  "get_unpacker_name db u = (case get_analysis_entry db u ''unpacker'' of
       None \<Rightarrow> Inr (PStr ''NOP'')
     | Some a \<Rightarrow> if ae_result a = PNone then Inr (PStr ''NOP'') else subscript (ae_result a) ''plugin_used'')"

definition get_meta_for_fw :: "database \<Rightarrow> string \<Rightarrow> firmware_entry \<Rightarrow> meta_entry result" where
  "get_meta_for_fw db u w =
     bindE (get_unpacker_name db u) (\<lambda>unpacker.
       Inr \<lparr>me_uid = u, me_hid = get_hid_firmware w,
         me_tags = AList.update unpacker ''info'' (fold (\<lambda>t. AList.update (PStr t) ''secondary'') (e_firmware_tags w) []),
         me_submission_date = e_submission_date w\<rparr>)"

definition get_fo_root_hid :: "database \<Rightarrow> string \<Rightarrow> string result" where
  "get_fo_root_hid db u = (case filter (\<lambda>(r, f). f = u \<and> map_of (file_object_table db) r \<noteq> None) (fw_files_table db) of
       [] \<Rightarrow> Inr []
     | (r, _) # _ \<Rightarrow> (case map_of (firmware_table db) r of
           None \<Rightarrow> Inl AttributeError
         | Some w \<Rightarrow> Inr (fmt (e_vendor w) @ '' '' @ fmt (e_device_name w) @ '' | '')))"

definition get_meta_for_fo :: "database \<Rightarrow> string \<Rightarrow> file_object_entry \<Rightarrow> meta_entry result" where
  "get_meta_for_fo db u e =
     bindE (get_fo_root_hid db u) (\<lambda>root_hid.
     bindE (get_unpacker_name db u) (\<lambda>unpacker.
       Inr \<lparr>me_uid = u, me_hid = root_hid @ fmt (path_or_name (get_hid_fo db u None) e), me_tags = [(unpacker, ''info'')],
         me_submission_date = 0\<rparr>))"

definition get_meta_for_entry :: "database \<Rightarrow> search_row \<Rightarrow> meta_entry result" where
  "get_meta_for_entry db row = (case row of
       FirmwareRow u w \<Rightarrow> get_meta_for_fw db u w
     | FileRow u e \<Rightarrow>
         if e_is_firmware e then
           (case map_of (firmware_table db) u of None \<Rightarrow> Inl AttributeError | Some w \<Rightarrow> get_meta_for_fw db u w)
         else get_meta_for_fo db u e)"

definition get_last_added_firmwares :: "ranks \<Rightarrow> database \<Rightarrow> nat \<Rightarrow> meta_entry list result" where
  "get_last_added_firmwares rank db limit =
     mapE (\<lambda>(u, w). get_meta_for_fw db u w) (take limit (sort_key (\<lambda>(_, w). - e_submission_date w) (as_found rank (firmware_table db))))"

definition generic_search_meta where
  "generic_search_meta plan ops flt db search_dict skip limit only_fo_parent_firmware inverted =
     (case search_rows plan ops flt db search_dict skip limit only_fo_parent_firmware inverted of
        (r, d') \<Rightarrow> (bindE r (mapE (get_meta_for_entry db)), d'))"

section \<open>Missing and failed analyses\<close>

text \<open>\<open>_query_all_plugins_of_object\<close>: the inner join with the analyses drops objects without any analysis.\<close>

definition query_all_plugins_of_object ::
  "(string \<Rightarrow> file_object_entry \<Rightarrow> bool) \<Rightarrow> database \<Rightarrow> (string \<times> string list) list" where
  "query_all_plugins_of_object P db =
     map (\<lambda>u. (u, map fst (analyses_of db u)))
       (remdups (filter (\<lambda>u. case map_of (file_object_table db) u of None \<Rightarrow> False | Some e \<Rightarrow> P u e)
          (map (fst \<circ> fst) (analysis_table db))))"

definition add_missing :: "string \<Rightarrow> string list \<Rightarrow> string \<times> string list \<Rightarrow> (string \<times> string set) list \<Rightarrow> (string \<times> string set) list" where
  "add_missing fw_uid fw_plugins = (\<lambda>(fo_uid, fo_plugins) missing.
     if set fw_plugins - set fo_plugins \<noteq> {} then dict_modify fw_uid {} (insert fo_uid) missing else missing)"

definition find_missing_analyses :: "database \<Rightarrow> (string \<times> string set) list" where
  "find_missing_analyses db =
     fold (\<lambda>(fw_uid, fw_plugins). fold (add_missing fw_uid fw_plugins)
         (query_all_plugins_of_object (\<lambda>u _. (fw_uid, u) \<in> set (fw_files_table db)) db))
       (query_all_plugins_of_object (\<lambda>_ e. e_is_firmware e) db) []"

text \<open>\<open>has_key\<close> on a JSON document: the keys of an object or the texts in an array\<close>

fun json_has_key :: "pyval \<Rightarrow> string \<Rightarrow> bool" where
  "json_has_key (PDict d) k = (map_of d k \<noteq> None)"
| "json_has_key (PList vs) k = (PStr k \<in> set vs)"
| "json_has_key (PStr s) k = (s = k)"
| "json_has_key _ k = False"

definition find_failed_analyses :: "database \<Rightarrow> (string \<times> string set) list" where
  "find_failed_analyses db = fold (\<lambda>((u, plugin), a) d.
     if json_has_key (ae_result a) ''failed'' then dict_modify plugin {} (insert u) d else d) (analysis_table db) []"

section \<open>The search cache\<close>

definition get_query_from_cache :: "database \<Rightarrow> string \<Rightarrow> search_cache_entry option" where
  "get_query_from_cache db query_id = map_of (search_cache_table db) query_id"

definition get_total_cached_query_count :: "database \<Rightarrow> nat" where
  "get_total_cached_query_count db = length (search_cache_table db)"

text \<open>\<^verbatim>\<open>rule\s+([a-zA-Z_]\w*)\<close>\<close>

definition match_rule_name :: "string \<Rightarrow> (string \<times> string) option" where
  "match_rule_name s =
     (let r1 = drop 4 s; r2 = dropWhile is_space r1
      in if starts_with ''rule'' s \<and> r1 \<noteq> [] \<and> is_space (hd r1) \<and> r2 \<noteq> [] \<and> is_name_start (hd r2)
         then Some (takeWhile is_word_char r2, dropWhile is_word_char r2) else None)"

lemma match_rule_name_shorter: "match_rule_name s = Some (n, r) \<Longrightarrow> length r < length s"
proof -
  assume m: "match_rule_name s = Some (n, r)"
  then have "r = dropWhile is_word_char (dropWhile is_space (drop 4 s))" "drop 4 s \<noteq> []"
    by (auto simp: match_rule_name_def Let_def split: if_splits)
  then show ?thesis
    using length_dropWhile_le [of is_word_char "dropWhile is_space (drop 4 s)"] length_dropWhile_le [of is_space "drop 4 s"]
    by (simp add: not_le)
qed

function findall_rule_names :: "string \<Rightarrow> string list" where
  "findall_rule_names s = (case match_rule_name s of
       Some (n, r) \<Rightarrow> n # findall_rule_names r
     | None \<Rightarrow> (case s of [] \<Rightarrow> [] | _ # t \<Rightarrow> findall_rule_names t))"
  by pat_completeness auto
termination
  by (relation "measure length") (auto dest: match_rule_name_shorter)

declare findall_rule_names.simps [simp del]

text \<open>\<open>.offset(offset).limit(limit)\<close>: a limit of zero returns no rows.\<close>

definition search_query_cache :: "database \<Rightarrow> nat \<Rightarrow> nat \<Rightarrow> (string \<times> string \<times> string list) list" where
  "search_query_cache db offset limit =
     map (\<lambda>(u, c). (u, sc_yara_rule c, findall_rule_names (sc_yara_rule c))) (take limit (drop offset (search_cache_table db)))"

section \<open>Roots and links\<close>

definition get_root_uid :: "database \<Rightarrow> string \<Rightarrow> string" where
  "get_root_uid db u = (case filter (\<lambda>(r, f). f = u \<or> r = u) (fw_files_table db) of
       [] \<Rightarrow> []
     | (r, _) # _ \<Rightarrow> r)"

text \<open>
  Paths as lists of parts: \<open>Path(path).parent / target\<close> and \<open>os.path.normpath\<close>. Paths that start with two slashes are
  treated like those with one.
\<close>

definition path_parts :: "string \<Rightarrow> string list" where
  "path_parts s = filter (\<lambda>x. x \<noteq> [] \<and> x \<noteq> ''.'') (py_split (CHR ''/'') s)"

definition is_absolute :: "string \<Rightarrow> bool" where
  "is_absolute s = starts_with ''/'' s"

definition norm_step :: "bool \<Rightarrow> string \<Rightarrow> string list \<Rightarrow> string list" where
  "norm_step absolute x parts =
     (if x \<noteq> ''..'' then parts @ [x]
      else if parts \<noteq> [] \<and> last parts \<noteq> ''..'' then butlast parts
      else if absolute then parts else parts @ [x])"

definition normpath :: "bool \<Rightarrow> string list \<Rightarrow> string" where
  "normpath absolute parts = path_str (absolute, fold (norm_step absolute) parts [])"

definition resolve_link :: "string \<Rightarrow> string \<Rightarrow> string" where
  "resolve_link path target = normpath (is_absolute path) (butlast (path_parts path) @ path_parts target)"

definition find_link_target :: "database \<Rightarrow> vfp_dict \<Rightarrow> string \<Rightarrow> string \<Rightarrow> string option" where
  "find_link_target db vfp rt target_path =
     (let candidates = (if is_absolute target_path then [target_path]
            else map (\<lambda>path. resolve_link path target_path) (concat (map snd vfp)));
          in_firmware = (\<lambda>p. list_ex (\<lambda>(r, f). r = rt \<and> (p = f \<or> p = rt)) (fw_files_table db))
      in case filter (\<lambda>(p, _, path). in_firmware p \<and> p \<in> fst ` set vfp \<and> path \<in> set candidates) (vfp_table db) of
           [] \<Rightarrow> None
         | (_, f, _) # _ \<Rightarrow> Some f)"

section \<open>Data for the dependency graph\<close>

record dep_graph_data =
  dg_uid :: string
  dg_file_name :: "string option"
  dg_vfps :: "string list option"
  dg_mime :: pyval
  dg_full_type :: pyval
  dg_libraries :: "pyval option"

definition get_elf_analysis_libraries :: "database \<Rightarrow> string set \<Rightarrow> (string \<times> pyval) list result" where
  "get_elf_analysis_libraries db us =
     mapE (\<lambda>((u, _), a). bindE (as_dict (ae_result a)) (\<lambda>d. Inr (u, dict_get d ''libraries'' (PList []))))
       (filter (\<lambda>((u, p), a). p = ''elf_analysis'' \<and> u \<in> us \<and> map_of (file_object_table db) u \<noteq> None \<and> ae_result a \<noteq> PNone)
         (analysis_table db))"

definition get_data_for_dependency_graph :: "database \<Rightarrow> string \<Rightarrow> dep_graph_data list result" where
  "get_data_for_dependency_graph db u =
     bindE (get_object db u None) (\<lambda>fo. case fo of
       None \<Rightarrow> Inr []
     | Some fo \<Rightarrow>
         if files_included fo = {} then Inr []
         else bindE (get_elf_analysis_libraries db (files_included fo)) (\<lambda>libraries.
           Inr (List.map_filter (\<lambda>((v, p), a).
             (case map_of (file_object_table db) v of
                Some e \<Rightarrow> if p = ''file_type'' \<and> v \<in> files_included fo then
                    Some \<lparr>dg_uid = v, dg_file_name = e_file_name e, dg_vfps = map_of (get_vfps_in_parent db u) v,
                      dg_mime = json_item (ae_result a) ''mime'', dg_full_type = json_item (ae_result a) ''full'',
                      dg_libraries = map_of libraries v\<rparr> else None
              | None \<Rightarrow> None)) (analysis_table db))))"

section \<open>Missing analyses are found\<close>

definition plugins_of :: "database \<Rightarrow> string \<Rightarrow> string set" where
  "plugins_of db u = {p. \<exists>a. ((u, p), a) \<in> set (analysis_table db)}"

lemma plugins_of_iff: "set (map fst (analyses_of db u)) = plugins_of db u"
proof -
  have "p \<in> set (map fst (analyses_of db u)) \<longleftrightarrow> p \<in> plugins_of db u" for p
    by (auto simp: analyses_of_def plugins_of_def map_filter_def split: if_splits prod.splits) force
  then show ?thesis
    by blast
qed

lemma plugins_of_ne: "u \<in> set (map (fst \<circ> fst) (analysis_table db)) \<longleftrightarrow> plugins_of db u \<noteq> {}"
  by (force simp: plugins_of_def)

lemma query_all_plugins_iff:
  "(u, ps) \<in> set (query_all_plugins_of_object P db) \<longleftrightarrow>
     ps = map fst (analyses_of db u) \<and> plugins_of db u \<noteq> {} \<and> (\<exists>e. map_of (file_object_table db) u = Some e \<and> P u e)"
  unfolding query_all_plugins_of_object_def set_map [of "\<lambda>u. (u, _ u)"] set_remdups set_filter plugins_of_ne
  by (auto split: option.splits)

definition missing_for :: "(string \<times> string set) list \<Rightarrow> string \<Rightarrow> string set" where
  "missing_for d u = (case map_of d u of None \<Rightarrow> {} | Some s \<Rightarrow> s)"

definition lacking :: "string list \<Rightarrow> (string \<times> string list) list \<Rightarrow> string set" where
  "lacking ws rows = {f. \<exists>fs. (f, fs) \<in> set rows \<and> \<not> set ws \<subseteq> set fs}"

lemma lacking_Cons: "lacking ws ((f, fs) # rows) = (if set ws \<subseteq> set fs then lacking ws rows else insert f (lacking ws rows))"
  by (auto simp: lacking_def)

lemma missing_for_add:
  "missing_for (add_missing w ws (f, fs) d) u =
     (if u = w \<and> \<not> set ws \<subseteq> set fs then insert f (missing_for d u) else missing_for d u)"
  by (auto simp: missing_for_def add_missing_def map_of_dict_modify split: option.splits)

lemma missing_for_fold:
  "missing_for (fold (add_missing w ws) rows d) u = missing_for d u \<union> (if u = w then lacking ws rows else {})"
proof (induction rows arbitrary: d)
  case (Cons row rows)
  then show ?case
    by (cases row) (auto simp: missing_for_add lacking_Cons)
qed (simp add: lacking_def)

lemma missing_for_fold_fold:
  "missing_for (fold (\<lambda>(w, ws). fold (add_missing w ws) (rows w)) fws d) u =
     missing_for d u \<union> (\<Union>ws\<in>{ws. (u, ws) \<in> set fws}. lacking ws (rows u))"
proof (induction fws arbitrary: d)
  case (Cons fw fws)
  then show ?case
    by (cases fw) (auto simp: missing_for_fold)
qed simp

lemma missing_analyses_iff:
  "f \<in> missing_for (find_missing_analyses db) w \<longleftrightarrow>
     (\<exists>e. map_of (file_object_table db) w = Some e \<and> e_is_firmware e) \<and> (w, f) \<in> set (fw_files_table db) \<and>
     map_of (file_object_table db) f \<noteq> None \<and> plugins_of db f \<noteq> {} \<and> \<not> plugins_of db w \<subseteq> plugins_of db f"
proof -
  have "missing_for [] w = {}"
    by (simp add: missing_for_def)
  then show ?thesis
    unfolding find_missing_analyses_def missing_for_fold_fold lacking_def query_all_plugins_iff
    using plugins_of_iff [of db f] plugins_of_iff [of db w] by auto
qed

lemma no_empty_entry:
  assumes "\<forall>u. map_of d u \<noteq> Some {}"
  shows "\<forall>u. map_of (fold (\<lambda>(w, ws). fold (add_missing w ws) (rows w)) fws d) u \<noteq> Some {}"
proof -
  have "\<forall>u. map_of (fold (add_missing w ws) rs d) u \<noteq> Some {}" if "\<forall>u. map_of d u \<noteq> Some {}" for w ws rs d
    using that by (induction rs arbitrary: d) (auto simp: add_missing_def map_of_dict_modify)
  then show ?thesis
    using assms by (induction fws arbitrary: d) auto
qed

text \<open>
  The report of missing analyses lists under a firmware exactly those of its files that were analyzed by some
  plugin but lack the result of a plugin the firmware itself has a result of, and lists no firmware without such
  a file.
\<close>

theorem find_missing_analyses_correct:
  "missing_for (find_missing_analyses db) w =
     {f. (\<exists>e. map_of (file_object_table db) w = Some e \<and> e_is_firmware e) \<and> (w, f) \<in> set (fw_files_table db) \<and>
         map_of (file_object_table db) f \<noteq> None \<and> plugins_of db f \<noteq> {} \<and> \<not> plugins_of db w \<subseteq> plugins_of db f} \<and>
   (map_of (find_missing_analyses db) w = None \<longleftrightarrow> missing_for (find_missing_analyses db) w = {})"
proof -
  have "map_of (find_missing_analyses db) w \<noteq> Some {}"
    unfolding find_missing_analyses_def using no_empty_entry [of "[]"] by simp
  then have "map_of (find_missing_analyses db) w = None \<longleftrightarrow> missing_for (find_missing_analyses db) w = {}"
    by (auto simp: missing_for_def split: option.splits)
  then show ?thesis
    using missing_analyses_iff [of _ db w] by blast
qed

text \<open>A file without any analysis misses all analyses of its firmware, but is not reported.\<close>

lemma unanalyzed_file_not_reported:
  "plugins_of db f = {} \<Longrightarrow> f \<notin> missing_for (find_missing_analyses db) w"
  by (simp add: missing_analyses_iff)

end
