(* ===== verification/Dependency_Graph.thy ===== *)
theory Dependency_Graph
  imports Frontend_Database
begin

text \<open>
  \<^verbatim>\<open>src/src/web_interface/components/dependency_graph.py\<close>: the graph of the libraries and symbolic links of the files
  that were unpacked from one file. The colours of the graph are left out.
\<close>

section \<open>The graph\<close>

record graph_node =
  gn_label :: string
  gn_entity :: string
  gn_group :: pyval
  gn_full_file_type :: pyval
  gn_linked_libraries :: pyval
  gn_elf_analysis_missing :: bool


definition new_graph_node :: "dep_graph_data \<Rightarrow> string \<Rightarrow> graph_node" where
  "new_graph_node entry vpath = \<lparr>gn_label = vpath, gn_entity = dg_uid entry, gn_group = dg_mime entry,
     gn_full_file_type = dg_full_type entry,
     gn_linked_libraries = (case dg_libraries entry of None \<Rightarrow> PList [] | Some l \<Rightarrow> py_or l (PList [])),
     gn_elf_analysis_missing = (dg_libraries entry = None)\<rparr>"

definition create_data_graph_nodes_and_groups ::
  "dep_graph_data list \<Rightarrow> string list \<Rightarrow> graph_node list \<times> string list" where
  "create_data_graph_nodes_and_groups dependency_data whitelist =
     (let shown = filter (\<lambda>entry. dg_mime entry \<in> PStr ` set whitelist \<and> dg_vfps entry \<noteq> None \<and> dg_vfps entry \<noteq> Some [])
            dependency_data
      in (concat (map (\<lambda>entry. map (new_graph_node entry) (the (dg_vfps entry))) shown),
          sort (remdups (filter (\<lambda>m. PStr m \<in> dg_mime ` set shown) whitelist))))"








section \<open>The edges\<close>























end
