(* ===== verification/Cve_Database.thy ===== *)
theory Cve_Database
  imports Entry_Conversion
begin

text \<open>
  \<^verbatim>\<open>src/src/plugins/analysis/cve_lookup/internal\<close>: reading the CVE data (\<open>data_parsing.py\<close>), setting up the database of
  the plugin from them (\<open>database/db_setup.py\<close>, \<open>database/schema.py\<close>) and its queries (\<open>database/db_interface.py\<close>).
  Downloading the data is not modelled; \<open>str\<close> of a score is the parameter \<open>str_of\<close>.
\<close>

section \<open>data_parsing.py\<close>

record cve_entry =
  ce_cve_id :: string
  ce_summary :: string
  ce_impact :: "(string \<times> string) list"
  ce_cpe_entries :: "(string \<times> string \<times> string \<times> string \<times> string) list"

text \<open>
  A value that is used as text. The ids, criteria and version bounds of the feed are strings; the model reports any
  other value here, where the source may carry it along until it is used.
\<close>

fun as_str :: "pyval \<Rightarrow> string result" where
  "as_str (PStr s) = Inr s"
| "as_str _ = Inl AttributeError"

fun extract_english_summary :: "pyval list \<Rightarrow> string result" where
  "extract_english_summary [] = Inr []"
| "extract_english_summary (d # ds) =
     bindE (subscript d ''lang'') (\<lambda>lang.
       if lang = PStr ''en'' then
         bindE (subscript d ''value'') (\<lambda>v. bindE (as_str v) (\<lambda>summary.
           if starts_with ''** REJECT **'' summary then extract_english_summary ds else Inr summary))
       else extract_english_summary ds)"

text \<open>\<open>V30\<close> becomes \<open>V3.0\<close>\<close>

definition impact_key :: "string \<Rightarrow> string" where
  "impact_key cvss_type =
     (let key = py_replace ''cvssMetric'' [] cvss_type
      in case key of
          v # a # b # rest \<Rightarrow>
            if v = CHR ''V'' \<and> is_digit_char a \<and> is_digit_char b then v # a # CHR ''.'' # b # rest else key
        | _ \<Rightarrow> key)"

definition add_score :: "(pyval \<Rightarrow> string) \<Rightarrow> string \<Rightarrow> pyval \<Rightarrow> (string \<times> string) list \<Rightarrow> (string \<times> string) list result" where
  "add_score str_of key cvss impact =
     bindE (subscript cvss ''cvssData'') (\<lambda>data. bindE (subscript data ''baseScore'') (\<lambda>score.
     bindE (subscript cvss ''type'') (\<lambda>t.
       Inr (if t = PStr ''Primary'' \<or> map_of impact key = None then AList.update key (str_of score) impact else impact))))"

definition extract_cve_impact :: "(pyval \<Rightarrow> string) \<Rightarrow> pyval \<Rightarrow> (string \<times> string) list result" where
  "extract_cve_impact str_of metrics =
     bindE (as_dict metrics) (\<lambda>ms.
       foldE (\<lambda>(cvss_type, cvss_data) impact.
         bindE (py_iter cvss_data) (\<lambda>cvsss. foldE (add_score str_of (impact_key cvss_type)) cvsss impact)) ms [])"

text \<open>\<open>d.get(key, default)\<close> on a value\<close>

definition get_list :: "pyval \<Rightarrow> string \<Rightarrow> pyval list result" where
  "get_list v k = bindE (as_dict v) (\<lambda>d. py_iter (dict_get d k (PList [])))"

definition get_text :: "pydict \<Rightarrow> string \<Rightarrow> string result" where
  "get_text d k = as_str (dict_get d k (PStr []))"

type_synonym cpe_tuple = "string \<times> string \<times> string \<times> string \<times> string"

definition add_cpe_match :: "pyval \<Rightarrow> cpe_tuple list \<Rightarrow> cpe_tuple list result" where
  "add_cpe_match cpe entries =
     bindE (as_dict cpe) (\<lambda>d. case map_of d ''criteria'' of
       None \<Rightarrow> Inr entries
     | Some criteria \<Rightarrow>
         bindE (dict_item d ''vulnerable'') (\<lambda>vulnerable.
           if \<not> truthy vulnerable then Inr entries
           else bindE (as_str criteria) (\<lambda>c.
             if c \<in> fst ` set entries then Inr entries
             else bindE (get_text d ''versionStartIncluding'') (\<lambda>si. bindE (get_text d ''versionStartExcluding'') (\<lambda>se.
                  bindE (get_text d ''versionEndIncluding'') (\<lambda>ei. bindE (get_text d ''versionEndExcluding'') (\<lambda>ee.
                    Inr (entries @ [(c, si, se, ei, ee)]))))))))"

definition extract_cpe_data :: "pyval list \<Rightarrow> cpe_tuple list result" where
  "extract_cpe_data configurations =
     foldE (\<lambda>configuration entries. bindE (get_list configuration ''nodes'') (\<lambda>nodes.
       foldE (\<lambda>node entries. bindE (get_list node ''cpeMatch'') (\<lambda>cpes. foldE add_cpe_match cpes entries)) nodes entries))
     configurations []"

definition extract_data_from_cve :: "(pyval \<Rightarrow> string) \<Rightarrow> pyval \<Rightarrow> cve_entry result" where
  "extract_data_from_cve str_of cve_item =
     bindE (subscript cve_item ''id'') (\<lambda>i. bindE (as_str i) (\<lambda>cve_id.
     bindE (subscript cve_item ''descriptions'') (\<lambda>ds. bindE (py_iter ds) (\<lambda>ds. bindE (extract_english_summary ds) (\<lambda>summary.
     bindE (subscript cve_item ''metrics'') (\<lambda>ms. bindE (extract_cve_impact str_of ms) (\<lambda>impact.
     bindE (get_list cve_item ''configurations'') (\<lambda>cs. bindE (extract_cpe_data cs) (\<lambda>cpes.
       Inr \<lparr>ce_cve_id = cve_id, ce_summary = summary, ce_impact = impact, ce_cpe_entries = cpes\<rparr>)))))))))"

section \<open>Tables\<close>

record cve_row =
  cve_year :: string
  cve_summary :: string
  cvss_score :: "(string \<times> string) list"

record cpe_row =
  cpe_vendor :: string
  cpe_product :: string
  cpe_version :: string
  cpe_update :: string

record association =
  version_start_including :: string
  version_start_excluding :: string
  version_end_including :: string
  version_end_excluding :: string

text \<open>The primary key of an association is the pair of the CVE id and the CPE id.\<close>

record cve_db =
  cves_table :: "(string \<times> cve_row) list"
  cpes_table :: "(string \<times> cpe_row) list"
  association_table :: "((string \<times> string) \<times> association) list"

datatype db_object = CveObject string cve_row | CpeObject string cpe_row | AssociationObject "string \<times> string" association

section \<open>db_setup.py\<close>

record db_setup =
  su_db :: cve_db
  existing_cve_ids :: "string set"
  existing_cpe_ids :: "string set"

definition new_db_setup :: db_setup where
  "new_db_setup = \<lparr>su_db = \<lparr>cves_table = [], cpes_table = [], association_table = []\<rparr>, existing_cve_ids = {}, existing_cpe_ids = {}\<rparr>"

definition replace_wildcards :: "string list \<Rightarrow> string list" where
  "replace_wildcards attributes = map (\<lambda>a. if a = ''*'' then ''ANY'' else if a = ''-'' then ''N/A'' else a) attributes"

definition create_cve :: "cve_entry \<Rightarrow> db_object result" where
  "create_cve cve_item = (case py_split (CHR ''-'') (ce_cve_id cve_item) of
       _ # year # _ \<Rightarrow> Inr (CveObject (ce_cve_id cve_item)
         \<lparr>cve_year = year, cve_summary = ce_summary cve_item, cvss_score = ce_impact cve_item\<rparr>)
     | _ \<Rightarrow> Inl IndexError)"

text \<open>
  \<^verbatim>\<open>(?<![\\:]):(?!:)|(?<=\\:):\<close>: a colon that is neither escaped nor next to another colon, or a colon after an escaped
  colon. The first argument holds the characters before, the last one first.
\<close>

fun cpe_split :: "string \<Rightarrow> string \<Rightarrow> string list" where
  "cpe_split before [] = [[]]"
| "cpe_split before (c # s) =
     (let here = c = CHR '':'' \<and>
        ((before = [] \<or> hd before \<noteq> CHR 0x5C \<and> hd before \<noteq> CHR '':'') \<and> (s = [] \<or> hd s \<noteq> CHR '':'')
         \<or> take 2 before = [CHR '':'', CHR 0x5C]);
        rest = cpe_split (c # before) s
      in if here then [] # rest else (c # hd rest) # tl rest)"

definition create_cpe :: "string \<Rightarrow> db_object result" where
  "create_cpe cpe_id = (case replace_wildcards (drop 3 (cpe_split [] cpe_id)) of
       ven # pro # ver # upd # _ \<Rightarrow>
         Inr (CpeObject cpe_id \<lparr>cpe_vendor = ven, cpe_product = pro, cpe_version = ver, cpe_update = upd\<rparr>)
     | _ \<Rightarrow> Inl IndexError)"

fun create_association :: "string \<Rightarrow> cpe_tuple \<Rightarrow> db_object" where
  "create_association cve_id (cpe_id, si, se, ei, ee) = AssociationObject (cve_id, cpe_id)
     \<lparr>version_start_including = si, version_start_excluding = se, version_end_including = ei, version_end_excluding = ee\<rparr>"

text \<open>\<open>_save_objects\<close>: the rows are inserted in order; a primary key that is taken is an \<open>IntegrityError\<close>.\<close>

definition insert_row :: "'k \<Rightarrow> 'r \<Rightarrow> ('k \<times> 'r) list \<Rightarrow> ('k \<times> 'r) list result" where
  "insert_row k r rows = (if k \<in> fst ` set rows then Inl IntegrityError else Inr (rows @ [(k, r)]))"

fun save_object :: "db_object \<Rightarrow> cve_db \<Rightarrow> cve_db result" where
  "save_object (CveObject k r) db = bindE (insert_row k r (cves_table db)) (\<lambda>rows. Inr (db\<lparr>cves_table := rows\<rparr>))"
| "save_object (CpeObject k r) db = bindE (insert_row k r (cpes_table db)) (\<lambda>rows. Inr (db\<lparr>cpes_table := rows\<rparr>))"
| "save_object (AssociationObject k r) db =
     bindE (insert_row k r (association_table db)) (\<lambda>rows. Inr (db\<lparr>association_table := rows\<rparr>))"

definition save_objects :: "db_object list \<Rightarrow> db_setup \<Rightarrow> db_setup result" where
  "save_objects objects s = bindE (foldE save_object objects (su_db s)) (\<lambda>db. Inr (s\<lparr>su_db := db\<rparr>))"

definition create_cpe_objects :: "string \<Rightarrow> cpe_tuple \<Rightarrow> db_object list \<times> db_setup \<Rightarrow> (db_object list \<times> db_setup) result" where
  "create_cpe_objects cve_id cpe_entry = (\<lambda>(objects, s).
     if fst cpe_entry \<notin> existing_cpe_ids s then
       bindE (create_cpe (fst cpe_entry)) (\<lambda>cpe.
         Inr (objects @ [cpe, create_association cve_id cpe_entry], s\<lparr>existing_cpe_ids := insert (fst cpe_entry) (existing_cpe_ids s)\<rparr>))
     else Inr (objects @ [create_association cve_id cpe_entry], s))"

definition create_db_objects_for_cve :: "cve_entry \<Rightarrow> db_object list \<times> db_setup \<Rightarrow> (db_object list \<times> db_setup) result" where
  "create_db_objects_for_cve cve_item = (\<lambda>(objects, s).
     bindE (create_cve cve_item) (\<lambda>cve.
     bindE (foldE (create_cpe_objects (ce_cve_id cve_item)) (ce_cpe_entries cve_item) (objects @ [cve], s)) (\<lambda>(objects', s').
       Inr (objects', s'\<lparr>existing_cve_ids := insert (ce_cve_id cve_item) (existing_cve_ids s')\<rparr>))))"

definition add_cve_item :: "nat \<Rightarrow> cve_entry \<Rightarrow> db_object list \<times> db_setup \<Rightarrow> (db_object list \<times> db_setup) result" where
  "add_cve_item chunk_size cve_item = (\<lambda>(db_objects, s).
     if ce_cve_id cve_item \<in> existing_cve_ids s then Inr (db_objects, s)
     else bindE (create_db_objects_for_cve cve_item (db_objects, s)) (\<lambda>(db_objects', s').
       if length db_objects' \<ge> chunk_size then bindE (save_objects db_objects' s') (\<lambda>s'. Inr ([], s'))
       else Inr (db_objects', s')))"

text \<open>The entries come from a generator that parses one item at a time and may raise.\<close>

definition add_cve_items :: "nat \<Rightarrow> cve_entry result list \<Rightarrow> db_setup \<Rightarrow> db_setup result" where
  "add_cve_items chunk_size cve_list s =
     bindE (foldE (\<lambda>next_item st. bindE next_item (\<lambda>cve_item. add_cve_item chunk_size cve_item st)) cve_list ([], s))
       (\<lambda>(db_objects, s'). if db_objects \<noteq> [] then save_objects db_objects s' else Inr s')"

text \<open>\<open>install_files\<close>: the tables are dropped and made anew, then filled with the parsed data.\<close>

definition install_files :: "(pyval \<Rightarrow> string) \<Rightarrow> nat \<Rightarrow> pyval list \<Rightarrow> db_setup result" where
  "install_files str_of chunk_size cve_items =
     add_cve_items chunk_size (map (extract_data_from_cve str_of) cve_items) new_db_setup"

section \<open>db_interface.py\<close>

text \<open>The keys of the tables are unique, so the dictionaries are parts of the tables.\<close>

definition match_cpes :: "cve_db \<Rightarrow> string list \<Rightarrow> (string \<times> cpe_row) list" where
  "match_cpes db products = filter (\<lambda>(_, cpe). cpe_product cpe \<in> set products) (cpes_table db)"

definition get_associations :: "cve_db \<Rightarrow> string list \<Rightarrow> (string \<times> ((string \<times> string) \<times> association) list) list" where
  "get_associations db cpe_ids =
     fold (\<lambda>((cve, cpe), a). dict_modify cpe [] (\<lambda>as. as @ [((cve, cpe), a)]))
       (filter (\<lambda>((_, cpe), _). cpe \<in> set cpe_ids) (association_table db)) []"

definition get_cves :: "cve_db \<Rightarrow> string list \<Rightarrow> (string \<times> cve_row) list" where
  "get_cves db cve_ids = filter (\<lambda>(i, _). i \<in> set cve_ids) (cves_table db)"

section \<open>The parsed entries\<close>

lemma add_cpe_match_distinct:
  "add_cpe_match cpe entries = Inr entries' \<Longrightarrow> distinct (map fst entries) \<Longrightarrow> distinct (map fst entries')"
  by (auto simp: add_cpe_match_def result_simps split: option.splits if_splits)

text \<open>A CPE name is listed once.\<close>

lemma extract_cpe_data_distinct:
  assumes "extract_cpe_data configurations = Inr entries"
  shows "distinct (map fst entries)"
proof -
  let ?ok = "\<lambda>entries :: cpe_tuple list. distinct (map fst entries)"
  have matches: "?ok es'" if "foldE add_cpe_match cpes es = Inr es'" "?ok es" for cpes es es'
    using that by (rule foldE_invariant [where P = ?ok]) (rule add_cpe_match_distinct)
  have nodes: "?ok es'" if run: "foldE (\<lambda>node entries. bindE (get_list node ''cpeMatch'')
      (\<lambda>cpes. foldE add_cpe_match cpes entries)) nodes es = Inr es'" and start: "?ok es" for nodes es es'
    using run start by (rule foldE_invariant [where P = ?ok]) (auto simp: result_simps intro: matches)
  show ?thesis
    using assms unfolding extract_cpe_data_def
    by (rule foldE_invariant [where P = ?ok]) (auto simp: result_simps intro: nodes)
qed

lemma parsed_entry_distinct:
  "extract_data_from_cve str_of item = Inr e \<Longrightarrow> distinct (map fst (ce_cpe_entries e))"
  by (auto simp: extract_data_from_cve_def result_simps dest: extract_cpe_data_distinct)

section \<open>The tables that the entries describe\<close>

text \<open>The elements whose key is new\<close>

fun firsts :: "('a \<Rightarrow> 'k) \<Rightarrow> 'k set \<Rightarrow> 'a list \<Rightarrow> 'a list" where
  "firsts f seen [] = []"
| "firsts f seen (x # xs) = (if f x \<in> seen then firsts f seen xs else x # firsts f (insert (f x) seen) xs)"

lemma firsts_append: "firsts f seen (xs @ ys) = firsts f seen xs @ firsts f (seen \<union> f ` set xs) ys"
  by (induction xs arbitrary: seen) (auto simp: insert_absorb)

lemma keys_firsts: "f ` set (firsts f seen xs) = f ` set xs - seen"
  by (induction xs arbitrary: seen) auto

lemma distinct_firsts: "distinct (map f (firsts f seen xs))"
proof (induction xs arbitrary: seen)
  case (Cons x xs)
  then show ?case
    using keys_firsts [of f "insert (f x) seen" xs] by auto
qed simp

lemma set_firsts: "set (firsts f seen xs) \<subseteq> set xs"
  by (induction xs arbitrary: seen) (auto dest: subsetD)

text \<open>The rows of a CVE and of a CPE, where their names have enough parts\<close>

definition row_of_cve :: "cve_entry \<Rightarrow> cve_row" where
  "row_of_cve e = \<lparr>cve_year = py_split (CHR ''-'') (ce_cve_id e) ! 1, cve_summary = ce_summary e, cvss_score = ce_impact e\<rparr>"

definition row_of_cpe :: "string \<Rightarrow> cpe_row" where
  "row_of_cpe cpe_id = (let parts = replace_wildcards (drop 3 (cpe_split [] cpe_id))
     in \<lparr>cpe_vendor = parts ! 0, cpe_product = parts ! 1, cpe_version = parts ! 2, cpe_update = parts ! 3\<rparr>)"

fun bounds_of :: "cpe_tuple \<Rightarrow> association" where
  "bounds_of (c, si, se, ei, ee) =
     \<lparr>version_start_including = si, version_start_excluding = se, version_end_including = ei, version_end_excluding = ee\<rparr>"

definition well_formed_entry :: "cve_entry \<Rightarrow> bool" where
  "well_formed_entry e \<longleftrightarrow> 2 \<le> length (py_split (CHR ''-'') (ce_cve_id e)) \<and>
     (\<forall>c\<in>set (ce_cpe_entries e). 7 \<le> length (cpe_split [] (fst c)))"

definition cve_rows :: "cve_entry list \<Rightarrow> (string \<times> cve_row) list" where
  "cve_rows es = map (\<lambda>e. (ce_cve_id e, row_of_cve e)) es"

definition cpe_names :: "cve_entry list \<Rightarrow> string list" where
  "cpe_names es = concat (map (\<lambda>e. map fst (ce_cpe_entries e)) es)"

definition cpe_rows :: "string list \<Rightarrow> (string \<times> cpe_row) list" where
  "cpe_rows names = map (\<lambda>c. (c, row_of_cpe c)) names"

definition association_rows :: "cve_entry list \<Rightarrow> ((string \<times> string) \<times> association) list" where
  "association_rows es = concat (map (\<lambda>e. map (\<lambda>c. ((ce_cve_id e, fst c), bounds_of c)) (ce_cpe_entries e)) es)"

text \<open>The first entry of every CVE counts, a CPE has one row.\<close>

definition described_db :: "cve_entry list \<Rightarrow> cve_db" where
  "described_db entries = (let es = firsts ce_cve_id {} entries in
     \<lparr>cves_table = cve_rows es, cpes_table = cpe_rows (firsts id {} (cpe_names es)), association_table = association_rows es\<rparr>)"

section \<open>Filling the tables\<close>

lemma create_cve_row: "2 \<le> length (py_split (CHR ''-'') (ce_cve_id e)) \<Longrightarrow> create_cve e = Inr (CveObject (ce_cve_id e) (row_of_cve e))"
  by (auto simp: create_cve_def row_of_cve_def split: list.splits)

lemma create_cpe_row:
  assumes "7 \<le> length (cpe_split [] c)"
  shows "create_cpe c = Inr (CpeObject c (row_of_cpe c))"
proof -
  let ?ps = "replace_wildcards (drop 3 (cpe_split [] c))"
  have "4 \<le> length ?ps"
    using assms by (simp add: replace_wildcards_def)
  then obtain a b d e rest where "?ps = a # b # d # e # rest"
    by (metis Suc_le_length_iff numeral_eq_Suc pred_numeral_simps(2) pred_numeral_simps(3) BitM.simps(1,2))
  then show ?thesis
    by (simp add: create_cpe_def row_of_cpe_def)
qed

lemma create_association_row: "create_association i c = AssociationObject (i, fst c) (bounds_of c)"
  by (cases c) simp

text \<open>The objects of the CPE entries of a CVE\<close>

fun cpe_objects :: "string \<Rightarrow> string set \<Rightarrow> cpe_tuple list \<Rightarrow> db_object list" where
  "cpe_objects i seen [] = []"
| "cpe_objects i seen (c # cs) =
     (if fst c \<in> seen then [] else [CpeObject (fst c) (row_of_cpe (fst c))]) @
     AssociationObject (i, fst c) (bounds_of c) # cpe_objects i (insert (fst c) seen) cs"

lemma create_cpe_objects_run:
  assumes "\<forall>c\<in>set cs. 7 \<le> length (cpe_split [] (fst c))"
  shows "foldE (create_cpe_objects i) cs (objs, s) =
    Inr (objs @ cpe_objects i (existing_cpe_ids s) cs, s\<lparr>existing_cpe_ids := existing_cpe_ids s \<union> fst ` set cs\<rparr>)"
  using assms
  by (induction cs arbitrary: objs s)
    (auto simp: create_cpe_objects_def create_cpe_row create_association_row insert_absorb)

definition cve_objects :: "string set \<Rightarrow> cve_entry \<Rightarrow> db_object list" where
  "cve_objects seen e = CveObject (ce_cve_id e) (row_of_cve e) # cpe_objects (ce_cve_id e) seen (ce_cpe_entries e)"

lemma create_db_objects_run:
  assumes "well_formed_entry e"
  shows "create_db_objects_for_cve e (objs, s) = Inr (objs @ cve_objects (existing_cpe_ids s) e,
    s\<lparr>existing_cpe_ids := existing_cpe_ids s \<union> fst ` set (ce_cpe_entries e), existing_cve_ids := insert (ce_cve_id e) (existing_cve_ids s)\<rparr>)"
  using assms
  by (simp add: create_db_objects_for_cve_def well_formed_entry_def create_cve_row create_cpe_objects_run cve_objects_def)

text \<open>Saving them adds the rows; no key is taken.\<close>

lemma save_cpe_objects:
  assumes "distinct (map fst cs)" "fst ` set (cpes_table db) = seen" "\<forall>c\<in>set cs. (i, fst c) \<notin> fst ` set (association_table db)"
  shows "foldE save_object (cpe_objects i seen cs) db =
    Inr (db\<lparr>cpes_table := cpes_table db @ cpe_rows (firsts id seen (map fst cs)),
            association_table := association_table db @ map (\<lambda>c. ((i, fst c), bounds_of c)) cs\<rparr>)"
  using assms
proof (induction cs arbitrary: db seen)
  case (Cons c cs)
  let ?db1 = "if fst c \<in> seen then db else db\<lparr>cpes_table := cpes_table db @ [(fst c, row_of_cpe (fst c))]\<rparr>"
  let ?db = "?db1\<lparr>association_table := association_table db @ [((i, fst c), bounds_of c)]\<rparr>"
  have first: "foldE save_object (cpe_objects i seen (c # cs)) db =
      foldE save_object (cpe_objects i (insert (fst c) seen) cs) ?db"
    using Cons.prems by (auto simp: insert_row_def)
  have rest: "foldE save_object (cpe_objects i (insert (fst c) seen) cs) ?db =
    Inr (?db\<lparr>cpes_table := cpes_table ?db @ cpe_rows (firsts id (insert (fst c) seen) (map fst cs)),
            association_table := association_table ?db @ map (\<lambda>c. ((i, fst c), bounds_of c)) cs\<rparr>)"
    by (rule Cons.IH) (use Cons.prems in \<open>auto simp: insert_absorb rev_image_eqI\<close>)
  show ?case
    unfolding first rest by (simp add: cpe_rows_def insert_absorb id_def)
qed (simp add: cpe_rows_def)

lemma keys_association_rows: "fst ` set (association_rows es) = {(ce_cve_id e, fst c) |e c. e \<in> set es \<and> c \<in> set (ce_cpe_entries e)}"
  by (force simp: association_rows_def)

lemma keys_described_db:
  "fst ` set (cves_table (described_db es)) = ce_cve_id ` set es"
  "fst ` set (cpes_table (described_db es)) = set (cpe_names (firsts ce_cve_id {} es))"
  "fst ` set (association_table (described_db es)) =
     {(ce_cve_id e, fst c) |e c. e \<in> set (firsts ce_cve_id {} es) \<and> c \<in> set (ce_cpe_entries e)}"
  using keys_firsts [of ce_cve_id "{}" es] keys_firsts [of id "{}" "cpe_names (firsts ce_cve_id {} es)"]
  by (simp_all add: described_db_def Let_def cve_rows_def cpe_rows_def image_image keys_association_rows)

lemma described_db_again: "ce_cve_id e \<in> ce_cve_id ` set es \<Longrightarrow> described_db (es @ [e]) = described_db es"
  by (simp add: described_db_def firsts_append)

lemma save_cve_objects:
  assumes new: "ce_cve_id e \<notin> ce_cve_id ` set es" and "distinct (map fst (ce_cpe_entries e))"
  shows "foldE save_object (cve_objects (set (cpe_names (firsts ce_cve_id {} es))) e) (described_db es) = Inr (described_db (es @ [e]))"
proof -
  let ?db = "(described_db es)\<lparr>cves_table := cves_table (described_db es) @ [(ce_cve_id e, row_of_cve e)]\<rparr>"
  let ?seen = "set (cpe_names (firsts ce_cve_id {} es))"
  have absent: "\<forall>c\<in>set (ce_cpe_entries e). (ce_cve_id e, fst c) \<notin> fst ` set (association_table ?db)"
    using new set_firsts [of ce_cve_id "{}" es] by (auto simp: keys_described_db)
  have "foldE save_object (cve_objects ?seen e) (described_db es) =
      foldE save_object (cpe_objects (ce_cve_id e) ?seen (ce_cpe_entries e)) ?db"
    using new by (simp add: cve_objects_def insert_row_def keys_described_db)
  also have "\<dots> = Inr (?db\<lparr>cpes_table := cpes_table ?db @ cpe_rows (firsts id ?seen (map fst (ce_cpe_entries e))),
      association_table := association_table ?db @ map (\<lambda>c. ((ce_cve_id e, fst c), bounds_of c)) (ce_cpe_entries e)\<rparr>)"
    by (rule save_cpe_objects [OF assms(2) _ absent]) (simp add: keys_described_db)
  also have "\<dots> = Inr (described_db (es @ [e]))"
    using new
    by (simp add: described_db_def Let_def firsts_append cve_rows_def cpe_rows_def cpe_names_def association_rows_def)
  finally show ?thesis .
qed

text \<open>
  Between two items, the tables together with the pending objects are those that the items so far describe, whatever
  has been saved.
\<close>

definition setup_inv :: "cve_entry list \<Rightarrow> db_object list \<times> db_setup \<Rightarrow> bool" where
  "setup_inv es = (\<lambda>(objs, s). foldE save_object objs (su_db s) = Inr (described_db es) \<and>
     existing_cve_ids s = ce_cve_id ` set es \<and> existing_cpe_ids s = set (cpe_names (firsts ce_cve_id {} es)))"

lemma add_cve_item_step:
  assumes inv: "setup_inv es (objs, s)" and e: "well_formed_entry e" "distinct (map fst (ce_cpe_entries e))"
  shows "\<exists>st. add_cve_item n e (objs, s) = Inr st \<and> setup_inv (es @ [e]) st"
proof (cases "ce_cve_id e \<in> existing_cve_ids s")
  case True
  then show ?thesis
    using inv described_db_again [of e es]
    by (auto simp: add_cve_item_def setup_inv_def firsts_append)
next
  case False
  let ?objs = "objs @ cve_objects (existing_cpe_ids s) e"
  let ?s = "s\<lparr>existing_cpe_ids := existing_cpe_ids s \<union> fst ` set (ce_cpe_entries e),
    existing_cve_ids := insert (ce_cve_id e) (existing_cve_ids s)\<rparr>"
  have new: "ce_cve_id e \<notin> ce_cve_id ` set es"
    using False inv by (simp add: setup_inv_def)
  have saved: "foldE save_object ?objs (su_db s) = Inr (described_db (es @ [e]))"
    using inv save_cve_objects [OF new e(2)] by (simp add: setup_inv_def foldE_append)
  have ids: "existing_cve_ids ?s = ce_cve_id ` set (es @ [e])"
      "existing_cpe_ids ?s = set (cpe_names (firsts ce_cve_id {} (es @ [e])))"
    using inv new by (simp_all add: setup_inv_def firsts_append cpe_names_def)
  have "add_cve_item n e (objs, s) =
      (if length ?objs \<ge> n then bindE (save_objects ?objs ?s) (\<lambda>s'. Inr ([], s')) else Inr (?objs, ?s))"
    using False create_db_objects_run [OF e(1), of objs s] by (simp add: add_cve_item_def)
  then show ?thesis
    using saved ids by (auto simp: save_objects_def setup_inv_def)
qed

lemma add_cve_items_loop:
  assumes "\<forall>e\<in>set entries. well_formed_entry e \<and> distinct (map fst (ce_cpe_entries e))" "setup_inv es st"
  shows "\<exists>st'. foldE (\<lambda>next_item st. bindE next_item (\<lambda>e. add_cve_item n e st)) (map Inr entries) st = Inr st' \<and>
    setup_inv (es @ entries) st'"
  using assms
proof (induction entries arbitrary: es st)
  case (Cons e entries)
  obtain objs s where st: "st = (objs, s)"
    by (cases st)
  obtain st1 where st1: "add_cve_item n e st = Inr st1" "setup_inv (es @ [e]) st1"
    using add_cve_item_step [of es objs s e n] Cons.prems by (auto simp: st)
  show ?case
    using Cons.IH [OF _ st1(2)] Cons.prems st1(1) by auto
qed simp

lemma add_cve_items_described:
  assumes "\<forall>e\<in>set entries. well_formed_entry e \<and> distinct (map fst (ce_cpe_entries e))"
  shows "\<exists>s. add_cve_items n (map Inr entries) new_db_setup = Inr s \<and> su_db s = described_db entries"
proof -
  have "setup_inv [] ([], new_db_setup)"
    by (simp add: setup_inv_def new_db_setup_def described_db_def cve_rows_def cpe_names_def cpe_rows_def association_rows_def)
  then obtain objs s where st: "foldE (\<lambda>next_item st. bindE next_item (\<lambda>e. add_cve_item n e st)) (map Inr entries) ([], new_db_setup) = Inr (objs, s)"
      "setup_inv entries (objs, s)"
    using add_cve_items_loop [OF assms, of "[]" "([], new_db_setup)" n] by auto
  then show ?thesis
    by (auto simp: add_cve_items_def setup_inv_def save_objects_def)
qed

text \<open>What the tables promise to the queries\<close>

definition cve_db_ok :: "cve_db \<Rightarrow> bool" where
  "cve_db_ok db \<longleftrightarrow> distinct (map fst (cves_table db)) \<and> distinct (map fst (cpes_table db)) \<and> distinct (map fst (association_table db)) \<and>
     (\<forall>k\<in>fst ` set (association_table db). fst k \<in> fst ` set (cves_table db) \<and> snd k \<in> fst ` set (cpes_table db))"

lemma distinct_association_rows:
  assumes "distinct (map ce_cve_id es)" "\<forall>e\<in>set es. distinct (map fst (ce_cpe_entries e))"
  shows "distinct (map fst (association_rows es))"
  using assms
proof (induction es)
  case (Cons e es)
  have "distinct (map (\<lambda>c. (ce_cve_id e, fst c)) (ce_cpe_entries e))"
    using Cons.prems(2) by (auto simp: distinct_map inj_on_def)
  moreover have "fst ` set (association_rows es) \<inter> (\<lambda>c. (ce_cve_id e, fst c)) ` set (ce_cpe_entries e) = {}"
    using Cons.prems(1) by (auto simp: keys_association_rows)
  ultimately show ?case
    using Cons by (simp add: association_rows_def comp_def image_image Int_commute)
qed (simp add: association_rows_def)

lemma described_db_ok:
  assumes "\<forall>e\<in>set entries. distinct (map fst (ce_cpe_entries e))"
  shows "cve_db_ok (described_db entries)"
proof -
  let ?es = "firsts ce_cve_id {} entries"
  have "distinct (map fst (association_rows ?es))"
    using assms set_firsts [of ce_cve_id "{}" entries] by (intro distinct_association_rows distinct_firsts) blast
  moreover have "distinct (map fst (cpe_rows (firsts id {} (cpe_names ?es))))"
    using distinct_firsts [of id "{}" "cpe_names ?es"] by (simp add: cpe_rows_def comp_def)
  moreover have "distinct (map fst (cve_rows ?es))"
    using distinct_firsts [of ce_cve_id "{}" entries] by (simp add: cve_rows_def comp_def)
  moreover have "fst k \<in> fst ` set (cves_table (described_db entries)) \<and> snd k \<in> fst ` set (cpes_table (described_db entries))"
    if assoc: "k \<in> fst ` set (association_table (described_db entries))" for k
  proof -
    obtain e c where k: "k = (ce_cve_id e, fst c)" "e \<in> set ?es" "c \<in> set (ce_cpe_entries e)"
      using assoc unfolding keys_described_db by blast
    then have "fst c \<in> set (cpe_names ?es)"
      by (auto simp: cpe_names_def)
    then show ?thesis
      using k set_firsts [of ce_cve_id "{}" entries] unfolding keys_described_db by auto
  qed
  ultimately show ?thesis
    by (simp add: cve_db_ok_def described_db_def Let_def)
qed

section \<open>The database of an installation\<close>

lemma parsed_entries:
  assumes "mapE (extract_data_from_cve str_of) cve_items = Inr entries"
  shows "map (extract_data_from_cve str_of) cve_items = map Inr entries" "\<forall>e\<in>set entries. distinct (map fst (ce_cpe_entries e))"
proof -
  have parsed: "list_all2 (\<lambda>item e. extract_data_from_cve str_of item = Inr e) cve_items entries"
    using assms by (simp add: mapE_Inr_iff)
  then show "map (extract_data_from_cve str_of) cve_items = map Inr entries"
    by (induction rule: list_all2_induct) simp_all
  show "\<forall>e\<in>set entries. distinct (map fst (ce_cpe_entries e))"
    using parsed by (induction rule: list_all2_induct) (auto dest: parsed_entry_distinct)
qed

lemma installed_db:
  assumes "mapE (extract_data_from_cve str_of) cve_items = Inr entries" "\<forall>e\<in>set entries. well_formed_entry e"
  shows "\<exists>s. install_files str_of chunk_size cve_items = Inr s \<and> su_db s = described_db entries \<and> cve_db_ok (su_db s)"
proof -
  note parsed = parsed_entries [OF assms(1)]
  have "\<forall>e\<in>set entries. well_formed_entry e \<and> distinct (map fst (ce_cpe_entries e))"
    using assms(2) parsed(2) by simp
  then obtain s where "add_cve_items chunk_size (map Inr entries) new_db_setup = Inr s" "su_db s = described_db entries"
    using add_cve_items_described by blast
  then show ?thesis
    using described_db_ok [OF parsed(2)] by (simp add: install_files_def parsed(1))
qed

text \<open>
  C33. Installing the CVE database: when every item of the feed can be read and the CVE ids and CPE names have the parts
  that the tables need, the installation succeeds for every chunk size, no primary key is used twice, the tables are
  exactly those the first entry of every CVE describes, and every association refers to a CVE and a CPE that are there.
\<close>

theorem cve_installation_correct:
  assumes "mapE (extract_data_from_cve str_of) cve_items = Inr entries" "\<forall>e\<in>set entries. well_formed_entry e"
  shows "\<exists>s. install_files str_of chunk_size cve_items = Inr s \<and> su_db s = described_db entries \<and> cve_db_ok (su_db s)"
  using assms by (rule installed_db)

text \<open>Two items that share a CPE, the second item twice\<close>

definition sample_match :: "string \<Rightarrow> pydict \<Rightarrow> pyval" where
  "sample_match name bounds = PDict ([(''vulnerable'', PBool True), (''criteria'', PStr name)] @ bounds)"

definition sample_item :: "string \<Rightarrow> pyval list \<Rightarrow> pyval" where
  "sample_item i cpes = PDict [(''id'', PStr i),
     (''descriptions'', PList [PDict [(''lang'', PStr ''en''), (''value'', PStr ''overflow'')]]),
     (''metrics'', PDict [(''cvssMetricV31'', PList [PDict [(''type'', PStr ''Primary''), (''cvssData'', PDict [(''baseScore'', PStr ''9.8'')])]])]),
     (''configurations'', PList [PDict [(''nodes'', PList [PDict [(''cpeMatch'', PList cpes)]])]])]"

definition sample_items :: "pyval list" where
  "sample_items =
     [sample_item ''CVE-2021-1'' [sample_match ''cpe:2.3:a:v:tool:*:*'' [(''versionEndExcluding'', PStr ''1.2'')],
                                 sample_match ''cpe:2.3:a:v:lib:1.0:-'' []],
      sample_item ''CVE-2022-7'' [sample_match ''cpe:2.3:a:v:tool:*:*'' [(''versionStartIncluding'', PStr ''2.0'')]],
      sample_item ''CVE-2022-7'' []]"

definition sample_str :: "pyval \<Rightarrow> string" where
  "sample_str v = (case v of PStr s \<Rightarrow> s | _ \<Rightarrow> [])"

definition sample_entries :: "cve_entry list" where
  "sample_entries =
     [\<lparr>ce_cve_id = ''CVE-2021-1'', ce_summary = ''overflow'', ce_impact = [(''V3.1'', ''9.8'')],
       ce_cpe_entries = [(''cpe:2.3:a:v:tool:*:*'', [], [], [], ''1.2''), (''cpe:2.3:a:v:lib:1.0:-'', [], [], [], [])]\<rparr>,
      \<lparr>ce_cve_id = ''CVE-2022-7'', ce_summary = ''overflow'', ce_impact = [(''V3.1'', ''9.8'')],
       ce_cpe_entries = [(''cpe:2.3:a:v:tool:*:*'', ''2.0'', [], [], [])]\<rparr>,
      \<lparr>ce_cve_id = ''CVE-2022-7'', ce_summary = ''overflow'', ce_impact = [(''V3.1'', ''9.8'')], ce_cpe_entries = []\<rparr>]"

lemma sample_entries_parsed: "mapE (extract_data_from_cve sample_str) sample_items = Inr sample_entries"
  by code_simp

theorem cve_installation_correct_witness:
  "\<exists>s. install_files sample_str 2 sample_items = Inr s \<and> su_db s = described_db sample_entries \<and> cve_db_ok (su_db s)"
proof (rule cve_installation_correct)
  show "mapE (extract_data_from_cve sample_str) sample_items = Inr sample_entries"
    by (rule sample_entries_parsed)
  show "\<forall>e\<in>set sample_entries. well_formed_entry e"
    by code_simp
qed

text \<open>
  A CVE that affects two version ranges of a product lists the same CPE name twice; only the first range is kept, so a
  version in the second range is not reported.
\<close>

lemma second_version_range_dropped:
  "extract_cpe_data [PDict [(''nodes'', PList [PDict [(''cpeMatch'', PList
      [sample_match ''cpe:2.3:a:v:tool:*:*'' [(''versionEndExcluding'', PStr ''1.2'')],
       sample_match ''cpe:2.3:a:v:tool:*:*'' [(''versionStartIncluding'', PStr ''2.0''), (''versionEndExcluding'', PStr ''2.4'')]])]])]]
   = Inr [(''cpe:2.3:a:v:tool:*:*'', [], [], [], ''1.2'')]"
  by code_simp

end
