(* ===== verification/Busybox_Filter.thy ===== *)
theory Busybox_Filter
  imports Cve_Database
begin

text \<open>
  \<^verbatim>\<open>src/src/plugins/analysis/cve_lookup/internal/busybox_cve_filter.py\<close>: which tools a BusyBox binary has, and
  which CVEs are about them. The word lists of \<open>group_1.txt\<close> and \<open>group_2.txt\<close> are parameters, as is the content of the file.
\<close>

section \<open>The tools of a binary\<close>

definition NUL_BYTE :: char where
  "NUL_BYTE = CHR 0x00"

definition START_TOOLS :: "string list" where
  "START_TOOLS = [''['', ''[['', ''acping'', ''addgroup'', ''adduser'', ''adjtimex'', ''ar'', ''arp'', ''arping'', ''ash'',
     ''awk'', ''basename'', ''busybox'', ''cat'', ''df'']"

text \<open>
  \<open>TOOLS_START_OFFSET_REGEX\<close>: two of the names, each followed by one to seven zero bytes. A name does not start with a
  zero byte, so there are no more than seven of them between the two.
\<close>

definition after_start_tool :: "string \<Rightarrow> string option" where
  "after_start_tool bs = (case filter (\<lambda>n. starts_with (n @ [NUL_BYTE]) bs) START_TOOLS of
       [] \<Rightarrow> None
     | n # _ \<Rightarrow> Some (drop (length n) bs))"

definition tools_start_here :: "string \<Rightarrow> bool" where
  "tools_start_here bs = (case after_start_tool bs of
       None \<Rightarrow> False
     | Some rest \<Rightarrow>
         length (takeWhile (\<lambda>c. c = NUL_BYTE) rest) \<le> 7 \<and> after_start_tool (dropWhile (\<lambda>c. c = NUL_BYTE) rest) \<noteq> None)"

fun tools_start_offset :: "string \<Rightarrow> nat option" where
  "tools_start_offset [] = None"
| "tools_start_offset (c # bs) = (if tools_start_here (c # bs) then Some 0 else map_option Suc (tools_start_offset bs))"

definition is_tool_char :: "char \<Rightarrow> bool" where
  "is_tool_char c \<longleftrightarrow> is_ident_char c \<or> c \<in> set ''[.-''"

text \<open>\<open>TOOL_NAME_REGEX\<close> at the start of the text: the longest sequence of names with their zero bytes; empty if there is none\<close>

function tool_name_match :: "string \<Rightarrow> string" where
  "tool_name_match bs =
     (let name = takeWhile is_tool_char bs; nuls = take 7 (takeWhile (\<lambda>c. c = NUL_BYTE) (drop (length name) bs))
      in if name = [] \<or> nuls = [] then []
         else name @ nuls @ tool_name_match (drop (length name + length nuls) bs))"
  by pat_completeness auto
termination
proof (relation "measure length")
  fix bs name nuls
  assume name: "name = takeWhile is_tool_char bs" and nonempty: "\<not> (name = [] \<or> nuls = [])"
  then have "bs \<noteq> []" "0 < length name"
    by auto
  then show "(drop (length name + length nuls) bs, bs) \<in> measure length"
    by simp
qed simp

declare tool_name_match.simps [simp del]

definition TOOL_NAME_CHARS :: string where
  "TOOL_NAME_CHARS = ''abcdefghijklmnopqrstuvwxyz[''"

definition MIN_TOOL_COUNT :: nat where
  "MIN_TOOL_COUNT = 5"

definition find_tools :: "string \<Rightarrow> string list" where
  "find_tools tool_str_block =
     (let tools = remdups (filter (\<lambda>name. name \<noteq> [] \<and> hd name \<in> set TOOL_NAME_CHARS) (py_split NUL_BYTE tool_str_block))
      in if length tools < MIN_TOOL_COUNT then [] else sort tools)"

lemma tools_start_offset_bound: "tools_start_offset bs = Some n \<Longrightarrow> n < length bs"
  by (induction bs arbitrary: n) (auto split: if_splits)

function get_busybox_components :: "string \<Rightarrow> string list" where
  "get_busybox_components file_content =
     (case tools_start_offset file_content of
        None \<Rightarrow> []
      | Some start_offset \<Rightarrow>
          let tools = find_tools (tool_name_match (drop start_offset file_content))
          in if tools \<noteq> [] then tools else get_busybox_components (drop (start_offset + 2) file_content))"
  by pat_completeness auto
termination
proof (relation "measure length")
  fix bs start_offset tools
  assume "tools_start_offset bs = Some start_offset"
  then show "(drop (start_offset + 2) bs, bs) \<in> measure length"
    using tools_start_offset_bound by fastforce
qed simp

declare get_busybox_components.simps [simp del]

section \<open>The words of a description\<close>

text \<open>\<open>pattern.search(text)\<close>: the first position, with the character before it, at which the pattern matches; the matched text\<close>

fun re_search :: "(char option \<Rightarrow> string \<Rightarrow> string option) \<Rightarrow> char option \<Rightarrow> string \<Rightarrow> string option" where
  "re_search pat prev [] = pat prev []"
| "re_search pat prev (c # s) = (case pat prev (c # s) of Some g \<Rightarrow> Some g | None \<Rightarrow> re_search pat (Some c) s)"

definition head_char :: "string \<Rightarrow> char option" where
  "head_char s = (case s of [] \<Rightarrow> None | c # _ \<Rightarrow> Some c)"

text \<open>\<^verbatim>\<open>\b\<close>\<close>

definition word_boundary :: "char option \<Rightarrow> char option \<Rightarrow> bool" where
  "word_boundary a b \<longleftrightarrow> (case a of None \<Rightarrow> False | Some c \<Rightarrow> is_word_char c) \<noteq> (case b of None \<Rightarrow> False | Some c \<Rightarrow> is_word_char c)"

definition quote :: char where
  "quote = CHR 0x22"

text \<open>\<^verbatim>\<open>(?:")word(?:-|")\<close>\<close>

definition pattern_1 :: "string \<Rightarrow> char option \<Rightarrow> string \<Rightarrow> string option" where
  "pattern_1 word prev s =
     (if starts_with (quote # word) s then
        (case drop (Suc (length word)) s of
           [] \<Rightarrow> None
         | c # _ \<Rightarrow> if c = CHR ''-'' \<or> c = quote then Some (quote # word @ [c]) else None)
      else None)"

text \<open>\<^verbatim>\<open>(?:\b|_)word(?:\b|-)\<close>; \<open>before\<close> is what the first group matched.\<close>

definition word_and_end :: "string \<Rightarrow> char option \<Rightarrow> string \<Rightarrow> string \<Rightarrow> string option" where
  "word_and_end word prev before s =
     (if starts_with word s then
        let rest = drop (length word) s; end_char = (if word = [] then prev else Some (last word))
        in if word_boundary end_char (head_char rest) then Some (before @ word)
           else if head_char rest = Some (CHR ''-'') then Some (before @ word @ ''-'') else None
      else None)"

definition pattern_2 :: "string \<Rightarrow> char option \<Rightarrow> string \<Rightarrow> string option" where
  "pattern_2 word prev s =
     (case (if word_boundary prev (head_char s) then word_and_end word prev [] s else None) of
        Some g \<Rightarrow> Some g
      | None \<Rightarrow>
          (case s of
             [] \<Rightarrow> None
           | c # rest \<Rightarrow> if c = CHR ''_'' then word_and_end word (Some c) ''_'' rest else None))"

type_synonym word_groups = "string list \<times> string list"

definition get_matched_words :: "word_groups \<Rightarrow> string \<Rightarrow> string list" where
  "get_matched_words = (\<lambda>(group_1, group_2) cve_data.
     List.map_filter (\<lambda>pat. re_search pat None cve_data) (map pattern_1 group_1 @ map pattern_2 group_2))"

definition filter_cves_by_component :: "word_groups \<Rightarrow> (string \<times> cve_row) list \<Rightarrow> string list \<Rightarrow> (string \<times> cve_row) list" where
  "filter_cves_by_component groups cves components =
     filter (\<lambda>(_, cve). let matched_words = get_matched_words groups (cve_summary cve)
                      in matched_words = [] \<or> (\<exists>word\<in>set matched_words. word \<in> set components)) cves"

definition filter_busybox_cves :: "word_groups \<Rightarrow> string result \<Rightarrow> (string \<times> cve_row) list \<Rightarrow> (string \<times> cve_row) list result" where
  "filter_busybox_cves groups file_content cves =
     bindE file_content (\<lambda>content.
       let components = get_busybox_components content
       in Inr (if components = [] then cves else filter_cves_by_component groups cves components))"

section \<open>What is found\<close>

lemma py_split_chars: "x \<in> set (py_split c s) \<Longrightarrow> set x \<subseteq> set s - {c}"
proof -
  have "set x \<subseteq> set s" if "x \<in> set (py_split c s)" for x
    using that by (induction s arbitrary: x) (auto split: list.splits if_splits, blast+)
  then show "x \<in> set (py_split c s) \<Longrightarrow> set x \<subseteq> set s - {c}"
    using py_split_no_sep by fastforce
qed

lemma py_split_first:
  "py_split c s = (case dropWhile (\<lambda>x. x \<noteq> c) s of [] \<Rightarrow> [s] | _ # r \<Rightarrow> takeWhile (\<lambda>x. x \<noteq> c) s # py_split c r)"
proof (induction s)
  case (Cons a s)
  then show ?case
    by (cases "dropWhile (\<lambda>x. x \<noteq> c) s") (simp_all del: dropWhile_eq_Nil_conv)
qed simp

text \<open>In a text that ends with the separator, every part that is not empty is followed by it.\<close>

lemma py_split_sublist:
  assumes "x \<in> set (py_split c s)" "s = [] \<or> last s = c" "x \<noteq> []"
  shows "sublist (x @ [c]) s"
  using assms
proof (induction s rule: length_induct)
  case (1 s)
  show ?case
  proof (cases "dropWhile (\<lambda>x. x \<noteq> c) s")
    case Nil
    then have "c \<notin> set s"
      by (auto simp: dropWhile_eq_Nil_conv)
    then have "s = []"
      using "1.prems"(2) last_in_set by fastforce
    then show ?thesis
      using "1.prems" by simp
  next
    case (Cons d r)
    have s: "s = takeWhile (\<lambda>x. x \<noteq> c) s @ c # r"
      using Cons takeWhile_dropWhile_id [of "\<lambda>x. x \<noteq> c" s] hd_dropWhile [of "\<lambda>x. x \<noteq> c" s] by fastforce
    have last: "r = [] \<or> last r = c"
      using "1.prems"(2) s by (metis append_is_Nil_conv last_ConsR last_appendR list.distinct(1))
    have "x = takeWhile (\<lambda>x. x \<noteq> c) s \<or> x \<in> set (py_split c r)"
      using "1.prems"(1) Cons by (subst (asm) py_split_first) auto
    then show ?thesis
    proof
      assume x: "x = takeWhile (\<lambda>x. x \<noteq> c) s"
      have "s = [] @ (x @ [c]) @ r"
        using s unfolding x by simp
      then show ?thesis
        unfolding sublist_def by blast
    next
      assume x: "x \<in> set (py_split c r)"
      have "length r < length s"
        by (subst s) simp
      then have "sublist (x @ [c]) r"
        using "1.IH" x last "1.prems"(3) by blast
      then show ?thesis
        by (subst s) (simp add: sublist_append sublist_Cons_right)
    qed
  qed
qed

lemma tool_name_match_facts:
  "prefix (tool_name_match bs) bs \<and> (tool_name_match bs \<noteq> [] \<longrightarrow> last (tool_name_match bs) = NUL_BYTE) \<and>
   set (tool_name_match bs) \<subseteq> Collect is_tool_char \<union> {NUL_BYTE}"
proof (induction bs rule: tool_name_match.induct)
  case (1 bs)
  define name where "name = takeWhile is_tool_char bs"
  define nuls where "nuls = take 7 (takeWhile (\<lambda>c. c = NUL_BYTE) (drop (length name) bs))"
  define rest where "rest = drop (length name + length nuls) bs"
  show ?case
  proof (cases "name = [] \<or> nuls = []")
    case True
    then have "tool_name_match bs = []"
      by (subst tool_name_match.simps) (auto simp: name_def [symmetric] nuls_def Let_def)
    then show ?thesis
      by simp
  next
    case False
    then have eq: "tool_name_match bs = name @ nuls @ tool_name_match rest"
      by (subst tool_name_match.simps) (auto simp: name_def [symmetric] nuls_def [symmetric] rest_def Let_def simp del: take_eq_Nil)
    have IH: "prefix (tool_name_match rest) rest" "tool_name_match rest \<noteq> [] \<longrightarrow> last (tool_name_match rest) = NUL_BYTE"
        "set (tool_name_match rest) \<subseteq> Collect is_tool_char \<union> {NUL_BYTE}"
      using 1 [OF name_def nuls_def False] by (simp_all add: rest_def)
    have nul: "set nuls \<subseteq> {NUL_BYTE}"
      unfolding nuls_def by (auto dest!: in_set_takeD set_takeWhileD)
    have chars: "set name \<subseteq> Collect is_tool_char"
      unfolding name_def by (auto dest: set_takeWhileD)
    have "drop (length name) bs = nuls @ rest"
      unfolding rest_def nuls_def
      by (metis (no_types, lifting) add.commute append_take_drop_id drop_drop length_take take_drop takeWhile_eq_take take_take append_eq_conv_conj)
    then have bs: "bs = name @ nuls @ rest"
      unfolding name_def by (metis append_take_drop_id takeWhile_eq_take)
    have "last nuls = NUL_BYTE"
      using False nul last_in_set [of nuls] by blast
    then have "last (tool_name_match bs) = NUL_BYTE"
      using IH(2) False unfolding eq by (auto simp: last_append)
    then show ?thesis
      using IH(1,3) nul chars unfolding eq by (subst bs) auto
  qed
qed

lemma find_tools_facts:
  assumes "t \<in> set (find_tools block)" "block = [] \<or> last block = NUL_BYTE"
  shows "hd t \<in> set TOOL_NAME_CHARS" "t \<noteq> []" "set t \<subseteq> set block - {NUL_BYTE}" "sublist (t @ [NUL_BYTE]) block"
proof -
  have t: "t \<in> set (py_split NUL_BYTE block)" "hd t \<in> set TOOL_NAME_CHARS" "t \<noteq> []"
    using assms(1) by (auto simp: find_tools_def Let_def split: if_splits)
  then show "hd t \<in> set TOOL_NAME_CHARS" "t \<noteq> []"
    by simp_all
  show "set t \<subseteq> set block - {NUL_BYTE}"
    using t(1) by (rule py_split_chars)
  show "sublist (t @ [NUL_BYTE]) block"
    using t(1) assms(2) t(3) by (rule py_split_sublist)
qed

lemma find_tools_sorted: "sorted (find_tools block)" "distinct (find_tools block)"
    "find_tools block \<noteq> [] \<Longrightarrow> MIN_TOOL_COUNT \<le> length (find_tools block)"
  by (auto simp: find_tools_def Let_def)

definition found_tool :: "string \<Rightarrow> string \<Rightarrow> bool" where
  "found_tool content t \<longleftrightarrow> t \<noteq> [] \<and> hd t \<in> set TOOL_NAME_CHARS \<and> list_all is_tool_char t \<and> sublist (t @ [NUL_BYTE]) content"

lemma tools_of_block:
  assumes "t \<in> set (find_tools (tool_name_match (drop n content)))"
  shows "found_tool content t"
proof -
  let ?block = "tool_name_match (drop n content)"
  note block = tool_name_match_facts [of "drop n content"]
  have "set t \<subseteq> Collect is_tool_char"
    using find_tools_facts(3) [OF assms] block by fastforce
  moreover have "sublist (t @ [NUL_BYTE]) ?block"
    using find_tools_facts(4) [OF assms] block by blast
  then have "sublist (t @ [NUL_BYTE]) content"
    using block prefix_imp_sublist sublist_order.order_trans Sublist.sublist_drop by metis
  moreover have "hd t \<in> set TOOL_NAME_CHARS" "t \<noteq> []"
    using find_tools_facts(1,2) [OF assms] block by blast+
  ultimately show ?thesis
    by (auto simp: found_tool_def list_all_iff)
qed

lemma get_busybox_components_cases:
  "get_busybox_components content = [] \<or>
   (\<exists>n. get_busybox_components content = find_tools (tool_name_match (drop n content)))"
proof (induction content rule: get_busybox_components.induct)
  case (1 content)
  show ?case
  proof (cases "tools_start_offset content")
    case (Some n)
    show ?thesis
    proof (cases "find_tools (tool_name_match (drop n content)) = []")
      case True
      then show ?thesis
        using 1 [OF Some refl] by (subst (1 2) get_busybox_components.simps) (auto simp: Some Let_def)
    next
      case False
      then show ?thesis
        by (subst (1 2) get_busybox_components.simps) (auto simp: Some Let_def)
    qed
  qed (simp add: get_busybox_components.simps)
qed

lemma components_found: "t \<in> set (get_busybox_components content) \<Longrightarrow> found_tool content t"
  using get_busybox_components_cases [of content] tools_of_block by fastforce

text \<open>
  C34. The search for the tools of a BusyBox binary ends for every file; what it returns is sorted and without
  duplicates, is empty or has at least five names, and every name occurs in the file, followed by a zero byte.
\<close>

theorem busybox_components_correct:
  "sorted (get_busybox_components content) \<and> distinct (get_busybox_components content) \<and>
   (get_busybox_components content = [] \<or> 5 \<le> length (get_busybox_components content)) \<and>
   list_all (found_tool content) (get_busybox_components content)"
proof (intro conjI)
  show "list_all (found_tool content) (get_busybox_components content)"
    by (simp add: list_all_iff components_found)
  show "sorted (get_busybox_components content)" "distinct (get_busybox_components content)"
    using get_busybox_components_cases [of content] find_tools_sorted(1,2) by auto
  show "get_busybox_components content = [] \<or> 5 \<le> length (get_busybox_components content)"
    using get_busybox_components_cases [of content] find_tools_sorted(3) unfolding MIN_TOOL_COUNT_def by metis
qed

text \<open>The examples of the tests\<close>

lemma busybox_example:
  "get_busybox_components (''XXX'' @ [NUL_BYTE] @ ''['' @ [NUL_BYTE] @ ''[['' @ [NUL_BYTE] @ ''awk'' @ [NUL_BYTE] @ ''rm'' @ [NUL_BYTE] @ ''wget'' @ [NUL_BYTE, NUL_BYTE, NUL_BYTE] @ ''XXX'')
   = [''['', ''[['', ''awk'', ''rm'', ''wget'']"
  by code_simp

section \<open>Words of the first group\<close>

text \<open>
  The text that a pattern of the first group matches contains the quotation mark, a tool name does not: a CVE that
  mentions a tool of the first group, and none of the second, is dropped even if the binary has the tool.
\<close>

lemma re_search_starts: "re_search pat prev s = Some g \<Longrightarrow> (\<And>p t h. pat p t = Some h \<Longrightarrow> P h) \<Longrightarrow> P g"
  by (induction s arbitrary: prev) (auto split: option.splits)

lemma pattern_1_quoted: "re_search (pattern_1 word) prev s = Some g \<Longrightarrow> hd g = quote"
  by (erule re_search_starts) (auto simp: pattern_1_def split: if_splits list.splits)

lemma quoted_is_no_component:
  assumes "hd g = quote" "g \<in> set (get_busybox_components content)"
  shows False
  using components_found [OF assms(2)] assms(1) by (auto simp: found_tool_def TOOL_NAME_CHARS_def quote_def)

lemma group_1_cve_dropped:
  assumes "get_busybox_components content \<noteq> []" "get_matched_words (group_1, []) (cve_summary cve) \<noteq> []"
    and "get_matched_words ([], group_2) (cve_summary cve) = []"
  shows "filter_busybox_cves (group_1, group_2) (Inr content) [(i, cve)] = Inr []"
proof -
  have words: "get_matched_words (group_1, group_2) s = get_matched_words (group_1, []) s @ get_matched_words ([], group_2) s" for s
    by (simp add: get_matched_words_def List.map_filter_def)
  have "hd w = quote" if "w \<in> set (get_matched_words (group_1, []) s)" for w s
    using that by (auto simp: get_matched_words_def List.map_filter_def intro: pattern_1_quoted)
  then have "w \<notin> set (get_busybox_components content)" if "w \<in> set (get_matched_words (group_1, []) s)" for w s
    using that quoted_is_no_component by blast
  then show ?thesis
    using assms by (auto simp: filter_busybox_cves_def filter_cves_by_component_def words Let_def)
qed

lemma group_1_example:
  "filter_busybox_cves ([''date''], [])
     (Inr (''['' @ [NUL_BYTE] @ ''[['' @ [NUL_BYTE] @ ''awk'' @ [NUL_BYTE] @ ''date'' @ [NUL_BYTE] @ ''wget'' @ [NUL_BYTE]))
     [(''CVE-2020-1'', \<lparr>cve_year = ''2020'', cve_summary = ''flaw in '' @ [quote] @ ''date'' @ [quote], cvss_score = []\<rparr>)] = Inr []"
  by (rule group_1_cve_dropped) code_simp+

end
