(* ===== verification/Cve_Lookup.thy ===== *)
theory Cve_Lookup
  imports Busybox_Filter
begin

text \<open>
  \<^verbatim>\<open>src/src/plugins/analysis/cve_lookup/internal/lookup.py\<close> and \<open>code/cve_lookup.py\<close>: which CVEs of the database
  affect a version of a product, and the analysis plugin that reports them. \<open>packaging.version.parse\<close> is the parameter
  \<open>parse_version\<close>, with \<open>None\<close> for \<open>InvalidVersion\<close> and a linear order on the versions; \<open>float\<close> is the parameter \<open>to_float\<close>.
  In a printed version range the sign for at most is written as two characters.
\<close>

section \<open>lookup.py\<close>

record lookup =
  lk_file_content :: "string result"
  lk_db :: cve_db
  lk_match_any :: bool
  lk_groups :: word_groups

record cve_match =
  cm_id :: string
  cm_cpe_version :: string
  cm_scores :: "(string \<times> string) list"

definition is_digit_text :: "string \<Rightarrow> bool" where
  "is_digit_text s \<longleftrightarrow> s \<noteq> [] \<and> list_all (\<lambda>c. is_digit_char c \<or> c \<in> {CHR 0xB2, CHR 0xB3, CHR 0xB9}) s"

text \<open>\<open>combinations(range(n), 2)\<close>\<close>

definition range_pairs :: "nat \<Rightarrow> (nat \<times> nat) list" where
  "range_pairs n = concat (map (\<lambda>i. map (Pair i) [Suc i..<n]) [0..<n])"

definition generate_search_terms :: "string \<Rightarrow> string list" where
  "generate_search_terms product_name =
     (let terms = py_split (CHR '' '') product_name;
          product_terms = map (\<lambda>(i, j). py_lower (py_join ''_'' (take (j - i) (drop i terms)))) (range_pairs (length terms + 1))
      in filter (\<lambda>term. 1 < length term \<and> \<not> is_digit_text term) product_terms)"

subsection \<open>Versions\<close>

text \<open>
  \<open>VALID_VERSION_REGEX.match\<close>: \<^verbatim>\<open>v?(\d+!)?\d+(\.\d+)*([.-]?(a(lpha)?|b(eta)?|c|dev|post|pre(view)?|r|rc)?\d+)?\<close>. Each
  definition returns the matched text and the rest; an optional part that does not match takes nothing.
\<close>

definition digits_prefix :: "string \<Rightarrow> (string \<times> string) option" where
  "digits_prefix s = (let d = takeWhile is_digit_char s in if d = [] then None else Some (d, dropWhile is_digit_char s))"

definition epoch_prefix :: "string \<Rightarrow> (string \<times> string) option" where
  "epoch_prefix s = (case digits_prefix s of
       Some (d, CHR ''!'' # rest) \<Rightarrow> Some (d @ ''!'', rest)
     | _ \<Rightarrow> None)"

lemma digits_prefix_length: "digits_prefix s = Some (d, rest) \<Longrightarrow> length rest < length s"
  by (cases s) (auto simp: digits_prefix_def Let_def length_dropWhile_le le_imp_less_Suc split: if_splits)

function release_rest :: "string \<Rightarrow> string \<times> string" where
  "release_rest s = (case s of
       [] \<Rightarrow> ([], s)
     | c # t \<Rightarrow>
         if c = CHR ''.'' then
           (case digits_prefix t of
              None \<Rightarrow> ([], s)
            | Some (d, rest) \<Rightarrow> let (m, r) = release_rest rest in (CHR ''.'' # d @ m, r))
         else ([], s))"
  by pat_completeness auto
termination
  by (relation "measure length") (auto dest: digits_prefix_length)

declare release_rest.simps [simp del]

definition VERSION_TAGS :: "string list" where
  "VERSION_TAGS = [''alpha'', ''a'', ''beta'', ''b'', ''c'', ''dev'', ''post'', ''preview'', ''pre'', ''r'', ''rc'', []]"

definition tag_and_digits :: "string \<Rightarrow> string option" where
  "tag_and_digits s = (case filter (\<lambda>t. starts_with t s \<and> digits_prefix (drop (length t) s) \<noteq> None) VERSION_TAGS of
       [] \<Rightarrow> None
     | t # _ \<Rightarrow> Some (t @ takeWhile is_digit_char (drop (length t) s)))"

definition version_suffix :: "string \<Rightarrow> string" where
  "version_suffix s = (case s of
       [] \<Rightarrow> []
     | c # t \<Rightarrow>
         if c = CHR ''.'' \<or> c = CHR ''-'' then (case tag_and_digits t of Some m \<Rightarrow> c # m | None \<Rightarrow> [])
         else (case tag_and_digits s of Some m \<Rightarrow> m | None \<Rightarrow> []))"

definition release_and_suffix :: "string \<Rightarrow> string option" where
  "release_and_suffix s = (case digits_prefix s of
       None \<Rightarrow> None
     | Some (d, rest) \<Rightarrow> let (m, r) = release_rest rest in Some (d @ m @ version_suffix r))"

definition epoch_release :: "string \<Rightarrow> string option" where
  "epoch_release s = (case epoch_prefix s of
       None \<Rightarrow> release_and_suffix s
     | Some (e, rest) \<Rightarrow>
         (case release_and_suffix rest of None \<Rightarrow> release_and_suffix s | Some m \<Rightarrow> Some (e @ m)))"

definition valid_version_match :: "string \<Rightarrow> string option" where
  "valid_version_match s = (case s of
       CHR ''v'' # t \<Rightarrow> map_option (Cons (CHR ''v'')) (epoch_release t)
     | _ \<Rightarrow> epoch_release s)"

text \<open>\<open>s.replace(':', '!', 1)\<close>\<close>

fun replace_first :: "char \<Rightarrow> char \<Rightarrow> string \<Rightarrow> string" where
  "replace_first old new [] = []"
| "replace_first old new (c # s) = (if c = old then new # s else c # replace_first old new s)"

definition fix_version :: "string \<Rightarrow> string" where
  "fix_version version =
     py_replace ''_'' ''-'' (replace_first (CHR '':'') (CHR ''!'') (py_replace ''~'' ''-'' (py_lower version)))"

definition coerce_version :: "(string \<Rightarrow> 'v option) \<Rightarrow> string \<Rightarrow> 'v option" where
  "coerce_version parse_version version = (case parse_version version of
       Some v \<Rightarrow> Some v
     | None \<Rightarrow>
         let fixed_version = fix_version version in
         case parse_version fixed_version of
           Some v \<Rightarrow> Some v
         | None \<Rightarrow>
             (case valid_version_match fixed_version of
                Some valid_version \<Rightarrow>
                  let rest = dropWhile (\<lambda>c. c \<in> set ''._-'')
                        (filter (\<lambda>c. is_word_char c \<or> c \<in> set ''.-'') (drop (length valid_version) fixed_version))
                  in parse_version (valid_version @ ''+'' @ rest)
              | None \<Rightarrow> parse_version (takeWhile (\<lambda>c. c \<in> set ''v.'' \<or> is_digit_char c) fixed_version)))"

definition compare_version :: "(string \<Rightarrow> 'v option) \<Rightarrow> string \<Rightarrow> string \<Rightarrow> ('v \<Rightarrow> 'v \<Rightarrow> bool) \<Rightarrow> bool" where
  "compare_version parse_version version1 version2 comp_operator =
     (case coerce_version parse_version version1 of
        None \<Rightarrow> False
      | Some v1 \<Rightarrow> (case coerce_version parse_version version2 of None \<Rightarrow> False | Some v2 \<Rightarrow> comp_operator v1 v2))"

definition is_version_in_boundaries :: "(string \<Rightarrow> 'v::linorder option) \<Rightarrow> association \<Rightarrow> string \<Rightarrow> bool" where
  "is_version_in_boundaries parse_version a requested_version =
     list_all (\<lambda>(version_boundary, comp_operator).
         version_boundary = [] \<or> compare_version parse_version version_boundary requested_version comp_operator)
       [(version_start_including a, (\<le>)), (version_start_excluding a, (<)),
        (version_end_including a, (\<lambda>x y. y \<le> x)), (version_end_excluding a, (\<lambda>x y. y < x))]"

definition has_boundaries :: "association \<Rightarrow> bool" where
  "has_boundaries a \<longleftrightarrow> version_start_including a \<noteq> [] \<or> version_start_excluding a \<noteq> [] \<or>
     version_end_including a \<noteq> [] \<or> version_end_excluding a \<noteq> []"

subsection \<open>Associations\<close>

type_synonym association_row = "(string \<times> string) \<times> association"

text \<open>\<open>association.cpe.version\<close> goes through the database.\<close>

definition version_in_boundaries ::
  "(string \<Rightarrow> 'v::linorder option) \<Rightarrow> lookup \<Rightarrow> association_row list \<Rightarrow> string \<Rightarrow> association_row list result" where
  "version_in_boundaries parse_version lk associations requested_version =
     (if requested_version = ''ANY, N/A'' then Inr []
      else foldE (\<lambda>row association_matches.
        if \<not> has_boundaries (snd row) then
          (if lk_match_any lk then
             (case map_of (cpes_table (lk_db lk)) (snd (fst row)) of
                None \<Rightarrow> Inl AttributeError
              | Some cpe \<Rightarrow> Inr (if cpe_version cpe = ''ANY'' then association_matches @ [row] else association_matches))
           else Inr association_matches)
        else Inr (if is_version_in_boundaries parse_version (snd row) requested_version then association_matches @ [row]
                  else association_matches)) associations [])"

definition find_matching_associations ::
  "(string \<Rightarrow> 'v::linorder option) \<Rightarrow> lookup \<Rightarrow> (string \<times> cpe_row) list \<Rightarrow> string \<Rightarrow> association_row list result" where
  "find_matching_associations parse_version lk cpe_matches requested_version =
     (if requested_version \<in> {''ANY'', ''N/A''} then Inr []
      else let associations_dict = get_associations (lk_db lk) (map fst cpe_matches) in
        foldE (\<lambda>(cpe_id, cpe) association_matches.
          let associations = (case map_of associations_dict cpe_id of None \<Rightarrow> [] | Some as \<Rightarrow> as)
          in if cpe_version cpe = requested_version then Inr (association_matches @ associations)
             else bindE (version_in_boundaries parse_version lk associations requested_version) (\<lambda>ms.
               Inr (association_matches @ ms))) cpe_matches [])"

definition build_version_string :: "association \<Rightarrow> cpe_row option \<Rightarrow> string result" where
  "build_version_string a cpe =
     (if \<not> has_boundaries a then (case cpe of None \<Rightarrow> Inl AttributeError | Some c \<Rightarrow> Inr (cpe_version c))
      else
        let result = ''version'';
            result = (if version_start_including a \<noteq> [] then version_start_including a @ '' <= '' @ result
                      else if version_start_excluding a \<noteq> [] then version_start_excluding a @ '' < '' @ result else result);
            result = (if version_end_including a \<noteq> [] then result @ '' <= '' @ version_end_including a
                      else if version_end_excluding a \<noteq> [] then result @ '' < '' @ version_end_excluding a else result)
        in Inr result)"

definition add_vulnerability ::
  "(string \<times> cpe_row) list \<Rightarrow> (string \<times> cve_row) list \<Rightarrow> association_row \<Rightarrow> cve_match list \<Rightarrow> cve_match list result" where
  "add_vulnerability cpe_matches cves row vulnerabilities =
     (case map_of cves (fst (fst row)) of
        None \<Rightarrow> Inr vulnerabilities
      | Some cve \<Rightarrow>
          bindE (build_version_string (snd row) (map_of cpe_matches (snd (fst row)))) (\<lambda>version_string.
            Inr (vulnerabilities @ [\<lparr>cm_id = fst (fst row), cm_cpe_version = version_string, cm_scores = cvss_score cve\<rparr>])))"

definition lookup_vulnerabilities :: "(string \<Rightarrow> 'v::linorder option) \<Rightarrow> lookup \<Rightarrow> string \<Rightarrow> string \<Rightarrow> cve_match list result" where
  "lookup_vulnerabilities parse_version lk product_name requested_version =
     (let product_terms = generate_search_terms product_name;
          version = hd (replace_wildcards [requested_version]);
          cpe_matches = match_cpes (lk_db lk) product_terms
      in if cpe_matches = [] then Inr []
         else bindE (find_matching_associations parse_version lk cpe_matches version) (\<lambda>association_matches.
           let cves = get_cves (lk_db lk) (map (fst \<circ> fst) association_matches)
           in bindE (if ''busybox'' \<in> set product_terms then filter_busybox_cves (lk_groups lk) (lk_file_content lk) cves else Inr cves) (\<lambda>cves.
             foldE (add_vulnerability cpe_matches cves) association_matches [])))"

section \<open>code/cve_lookup.py\<close>

record software =
  sw_name :: string
  sw_versions :: "string list"

record cve_result =
  cr_software_name :: string
  cr_cve_list :: "cve_match list"

text \<open>\<open>software_components\<close> is the result of the plugin of that name, if it is there.\<close>

definition cve_analyze ::
  "(string \<Rightarrow> 'v::linorder option) \<Rightarrow> lookup \<Rightarrow> software list option \<Rightarrow> cve_result list result" where
  "cve_analyze parse_version lk software_components = (case software_components of
       None \<Rightarrow> Inl KeyError
     | Some components \<Rightarrow>
         foldE (\<lambda>sw cve_results.
           case sw_versions sw of
             [] \<Rightarrow> Inr cve_results
           | version # _ \<Rightarrow>
               if sw_name sw = [] \<or> version = [] then Inr cve_results
               else bindE (lookup_vulnerabilities parse_version lk (sw_name sw) version) (\<lambda>vulnerabilities.
                 Inr (if vulnerabilities = [] then cve_results
                      else cve_results @ [\<lparr>cr_software_name = sw_name sw @ '' '' @ version, cr_cve_list = vulnerabilities\<rparr>])))
           components [])"

text \<open>\<open>any(...)\<close> whose tests may raise\<close>

fun anyE :: "('a \<Rightarrow> bool result) \<Rightarrow> 'a list \<Rightarrow> bool result" where
  "anyE f [] = Inr False"
| "anyE f (x # xs) = bindE (f x) (\<lambda>b. if b then Inr True else anyE f xs)"

definition entry_has_critical_rating :: "(string \<Rightarrow> 'f::linorder result) \<Rightarrow> 'f \<Rightarrow> (string \<times> string) list \<Rightarrow> bool result" where
  "entry_has_critical_rating to_float min_crit_score scores =
     anyE (\<lambda>(_, score). if score = ''N/A'' then Inr False else bindE (to_float score) (\<lambda>x. Inr (min_crit_score \<le> x))) scores"

definition software_has_critical_cve :: "(string \<Rightarrow> 'f::linorder result) \<Rightarrow> 'f \<Rightarrow> cve_match list \<Rightarrow> bool result" where
  "software_has_critical_cve to_float min_crit_score cve_list =
     anyE (\<lambda>cve. entry_has_critical_rating to_float min_crit_score (cm_scores cve)) cve_list"

definition cve_summarize :: "(string \<Rightarrow> 'f::linorder result) \<Rightarrow> 'f \<Rightarrow> cve_result list \<Rightarrow> string list result" where
  "cve_summarize to_float min_crit_score cve_results =
     bindE (mapE (\<lambda>r. bindE (software_has_critical_cve to_float min_crit_score (cr_cve_list r)) (\<lambda>critical.
       Inr (if critical then cr_software_name r @ '' (CRITICAL)'' else cr_software_name r))) cve_results) (\<lambda>summary.
       Inr (sort (remdups summary)))"

record cve_tag =
  ct_name :: string
  ct_value :: string
  ct_color :: string
  ct_propagate :: bool

definition cve_get_tags :: "(string \<Rightarrow> 'f::linorder result) \<Rightarrow> 'f \<Rightarrow> cve_result list \<Rightarrow> cve_tag list result" where
  "cve_get_tags to_float min_crit_score cve_results =
     foldE (\<lambda>r. foldE (\<lambda>cve tags.
       bindE (entry_has_critical_rating to_float min_crit_score (cm_scores cve)) (\<lambda>critical.
         Inr (if critical then tags @ [\<lparr>ct_name = ''CVE'', ct_value = ''critical CVE'', ct_color = ''danger'', ct_propagate = True\<rparr>]
              else tags))) (cr_cve_list r)) cve_results []"

section \<open>The associations of a CPE\<close>




section \<open>The reported vulnerabilities\<close>

















section \<open>The plugin\<close>





text \<open>A match is critical if one of its scores reaches the limit; the tag is set exactly if the summary has a critical entry.\<close>

definition critical_match :: "(string \<Rightarrow> 'f::linorder) \<Rightarrow> 'f \<Rightarrow> cve_match \<Rightarrow> bool" where
  "critical_match val limit m \<longleftrightarrow> (\<exists>s\<in>snd ` set (cm_scores m). s \<noteq> ''N/A'' \<and> limit \<le> val s)"

definition readable_scores :: "(string \<Rightarrow> 'f result) \<Rightarrow> (string \<Rightarrow> 'f) \<Rightarrow> cve_match \<Rightarrow> bool" where
  "readable_scores to_float val m \<longleftrightarrow> (\<forall>s\<in>snd ` set (cm_scores m). s = ''N/A'' \<or> to_float s = Inr (val s))"

lemma anyE_total: "\<forall>x\<in>set xs. f x = Inr (P x) \<Longrightarrow> anyE f xs = Inr (\<exists>x\<in>set xs. P x)"
  by (induction xs) auto

lemma critical_rating:
  assumes "readable_scores to_float val m"
  shows "entry_has_critical_rating to_float limit (cm_scores m) = Inr (critical_match val limit m)"
proof -
  have "entry_has_critical_rating to_float limit (cm_scores m) = Inr (\<exists>x\<in>set (cm_scores m). snd x \<noteq> ''N/A'' \<and> limit \<le> val (snd x))"
    unfolding entry_has_critical_rating_def
    by (rule anyE_total) (use assms in \<open>auto simp: readable_scores_def\<close>)
  then show ?thesis
    by (simp add: critical_match_def)
qed

lemma critical_software:
  assumes "\<forall>m\<in>set ms. readable_scores to_float val m"
  shows "software_has_critical_cve to_float limit ms = Inr (\<exists>m\<in>set ms. critical_match val limit m)"
  unfolding software_has_critical_cve_def by (rule anyE_total) (use assms in \<open>auto simp: critical_rating [of to_float val]\<close>)

lemma critical_tag_and_summary:
  assumes "\<forall>r\<in>set results. \<forall>m\<in>set (cr_cve_list r). readable_scores to_float val m"
  shows "\<exists>tags. cve_get_tags to_float limit results = Inr tags \<and>
      (tags \<noteq> [] \<longleftrightarrow> (\<exists>r\<in>set results. \<exists>m\<in>set (cr_cve_list r). critical_match val limit m))"
    and "cve_summarize to_float limit results = Inr (sort (remdups (map (\<lambda>r.
      if \<exists>m\<in>set (cr_cve_list r). critical_match val limit m then cr_software_name r @ '' (CRITICAL)'' else cr_software_name r) results)))"
proof -
  let ?tag = "\<lparr>ct_name = ''CVE'', ct_value = ''critical CVE'', ct_color = ''danger'', ct_propagate = True\<rparr>"
  let ?tags = "\<lambda>r. concat (map (\<lambda>m. if critical_match val limit m then [?tag] else []) (cr_cve_list r))"
  have inner: "foldE (\<lambda>cve tags. bindE (entry_has_critical_rating to_float limit (cm_scores cve)) (\<lambda>critical.
      Inr (if critical then tags @ [?tag] else tags))) (cr_cve_list r) acc = Inr (acc @ ?tags r)" if r: "r \<in> set results" for r acc
    by (rule foldE_appends) (use assms r in \<open>auto simp: critical_rating [of to_float val]\<close>)
  have "cve_get_tags to_float limit results = Inr ([] @ concat (map ?tags results))"
    unfolding cve_get_tags_def by (rule foldE_appends) (rule inner)
  moreover have "concat (map ?tags results) \<noteq> [] \<longleftrightarrow> (\<exists>r\<in>set results. \<exists>m\<in>set (cr_cve_list r). critical_match val limit m)"
    by auto
  ultimately show "\<exists>tags. cve_get_tags to_float limit results = Inr tags \<and>
      (tags \<noteq> [] \<longleftrightarrow> (\<exists>r\<in>set results. \<exists>m\<in>set (cr_cve_list r). critical_match val limit m))"
    by simp
  have "mapE (\<lambda>r. bindE (software_has_critical_cve to_float limit (cr_cve_list r)) (\<lambda>critical.
      Inr (if critical then cr_software_name r @ '' (CRITICAL)'' else cr_software_name r))) results =
    Inr (map (\<lambda>r. if \<exists>m\<in>set (cr_cve_list r). critical_match val limit m then cr_software_name r @ '' (CRITICAL)''
      else cr_software_name r) results)"
    by (rule mapE_all_Inr) (use assms in \<open>simp add: critical_software [of _ to_float val]\<close>)
  then show "cve_summarize to_float limit results = Inr (sort (remdups (map (\<lambda>r.
      if \<exists>m\<in>set (cr_cve_list r). critical_match val limit m then cr_software_name r @ '' (CRITICAL)'' else cr_software_name r) results)))"
    by (simp add: cve_summarize_def)
qed

text \<open>The sample database, versions that are compared as texts and a component with a version in range\<close>

definition sample_parse :: "string \<Rightarrow> string option" where
  "sample_parse s = (if s \<noteq> [] \<and> list_all (\<lambda>c. is_digit_char c \<or> c = CHR ''.'') s then Some s else None)"

definition sample_lookup :: lookup where
  "sample_lookup = \<lparr>lk_file_content = Inr [], lk_db = described_db sample_entries, lk_match_any = False, lk_groups = ([], [])\<rparr>"

definition sample_software :: "software list" where
  "sample_software = [\<lparr>sw_name = ''Tool'', sw_versions = [''1.1'']\<rparr>, \<lparr>sw_name = ''other'', sw_versions = []\<rparr>]"

lemma sample_report:
  "cve_analyze sample_parse sample_lookup (Some sample_software) =
     Inr [\<lparr>cr_software_name = ''Tool 1.1'', cr_cve_list =
       [\<lparr>cm_id = ''CVE-2021-1'', cm_cpe_version = ''version < 1.2'', cm_scores = [(''V3.1'', ''9.8'')]\<rparr>]\<rparr>]"
  by code_simp



end
