(* ===== verification/Process_Supervision.thy ===== *)
theory Process_Supervision
  imports Helpers
begin

text \<open>
  \<^verbatim>\<open>src/src/helperFunctions/process.py\<close>: worker processes that hand their exception to the parent, and the
  checks of the three schedulers that look for failed workers (\<open>check_exceptions\<close> in \<^verbatim>\<open>src/src/scheduler\<close>,
  \<open>_exception_occurred\<close> in \<^verbatim>\<open>src/src/start_fact_backend.py\<close>). Processes are objects that the schedulers and
  the checked lists share, so they live in a store and the lists hold references. Signals and child processes of
  a worker are not modelled.
\<close>

section \<open>Processes\<close>

text \<open>A function is represented by the number of positional arguments it takes.\<close>

record process =
  p_name :: string
  p_params :: nat
  p_args :: "nat list"
  p_pipe :: "string option list"
  p_exception :: "string option"
  p_alive :: bool

record process_store =
  procs :: "nat \<Rightarrow> process"
  next_ref :: nat

definition update_process :: "nat \<Rightarrow> (process \<Rightarrow> process) \<Rightarrow> process_store \<Rightarrow> process_store" where
  "update_process r f st = st\<lparr>procs := (procs st)(r := f (procs st r))\<rparr>"

text \<open>\<open>run\<close>: the outcome of the function is sent; a call with the wrong number of arguments is a \<open>TypeError\<close>.\<close>

definition process_run :: "nat \<Rightarrow> string option \<Rightarrow> process_store \<Rightarrow> process_store" where
  "process_run r outcome = update_process r (\<lambda>p.
     p\<lparr>p_pipe := p_pipe p @ [if length (p_args p) \<noteq> p_params p then Some ''TypeError'' else outcome], p_alive := False\<rparr>)"

text \<open>The property \<open>exception\<close> takes a message from the pipe if there is one.\<close>

definition get_exception :: "nat \<Rightarrow> process_store \<Rightarrow> string option \<times> process_store" where
  "get_exception r st = (case p_pipe (procs st r) of
       [] \<Rightarrow> (p_exception (procs st r), st)
     | m # ms \<Rightarrow> (m, update_process r (\<lambda>p. p\<lparr>p_pipe := ms, p_exception := m\<rparr>) st))"

definition terminate_process_and_children :: "nat \<Rightarrow> process_store \<Rightarrow> process_store" where
  "terminate_process_and_children r = update_process r (\<lambda>p. p\<lparr>p_alive := False\<rparr>)"

definition start_process :: "string \<Rightarrow> nat \<Rightarrow> nat list \<Rightarrow> process_store \<Rightarrow> nat \<times> process_store" where
  "start_process name params args st =
     (next_ref st, \<lparr>procs = (procs st)(next_ref st := \<lparr>p_name = name, p_params = params, p_args = args, p_pipe = [],
        p_exception = None, p_alive = True\<rparr>), next_ref = Suc (next_ref st)\<rparr>)"

definition start_single_worker :: "nat option \<Rightarrow> string \<Rightarrow> nat \<Rightarrow> process_store \<Rightarrow> nat \<times> process_store" where
  "start_single_worker process_index label params =
     start_process (label @ ''-Worker-'' @ fmt (map_option nat_str process_index)) params
       (case process_index of None \<Rightarrow> [] | Some i \<Rightarrow> [i])"

text \<open>\<open>int(name.split('-')[-1])\<close>\<close>

definition int_text :: "string \<Rightarrow> nat result" where
  "int_text s = (if s \<noteq> [] \<and> list_all is_digit_char s then Inr (fold (\<lambda>c n. 10 * n + (of_char c - 48)) s 0) else Inl ValueError)"

definition worker_index :: "string \<Rightarrow> nat result" where
  "worker_index name = int_text (last (py_split (CHR ''-'') name))"

section \<open>check_worker_exceptions\<close>

text \<open>
  The loop walks over the list by position while its body removes and appends elements: after a removal the next
  element moves to the current position and is not visited.
\<close>

text \<open>The body for a worker with an exception; the first result is whether it counts as a failure of the system.\<close>

definition handle_failed_worker ::
  "bool \<Rightarrow> string \<Rightarrow> nat option \<Rightarrow> nat \<Rightarrow> nat list \<times> process_store \<Rightarrow> (bool \<times> nat list \<times> process_store) result" where
  "handle_failed_worker throw label worker_function r = (\<lambda>(process_list, st).
     case get_exception r st of
       (None, _) \<Rightarrow> Inl TypeError
     | (Some _, st1) \<Rightarrow>
         let st2 = terminate_process_and_children r st1; process_list' = remove1 r process_list
         in if throw then Inr (True, process_list', st2)
            else (case worker_function of
                None \<Rightarrow> Inr (False, process_list', st2)
              | Some params \<Rightarrow>
                  bindE (worker_index (p_name (procs st2 r))) (\<lambda>process_index.
                    let (new, st3) = start_single_worker (Some process_index) label params st2
                    in Inr (False, process_list' @ [new], st3))))"

lemma handle_failed_worker_length:
  assumes "handle_failed_worker throw label fn r (ps, st) = Inr (b, ps', st')" "r \<in> set ps"
  shows "length ps' \<le> length ps"
proof -
  have "length (remove1 r ps @ [x]) \<le> length ps" for x
    using assms(2) length_pos_if_in_set [of r ps] by (simp add: length_remove1)
  then show ?thesis
    using assms(1) by (auto simp: handle_failed_worker_def result_simps Let_def length_remove1 start_single_worker_def start_process_def
      split: option.splits if_splits prod.splits)
qed

function check_loop ::
  "bool \<Rightarrow> string \<Rightarrow> nat option \<Rightarrow> nat \<Rightarrow> bool \<times> nat list \<times> process_store \<Rightarrow> (bool \<times> nat list \<times> process_store) result" where
  "check_loop throw label fn i (ret, ps, st) =
     (if i < length ps then
        (case get_exception (ps ! i) st of
           (None, st1) \<Rightarrow> check_loop throw label fn (Suc i) (ret, ps, st1)
         | (Some _, st1) \<Rightarrow>
             (case handle_failed_worker throw label fn (ps ! i) (ps, st1) of
                Inl e \<Rightarrow> Inl e
              | Inr (b, ps', st2) \<Rightarrow> check_loop throw label fn (Suc i) (ret \<or> b, ps', st2)))
      else Inr (ret, ps, st))"
  by pat_completeness auto
termination
  by (relation "measure (\<lambda>(throw, label, fn, i, ret, ps, st). length ps - i)")
    (auto dest!: handle_failed_worker_length intro: diff_less_mono2 le_less_trans [OF diff_le_mono])

declare check_loop.simps [simp del]

definition check_worker_exceptions ::
  "bool \<Rightarrow> nat list \<Rightarrow> string \<Rightarrow> nat option \<Rightarrow> process_store \<Rightarrow> (bool \<times> nat list \<times> process_store) result" where
  "check_worker_exceptions throw process_list label worker_function st =
     check_loop throw label worker_function 0 (False, process_list, st)"

definition new_worker_was_started :: "nat \<Rightarrow> nat \<Rightarrow> bool" where
  "new_worker_was_started new_process old_process \<longleftrightarrow> new_process \<noteq> old_process"

section \<open>The checks of the schedulers\<close>

record backend =
  work_load_process :: nat
  comparison_worker :: nat
  analysis_processes :: "nat list"
  store :: process_store

text \<open>\<open>ExceptionSafeProcess(target=self._work_load_monitor)\<close>; \<open>name\<close> is the name that \<open>multiprocessing\<close> gives.\<close>

definition start_work_load_monitor :: "string \<Rightarrow> process_store \<Rightarrow> nat \<times> process_store" where
  "start_work_load_monitor name = start_process name 0 []"

definition unpacking_check_exceptions :: "bool \<Rightarrow> backend \<Rightarrow> (bool \<times> backend) result" where
  "unpacking_check_exceptions throw be =
     bindE (check_worker_exceptions throw [work_load_process be] ''unpack-load'' (Some 0) (store be)) (\<lambda>(shutdown, ps, st).
       case ps of
         [] \<Rightarrow> Inl IndexError
       | p # _ \<Rightarrow>
           Inr (shutdown, be\<lparr>work_load_process := (if new_worker_was_started p (work_load_process be) then last ps else work_load_process be),
                             store := st\<rparr>))"

definition comparison_check_exceptions :: "bool \<Rightarrow> backend \<Rightarrow> (bool \<times> backend) result" where
  "comparison_check_exceptions throw be =
     bindE (check_worker_exceptions throw [comparison_worker be] ''Comparison'' (Some 1) (store be)) (\<lambda>(shutdown, ps, st).
       if shutdown then Inr (shutdown, be\<lparr>store := st\<rparr>)
       else (case ps of
         [] \<Rightarrow> Inl IndexError
       | p # _ \<Rightarrow>
           Inr (shutdown, be\<lparr>comparison_worker := (if new_worker_was_started p (comparison_worker be) then last ps else comparison_worker be),
                             store := st\<rparr>)))"

definition analysis_check_exceptions :: "bool \<Rightarrow> backend \<Rightarrow> (bool \<times> backend) result" where
  "analysis_check_exceptions throw be =
     bindE (check_worker_exceptions throw (analysis_processes be) ''Scheduler'' None (store be)) (\<lambda>(shutdown, _, st).
       Inr (shutdown, be\<lparr>store := st\<rparr>))"

text \<open>The three checks are made before \<open>any\<close> looks at them.\<close>

definition exception_occurred :: "bool \<Rightarrow> backend \<Rightarrow> (bool \<times> backend) result" where
  "exception_occurred throw be =
     bindE (unpacking_check_exceptions throw be) (\<lambda>(a, be1).
     bindE (comparison_check_exceptions throw be1) (\<lambda>(b, be2).
     bindE (analysis_check_exceptions throw be2) (\<lambda>(c, be3). Inr (a \<or> b \<or> c, be3))))"

section \<open>Failed workers\<close>

text \<open>A process sends one message; it failed if that message is an exception.\<close>

definition failed :: "process_store \<Rightarrow> nat \<Rightarrow> bool" where
  "failed st r \<longleftrightarrow> (case p_pipe (procs st r) of [] \<Rightarrow> p_exception (procs st r) \<noteq> None | m # _ \<Rightarrow> m \<noteq> None)"

definition store_ok :: "process_store \<Rightarrow> bool" where
  "store_ok st \<longleftrightarrow> (\<forall>r. length (p_pipe (procs st r)) \<le> 1)"

lemma update_process_procs: "procs (update_process r f st) q = (if q = r then f (procs st r) else procs st q)"
  by (simp add: update_process_def)

lemma next_ref_update [simp]: "next_ref (update_process r f st) = next_ref st"
  by (simp add: update_process_def)

lemma get_exception_read:
  assumes "store_ok st" "get_exception r st = (e, st1)"
  shows "e \<noteq> None \<longleftrightarrow> failed st r" "store_ok st1" "failed st1 q = failed st q" "get_exception r st1 = (e, st1)"
    "p_name (procs st1 q) = p_name (procs st q)" "next_ref st1 = next_ref st" "p_alive (procs st1 q) = p_alive (procs st q)"
proof -
  have "length (p_pipe (procs st r)) \<le> 1"
    using assms(1) by (simp add: store_ok_def)
  then consider (idle) "p_pipe (procs st r) = []" | (message) m where "p_pipe (procs st r) = [m]"
    by (cases "p_pipe (procs st r)") auto
  then have "(e \<noteq> None \<longleftrightarrow> failed st r) \<and> store_ok st1 \<and> failed st1 q = failed st q \<and> get_exception r st1 = (e, st1) \<and>
    p_name (procs st1 q) = p_name (procs st q) \<and> next_ref st1 = next_ref st \<and> p_alive (procs st1 q) = p_alive (procs st q)"
  proof cases
    case idle
    then have "st1 = st" "e = p_exception (procs st r)"
      using assms(2) by (auto simp: get_exception_def)
    then show ?thesis
      using idle assms by (simp add: failed_def)
  next
    case message
    then have st1: "st1 = update_process r (\<lambda>p. p\<lparr>p_pipe := [], p_exception := m\<rparr>) st" and e: "e = m"
      using assms(2) by (auto simp: get_exception_def)
    have "get_exception r st1 = (e, st1)" "e \<noteq> None \<longleftrightarrow> failed st r"
      using message by (simp_all add: e st1 get_exception_def failed_def update_process_procs)
    moreover have "store_ok st1" "failed st1 q = failed st q"
      using assms(1) message by (auto simp: st1 store_ok_def failed_def update_process_procs split: list.splits)
    ultimately show ?thesis
      by (simp add: st1 update_process_procs)
  qed
  then show "e \<noteq> None \<longleftrightarrow> failed st r" "store_ok st1" "failed st1 q = failed st q" "get_exception r st1 = (e, st1)"
      "p_name (procs st1 q) = p_name (procs st q)" "next_ref st1 = next_ref st" "p_alive (procs st1 q) = p_alive (procs st q)"
    by blast+
qed

lemma terminate_facts:
  "store_ok (terminate_process_and_children r st) = store_ok st"
  "failed (terminate_process_and_children r st) q = failed st q"
  "p_name (procs (terminate_process_and_children r st) q) = p_name (procs st q)"
  "next_ref (terminate_process_and_children r st) = next_ref st"
  "p_alive (procs (terminate_process_and_children r st) q) = (q \<noteq> r \<and> p_alive (procs st q))"
  by (auto simp: terminate_process_and_children_def store_ok_def failed_def update_process_procs split: list.splits)

subsection \<open>The loop without restarts\<close>

lemma handle_without_restart:
  assumes "get_exception r st = (Some e, st)"
  shows "handle_failed_worker throw label None r (ps, st) = Inr (throw, remove1 r ps, terminate_process_and_children r st)"
  by (simp add: handle_failed_worker_def assms Let_def)

text \<open>The first failed worker is always visited, whatever the loop skips later.\<close>

lemma check_loop_without_restart:
  assumes "store_ok st"
  shows "\<exists>ps' st'. check_loop throw label None i (ret, ps, st) =
      Inr (ret \<or> throw \<and> (\<exists>r\<in>set (drop i ps). failed st r), ps', st') \<and> store_ok st'"
  using assms
proof (induction "length ps - i" arbitrary: i ret ps st rule: less_induct)
  case less
  show ?case
  proof (cases "i < length ps")
    case True
    obtain e st1 where read: "get_exception (ps ! i) st = (e, st1)"
      by (cases "get_exception (ps ! i) st")
    note facts = get_exception_read [OF less.prems read]
    have drop: "drop i ps = ps ! i # drop (Suc i) ps"
      using True by (rule Cons_nth_drop_Suc [symmetric])
    show ?thesis
    proof (cases e)
      case None
      have "\<exists>ps' st'. check_loop throw label None (Suc i) (ret, ps, st1) =
          Inr (ret \<or> throw \<and> (\<exists>r\<in>set (drop (Suc i) ps). failed st1 r), ps', st') \<and> store_ok st'"
        using True by (intro less.hyps facts(2)) simp
      then show ?thesis
        using True None facts(1,3) by (simp add: check_loop.simps read drop)
    next
      case (Some t)
      let ?st = "terminate_process_and_children (ps ! i) st1"
      have smaller: "length (remove1 (ps ! i) ps) - Suc i < length ps - i"
        using True by (simp add: length_remove1)
      have "\<exists>ps' st'. check_loop throw label None (Suc i) (ret \<or> throw, remove1 (ps ! i) ps, ?st) =
          Inr ((ret \<or> throw) \<or> throw \<and> (\<exists>r\<in>set (drop (Suc i) (remove1 (ps ! i) ps)). failed ?st r), ps', st') \<and> store_ok st'"
        by (rule less.hyps [OF smaller]) (simp add: terminate_facts facts(2))
      moreover have "failed st (ps ! i)"
        using facts(1) Some by simp
      ultimately show ?thesis
        using True facts(4) Some by (auto simp: check_loop.simps [of throw label None i] read drop handle_without_restart)
    qed
  qed (use less.prems in \<open>auto simp: check_loop.simps\<close>)
qed

subsection \<open>A single worker that can be restarted\<close>

lemma int_text_nat_str: "int_text (nat_str n) = Inr n"
proof -
  have "fold (\<lambda>c m. 10 * m + (of_char c - 48)) (nat_str n) 0 = n"
  proof (induction n rule: nat_str.induct)
    case (1 n)
    have digit: "of_char (''0123456789'' ! k) - 48 = k" if "k < 10" for k :: nat
    proof -
      have "k \<in> {0, 1, 2, 3, 4, 5, 6, 7, 8, 9}"
        using that by auto
      then show ?thesis
        by auto
    qed
    show ?case
    proof (cases "n < 10")
      case True
      then show ?thesis
        by (subst nat_str.simps) (simp add: digit)
    next
      case False
      then show ?thesis
        using 1 digit [of "n mod 10"] by (subst nat_str.simps) simp
    qed
  qed
  then show ?thesis
    using nat_str_digits [of n] by (simp add: int_text_def)
qed

lemma py_split_last_sep: "c \<notin> set t \<Longrightarrow> py_split c (s @ c # t) = py_split c s @ [t]"
proof (induction s)
  case (Cons x s)
  then show ?case
    by (cases "py_split c s") auto
qed (simp add: py_split_single)

lemma worker_index_name: "worker_index (label @ ''-Worker-'' @ nat_str i) = Inr i"
proof -
  have "CHR ''-'' \<notin> set (nat_str i)"
    using nat_str_digits [of i] is_digit_char_def [of "CHR ''-''"] by (auto simp: list_all_iff)
  then have "last (py_split (CHR ''-'') ((label @ ''-Worker'') @ CHR ''-'' # nat_str i)) = nat_str i"
    by (subst py_split_last_sep) simp_all
  then show ?thesis
    by (simp add: worker_index_def int_text_nat_str)
qed

text \<open>What a check leaves as it was: which of the known workers failed, and their names\<close>

definition same_workers :: "process_store \<Rightarrow> process_store \<Rightarrow> bool" where
  "same_workers st st' \<longleftrightarrow> store_ok st' \<and> next_ref st \<le> next_ref st' \<and>
     (\<forall>q<next_ref st. failed st' q = failed st q \<and> p_name (procs st' q) = p_name (procs st q))"

lemma check_healthy:
  assumes "store_ok st" "\<not> failed st r"
  shows "\<exists>st'. check_worker_exceptions throw [r] label fn st = Inr (False, [r], st') \<and> same_workers st st' \<and> next_ref st' = next_ref st"
proof -
  obtain e st1 where read: "get_exception r st = (e, st1)"
    by (cases "get_exception r st")
  note facts = get_exception_read [OF assms(1) read]
  have "e = None"
    using facts(1) assms(2) by simp
  then show ?thesis
    using facts(2,3,5,6) by (simp add: check_worker_exceptions_def check_loop.simps read same_workers_def)
qed

lemma check_failed_throw:
  assumes "store_ok st" "failed st r"
  shows "\<exists>st'. check_worker_exceptions True [r] label fn st = Inr (True, [], st') \<and> same_workers st st'"
proof -
  obtain e st1 where read: "get_exception r st = (e, st1)"
    by (cases "get_exception r st")
  note facts = get_exception_read [OF assms(1) read]
  obtain t where "e = Some t"
    using facts(1) assms(2) by auto
  then show ?thesis
    using facts(2-6) by (simp add: check_worker_exceptions_def check_loop.simps read handle_failed_worker_def Let_def same_workers_def terminate_facts)
qed

definition new_worker :: "string \<Rightarrow> nat \<Rightarrow> nat \<Rightarrow> process" where
  "new_worker label i params = \<lparr>p_name = label @ ''-Worker-'' @ nat_str i, p_params = params, p_args = [i], p_pipe = [],
     p_exception = None, p_alive = True\<rparr>"

lemma check_failed_restart:
  assumes "store_ok st" "failed st r" "worker_index (p_name (procs st r)) = Inr i"
  shows "\<exists>st'. check_worker_exceptions False [r] label (Some params) st = Inr (False, [next_ref st], st') \<and> same_workers st st' \<and>
    procs st' (next_ref st) = new_worker label i params"
proof -
  obtain e st1 where read: "get_exception r st = (e, st1)"
    by (cases "get_exception r st")
  note facts = get_exception_read [OF assms(1) read]
  obtain t where e: "e = Some t"
    using facts(1) assms(2) by auto
  let ?st = "terminate_process_and_children r st1"
  define st2 where "st2 = snd (start_single_worker (Some i) label params ?st)"
  have start: "start_single_worker (Some i) label params ?st = (next_ref st, st2)"
    by (simp add: st2_def start_single_worker_def start_process_def terminate_facts facts(6))
  have st': "procs st2 = (procs ?st)(next_ref st := new_worker label i params)" "next_ref st2 = Suc (next_ref st)"
    by (simp_all add: st2_def start_single_worker_def start_process_def new_worker_def fmt_def terminate_facts facts(6))
  have "store_ok ?st"
    using facts(2) by (simp add: terminate_facts)
  then have "store_ok st2"
    by (simp add: store_ok_def st'(1) new_worker_def)
  moreover have "failed st2 q = failed st q \<and> p_name (procs st2 q) = p_name (procs st q)" if "q < next_ref st" for q
  proof -
    have "procs st2 q = procs ?st q"
      using that by (simp add: st'(1))
    then have "failed st2 q = failed ?st q" "p_name (procs st2 q) = p_name (procs ?st q)"
      by (simp_all only: failed_def)
    then show ?thesis
      using facts(3,5) by (simp add: terminate_facts)
  qed
  ultimately have same: "same_workers st st2"
    by (simp add: same_workers_def st'(2))
  have "check_worker_exceptions False [r] label (Some params) st = Inr (False, [next_ref st], st2)"
    using facts(4,5) assms(3) start
    by (simp add: check_worker_exceptions_def check_loop.simps read e handle_failed_worker_def Let_def terminate_facts)
  then show ?thesis
    using same st'(1) by auto
qed

section \<open>The checks of the backend\<close>

text \<open>The refs of the backend are known, and the comparison worker has the name that \<open>start_single_worker\<close> gave it.\<close>

definition backend_ok :: "backend \<Rightarrow> nat \<Rightarrow> bool" where
  "backend_ok be i \<longleftrightarrow> store_ok (store be) \<and> comparison_worker be < next_ref (store be) \<and>
     (\<forall>r\<in>set (analysis_processes be). r < next_ref (store be)) \<and>
     p_name (procs (store be) (comparison_worker be)) = ''Comparison-Worker-'' @ nat_str i"

lemma comparison_worker_index:
  "backend_ok be i \<Longrightarrow> worker_index (p_name (procs (store be) (comparison_worker be))) = Inr i"
  using worker_index_name [of "''Comparison''" i] by (simp add: backend_ok_def)

lemma unpacking_check_healthy:
  assumes "backend_ok be i" "\<not> failed (store be) (work_load_process be)"
  shows "\<exists>st. unpacking_check_exceptions throw be = Inr (False, be\<lparr>store := st\<rparr>) \<and> backend_ok (be\<lparr>store := st\<rparr>) i \<and>
    same_workers (store be) st \<and> next_ref st = next_ref (store be)"
proof -
  obtain st where st: "check_worker_exceptions throw [work_load_process be] ''unpack-load'' (Some 0) (store be) = Inr (False, [work_load_process be], st)"
      "same_workers (store be) st" "next_ref st = next_ref (store be)"
    using check_healthy [OF _ assms(2), of throw "''unpack-load''" "Some 0"] assms(1) by (auto simp: backend_ok_def)
  then have "unpacking_check_exceptions throw be = Inr (False, be\<lparr>store := st\<rparr>)"
    by (simp add: unpacking_check_exceptions_def new_worker_was_started_def)
  moreover have "backend_ok (be\<lparr>store := st\<rparr>) i"
    using assms(1) st(2,3) by (simp add: backend_ok_def same_workers_def)
  ultimately show ?thesis
    using st by blast
qed

lemma comparison_check:
  assumes ok: "backend_ok be i"
  shows "\<exists>be'. comparison_check_exceptions throw be = Inr (throw \<and> failed (store be) (comparison_worker be), be') \<and>
    analysis_processes be' = analysis_processes be \<and> same_workers (store be) (store be') \<and>
    (if failed (store be) (comparison_worker be) \<and> \<not> throw
     then comparison_worker be' = next_ref (store be) \<and> procs (store be') (comparison_worker be') = new_worker ''Comparison'' i 1
     else comparison_worker be' = comparison_worker be)"
proof -
  let ?r = "comparison_worker be" and ?st = "store be"
  have st: "store_ok ?st" "?r < next_ref ?st"
    using ok by (simp_all add: backend_ok_def)
  consider (healthy) "\<not> failed ?st ?r" | (report) "failed ?st ?r" throw | (restart) "failed ?st ?r" "\<not> throw"
    by blast
  then show ?thesis
  proof cases
    case healthy
    then show ?thesis
      using check_healthy [OF st(1) healthy, of throw "''Comparison''" "Some 1"]
      by (auto simp: comparison_check_exceptions_def new_worker_was_started_def)
  next
    case report
    then show ?thesis
      using check_failed_throw [OF st(1) report(1), of "''Comparison''" "Some 1"]
      by (auto simp: comparison_check_exceptions_def)
  next
    case restart
    then show ?thesis
      using check_failed_restart [OF st(1) restart(1) comparison_worker_index [OF ok], of "''Comparison''" 1] st(2)
      by (auto simp: comparison_check_exceptions_def new_worker_was_started_def)
  qed
qed

lemma analysis_check:
  assumes "store_ok (store be)"
  shows "\<exists>st. analysis_check_exceptions throw be =
    Inr (throw \<and> (\<exists>r\<in>set (analysis_processes be). failed (store be) r), be\<lparr>store := st\<rparr>)"
  using check_loop_without_restart [OF assms, of throw "''Scheduler''" 0 False "analysis_processes be"]
  by (auto simp: analysis_check_exceptions_def check_worker_exceptions_def)

text \<open>
  C35. Supervision of the workers: while the work load monitor runs, the check of the backend reports a failure exactly
  if \<open>throw_exceptions\<close> is set and the comparison worker or one of the analysis workers has failed. Otherwise a failed
  comparison worker is replaced by a new one with the same name and number, called with the argument it expects.
\<close>

theorem worker_failures_detected:
  assumes "backend_ok be i" "\<not> failed (store be) (work_load_process be)"
  shows "\<exists>be'. exception_occurred throw be = Inr (throw \<and> (failed (store be) (comparison_worker be) \<or>
        (\<exists>r\<in>set (analysis_processes be). failed (store be) r)), be') \<and>
    (failed (store be) (comparison_worker be) \<and> \<not> throw \<longrightarrow> comparison_worker be' = next_ref (store be)) \<and>
    (\<not> failed (store be) (comparison_worker be) \<or> throw \<longrightarrow> comparison_worker be' = comparison_worker be)"
proof -
  let ?failed = "failed (store be) (comparison_worker be)"
  obtain st1 where first: "unpacking_check_exceptions throw be = Inr (False, be\<lparr>store := st1\<rparr>)"
      "backend_ok (be\<lparr>store := st1\<rparr>) i" "same_workers (store be) st1" "next_ref st1 = next_ref (store be)"
    using unpacking_check_healthy [OF assms] by blast
  have known: "failed st1 r = failed (store be) r" if "r < next_ref (store be)" for r
    using first(3) that by (simp add: same_workers_def)
  have refs: "comparison_worker be < next_ref (store be)" "\<forall>r\<in>set (analysis_processes be). r < next_ref (store be)"
    using assms(1) by (simp_all add: backend_ok_def)
  obtain be2 where second: "comparison_check_exceptions throw (be\<lparr>store := st1\<rparr>) = Inr (throw \<and> ?failed, be2)"
      "analysis_processes be2 = analysis_processes be" "same_workers st1 (store be2)"
      "if ?failed \<and> \<not> throw then comparison_worker be2 = next_ref (store be) else comparison_worker be2 = comparison_worker be"
    using comparison_check [OF first(2), of throw] known [OF refs(1)] first(4) by (auto split: if_splits)
  have "(\<exists>r\<in>set (analysis_processes be2). failed (store be2) r) \<longleftrightarrow> (\<exists>r\<in>set (analysis_processes be). failed (store be) r)"
    using second(2,3) refs(2) known first(4) by (auto simp: same_workers_def)
  then obtain st3 where "analysis_check_exceptions throw be2 =
      Inr (throw \<and> (\<exists>r\<in>set (analysis_processes be). failed (store be) r), be2\<lparr>store := st3\<rparr>)"
    using analysis_check [of be2 throw] second(3) by (auto simp: same_workers_def)
  then have "exception_occurred throw be = Inr (throw \<and> (?failed \<or> (\<exists>r\<in>set (analysis_processes be). failed (store be) r)), be2\<lparr>store := st3\<rparr>)"
    using first(1) second(1) by (auto simp: exception_occurred_def)
  then show ?thesis
    using second(4) by auto
qed

text \<open>A comparison worker that failed beside a running monitor and a running analysis worker\<close>

definition sample_process :: "string \<Rightarrow> string option list \<Rightarrow> process" where
  "sample_process name messages = \<lparr>p_name = name, p_params = 1, p_args = [0], p_pipe = messages, p_exception = None, p_alive = True\<rparr>"

definition sample_backend :: backend where
  "sample_backend = \<lparr>work_load_process = 0, comparison_worker = 1, analysis_processes = [2],
     store = \<lparr>procs = (\<lambda>r. if r = 1 then sample_process (''Comparison-Worker-'' @ nat_str 0) [Some ''trace''] else sample_process [] []),
              next_ref = 3\<rparr>\<rparr>"

theorem worker_failures_detected_witness:
  "\<exists>be'. exception_occurred False sample_backend = Inr (False \<and> (failed (store sample_backend) (comparison_worker sample_backend) \<or>
        (\<exists>r\<in>set (analysis_processes sample_backend). failed (store sample_backend) r)), be') \<and>
    (failed (store sample_backend) (comparison_worker sample_backend) \<and> \<not> False \<longrightarrow> comparison_worker be' = next_ref (store sample_backend)) \<and>
    (\<not> failed (store sample_backend) (comparison_worker sample_backend) \<or> False \<longrightarrow> comparison_worker be' = comparison_worker sample_backend)"
  by (rule worker_failures_detected [of sample_backend 0 False])
    (simp_all add: sample_backend_def sample_process_def backend_ok_def store_ok_def failed_def)

text \<open>
  If the work load monitor has failed and \<open>throw_exceptions\<close> is set, the list is empty when its first element is read:
  the check raises \<open>IndexError\<close> instead of reporting the failure.
\<close>

lemma failed_monitor_raises:
  assumes "store_ok (store be)" "failed (store be) (work_load_process be)"
  shows "exception_occurred True be = Inl IndexError"
  using check_failed_throw [OF assms, of "''unpack-load''" "Some 0"]
  by (auto simp: exception_occurred_def unpacking_check_exceptions_def)

text \<open>
  Otherwise it is restarted with its number as an argument, which \<open>_work_load_monitor\<close> does not take: the new process
  fails as soon as it runs.
\<close>

lemma restarted_monitor_fails:
  assumes "store_ok (store be)" "failed (store be) (work_load_process be)" "work_load_process be < next_ref (store be)"
    and "worker_index (p_name (procs (store be) (work_load_process be))) = Inr i"
  shows "\<exists>be'. unpacking_check_exceptions False be = Inr (False, be') \<and>
    failed (process_run (work_load_process be') outcome (store be')) (work_load_process be')"
  using check_failed_restart [OF assms(1,2,4), of "''unpack-load''" 0] assms(3)
  by (auto simp: unpacking_check_exceptions_def new_worker_was_started_def process_run_def failed_def new_worker_def update_process_procs)

text \<open>Of two failed workers in a row, the second is skipped: it is neither terminated nor removed.\<close>

lemma second_failure_skipped:
  assumes "store_ok st" "failed st a" "a \<noteq> b"
  shows "\<exists>st'. check_worker_exceptions throw [a, b] label None st = Inr (throw, [b], st') \<and>
    p_alive (procs st' b) = p_alive (procs st b)"
proof -
  obtain e st1 where read: "get_exception a st = (e, st1)"
    by (cases "get_exception a st")
  note facts = get_exception_read [OF assms(1) read]
  obtain t where "e = Some t"
    using facts(1) assms(2) by auto
  then show ?thesis
    using facts(4,7) assms(3)
    by (simp add: check_worker_exceptions_def check_loop.simps read handle_without_restart terminate_facts)
qed

end
