(* ===== verification/File_Coverage.thy ===== *)
theory File_Coverage
  imports Comparison
begin

text \<open>
  The comparison plugins \<^verbatim>\<open>src/src/plugins/compare/file_coverage/code/file_coverage.py\<close> and
  \<^verbatim>\<open>src/src/plugins/compare/software/code/software.py\<close>: which files and which software the compared
  objects have in common, which only one of them has, which files are similar and which text files
  changed. Both plugins are values of \<open>compare_plugin\<close>, so that the comparison module can run them.

  The similarity of two hashes (package \<open>ssdeep\<close>) and the maximal cliques of a graph (package
  \<open>networkx\<close>) are parameters. Lists that the code builds from a set are sorted here. The compared
  objects have different UIDs, so that \<open>e != element\<close> on objects is inequality of the records.
\<close>

section \<open>Sets of the compared objects\<close>

text \<open>\<open>set.intersection(*sets)\<close>, which needs at least one set\<close>

definition set_intersection :: "'a set list \<Rightarrow> 'a set result" where
  "set_intersection sets = (if sets = [] then Inl TypeError else Inr (\<Inter>(set sets)))"

text \<open>
  What both plugins do with the set \<open>content fo\<close> of every object: the elements of all objects, the
  elements of one object only, and the rest.
\<close>

definition common_elements :: "(file_object \<Rightarrow> string set result) \<Rightarrow> file_object list \<Rightarrow> string list result" where
  "common_elements content fo_list =
     bindE (bindE (mapE content fo_list) set_intersection) (\<lambda>s. Inr (sorted_list_of_set s))"

definition exclusive_elements ::
  "(file_object \<Rightarrow> string set result) \<Rightarrow> file_object list \<Rightarrow> (string \<times> string list) list result" where
  "exclusive_elements content fo_list =
     foldE (\<lambda>(current_element, other_elements) res.
         bindE (content current_element) (\<lambda>s. bindE (mapE content other_elements) (\<lambda>others.
           Inr (AList.update (uid current_element) (sorted_list_of_set (s - \<Union>(set others))) res))))
       (iter_element_and_rest fo_list) []"

definition partly_common_elements ::
  "(file_object \<Rightarrow> string set result) \<Rightarrow> file_object list \<Rightarrow> string list \<Rightarrow> (string \<times> string list) list \<Rightarrow>
   (string \<times> string list) list result" where
  "partly_common_elements content fo_list common exclusive =
     foldE (\<lambda>current_element res.
         bindE (content current_element) (\<lambda>s. bindE (dict_item exclusive (uid current_element)) (\<lambda>ex.
           Inr (AList.update (uid current_element) (sorted_list_of_set (s - set common - set ex)) res))))
       fo_list []"

text \<open>A dictionary of lists as part of a result that already has the entries \<open>d0\<close>\<close>

definition strings :: "string list \<Rightarrow> pyval" where
  "strings us = PList (map PStr us)"

definition lists_dict :: "pydict \<Rightarrow> (string \<times> string list) list \<Rightarrow> pydict" where
  "lists_dict d0 d = fold (\<lambda>(k, us). AList.update k (strings us)) d d0"

section \<open>The plugin Software\<close>

definition get_software_set :: "file_object \<Rightarrow> string set result" where
  "get_software_set fo =
     bindE (dict_item (processed_analysis fo) ''software_components'') (\<lambda>a.
       bindE (subscript a ''summary'') (\<lambda>s. case s of
           PDict d \<Rightarrow> Inr (fst ` set d)
         | _ \<Rightarrow> Inl AttributeError))"

definition get_intersection_of_software :: "file_object list \<Rightarrow> string list result" where
  "get_intersection_of_software fo_list = common_elements get_software_set fo_list"

definition get_exclusive_software :: "file_object list \<Rightarrow> (string \<times> string list) list result" where
  "get_exclusive_software fo_list = exclusive_elements get_software_set fo_list"

definition get_software_in_more_than_one_but_not_in_all ::
  "file_object list \<Rightarrow> string list \<Rightarrow> (string \<times> string list) list \<Rightarrow> (string \<times> string list) list result" where
  "get_software_in_more_than_one_but_not_in_all fo_list common exclusive =
     partly_common_elements get_software_set fo_list common exclusive"

definition software_compare_function :: "file_object list \<Rightarrow> (string \<times> pydict) list \<Rightarrow> pydict result" where
  "software_compare_function fo_list dependency_results =
     bindE (get_intersection_of_software fo_list) (\<lambda>common.
       bindE (get_exclusive_software fo_list) (\<lambda>exclusive.
         let compare_result =
           [(''software_in_common'', PDict [(''all'', strings common), (''collapse'', PBool True)]),
            (''exclusive_software'', PDict (lists_dict [(''collapse'', PBool True)] exclusive))]
         in if length fo_list > 2 then
              bindE (get_software_in_more_than_one_but_not_in_all fo_list common exclusive) (\<lambda>partly.
                Inr (compare_result @ [(''software_in_more_than_one_but_not_in_all'',
                  PDict (lists_dict [(''collapse'', PBool True)] partly))]))
            else Inr compare_result))"

definition software_plugin :: compare_plugin where
  "software_plugin = \<lparr>cp_name = ''Software'', comparison_deps = [], cp_dependencies = [''software_components''],
     compare_function = software_compare_function\<rparr>"

section \<open>The plugin File\_Coverage\<close>

record coverage_env =
  ssdeep_compare :: "pyval \<Rightarrow> pyval \<Rightarrow> nat result"
  find_cliques :: "(string \<times> string) list \<Rightarrow> string list list"
  ssdeep_ignore_threshold :: nat

definition included_file_set :: "file_object \<Rightarrow> string set result" where
  "included_file_set fo = (case list_of_all_included_files fo of None \<Rightarrow> Inl TypeError | Some fs \<Rightarrow> Inr fs)"

definition get_included_file_sets :: "file_object list \<Rightarrow> string set list result" where
  "get_included_file_sets fo_list = mapE included_file_set fo_list"

definition get_intersection_of_files :: "file_object list \<Rightarrow> (string \<times> string list) list result" where
  "get_intersection_of_files fo_list =
     bindE (common_elements included_file_set fo_list) (\<lambda>common. Inr [(''all'', common)])"

definition fc_get_exclusive_files :: "file_object list \<Rightarrow> (string \<times> string list) list result" where
  "fc_get_exclusive_files fo_list = exclusive_elements included_file_set fo_list"

definition get_files_in_more_than_one_but_not_in_all ::
  "file_object list \<Rightarrow> (string \<times> string list) list \<Rightarrow> (string \<times> string list) list \<Rightarrow>
   (string \<times> string list) list result" where
  "get_files_in_more_than_one_but_not_in_all fo_list files_in_common exclusive_files =
     bindE (dict_item files_in_common ''all'') (\<lambda>common.
       partly_common_elements included_file_set fo_list common exclusive_files)"

text \<open>\<open>entropy > 0.1\<close>, which needs a number\<close>

definition exceeds :: "real \<Rightarrow> pyval \<Rightarrow> bool result" where
  "exceeds x v = (case v of
       PBool b \<Rightarrow> Inr (x < of_bool b)
     | PInt i \<Rightarrow> Inr (x < of_int i)
     | PFloat y \<Rightarrow> Inr (x < y)
     | _ \<Rightarrow> Inl TypeError)"

definition evaluate_entropy_for_list_of_uids ::
  "database \<Rightarrow> string list \<Rightarrow> string \<Rightarrow> (string \<times> string list) list \<Rightarrow> (string \<times> string list) list result" where
  "evaluate_entropy_for_list_of_uids db list_of_uids firmware_uid new_result =
     bindE (foldE (\<lambda>(u, entropy) us. bindE (exceeds (1 / 10) entropy) (\<lambda>b. Inr (if b then us @ [u] else us)))
         (get_entropy_for_uid_list db list_of_uids) [])
       (\<lambda>non_zero_file_ids. Inr (if non_zero_file_ids \<noteq> [] then AList.update firmware_uid non_zero_file_ids new_result
          else new_result))"

definition get_non_zero_common_files ::
  "database \<Rightarrow> (string \<times> string list) list \<Rightarrow> (string \<times> string list) list \<Rightarrow> (string \<times> string list) list result" where
  "get_non_zero_common_files db files_in_all not_in_all =
     bindE (dict_item files_in_all ''all'') (\<lambda>all_files.
       bindE (if all_files \<noteq> [] then evaluate_entropy_for_list_of_uids db all_files ''all'' [] else Inr [])
         (foldE (\<lambda>(firmware_uid, us). evaluate_entropy_for_list_of_uids db us firmware_uid) not_in_all))"

definition handle_partially_common_files ::
  "database \<Rightarrow> file_object list \<Rightarrow> (string \<times> string list) list \<Rightarrow> (string \<times> string list) list \<Rightarrow>
   ((string \<times> string list) list option \<times> (string \<times> string list) list) result" where
  "handle_partially_common_files db fo_list files_in_common exclusive_files =
     bindE (if length fo_list > 2
            then bindE (get_files_in_more_than_one_but_not_in_all fo_list files_in_common exclusive_files)
              (\<lambda>p. Inr (Some p))
            else Inr None) (\<lambda>partly.
       bindE (get_non_zero_common_files db files_in_common (case partly of None \<Rightarrow> [] | Some p \<Rightarrow> p))
         (\<lambda>non_zero. Inr (partly, non_zero)))"

subsection \<open>Similar files\<close>

text \<open>\<open>itertools.combinations(xs, 2)\<close>\<close>

fun combinations2 :: "'a list \<Rightarrow> ('a \<times> 'a) list" where
  "combinations2 [] = []"
| "combinations2 (x # xs) = map (Pair x) xs @ combinations2 xs"

definition get_similar_file_id :: "string \<Rightarrow> string \<Rightarrow> string" where
  "get_similar_file_id file_uid parent_uid = parent_uid @ '':'' @ file_uid"

definition find_similar_file_for ::
  "coverage_env \<Rightarrow> string \<Rightarrow> string \<Rightarrow> file_object \<Rightarrow> pydict \<Rightarrow> ((string \<times> string) \<times> nat) list result" where
  "find_similar_file_for env file_uid parent_uid comparison_fo hash_dict = (case map_of hash_dict file_uid of
       None \<Rightarrow> Inr []
     | Some hash_one \<Rightarrow>
         if \<not> truthy hash_one then Inr []
         else foldE (\<lambda>potential_match found. case map_of hash_dict potential_match of
                None \<Rightarrow> Inr found
              | Some PNone \<Rightarrow> Inr found
              | Some hash_two \<Rightarrow> bindE (ssdeep_compare env hash_one hash_two) (\<lambda>similarity.
                  Inr (if similarity > ssdeep_ignore_threshold env
                    then found @ [((get_similar_file_id file_uid parent_uid,
                      get_similar_file_id potential_match (uid comparison_fo)), similarity)]
                    else found)))
            (sorted_list_of_set (files_included comparison_fo)) [])"

text \<open>The cliques of the graph with the given edges\<close>

definition generate_similarity_sets :: "coverage_env \<Rightarrow> (string \<times> string) list \<Rightarrow> string list list" where
  "generate_similarity_sets env list_of_pairs = map sort (find_cliques env list_of_pairs)"

definition pair_id :: "string \<times> string \<Rightarrow> string" where
  "pair_id p = convert_uid_list_to_compare_id [fst p, snd p]"

definition add_similar_files ::
  "coverage_env \<Rightarrow> pydict \<Rightarrow> (string \<times> string list) list \<Rightarrow> file_object \<times> file_object \<Rightarrow>
   ((string \<times> string) \<times> nat) list \<Rightarrow> ((string \<times> string) \<times> nat) list result" where
  "add_similar_files env hash_dict exclusive_files = (\<lambda>(parent_one, parent_two) found.
     bindE (dict_item exclusive_files (uid parent_one)) (\<lambda>files.
       foldE (\<lambda>file_one fs. bindE (find_similar_file_for env file_one (uid parent_one) parent_two hash_dict)
           (\<lambda>new. Inr (fs @ new))) files found))"

definition get_similar_files ::
  "coverage_env \<Rightarrow> database \<Rightarrow> file_object list \<Rightarrow> (string \<times> string list) list \<Rightarrow>
   (string list list \<times> (string \<times> nat) list) result" where
  "get_similar_files env db fo_list exclusive_files =
     bindE (get_included_file_sets fo_list) (\<lambda>sets.
       let all_uids = set (map uid fo_list) \<union> \<Union>(set sets);
           hash_dict = get_ssdeep_hash_for_uid_list db (sorted_list_of_set all_uids)
       in bindE (foldE (add_similar_files env hash_dict exclusive_files) (combinations2 fo_list) []) (\<lambda>found.
            let similarity = fold (\<lambda>(p, v). AList.update (pair_id p) v) found []
            in Inr (generate_similarity_sets env (remdups (map fst found)), similarity)))"

text \<open>The character between the two numbers is the figure dash, here as its UTF-8 bytes.\<close>

definition get_similarity_value :: "string list \<Rightarrow> (string \<times> nat) list \<Rightarrow> pyval" where
  "get_similarity_value group_of_similar_files similarity_dict =
     (case List.map_filter (\<lambda>p. map_of similarity_dict (pair_id p)) (combinations2 group_of_similar_files) of
        [] \<Rightarrow> PStr []
      | [v] \<Rightarrow> PInt (int v)
      | vs \<Rightarrow> PStr (nat_str (Min (set vs)) @ '' '' @ [CHR 0xE2, CHR 0x80, CHR 0x92] @ '' '' @ nat_str (Max (set vs))))"

text \<open>\<open>parent_id, file_id = similar_file_id.split(':')\<close>\<close>

definition split_file_id :: "string \<Rightarrow> (string \<times> string) result" where
  "split_file_id i = (case py_split (CHR '':'') i of [p, f] \<Rightarrow> Inr (p, f) | _ \<Rightarrow> Inl ValueError)"

definition get_similar_file_group_id :: "string list \<Rightarrow> string result" where
  "get_similar_file_group_id similar_file_group =
     foldE (\<lambda>i group_id. bindE (split_file_id i) (\<lambda>(parent_uid, file_uid).
        Inr (group_id @ take 4 parent_uid @ take 4 file_uid))) similar_file_group []"

definition combine_similarity_results ::
  "string list list \<Rightarrow> file_object list \<Rightarrow> (string \<times> nat) list \<Rightarrow> pydict result" where
  "combine_similarity_results similar_files fo_list similarity =
     foldE (\<lambda>g result_dict.
        bindE (foldE (\<lambda>i match_dict. bindE (split_file_id i) (\<lambda>(parent_id, file_id).
            Inr (AList.update parent_id (PStr file_id) match_dict)))
          g (fold (\<lambda>fo. AList.update (uid fo) PNone) fo_list [])) (\<lambda>match_dict.
        bindE (get_similar_file_group_id g) (\<lambda>group_id.
          Inr (AList.update group_id
            (PDict (AList.update ''similarity'' (get_similarity_value g similarity) match_dict)) result_dict))))
       similar_files []"

subsection \<open>Changed text files\<close>

definition find_changed_text_files ::
  "database \<Rightarrow> file_object \<Rightarrow> file_object \<Rightarrow> string list \<Rightarrow> (string \<times> (string \<times> string) list) list" where
  "find_changed_text_files db fo_a fo_b common_files =
     (let vfp_a = get_vfp_of_included_text_files db (uid fo_a) (set common_files);
          vfp_b = get_vfp_of_included_text_files db (uid fo_b) (set common_files)
      in fold (\<lambda>common_path changed.
            fold (\<lambda>uid_1. fold (\<lambda>uid_2. dict_modify common_path [] (\<lambda>ps. ps @ [(uid_1, uid_2)]))
                (sorted_list_of_set (case map_of vfp_b common_path of None \<Rightarrow> {} | Some us \<Rightarrow> us)))
              (sorted_list_of_set (case map_of vfp_a common_path of None \<Rightarrow> {} | Some us \<Rightarrow> us)) changed)
          (sorted_list_of_set (fst ` set vfp_a \<inter> fst ` set vfp_b)) [])"

definition pairs_value :: "(string \<times> string) list \<Rightarrow> pyval" where
  "pairs_value ps = PList (map (\<lambda>(a, b). PTuple [PStr a, PStr b]) ps)"

text \<open>\<open>result['collapse'] = False\<close> for the sections that are there when the loop runs\<close>

definition coverage_section :: "string \<Rightarrow> (string \<times> string list) list \<Rightarrow> string \<times> pyval" where
  "coverage_section k d = (k, PDict (AList.update ''collapse'' (PBool False) (lists_dict [] d)))"

definition coverage_compare_function ::
  "coverage_env \<Rightarrow> database \<Rightarrow> file_object list \<Rightarrow> (string \<times> pydict) list \<Rightarrow> pydict result" where
  "coverage_compare_function env db fo_list dependency_results =
     bindE (get_intersection_of_files fo_list) (\<lambda>common.
       bindE (fc_get_exclusive_files fo_list) (\<lambda>exclusive.
         bindE (handle_partially_common_files db fo_list common exclusive) (\<lambda>(partly, non_zero).
           bindE (get_similar_files env db fo_list exclusive) (\<lambda>(similar_files, similarity).
             bindE (combine_similarity_results similar_files fo_list similarity) (\<lambda>similar.
               let compare_result = [coverage_section ''files_in_common'' common,
                     coverage_section ''exclusive_files'' exclusive] @
                   (case partly of None \<Rightarrow> []
                    | Some p \<Rightarrow> [coverage_section ''files_in_more_than_one_but_not_in_all'' p]) @
                   [coverage_section ''non_zero_files_in_common'' non_zero, (''similar_files'', PDict similar)]
               in case fo_list of
                    [a, b] \<Rightarrow>
                      if is_firmware_object a \<and> is_firmware_object b
                      then bindE (dict_item common ''all'') (\<lambda>common_files.
                        Inr (compare_result @ [(''changed_text_files'',
                          PDict (map (\<lambda>(p, us). (p, pairs_value us)) (find_changed_text_files db a b common_files)))]))
                      else Inr compare_result
                  | _ \<Rightarrow> Inr compare_result)))))"

definition file_coverage_plugin :: "coverage_env \<Rightarrow> database \<Rightarrow> compare_plugin" where
  "file_coverage_plugin env db = \<lparr>cp_name = ''File_Coverage'', comparison_deps = [], cp_dependencies = [],
     compare_function = coverage_compare_function env db\<rparr>"

section \<open>A partition of the elements\<close>

text \<open>
  The contract of a comparison by elements: what is common, what only one object has, and the rest of
  every object.
\<close>

locale set_comparison =
  fixes valid :: "'o list \<Rightarrow> bool"
    and elems :: "'o \<Rightarrow> 'x set"
    and common :: "'o list \<Rightarrow> 'x set"
    and exclusive :: "'o list \<Rightarrow> 'o \<Rightarrow> 'x set"
    and partly :: "'o list \<Rightarrow> 'o \<Rightarrow> 'x set"
  assumes common_law: "valid os \<Longrightarrow> x \<in> common os \<longleftrightarrow> (\<forall>b\<in>set os. x \<in> elems b)"
    and exclusive_law: "valid os \<Longrightarrow> a \<in> set os \<Longrightarrow>
      x \<in> exclusive os a \<longleftrightarrow> x \<in> elems a \<and> (\<forall>b\<in>set os - {a}. x \<notin> elems b)"
    and partly_law: "valid os \<Longrightarrow> a \<in> set os \<Longrightarrow> partly os a = elems a - common os - exclusive os a"
begin

lemma partly_iff:
  "valid os \<Longrightarrow> a \<in> set os \<Longrightarrow> x \<in> partly os a \<longleftrightarrow>
     x \<in> elems a \<and> (\<exists>b\<in>set os - {a}. x \<in> elems b) \<and> (\<exists>b\<in>set os. x \<notin> elems b)"
  using partly_law [of os a] common_law [of os x] exclusive_law [of os a x] by blast

lemma partition:
  assumes "valid os" "a \<in> set os" "b \<in> set os" "a \<noteq> b"
  shows "elems a = common os \<union> exclusive os a \<union> partly os a"
    and "common os \<inter> exclusive os a = {}" "(common os \<union> exclusive os a) \<inter> partly os a = {}"
    and "exclusive os a \<inter> exclusive os b = {}"
proof -
  have "common os \<subseteq> elems a" "exclusive os a \<subseteq> elems a"
    using assms(1,2) common_law exclusive_law by blast+
  then show "elems a = common os \<union> exclusive os a \<union> partly os a"
    using partly_law [OF assms(1,2)] by blast
  show "(common os \<union> exclusive os a) \<inter> partly os a = {}"
    using partly_law [OF assms(1,2)] by blast
  have "x \<notin> exclusive os a" if "x \<in> elems b" for x
    using exclusive_law [OF assms(1,2)] assms(3,4) that by blast
  moreover have "x \<in> elems b" if "x \<in> common os \<or> x \<in> exclusive os b" for x
    using common_law [OF assms(1)] exclusive_law [OF assms(1,3)] assms(3) that by blast
  ultimately show "common os \<inter> exclusive os a = {}" "exclusive os a \<inter> exclusive os b = {}"
    by blast+
qed

lemma two_objects:
  assumes "valid [a, b]" "a \<noteq> b"
  shows "partly [a, b] a = {}" "partly [a, b] b = {}"
  using assms partly_iff [of "[a, b]"] by auto

end

text \<open>The comparison of the model for the content \<open>c\<close> of the objects\<close>

definition comparable :: "(file_object \<Rightarrow> string set result) \<Rightarrow> file_object list \<Rightarrow> bool" where
  "comparable c fos \<longleftrightarrow> fos \<noteq> [] \<and> distinct (map uid fos) \<and> (\<forall>fo\<in>set fos. \<exists>S. c fo = Inr S \<and> finite S)"

definition elements_of :: "(file_object \<Rightarrow> string set result) \<Rightarrow> file_object \<Rightarrow> string set" where
  "elements_of c fo = (case c fo of Inl _ \<Rightarrow> {} | Inr S \<Rightarrow> S)"

definition common_of :: "(file_object \<Rightarrow> string set result) \<Rightarrow> file_object list \<Rightarrow> string set" where
  "common_of c fos = (case common_elements c fos of Inl _ \<Rightarrow> {} | Inr us \<Rightarrow> set us)"

definition list_at :: "(string \<times> string list) list result \<Rightarrow> string \<Rightarrow> string set" where
  "list_at r u = (case bindE r (\<lambda>d. dict_item d u) of Inl _ \<Rightarrow> {} | Inr us \<Rightarrow> set us)"

definition exclusive_of :: "(file_object \<Rightarrow> string set result) \<Rightarrow> file_object list \<Rightarrow> file_object \<Rightarrow> string set" where
  "exclusive_of c fos fo = list_at (exclusive_elements c fos) (uid fo)"

definition partly_of :: "(file_object \<Rightarrow> string set result) \<Rightarrow> file_object list \<Rightarrow> file_object \<Rightarrow> string set" where
  "partly_of c fos fo =
     list_at (bindE (common_elements c fos) (\<lambda>common. bindE (exclusive_elements c fos) (\<lambda>exclusive.
       partly_common_elements c fos common exclusive))) (uid fo)"

lemma foldE_updates:
  assumes "\<And>x d. x \<in> set xs \<Longrightarrow> f x d = Inr (AList.update (k x) (v x) d)"
    and "distinct (map k xs)" "k ` set xs \<inter> fst ` set d = {}"
  shows "foldE f xs d = Inr (d @ map (\<lambda>x. (k x, v x)) xs)"
  using assms
proof (induction xs arbitrary: d)
  case (Cons x xs)
  have "f x d = Inr (d @ [(k x, v x)])"
    using Cons.prems(1) [of x d] Cons.prems(3) update_new_key [of "k x" d] by simp
  then show ?case
    using Cons.IH [of "d @ [(k x, v x)]"] Cons.prems by auto
qed simp

lemma comparableD:
  assumes "comparable c fos" "fo \<in> set fos"
  shows "c fo = Inr (elements_of c fo)" "finite (elements_of c fo)"
  using assms by (auto simp: comparable_def elements_of_def)

lemma comparable_mapE:
  assumes "comparable c fos" "set xs \<subseteq> set fos"
  shows "mapE c xs = Inr (map (elements_of c) xs)"
  using comparableD [OF assms(1)] assms(2) by (intro mapE_all_Inr) blast

lemma common_elements_eq:
  assumes "comparable c fos"
  shows "common_elements c fos = Inr (sorted_list_of_set (\<Inter>(elements_of c ` set fos)))"
  using assms comparable_mapE [OF assms subset_refl]
  by (simp add: common_elements_def set_intersection_def comparable_def)

definition exclusive_set :: "(file_object \<Rightarrow> string set result) \<Rightarrow> file_object list \<Rightarrow> file_object \<Rightarrow> string set" where
  "exclusive_set c fos fo = elements_of c fo - \<Union>(elements_of c ` (set fos - {fo}))"

lemma exclusive_elements_eq:
  assumes "comparable c fos"
  shows "exclusive_elements c fos = Inr (map (\<lambda>fo. (uid fo, sorted_list_of_set (exclusive_set c fos fo))) fos)"
proof -
  have "foldE (\<lambda>(a, bs) res. bindE (c a) (\<lambda>s. bindE (mapE c bs) (\<lambda>others.
           Inr (AList.update (uid a) (sorted_list_of_set (s - \<Union>(set others))) res)))) (iter_element_and_rest fos) [] =
     Inr ([] @ map (\<lambda>x. ((uid \<circ> fst) x, sorted_list_of_set (exclusive_set c fos (fst x)))) (iter_element_and_rest fos))"
  proof (rule foldE_updates)
    fix x d
    assume "x \<in> set (iter_element_and_rest fos)"
    then obtain a where a: "a \<in> set fos" "x = (a, filter (\<lambda>e. e \<noteq> a) fos)"
      by (auto simp: iter_element_and_rest_def)
    have "mapE c (filter (\<lambda>e. e \<noteq> a) fos) = Inr (map (elements_of c) (filter (\<lambda>e. e \<noteq> a) fos))"
      by (rule comparable_mapE [OF assms]) auto
    moreover have "{e \<in> set fos. e \<noteq> a} = set fos - {a}"
      by auto
    ultimately show "(case x of (a, bs) \<Rightarrow> \<lambda>res. bindE (c a) (\<lambda>s. bindE (mapE c bs) (\<lambda>others.
           Inr (AList.update (uid a) (sorted_list_of_set (s - \<Union>(set others))) res)))) d =
        Inr (AList.update ((uid \<circ> fst) x) (sorted_list_of_set (exclusive_set c fos (fst x))) d)"
      using comparableD(1) [OF assms a(1)] by (simp add: a(2) exclusive_set_def)
  qed (use assms in \<open>simp_all add: iter_element_and_rest_def comparable_def comp_def\<close>)
  then show ?thesis
    by (simp add: exclusive_elements_def) (simp add: iter_element_and_rest_def comp_def)
qed

lemma map_of_uids:
  "distinct (map uid fos) \<Longrightarrow> fo \<in> set fos \<Longrightarrow> map_of (map (\<lambda>fo. (uid fo, f fo)) fos) (uid fo) = Some (f fo)"
  by (rule map_of_is_SomeI) (auto simp: comp_def)

lemma exclusive_set_finite [simp]: "comparable c fos \<Longrightarrow> fo \<in> set fos \<Longrightarrow> finite (exclusive_set c fos fo)"
  by (simp add: exclusive_set_def comparableD(2))

lemma common_finite [simp]: "comparable c fos \<Longrightarrow> finite (\<Inter>(elements_of c ` set fos))"
  by (metis comparableD(2) comparable_def empty_set finite_INT last_in_set)

lemma partly_elements_eq:
  assumes "comparable c fos"
    and "\<And>fo. fo \<in> set fos \<Longrightarrow> map_of exclusive (uid fo) = Some (sorted_list_of_set (exclusive_set c fos fo))"
  shows "partly_common_elements c fos common exclusive =
     Inr (map (\<lambda>fo. (uid fo, sorted_list_of_set (elements_of c fo - set common - exclusive_set c fos fo))) fos)"
proof -
  have "dict_item exclusive (uid fo) = Inr (sorted_list_of_set (exclusive_set c fos fo))" if "fo \<in> set fos" for fo
    using assms(2) [OF that] by (simp add: dict_simps)
  then show ?thesis
    using assms(1) comparableD(1) [OF assms(1)] unfolding partly_common_elements_def
    by (subst foldE_updates [where k = uid and
          v = "\<lambda>fo. sorted_list_of_set (elements_of c fo - set common - exclusive_set c fos fo)"])
      (auto simp: comparable_def)
qed

lemma exclusive_of_eq:
  assumes "comparable c fos" "fo \<in> set fos"
  shows "exclusive_of c fos fo = exclusive_set c fos fo"
proof -
  have "distinct (map uid fos)"
    using assms(1) by (simp add: comparable_def)
  then show ?thesis
    using assms
    by (simp add: exclusive_of_def list_at_def exclusive_elements_eq dict_item_def map_of_uids)
qed

lemma partly_of_eq:
  assumes "comparable c fos" "fo \<in> set fos"
  shows "partly_of c fos fo = elements_of c fo - \<Inter>(elements_of c ` set fos) - exclusive_set c fos fo"
proof -
  have d: "distinct (map uid fos)"
    using assms(1) by (simp add: comparable_def)
  have "finite (elements_of c fo)"
    using assms comparableD(2) by blast
  then show ?thesis
    using assms d
    by (simp add: partly_of_def list_at_def exclusive_elements_eq common_elements_eq
        partly_elements_eq [OF assms(1)] dict_item_def map_of_uids)
qed

lemma common_of_eq: "comparable c fos \<Longrightarrow> common_of c fos = \<Inter>(elements_of c ` set fos)"
  by (simp add: common_of_def common_elements_eq)

lemma set_comparison_model:
  "set_comparison (comparable c) (elements_of c) (common_of c) (exclusive_of c) (partly_of c)"
  by unfold_locales (auto simp: common_of_eq exclusive_of_eq partly_of_eq exclusive_set_def)

interpretation files: set_comparison "comparable included_file_set" "elements_of included_file_set"
  "common_of included_file_set" "exclusive_of included_file_set" "partly_of included_file_set"
  by (rule set_comparison_model)

interpretation software: set_comparison "comparable get_software_set" "elements_of get_software_set"
  "common_of get_software_set" "exclusive_of get_software_set" "partly_of get_software_set"
  by (rule set_comparison_model)

section \<open>Similar files\<close>

text \<open>
  What the plugin relies on: the database holds the hashes as \<open>ssdeep\<close> writes them (the field of the file hashes
  plugin is filled by \<open>ssdeep.Hash().digest()\<close> or empty) and the entropies as numbers, \<open>ssdeep\<close> can compare two hashes of its
  own form (it raises an exception for other strings), and a clique consists of nodes of the graph that are joined
  pairwise.

  The form of a hash: the block size, three times a power of two, and two signatures in the characters of the
  base 64 encoding of at most 64 and 32 characters.
\<close>

definition ssdeep_chars :: string where
  "ssdeep_chars = ''ABCDEFGHIJKLMNOPQRSTUVWXYZabcdefghijklmnopqrstuvwxyz0123456789+/''"

definition ssdeep_block_sizes :: "string list" where
  "ssdeep_block_sizes = [
     ''3'', ''6'', ''12'', ''24'', ''48'', ''96'', ''192'', ''384'', ''768'', ''1536'', ''3072'', ''6144'',
     ''12288'', ''24576'', ''49152'', ''98304'', ''196608'', ''393216'', ''786432'', ''1572864'', ''3145728'',
     ''6291456'', ''12582912'', ''25165824'', ''50331648'', ''100663296'', ''201326592'', ''402653184'',
     ''805306368'', ''1610612736'', ''3221225472'']"

definition ssdeep_hash :: "string \<Rightarrow> bool" where
  "ssdeep_hash h \<longleftrightarrow> (case py_split (CHR '':'') h of
       [b, s, t] \<Rightarrow> b \<in> set ssdeep_block_sizes \<and> length s \<le> 64 \<and> length t \<le> 32 \<and>
         list_all (\<lambda>c. c \<in> set ssdeep_chars) (s @ t)
     | _ \<Rightarrow> False)"

fun is_hash_value :: "pyval \<Rightarrow> bool" where
  "is_hash_value (PStr h) = ssdeep_hash h"
| "is_hash_value v = (v = PNone)"

fun is_entropy_value :: "pyval \<Rightarrow> bool" where
  "is_entropy_value (PInt _) = True"
| "is_entropy_value (PFloat _) = True"
| "is_entropy_value v = (v = PNone)"

definition coverage_row :: "(string \<times> string) \<times> analysis_entry \<Rightarrow> bool" where
  "coverage_row row \<longleftrightarrow> (case row of ((u, p), a) \<Rightarrow>
     (p = ''file_hashes'' \<longrightarrow> is_hash_value (json_field (ae_result a) ''ssdeep'')) \<and>
     (p = ''unpacker'' \<longrightarrow> is_entropy_value (json_field (ae_result a) ''entropy'')))"

definition coverage_data :: "database \<Rightarrow> bool" where
  "coverage_data db \<longleftrightarrow> list_all coverage_row (analysis_table db)"

definition ssdeep_compares :: "coverage_env \<Rightarrow> bool" where
  "ssdeep_compares env \<longleftrightarrow>
     (\<forall>h k. ssdeep_hash h \<longrightarrow> ssdeep_hash k \<longrightarrow> (\<exists>n\<le>100. ssdeep_compare env (PStr h) (PStr k) = Inr n))"

definition cliques_of_graph :: "coverage_env \<Rightarrow> bool" where
  "cliques_of_graph env \<longleftrightarrow> (\<forall>es. \<forall>c\<in>set (find_cliques env es). distinct c \<and>
     set c \<subseteq> fst ` set es \<union> snd ` set es \<and> (\<forall>x\<in>set c. \<forall>y\<in>set c. x \<noteq> y \<longrightarrow> (x, y) \<in> set es \<or> (y, x) \<in> set es))"

lemma result_field_values:
  assumes "(u, v) \<in> set (result_field_for_uid_list plugin field db us)"
  shows "\<exists>a. ((u, plugin), a) \<in> set (analysis_table db) \<and> v = json_field (ae_result a) field \<and> v \<noteq> PNone"
proof -
  define g where "g = (\<lambda>((u, p), a) d. if p = plugin \<and> u \<in> set us \<and> json_field (ae_result (a :: analysis_entry)) field \<noteq> PNone
        then AList.update u (json_field (ae_result a) field) d else (d :: pydict))"
  have "\<exists>a. ((u, plugin), a) \<in> set rows \<and> v = json_field (ae_result a) field \<and> v \<noteq> PNone"
    if "(u, v) \<in> set (fold g rows [])" for rows
    using that
  proof (induction rows rule: rev_induct)
    case (snoc row rows)
    have "(u, v) \<in> set (fold g rows []) \<or> (\<exists>a. row = ((u, plugin), a) \<and> v = json_field (ae_result a) field \<and> v \<noteq> PNone)"
      using snoc.prems set_update_subset by (fastforce simp: g_def split: prod.splits if_splits)
    then show ?case
      using snoc.IH by auto
  qed simp
  moreover have "result_field_for_uid_list plugin field db us = fold g (analysis_table db) []"
    unfolding result_field_for_uid_list_def g_def ..
  ultimately show ?thesis
    using assms by metis
qed

lemma ssdeep_hash_string:
  assumes "coverage_data db" "map_of (get_ssdeep_hash_for_uid_list db us) u = Some h"
  shows "\<exists>s. h = PStr s \<and> ssdeep_hash s"
proof -
  obtain a where a: "((u, ''file_hashes''), a) \<in> set (analysis_table db)" "h = json_field (ae_result a) ''ssdeep''" "h \<noteq> PNone"
    using result_field_values [OF map_of_SomeD [OF assms(2) [unfolded get_ssdeep_hash_for_uid_list_def]]] by blast
  then have "is_hash_value h"
    using assms(1) by (fastforce simp: coverage_data_def coverage_row_def list_all_iff)
  then show ?thesis
    using a(3) by (cases h) simp_all
qed

lemma entropy_number:
  assumes "coverage_data db" "(u, v) \<in> set (get_entropy_for_uid_list db us)"
  shows "\<exists>b. exceeds x v = Inr b"
proof -
  obtain a where a: "((u, ''unpacker''), a) \<in> set (analysis_table db)" "v = json_field (ae_result a) ''entropy''" "v \<noteq> PNone"
    using result_field_values [OF assms(2) [unfolded get_entropy_for_uid_list_def]] by blast
  then have "is_entropy_value v"
    using assms(1) by (fastforce simp: coverage_data_def coverage_row_def list_all_iff)
  then show ?thesis
    using a(3) by (cases v) (simp_all add: exceeds_def)
qed

lemma entropy_evaluation_returns:
  assumes "coverage_data db"
  shows "\<exists>r. evaluate_entropy_for_list_of_uids db us k d = Inr r"
proof -
  have "\<exists>r. foldE (\<lambda>(u, entropy) us. bindE (exceeds (1 / 10) entropy) (\<lambda>b. Inr (if b then us @ [u] else us)))
      (get_entropy_for_uid_list db us) [] = Inr r \<and> True"
    using entropy_number [OF assms] by (intro foldE_total) (auto simp: result_simps)
  then show ?thesis
    by (auto simp: evaluate_entropy_for_list_of_uids_def)
qed

lemma non_zero_returns:
  assumes "coverage_data db"
  shows "\<exists>r. get_non_zero_common_files db [(''all'', us)] not_in_all = Inr r"
proof -
  obtain d where d: "(if us \<noteq> [] then evaluate_entropy_for_list_of_uids db us ''all'' [] else Inr []) = Inr d"
    using entropy_evaluation_returns [OF assms] by fastforce
  have "\<exists>r. foldE (\<lambda>(fw, us). evaluate_entropy_for_list_of_uids db us fw) not_in_all d = Inr r \<and> True"
    using entropy_evaluation_returns [OF assms] by (intro foldE_total) auto
  then show ?thesis
    using d by (simp add: get_non_zero_common_files_def dict_item_def)
qed

text \<open>The pairs that are found for the objects \<open>a\<close> and \<open>b\<close> and the file \<open>f\<close> of \<open>a\<close>\<close>

definition similar_to ::
  "coverage_env \<Rightarrow> pydict \<Rightarrow> file_object \<Rightarrow> file_object \<Rightarrow> string \<Rightarrow> ((string \<times> string) \<times> nat) set" where
  "similar_to env hash_dict a b f = {((get_similar_file_id f (uid a), get_similar_file_id g (uid b)), n) | g n.
     g \<in> files_included b \<and> (\<exists>h k. map_of hash_dict f = Some (PStr h) \<and> h \<noteq> [] \<and> map_of hash_dict g = Some (PStr k) \<and>
       ssdeep_compare env (PStr h) (PStr k) = Inr n \<and> ssdeep_ignore_threshold env < n)}"

lemma find_similar_file_for_spec:
  assumes "ssdeep_compares env" "finite (files_included b)"
    and strings: "\<And>u v. map_of hash_dict u = Some v \<Longrightarrow> \<exists>s. v = PStr s \<and> ssdeep_hash s"
  shows "\<exists>ys. set ys = similar_to env hash_dict a b f \<and>
     find_similar_file_for env f (uid a) b hash_dict = Inr ys"
proof (cases "\<exists>h. map_of hash_dict f = Some (PStr h) \<and> h \<noteq> []")
  case False
  then have "find_similar_file_for env f (uid a) b hash_dict = Inr []"
    using strings [of f] by (auto simp: find_similar_file_for_def split: option.splits)
  moreover have "similar_to env hash_dict a b f = {}"
    using False by (auto simp: similar_to_def)
  ultimately show ?thesis
    by simp
next
  case True
  then obtain h where h: "map_of hash_dict f = Some (PStr h)" "h \<noteq> []"
    by blast
  let ?ids = "\<lambda>g. (get_similar_file_id f (uid a), get_similar_file_id g (uid b))"
  let ?S = "\<lambda>g. {(?ids g, n) | n. \<exists>k. map_of hash_dict g = Some (PStr k) \<and>
      ssdeep_compare env (PStr h) (PStr k) = Inr n \<and> ssdeep_ignore_threshold env < n}"
  let ?step = "\<lambda>g found. case map_of hash_dict g of
        None \<Rightarrow> Inr found
      | Some PNone \<Rightarrow> Inr found
      | Some hash_two \<Rightarrow> bindE (ssdeep_compare env (PStr h) hash_two) (\<lambda>similarity.
          Inr (if similarity > ssdeep_ignore_threshold env then found @ [(?ids g, similarity)] else found))"
  have "\<exists>ys. set ys = (\<Union>g\<in>set (sorted_list_of_set (files_included b)). ?S g) \<and>
      (\<forall>acc. foldE ?step (sorted_list_of_set (files_included b)) acc = Inr (acc @ ys))"
  proof (rule foldE_collects)
    fix g
    show "\<exists>ys. set ys = ?S g \<and> (\<forall>acc. ?step g acc = Inr (acc @ ys))"
    proof (cases "map_of hash_dict g")
      case None
      then show ?thesis by simp
    next
      case (Some v)
      then obtain k where k: "v = PStr k" "ssdeep_hash k"
        using strings by blast
      moreover have "ssdeep_hash h"
        using strings [OF h(1)] by simp
      ultimately obtain n where "ssdeep_compare env (PStr h) (PStr k) = Inr n"
        using assms(1) by (auto simp: ssdeep_compares_def)
      then show ?thesis
        using Some k
        by (intro exI [of _ "if ssdeep_ignore_threshold env < n then [(?ids g, n)] else []"]) auto
    qed
  qed
  moreover have "(\<Union>g\<in>set (sorted_list_of_set (files_included b)). ?S g) = similar_to env hash_dict a b f"
    using h assms(2) by (auto simp: similar_to_def)
  ultimately show ?thesis
    using h by (auto simp: find_similar_file_for_def)
qed

lemma add_similar_files_spec:
  assumes "ssdeep_compares env" "finite (files_included b)" "map_of exclusive (uid a) = Some us"
    and "\<And>u v. map_of hash_dict u = Some v \<Longrightarrow> \<exists>s. v = PStr s \<and> ssdeep_hash s"
  shows "\<exists>ys. set ys = (\<Union>f\<in>set us. similar_to env hash_dict a b f) \<and>
     (\<forall>acc. add_similar_files env hash_dict exclusive (a, b) acc = Inr (acc @ ys))"
proof -
  have "\<exists>ys. set ys = (\<Union>f\<in>set us. similar_to env hash_dict a b f) \<and>
     (\<forall>acc. foldE (\<lambda>file_one fs. bindE (find_similar_file_for env file_one (uid a) b hash_dict) (\<lambda>new. Inr (fs @ new)))
       us acc = Inr (acc @ ys))"
    using find_similar_file_for_spec [OF assms(1,2,4)] by (intro foldE_collects) fastforce
  then show ?thesis
    using assms(3) by (simp add: add_similar_files_def dict_item_def)
qed

definition hashes_of :: "database \<Rightarrow> file_object list \<Rightarrow> pydict" where
  "hashes_of db fos = get_ssdeep_hash_for_uid_list db
     (sorted_list_of_set (uid ` set fos \<union> \<Union>(elements_of included_file_set ` set fos)))"

definition similar_pairs :: "coverage_env \<Rightarrow> database \<Rightarrow> file_object list \<Rightarrow> ((string \<times> string) \<times> nat) set" where
  "similar_pairs env db fos = (\<Union>(a, b)\<in>set (combinations2 fos). \<Union>f\<in>exclusive_set included_file_set fos a.
     similar_to env (hashes_of db fos) a b f)"

lemma combinations2_distinct:
  "distinct (map f xs) \<Longrightarrow> (a, b) \<in> set (combinations2 xs) \<Longrightarrow> a \<in> set xs \<and> b \<in> set xs \<and> f a \<noteq> f b"
  by (induction xs) auto

text \<open>The conditions under which the plugin is run on the objects \<open>fos\<close>\<close>

definition coverage_input :: "coverage_env \<Rightarrow> database \<Rightarrow> file_object list \<Rightarrow> bool" where
  "coverage_input env db fos \<longleftrightarrow> comparable included_file_set fos \<and> coverage_data db \<and> ssdeep_compares env \<and>
     cliques_of_graph env \<and> (\<forall>fo\<in>set fos. finite (files_included fo) \<and>
       (\<forall>u\<in>insert (uid fo) (elements_of included_file_set fo \<union> files_included fo). CHR '':'' \<notin> set u))"

lemma get_similar_files_spec:
  assumes "coverage_input env db fos" "exclusive_elements included_file_set fos = Inr exclusive"
  shows "\<exists>found. set found = similar_pairs env db fos \<and> get_similar_files env db fos exclusive =
     Inr (generate_similarity_sets env (remdups (map fst found)), fold (\<lambda>(p, v). AList.update (pair_id p) v) found [])"
proof -
  have input: "comparable included_file_set fos" "distinct (map uid fos)" "ssdeep_compares env" "coverage_data db"
    "\<And>fo. fo \<in> set fos \<Longrightarrow> finite (files_included fo)"
    using assms(1) by (simp_all add: coverage_input_def comparable_def)
  have ex: "exclusive = map (\<lambda>fo. (uid fo, sorted_list_of_set (exclusive_set included_file_set fos fo))) fos"
    using assms(2) exclusive_elements_eq [OF input(1)] by simp
  have "\<exists>ys. set ys = (\<Union>x\<in>set (combinations2 fos). case x of (a, b) \<Rightarrow> \<Union>f\<in>exclusive_set included_file_set fos a.
          similar_to env (hashes_of db fos) a b f) \<and>
     (\<forall>acc. foldE (add_similar_files env (hashes_of db fos) exclusive) (combinations2 fos) acc = Inr (acc @ ys))"
  proof (rule foldE_collects)
    fix x
    assume x: "x \<in> set (combinations2 fos)"
    obtain a b where ab: "x = (a, b)"
      by (cases x)
    have mem: "a \<in> set fos" "b \<in> set fos"
      using combinations2_distinct [OF input(2), of a b] x ab by simp_all
    have "map_of exclusive (uid a) = Some (sorted_list_of_set (exclusive_set included_file_set fos a))"
      by (simp add: ex map_of_uids input(2) mem(1))
    from add_similar_files_spec [OF input(3) input(5) [OF mem(2)] this ssdeep_hash_string [OF input(4)]]
    show "\<exists>ys. set ys = (case x of (a, b) \<Rightarrow> \<Union>f\<in>exclusive_set included_file_set fos a.
          similar_to env (hashes_of db fos) a b f) \<and>
        (\<forall>acc. add_similar_files env (hashes_of db fos) exclusive x acc = Inr (acc @ ys))"
      by (simp add: ab hashes_of_def input(1) mem(1))
  qed
  then obtain found where found: "set found = similar_pairs env db fos"
    "foldE (add_similar_files env (hashes_of db fos) exclusive) (combinations2 fos) [] = Inr found"
    by (auto simp: similar_pairs_def)
  moreover have "get_included_file_sets fos = Inr (map (elements_of included_file_set) fos)"
    by (simp add: get_included_file_sets_def comparable_mapE [OF input(1)])
  ultimately show ?thesis
    by (auto simp: get_similar_files_def hashes_of_def Let_def)
qed

lemma split_similar_file_id:
  "CHR '':'' \<notin> set p \<Longrightarrow> CHR '':'' \<notin> set f \<Longrightarrow> split_file_id (get_similar_file_id f p) = Inr (p, f)"
  by (simp add: split_file_id_def get_similar_file_id_def py_split_append_sep py_split_single)

text \<open>A pair of similar files belongs to two different objects.\<close>

lemma similar_pair_parents:
  assumes "coverage_input env db fos" "((i, j), n) \<in> similar_pairs env db fos"
  shows "\<exists>a\<in>set fos. \<exists>b\<in>set fos. \<exists>f g. split_file_id i = Inr (uid a, f) \<and> split_file_id j = Inr (uid b, g) \<and>
     uid a \<noteq> uid b \<and> f \<in> exclusive_set included_file_set fos a \<and> g \<in> files_included b"
proof -
  obtain a b f g where ab: "(a, b) \<in> set (combinations2 fos)" "f \<in> exclusive_set included_file_set fos a"
    "g \<in> files_included b" "i = get_similar_file_id f (uid a)" "j = get_similar_file_id g (uid b)"
    using assms(2) by (auto simp: similar_pairs_def similar_to_def)
  have "a \<in> set fos" "b \<in> set fos" "uid a \<noteq> uid b"
    using combinations2_distinct [OF _ ab(1), of uid] assms(1) by (simp_all add: coverage_input_def comparable_def)
  moreover have "f \<in> elements_of included_file_set a"
    using ab(2) by (simp add: exclusive_set_def)
  ultimately show ?thesis
    using assms(1) ab by (metis coverage_input_def UnCI insertCI split_similar_file_id)
qed

text \<open>
  The members of a group are files of different objects, so that no file of the group is lost when the
  result is put together, and every two of them are similar.
\<close>

lemma similar_group_members:
  assumes "coverage_input env db fos" "set found = similar_pairs env db fos"
    and "g \<in> set (generate_similarity_sets env (remdups (map fst found)))"
  shows "distinct g \<and> (\<forall>i\<in>set g. \<exists>p f. split_file_id i = Inr (p, f)) \<and>
     (\<forall>i\<in>set g. \<forall>j\<in>set g. i \<noteq> j \<longrightarrow>
        (\<exists>n. ((i, j), n) \<in> similar_pairs env db fos \<or> ((j, i), n) \<in> similar_pairs env db fos) \<and>
        map_sum id fst (split_file_id i) \<noteq> map_sum id fst (split_file_id j))"
proof -
  let ?es = "remdups (map fst found)"
  obtain c where c: "c \<in> set (find_cliques env ?es)" "g = sort c"
    using assms(3) by (auto simp: generate_similarity_sets_def)
  have "cliques_of_graph env"
    using assms(1) by (simp add: coverage_input_def)
  then have clique: "distinct c" "set c \<subseteq> fst ` set ?es \<union> snd ` set ?es"
    "\<forall>x\<in>set c. \<forall>y\<in>set c. x \<noteq> y \<longrightarrow> (x, y) \<in> set ?es \<or> (y, x) \<in> set ?es"
    using c(1) unfolding cliques_of_graph_def by blast+
  have edge: "(x, y) \<in> set ?es \<longleftrightarrow> (\<exists>n. ((x, y), n) \<in> similar_pairs env db fos)" for x y
    by (force simp: assms(2) [symmetric])
  have parents: "\<exists>p f q g. split_file_id x = Inr (p, f) \<and> split_file_id y = Inr (q, g) \<and> p \<noteq> q"
    if xy: "(x, y) \<in> set ?es" for x y
  proof -
    obtain n where "((x, y), n) \<in> similar_pairs env db fos"
      using xy edge by blast
    from similar_pair_parents [OF assms(1) this] show ?thesis
      by blast
  qed
  have node: "\<exists>p f. split_file_id x = Inr (p, f)" if "x \<in> set c" for x
  proof -
    have "x \<in> fst ` set ?es \<or> x \<in> snd ` set ?es"
      using that clique(2) by blast
    then obtain y where "(x, y) \<in> set ?es \<or> (y, x) \<in> set ?es"
      by (metis imageE prod.collapse)
    then show ?thesis
      using parents by blast
  qed
  have parents': "map_sum id fst (split_file_id x) \<noteq> map_sum id fst (split_file_id y)"
    if xy: "(x, y) \<in> set ?es \<or> (y, x) \<in> set ?es" for x y
  proof -
    obtain p f q g where "split_file_id x = Inr (p, f)" "split_file_id y = Inr (q, g)" "p \<noteq> q"
      using xy parents [of x y] parents [of y x] by metis
    then show ?thesis
      by simp
  qed
  have "\<exists>n. ((x, y), n) \<in> similar_pairs env db fos \<or> ((y, x), n) \<in> similar_pairs env db fos"
    if "(x, y) \<in> set ?es \<or> (y, x) \<in> set ?es" for x y
    using that unfolding edge by blast
  then show ?thesis
    using clique(1,3) node parents' unfolding c(2) set_sort distinct_sort by blast
qed

lemma combine_similarity_returns:
  assumes "\<And>g i. g \<in> set groups \<Longrightarrow> i \<in> set g \<Longrightarrow> \<exists>p f. split_file_id i = Inr (p, f)"
  shows "\<exists>d. combine_similarity_results groups fos similarity = Inr d"
proof -
  have matches: "\<exists>m. foldE (\<lambda>i match_dict. bindE (split_file_id i) (\<lambda>(parent_id, file_id).
      Inr (AList.update parent_id (PStr file_id) match_dict))) g d = Inr m \<and> True" if "g \<in> set groups" for g d
    using assms [OF that] by (intro foldE_total) (fastforce simp: result_simps)+
  have ids: "\<exists>i. get_similar_file_group_id g = Inr i \<and> True" if "g \<in> set groups" for g
    unfolding get_similar_file_group_id_def
    using assms [OF that] by (intro foldE_total) (fastforce simp: result_simps)+
  have "\<exists>d. combine_similarity_results groups fos similarity = Inr d \<and> True"
    unfolding combine_similarity_results_def
  proof (rule foldE_total)
    fix g and b :: pydict
    assume "g \<in> set groups"
    then obtain m i where "foldE (\<lambda>i match_dict. bindE (split_file_id i) (\<lambda>(parent_id, file_id).
      Inr (AList.update parent_id (PStr file_id) match_dict))) g (fold (\<lambda>fo. AList.update (uid fo) PNone) fos []) = Inr m"
      "get_similar_file_group_id g = Inr i"
      using matches [of g] ids [of g] by blast
    then show "\<exists>b'. bindE (foldE (\<lambda>i match_dict. bindE (split_file_id i) (\<lambda>(parent_id, file_id).
            Inr (AList.update parent_id (PStr file_id) match_dict)))
          g (fold (\<lambda>fo. AList.update (uid fo) PNone) fos [])) (\<lambda>match_dict.
        bindE (get_similar_file_group_id g) (\<lambda>group_id.
          Inr (AList.update group_id
            (PDict (AList.update ''similarity'' (get_similarity_value g similarity) match_dict)) b))) = Inr b' \<and> True"
      by simp
  qed simp
  then show ?thesis
    by blast
qed

section \<open>The results of the plugins\<close>

text \<open>The files that a result lists in the section \<open>s\<close> under the key \<open>k\<close>\<close>

definition listed :: "pydict \<Rightarrow> string \<Rightarrow> string \<Rightarrow> string set" where
  "listed r s k = (case bindE (dict_item r s) (\<lambda>sec. subscript sec k) of
       Inr (PList vs) \<Rightarrow> {u. PStr u \<in> set vs}
     | _ \<Rightarrow> {})"

lemma lists_dict_lookup:
  "distinct (map fst d) \<Longrightarrow>
   map_of (lists_dict d0 d) k = (case map_of d k of None \<Rightarrow> map_of d0 k | Some us \<Rightarrow> Some (strings us))"
proof (induction d arbitrary: d0)
  case (Cons x d)
  obtain j us where x: "x = (j, us)"
    by (cases x)
  have "map_of (lists_dict d0 (x # d)) k = map_of (lists_dict (AList.update j (strings us) d0) d) k"
    by (simp add: lists_dict_def x)
  then show ?case
    using Cons by (auto simp: x image_iff split: option.splits dest: map_of_SomeD)
qed (simp add: lists_dict_def)

lemma listed_section:
  assumes "map_of r s = Some (PDict d)" "map_of d k = Some (strings us)"
  shows "listed r s k = set us"
  using assms by (auto simp: listed_def dict_item_def strings_def)

lemma listed_missing: "map_of r s = None \<Longrightarrow> listed r s k = {}"
  by (simp add: listed_def dict_item_def)

lemma listed_coverage:
  assumes "map_of r s = Some (snd (coverage_section s d))" "distinct (map fst d)" "map_of d k = Some us" "k \<noteq> ''collapse''"
  shows "listed r s k = set us"
  by (rule listed_section [of r s "AList.update ''collapse'' (PBool False) (lists_dict [] d)"])
    (use assms in \<open>simp_all add: coverage_section_def lists_dict_lookup\<close>)

lemma handle_partially_common_spec:
  assumes "coverage_input env db fos" "common_elements included_file_set fos = Inr common"
    and "exclusive_elements included_file_set fos = Inr exclusive"
  shows "\<exists>partly non_zero. handle_partially_common_files db fos [(''all'', common)] exclusive = Inr (partly, non_zero) \<and>
     (if 2 < length fos then \<exists>p. partly = Some p \<and> partly_common_elements included_file_set fos common exclusive = Inr p
      else partly = None)"
proof -
  have input: "comparable included_file_set fos" "coverage_data db" "distinct (map uid fos)"
    using assms(1) by (simp_all add: coverage_input_def comparable_def)
  have "map_of exclusive (uid fo) = Some (sorted_list_of_set (exclusive_set included_file_set fos fo))"
    if "fo \<in> set fos" for fo
    using assms(3) exclusive_elements_eq [OF input(1)] map_of_uids [OF input(3) that] by auto
  then obtain p where p: "partly_common_elements included_file_set fos common exclusive = Inr p"
    using partly_elements_eq [OF input(1)] by blast
  obtain nz where nz: "get_non_zero_common_files db [(''all'', common)] (if 2 < length fos then p else []) = Inr nz"
    using non_zero_returns [OF input(2)] by blast
  show ?thesis
    using p nz by (cases "2 < length fos")
      (simp_all add: handle_partially_common_files_def get_files_in_more_than_one_but_not_in_all_def dict_item_def)
qed

text \<open>The sections of the result\<close>

lemma coverage_result:
  assumes "coverage_input env db fos"
  shows "\<exists>r common exclusive partly. coverage_compare_function env db fos deps = Inr r \<and>
     common_elements included_file_set fos = Inr common \<and> exclusive_elements included_file_set fos = Inr exclusive \<and>
     map_of r ''files_in_common'' = Some (snd (coverage_section ''files_in_common'' [(''all'', common)])) \<and>
     map_of r ''exclusive_files'' = Some (snd (coverage_section ''exclusive_files'' exclusive)) \<and>
     (if 2 < length fos
      then partly_common_elements included_file_set fos common exclusive = Inr partly \<and>
        map_of r ''files_in_more_than_one_but_not_in_all'' =
          Some (snd (coverage_section ''files_in_more_than_one_but_not_in_all'' partly))
      else map_of r ''files_in_more_than_one_but_not_in_all'' = None)"
proof -
  have input: "comparable included_file_set fos"
    using assms by (simp add: coverage_input_def)
  obtain common exclusive where ce: "common_elements included_file_set fos = Inr common"
    "exclusive_elements included_file_set fos = Inr exclusive"
    using common_elements_eq [OF input] exclusive_elements_eq [OF input] by blast
  obtain partly non_zero where pn: "handle_partially_common_files db fos [(''all'', common)] exclusive = Inr (partly, non_zero)"
    "if 2 < length fos then \<exists>p. partly = Some p \<and> partly_common_elements included_file_set fos common exclusive = Inr p
      else partly = None"
    using handle_partially_common_spec [OF assms ce] by blast
  obtain found where found: "set found = similar_pairs env db fos" "get_similar_files env db fos exclusive =
     Inr (generate_similarity_sets env (remdups (map fst found)), fold (\<lambda>(p, v). AList.update (pair_id p) v) found [])"
    using get_similar_files_spec [OF assms ce(2)] by blast
  obtain similar where similar: "combine_similarity_results (generate_similarity_sets env (remdups (map fst found))) fos
      (fold (\<lambda>(p, v). AList.update (pair_id p) v) found []) = Inr similar"
    using combine_similarity_returns similar_group_members [OF assms found(1)] by blast
  show ?thesis
    using pn(2) by (cases "2 < length fos")
      (auto simp: coverage_compare_function_def get_intersection_of_files_def fc_get_exclusive_files_def ce pn(1) found(2)
        similar coverage_section_def dict_item_def Let_def split: list.splits)
qed

text \<open>What the dictionaries of the two plugins hold for an object\<close>

lemma element_lists:
  assumes "comparable c fos" "fo \<in> set fos" "common_elements c fos = Inr common" "exclusive_elements c fos = Inr exclusive"
  shows "set common = common_of c fos"
    and "distinct (map fst exclusive)" "\<exists>us. map_of exclusive (uid fo) = Some us \<and> set us = exclusive_of c fos fo"
    and "partly_common_elements c fos common exclusive = Inr partly \<Longrightarrow>
      distinct (map fst partly) \<and> (\<exists>us. map_of partly (uid fo) = Some us \<and> set us = partly_of c fos fo)"
proof -
  have d: "distinct (map uid fos)"
    using assms(1) by (simp add: comparable_def)
  have ex: "exclusive = map (\<lambda>fo. (uid fo, sorted_list_of_set (exclusive_set c fos fo))) fos"
    using exclusive_elements_eq [OF assms(1)] assms(4) by simp
  show "set common = common_of c fos"
    using assms(3) by (simp add: common_of_def)
  show "distinct (map fst exclusive)" "\<exists>us. map_of exclusive (uid fo) = Some us \<and> set us = exclusive_of c fos fo"
    using assms(1,2) d by (simp_all add: ex comp_def map_of_uids exclusive_of_eq)
  show "distinct (map fst partly) \<and> (\<exists>us. map_of partly (uid fo) = Some us \<and> set us = partly_of c fos fo)"
    if "partly_common_elements c fos common exclusive = Inr partly"
  proof
    have p: "partly = map (\<lambda>fo. (uid fo, sorted_list_of_set (elements_of c fo - set common - exclusive_set c fos fo))) fos"
      using that partly_elements_eq [OF assms(1), of exclusive common] d by (simp add: ex map_of_uids)
    then show "distinct (map fst partly)"
      using d by (simp add: comp_def)
    show "\<exists>us. map_of partly (uid fo) = Some us \<and> set us = partly_of c fos fo"
      using assms(2) d p by (simp add: map_of_uids) (simp add: partly_of_def list_at_def assms(3,4) that p dict_item_def map_of_uids)
  qed
qed

lemma two_objects_list: "a \<in> set fos \<Longrightarrow> b \<in> set fos \<Longrightarrow> a \<noteq> b \<Longrightarrow> \<not> 2 < length fos \<Longrightarrow> fos = [a, b] \<or> fos = [b, a]"
  by (cases fos; cases "tl fos") auto

text \<open>The sections that an object finds in the result \<open>r\<close>\<close>

definition compared ::
  "pydict \<Rightarrow> string \<times> string \<times> string \<Rightarrow> file_object \<Rightarrow> string set \<times> string set \<times> string set" where
  "compared r = (\<lambda>(common, exclusive, partly) fo.
     (listed r common ''all'', listed r exclusive (uid fo), listed r partly (uid fo)))"

lemma coverage_listed:
  assumes input: "coverage_input env db fos" and objs: "a \<in> set fos" "b \<in> set fos" "a \<noteq> b" "uid a \<noteq> ''collapse''"
  shows "\<exists>r. coverage_compare_function env db fos deps = Inr r \<and>
     compared r (''files_in_common'', ''exclusive_files'', ''files_in_more_than_one_but_not_in_all'') a =
       (common_of included_file_set fos, exclusive_of included_file_set fos a, partly_of included_file_set fos a)"
proof -
  let ?c = included_file_set
  have cmp: "comparable ?c fos"
    using input by (simp add: coverage_input_def)
  obtain r common exclusive partly where r: "coverage_compare_function env db fos deps = Inr r"
    "common_elements ?c fos = Inr common" "exclusive_elements ?c fos = Inr exclusive"
    "map_of r ''files_in_common'' = Some (snd (coverage_section ''files_in_common'' [(''all'', common)]))"
    "map_of r ''exclusive_files'' = Some (snd (coverage_section ''exclusive_files'' exclusive))"
    "if 2 < length fos
      then partly_common_elements ?c fos common exclusive = Inr partly \<and>
        map_of r ''files_in_more_than_one_but_not_in_all'' =
          Some (snd (coverage_section ''files_in_more_than_one_but_not_in_all'' partly))
      else map_of r ''files_in_more_than_one_but_not_in_all'' = None"
    using coverage_result [OF input, of deps] by blast
  note lists = element_lists [OF cmp objs(1) r(2,3)]
  have "listed r ''files_in_common'' ''all'' = common_of ?c fos"
    using listed_coverage [OF r(4)] lists(1) by simp
  moreover have "listed r ''exclusive_files'' (uid a) = exclusive_of ?c fos a"
    using listed_coverage [OF r(5)] lists(2,3) objs(4) by auto
  moreover have "listed r ''files_in_more_than_one_but_not_in_all'' (uid a) = partly_of ?c fos a"
  proof (cases "2 < length fos")
    case True
    then have p: "partly_common_elements ?c fos common exclusive = Inr partly"
        "map_of r ''files_in_more_than_one_but_not_in_all'' =
          Some (snd (coverage_section ''files_in_more_than_one_but_not_in_all'' partly))"
      using r(6) by simp_all
    show ?thesis
      using listed_coverage [OF p(2)] lists(4) [OF p(1)] objs(4) by auto
  next
    case False
    then have "fos = [a, b] \<or> fos = [b, a]"
      by (rule two_objects_list [OF objs(1-3)])
    then have "partly_of ?c fos a = {}"
      using files.two_objects(1) [of a b] files.two_objects(2) [of b a] cmp objs(3) by (elim disjE) simp_all
    then show ?thesis
      using r(6) False by (simp add: listed_missing)
  qed
  ultimately show ?thesis
    using r(1) by (simp add: compared_def)
qed

text \<open>
  C24. The comparison of the file coverage returns whenever every stored hash has the form \<open>ssdeep\<close> gives it, every
  stored entropy is a number, \<open>ssdeep\<close> can compare hashes of its own form and \<open>networkx\<close> returns cliques. For every compared object the sections of the result
  are a partition of all its files: the files that every object has, the files no other object has,
  and the files some but not all others have.
\<close>

theorem file_coverage_correct:
  assumes "coverage_input env db fos" "a \<in> set fos" "b \<in> set fos" "a \<noteq> b" "uid a \<noteq> ''collapse''"
  shows "\<exists>r. compare_function (file_coverage_plugin env db) fos deps = Inr r \<and>
     (let F = elements_of included_file_set;
          (common, exclusive, partly) =
            compared r (''files_in_common'', ''exclusive_files'', ''files_in_more_than_one_but_not_in_all'') a
      in common = \<Inter>(F ` set fos) \<and> exclusive = F a - \<Union>(F ` (set fos - {a})) \<and>
         partly = {u \<in> F a. (\<exists>c\<in>set fos - {a}. u \<in> F c) \<and> (\<exists>c\<in>set fos. u \<notin> F c)} \<and>
         F a = common \<union> exclusive \<union> partly \<and> common \<inter> exclusive = {} \<and> (common \<union> exclusive) \<inter> partly = {})"
proof -
  let ?c = included_file_set
  have cmp: "comparable ?c fos"
    using assms(1) by (simp add: coverage_input_def)
  obtain r where r: "coverage_compare_function env db fos deps = Inr r"
    "compared r (''files_in_common'', ''exclusive_files'', ''files_in_more_than_one_but_not_in_all'') a =
       (common_of ?c fos, exclusive_of ?c fos a, partly_of ?c fos a)"
    using coverage_listed [OF assms] by blast
  have ce: "common_of ?c fos = \<Inter>(elements_of ?c ` set fos)"
    "exclusive_of ?c fos a = elements_of ?c a - \<Union>(elements_of ?c ` (set fos - {a}))"
    using common_of_eq [OF cmp] exclusive_of_eq [OF cmp assms(2)] by (simp_all add: exclusive_set_def)
  have partly: "partly_of ?c fos a = {u \<in> elements_of ?c a. (\<exists>c\<in>set fos - {a}. u \<in> elements_of ?c c) \<and>
      (\<exists>c\<in>set fos. u \<notin> elements_of ?c c)}"
    using files.partly_iff [OF cmp assms(2)] by blast
  have "compare_function (file_coverage_plugin env db) fos deps = Inr r"
    by (simp add: file_coverage_plugin_def r(1))
  then show ?thesis
    using files.partition(1-3) [OF cmp assms(2-4)] ce partly unfolding Let_def
    by (intro exI [of _ r] conjI) (assumption, unfold r(2) prod.case, intro conjI, assumption+)
qed

text \<open>The same for the software of the objects, which the plugin finds in the summaries\<close>

lemma software_listed:
  assumes cmp: "comparable get_software_set fos" and objs: "a \<in> set fos" "b \<in> set fos" "a \<noteq> b"
  shows "\<exists>r. compare_function software_plugin fos deps = Inr r \<and>
     compared r (''software_in_common'', ''exclusive_software'', ''software_in_more_than_one_but_not_in_all'') a =
       (common_of get_software_set fos, exclusive_of get_software_set fos a, partly_of get_software_set fos a)"
proof -
  let ?c = get_software_set
  obtain common exclusive where ce: "common_elements ?c fos = Inr common" "exclusive_elements ?c fos = Inr exclusive"
    using common_elements_eq [OF cmp] exclusive_elements_eq [OF cmp] by blast
  note lists = element_lists [OF cmp objs(1) ce]
  let ?r2 = "[(''software_in_common'', PDict [(''all'', strings common), (''collapse'', PBool True)]),
            (''exclusive_software'', PDict (lists_dict [(''collapse'', PBool True)] exclusive))]"
  have common: "listed (?r2 @ r) ''software_in_common'' ''all'' = common_of ?c fos" for r
    using lists(1) by (subst listed_section [of _ _ "[(''all'', strings common), (''collapse'', PBool True)]" _ common]) simp_all
  have exclusive: "listed (?r2 @ r) ''exclusive_software'' (uid a) = exclusive_of ?c fos a" for r
  proof -
    obtain us where "map_of exclusive (uid a) = Some us" "set us = exclusive_of ?c fos a"
      using lists(3) by blast
    then show ?thesis
      using lists(2)
      by (subst listed_section [of _ _ "lists_dict [(''collapse'', PBool True)] exclusive" _ us])
        (simp_all add: lists_dict_lookup)
  qed
  show ?thesis
  proof (cases "2 < length fos")
    case True
    obtain partly where partly: "partly_common_elements ?c fos common exclusive = Inr partly"
      using partly_elements_eq [OF cmp, of exclusive common] exclusive_elements_eq [OF cmp] ce(2) cmp
      by (auto simp: map_of_uids comparable_def)
    let ?r = "?r2 @ [(''software_in_more_than_one_but_not_in_all'', PDict (lists_dict [(''collapse'', PBool True)] partly))]"
    obtain us where us: "map_of partly (uid a) = Some us" "set us = partly_of ?c fos a" "distinct (map fst partly)"
      using lists(4) [OF partly] by blast
    then have "listed ?r ''software_in_more_than_one_but_not_in_all'' (uid a) = partly_of ?c fos a"
      by (subst listed_section [of _ _ "lists_dict [(''collapse'', PBool True)] partly" _ us])
        (simp_all add: lists_dict_lookup)
    moreover have "compare_function software_plugin fos deps = Inr ?r"
      using True by (simp add: software_plugin_def software_compare_function_def get_intersection_of_software_def
          get_exclusive_software_def get_software_in_more_than_one_but_not_in_all_def ce partly)
    ultimately show ?thesis
      using common exclusive by (intro exI [of _ ?r]) (simp only: compared_def prod.case)
  next
    case False
    then have "fos = [a, b] \<or> fos = [b, a]"
      by (rule two_objects_list [OF objs])
    then have "partly_of ?c fos a = {}"
      using software.two_objects(1) [of a b] software.two_objects(2) [of b a] cmp objs(3) by (elim disjE) simp_all
    moreover have "listed ?r2 ''software_in_more_than_one_but_not_in_all'' (uid a) = {}"
      by (rule listed_missing) simp
    moreover have "compare_function software_plugin fos deps = Inr ?r2"
      using False by (simp add: software_plugin_def software_compare_function_def get_intersection_of_software_def
          get_exclusive_software_def ce)
    ultimately show ?thesis
      using common [of "[]"] exclusive [of "[]"] by (intro exI [of _ ?r2]) (simp only: compared_def prod.case append_Nil2)
  qed
qed

lemma software_partition:
  assumes "comparable get_software_set fos" "a \<in> set fos" "b \<in> set fos" "a \<noteq> b"
  shows "\<exists>r common exclusive partly. compare_function software_plugin fos deps = Inr r \<and>
     compared r (''software_in_common'', ''exclusive_software'', ''software_in_more_than_one_but_not_in_all'') a =
       (common, exclusive, partly) \<and>
     elements_of get_software_set a = common \<union> exclusive \<union> partly \<and>
     common \<inter> exclusive = {} \<and> (common \<union> exclusive) \<inter> partly = {}"
  using software_listed [OF assms] software.partition(1-3) [OF assms] by blast

section \<open>Changed text files\<close>

definition pairs_at :: "(string \<times> (string \<times> string) list) list \<Rightarrow> string \<Rightarrow> (string \<times> string) list" where
  "pairs_at d q = (case map_of d q of None \<Rightarrow> [] | Some ps \<Rightarrow> ps)"

lemma pairs_at_inner:
  "pairs_at (fold (\<lambda>v. dict_modify p [] (\<lambda>ps. ps @ [(u, v)])) vs d) q = pairs_at d q @ (if q = p then map (Pair u) vs else [])"
  by (induction vs arbitrary: d) (auto simp: pairs_at_def map_of_dict_modify split: option.splits)

lemma pairs_at_path:
  "pairs_at (fold (\<lambda>u. fold (\<lambda>v. dict_modify p [] (\<lambda>ps. ps @ [(u, v)])) vs) us d) q =
     pairs_at d q @ (if q = p then List.product us vs else [])"
  by (induction us arbitrary: d) (simp_all add: pairs_at_inner)

lemma pairs_at_paths:
  "distinct paths \<Longrightarrow>
   pairs_at (fold (\<lambda>p. fold (\<lambda>u. fold (\<lambda>v. dict_modify p [] (\<lambda>ps. ps @ [(u, v)])) (vs p)) (us p)) paths d) q =
     pairs_at d q @ (if q \<in> set paths then List.product (us q) (vs q) else [])"
  by (induction paths arbitrary: d) (simp_all add: pairs_at_path)

lemma finite_path_users: "r \<noteq> [] \<Longrightarrow> finite (path_users (get_vfp_of_included_text_files db r bl) q)"
  by (rule finite_subset [of _ "snd ` set (fw_files_table db)"]) (force simp: text_file_path_users image_iff)+

lemma path_users_keys: "path_users d q \<noteq> {} \<Longrightarrow> q \<in> fst ` set d"
  by (metis dom_map_of_iff option.simps(4) path_users_def)

lemma find_changed_text_files_spec:
  assumes "uid a \<noteq> []" "uid b \<noteq> []"
  shows "(u, v) \<in> set (pairs_at (find_changed_text_files db a b common) q) \<longleftrightarrow>
     u \<in> path_users (get_vfp_of_included_text_files db (uid a) (set common)) q \<and>
     v \<in> path_users (get_vfp_of_included_text_files db (uid b) (set common)) q"
proof -
  let ?va = "get_vfp_of_included_text_files db (uid a) (set common)"
  let ?vb = "get_vfp_of_included_text_files db (uid b) (set common)"
  let ?paths = "sorted_list_of_set (fst ` set ?va \<inter> fst ` set ?vb)"
  have "pairs_at (find_changed_text_files db a b common) q =
      pairs_at [] q @ (if q \<in> set ?paths then List.product (sorted_list_of_set (path_users ?va q))
        (sorted_list_of_set (path_users ?vb q)) else [])"
    unfolding find_changed_text_files_def Let_def path_users_def [symmetric]
    by (rule pairs_at_paths) simp
  moreover have "pairs_at [] q = []"
    by (simp add: pairs_at_def)
  ultimately show ?thesis
    using path_users_keys [of ?va q] path_users_keys [of ?vb q] finite_path_users assms by auto
qed

text \<open>A text file of the firmware \<open>r\<close> at the path \<open>q\<close>\<close>

definition text_file_at :: "database \<Rightarrow> string \<Rightarrow> string \<Rightarrow> string \<Rightarrow> bool" where
  "text_file_at db r q u \<longleftrightarrow> (r, u) \<in> set (fw_files_table db) \<and> map_of (file_object_table db) u \<noteq> None \<and>
     is_text_file db u \<and> (\<exists>p. (p, u, q) \<in> set (vfp_table db) \<and> (p = r \<or> (r, p) \<in> set (fw_files_table db)))"

text \<open>The pairs that the result names for a path\<close>

definition changed_pairs :: "pydict \<Rightarrow> string \<Rightarrow> (string \<times> string) set" where
  "changed_pairs r q = (case bindE (dict_item r ''changed_text_files'') (\<lambda>sec. subscript sec q) of
       Inr (PList vs) \<Rightarrow> {(u, v). PTuple [PStr u, PStr v] \<in> set vs}
     | _ \<Rightarrow> {})"

lemma changed_pairs_section:
  assumes "map_of r ''changed_text_files'' = Some (PDict (map (\<lambda>(p, us). (p, pairs_value us)) d))"
  shows "changed_pairs r q = set (pairs_at d q)"
proof -
  have "map_of (map (\<lambda>(p, us). (p, pairs_value us)) d) q = map_option pairs_value (map_of d q)"
    by (induction d) auto
  then show ?thesis
    using assms by (cases "map_of d q") (auto simp: changed_pairs_def dict_item_def pairs_at_def pairs_value_def)
qed

lemma coverage_changed_section:
  assumes "coverage_input env db [a, b]" "is_firmware_object a" "is_firmware_object b"
  shows "\<exists>r common. coverage_compare_function env db [a, b] deps = Inr r \<and>
     common_elements included_file_set [a, b] = Inr common \<and> map_of r ''changed_text_files'' =
       Some (PDict (map (\<lambda>(p, us). (p, pairs_value us)) (find_changed_text_files db a b common)))"
proof -
  obtain r common exclusive where r: "coverage_compare_function env db [a, b] deps = Inr r"
    "common_elements included_file_set [a, b] = Inr common" "exclusive_elements included_file_set [a, b] = Inr exclusive"
    using coverage_result [OF assms(1), of deps] by blast
  have "map_of r ''changed_text_files'' =
       Some (PDict (map (\<lambda>(p, us). (p, pairs_value us)) (find_changed_text_files db a b common)))"
    using r(1) assms(2,3)
    by (auto simp: coverage_compare_function_def get_intersection_of_files_def fc_get_exclusive_files_def r(2,3)
        handle_partially_common_files_def result_simps coverage_section_def dict_item_def Let_def)
  then show ?thesis
    using r(1,2) by blast
qed

text \<open>
  C25. When two firmware images are compared, the plugin pairs, for every path, exactly the text files
  at this path of which the first belongs to the first image only and the second to the second image
  only (under the same conditions as above). The two files of a pair always differ. A file that both images
  contain is never part of a pair, also where it takes the place of another file.
\<close>

theorem changed_text_files_correct:
  assumes input: "coverage_input env db [a, b]" and fw: "is_firmware_object a" "is_firmware_object b"
    and ids: "uid a \<noteq> []" "uid b \<noteq> []"
    and all: "list_of_all_included_files a = Some (get_all_files_in_fw db (uid a))"
      "list_of_all_included_files b = Some (get_all_files_in_fw db (uid b))"
  shows "\<exists>r. compare_function (file_coverage_plugin env db) [a, b] deps = Inr r \<and>
     (\<forall>q u v. (u, v) \<in> changed_pairs r q \<longleftrightarrow>
        text_file_at db (uid a) q u \<and> u \<notin> get_all_files_in_fw db (uid b) \<and>
        text_file_at db (uid b) q v \<and> v \<notin> get_all_files_in_fw db (uid a)) \<and>
     (\<forall>q u v. (u, v) \<in> changed_pairs r q \<longrightarrow> u \<noteq> v)"
proof -
  obtain r common where r: "coverage_compare_function env db [a, b] deps = Inr r"
    "common_elements included_file_set [a, b] = Inr common" "map_of r ''changed_text_files'' =
       Some (PDict (map (\<lambda>(p, us). (p, pairs_value us)) (find_changed_text_files db a b common)))"
    using coverage_changed_section [OF input fw] by blast
  have "comparable included_file_set [a, b]"
    using input by (simp add: coverage_input_def)
  moreover have "finite (get_all_files_in_fw db (uid a))"
    by (simp add: get_all_files_in_fw_def)
  ultimately have common: "set common = get_all_files_in_fw db (uid a) \<inter> get_all_files_in_fw db (uid b)"
    using r(2) all by (auto simp: common_elements_eq elements_of_def included_file_set_def)
  have users: "u \<in> path_users (get_vfp_of_included_text_files db (uid fo) (set common)) q \<longleftrightarrow>
      text_file_at db (uid fo) q u \<and> u \<notin> set common" if "uid fo \<noteq> []" for fo u q
    by (simp add: text_file_path_users [OF that] text_file_at_def is_text_file_iff) blast
  have mem: "text_file_at db r q u \<Longrightarrow> u \<in> get_all_files_in_fw db r" for r q u
    by (force simp: text_file_at_def get_all_files_in_fw_def image_iff)
  have "changed_pairs r q = set (pairs_at (find_changed_text_files db a b common) q)" for q
    by (rule changed_pairs_section [OF r(3)])
  then have pairs: "(u, v) \<in> changed_pairs r q \<longleftrightarrow>
        text_file_at db (uid a) q u \<and> u \<notin> get_all_files_in_fw db (uid b) \<and>
        text_file_at db (uid b) q v \<and> v \<notin> get_all_files_in_fw db (uid a)" for q u v
    using find_changed_text_files_spec [OF ids, of u v db common q] users [OF ids(1)] users [OF ids(2)] common mem by auto
  moreover have "u \<noteq> v" if "(u, v) \<in> changed_pairs r q" for u v q
    using that mem unfolding pairs by blast
  moreover have "compare_function (file_coverage_plugin env db) [a, b] deps = Inr r"
    by (simp add: file_coverage_plugin_def r(1))
  ultimately show ?thesis
    by (intro exI [of _ r] conjI allI impI)
qed

section \<open>Witnesses\<close>

definition example_coverage_env :: coverage_env where
  "example_coverage_env = \<lparr>ssdeep_compare = (\<lambda>h k. if is_hash_value h \<and> is_hash_value k \<and> h \<noteq> PNone \<and> k \<noteq> PNone then Inr 50 else Inl RuntimeError), find_cliques = map (\<lambda>(x, y). remdups [x, y]),
     ssdeep_ignore_threshold = 1\<rparr>"

definition text_entry :: analysis_entry where
  "text_entry = \<lparr>ae_plugin_version = PStr ''1'', ae_system_version = PNone, ae_analysis_date = PFloat 0,
     ae_summary = PNone, ae_tags = PNone, ae_result = PDict [(''mime'', PStr ''text/plain'')]\<rparr>"

definition hash_entry :: analysis_entry where
  "hash_entry = text_entry\<lparr>ae_result := PDict [(''ssdeep'', PStr ''3:abc:d'')]\<rparr>"

definition coverage_db :: database where
  "coverage_db = empty_database\<lparr>
     file_object_table := map (\<lambda>u. (u, example_entry False)) [''x'', ''y'', ''z''],
     fw_files_table := [(''f1'', ''x''), (''f1'', ''z''), (''f2'', ''y''), (''f2'', ''z'')],
     analysis_table := [((''x'', ''file_type''), text_entry), ((''y'', ''file_type''), text_entry),
       ((''x'', ''file_hashes''), hash_entry), ((''y'', ''file_hashes''), hash_entry)],
     vfp_table := [(''f1'', ''x'', ''/etc/passwd''), (''z'', ''y'', ''/etc/passwd'')]\<rparr>"

definition compared_fw :: "string \<Rightarrow> string set \<Rightarrow> file_object" where
  "compared_fw u fs = (empty_file_object u True)\<lparr>list_of_all_included_files := Some fs, files_included := fs\<rparr>"

lemma example_cliques: "cliques_of_graph example_coverage_env"
  by (force simp: cliques_of_graph_def example_coverage_env_def split: if_splits)

lemma example_hash: "ssdeep_hash ''3:abc:d''"
  by code_simp

lemma example_coverage_input:
  "coverage_input example_coverage_env coverage_db [compared_fw ''f1'' {''x'', ''z''}, compared_fw ''f2'' {''y'', ''z''}]"
  using example_cliques example_hash
  by (simp add: coverage_input_def comparable_def included_file_set_def compared_fw_def empty_file_object_def
      elements_of_def coverage_data_def coverage_row_def coverage_db_def empty_database_def text_entry_def hash_entry_def
      json_field_def ssdeep_compares_def) (simp add: example_coverage_env_def)

theorem file_coverage_witness:
  "\<exists>r. compare_function (file_coverage_plugin example_coverage_env coverage_db)
       [compared_fw ''f1'' {''x'', ''z''}, compared_fw ''f2'' {''y'', ''z''}] [] = Inr r \<and>
     listed r ''files_in_common'' ''all'' = {''z''} \<and> listed r ''exclusive_files'' ''f1'' = {''x''}"
proof -
  let ?a = "compared_fw ''f1'' {''x'', ''z''}"
  let ?b = "compared_fw ''f2'' {''y'', ''z''}"
  have ids: "uid ?a = ''f1''" "?a \<noteq> ?b" "elements_of included_file_set ?a = {''x'', ''z''}"
    "elements_of included_file_set ?b = {''y'', ''z''}"
    by (auto simp: compared_fw_def empty_file_object_def elements_of_def included_file_set_def)
  have others: "set [?a, ?b] - {?a} = {?b}"
    using ids(2) by auto
  obtain r where "compare_function (file_coverage_plugin example_coverage_env coverage_db) [?a, ?b] [] = Inr r"
    "listed r ''files_in_common'' ''all'' = \<Inter>(elements_of included_file_set ` set [?a, ?b])"
    "listed r ''exclusive_files'' (uid ?a) =
       elements_of included_file_set ?a - \<Union>(elements_of included_file_set ` (set [?a, ?b] - {?a}))"
    using file_coverage_correct [OF example_coverage_input, of ?a ?b "[]"] ids(1,2) by (auto simp: Let_def compared_def)
  then show ?thesis
    unfolding others ids(1) by (intro exI [of _ r]) (auto simp: ids(3,4))
qed

theorem changed_text_files_witness:
  "\<exists>r. compare_function (file_coverage_plugin example_coverage_env coverage_db)
       [compared_fw ''f1'' {''x'', ''z''}, compared_fw ''f2'' {''y'', ''z''}] [] = Inr r \<and>
     (''x'', ''y'') \<in> changed_pairs r ''/etc/passwd'' \<and> (''z'', ''y'') \<notin> changed_pairs r ''/etc/passwd''"
proof -
  have files: "get_all_files_in_fw coverage_db ''f1'' = {''x'', ''z''}" "get_all_files_in_fw coverage_db ''f2'' = {''y'', ''z''}"
    by (simp_all add: get_all_files_in_fw_def coverage_db_def empty_database_def)
  have "text_file_at coverage_db ''f1'' ''/etc/passwd'' ''x''" "text_file_at coverage_db ''f2'' ''/etc/passwd'' ''y''"
    by (simp_all add: text_file_at_def coverage_db_def empty_database_def is_text_file_def text_entry_def json_field_def)
  then show ?thesis
    using changed_text_files_correct [OF example_coverage_input, of "[]"]
    by (auto simp: compared_fw_def empty_file_object_def is_firmware_object_def files)
qed

text \<open>
  A similar file is looked for among the files that the other object includes directly, not among all
  its files: \<open>y\<close> below is similar to \<open>x\<close>, but is not found inside of \<open>z\<close>.
\<close>

lemma nested_similar_file_not_found:
  "find_similar_file_for example_coverage_env ''x'' ''f1'' ((compared_fw ''f2'' {''y'', ''z''})\<lparr>files_included := {''z''}\<rparr>)
     (get_ssdeep_hash_for_uid_list coverage_db [''x'', ''y'', ''z'']) = Inr [] \<and>
   find_similar_file_for example_coverage_env ''x'' ''f1'' (compared_fw ''f2'' {''y'', ''z''})
     (get_ssdeep_hash_for_uid_list coverage_db [''x'', ''y'', ''z'']) = Inr [((''f1:x'', ''f2:y''), 50)]"
  by code_simp

text \<open>
  The docstring promises the text files that have the same path but different content. A file that is replaced
  by (or replaces) one that both images contain is not found: here \<open>/etc/passwd\<close> is \<open>z\<close> in the first image and
  \<open>y\<close> in the second, which keeps \<open>z\<close> at another path.
\<close>

definition moved_file_db :: database where
  "moved_file_db = coverage_db\<lparr>
     analysis_table := [((''z'', ''file_type''), text_entry), ((''y'', ''file_type''), text_entry)],
     vfp_table := [(''f1'', ''z'', ''/etc/passwd''), (''f2'', ''y'', ''/etc/passwd''), (''f2'', ''z'', ''/etc/passwd.bak'')]\<rparr>"

lemma moved_file_hides_change:
  "text_file_at moved_file_db ''f1'' ''/etc/passwd'' ''z'' \<and> text_file_at moved_file_db ''f2'' ''/etc/passwd'' ''y'' \<and>
   find_changed_text_files moved_file_db (compared_fw ''f1'' {''x'', ''z''}) (compared_fw ''f2'' {''y'', ''z''}) [''z''] = []"
proof -
  have "find_changed_text_files moved_file_db (compared_fw ''f1'' {''x'', ''z''}) (compared_fw ''f2'' {''y'', ''z''}) [''z''] = []"
    by code_simp
  then show ?thesis
    by (simp add: text_file_at_def moved_file_db_def coverage_db_def empty_database_def is_text_file_def text_entry_def json_field_def)
qed

text \<open>Two groups whose UIDs agree in their first characters have the same key: the second replaces the first.\<close>

lemma similar_groups_collide:
  "combine_similarity_results [[''aaaa:bbbb1'', ''cccc:dddd1''], [''aaaa:bbbb2'', ''cccc:dddd2'']] []
     [(''aaaa:bbbb1;cccc:dddd1'', 90), (''aaaa:bbbb2;cccc:dddd2'', 80)] =
   Inr [(''aaaabbbbccccdddd'', PDict [(''aaaa'', PStr ''bbbb2''), (''cccc'', PStr ''dddd2''), (''similarity'', PInt 80)])]"
  by code_simp

end
