(* ===== verification/Statistics.thy ===== *)
theory Statistics
  imports Frontend_Database Comparison "HOL-Library.Product_Lexorder"
begin

text \<open>
  The statistics: the aggregating queries of \<^verbatim>\<open>src/src/storage/db_interface_stats.py\<close>,
  \<^verbatim>\<open>src/src/statistic/update.py\<close> and \<^verbatim>\<open>src/src/statistic/time_stats.py\<close>, and the pages that show
  them (\<^verbatim>\<open>src/src/web_interface/components/statistic_routes.py\<close>,
  \<^verbatim>\<open>src/src/web_interface/rest/rest_statistics.py\<close>).

  A query is a function from the tables to the list of its rows before grouping; grouping counts equal
  values. A join repeats a row once for each firmware that matches. The filter of a query is a
  dictionary over the columns \<open>device_class\<close> and \<open>vendor\<close>, the only ones that the web interface sets.
  Matching a regular expression in the database and what the JSON column makes of a dictionary are
  parameters. Floating point numbers are reals. The keys of results that the queries read
  (\<open>mime\<close>, \<open>plugin_used\<close>) are text, as the schemas of the plugins demand.
\<close>

type_synonym stats = "(string \<times> nat) list"
type_synonym fw_filter = "(string \<times> string) list"

section \<open>Rows\<close>

definition fw_column :: "string \<Rightarrow> firmware_entry \<Rightarrow> string option" where
  "fw_column k e = (if k = ''device_class'' then e_device_class e
     else if k = ''vendor'' then e_vendor e else None)"

text \<open>\<open>filter_by(**q_filter)\<close> on the firmware\<close>

definition fw_matches :: "fw_filter \<Rightarrow> firmware_entry \<Rightarrow> bool" where
  "fw_matches q_filter e = list_all (\<lambda>(k, v). fw_column k e = Some v) q_filter"

definition filtered_fw :: "fw_filter \<Rightarrow> database \<Rightarrow> (string \<times> firmware_entry) list" where
  "filtered_fw q_filter db = filter (\<lambda>(_, e). fw_matches q_filter e) (firmware_table db)"

definition analysis_rows :: "string \<Rightarrow> database \<Rightarrow> (string \<times> analysis_entry) list" where
  "analysis_rows plugin db =
     List.map_filter (\<lambda>((u, p), a). if p = plugin then Some (u, a) else None) (analysis_table db)"

text \<open>Every row \<open>(u, x)\<close> together with each firmware that is related to the file \<open>u\<close>\<close>

definition join_firmware ::
  "(string \<Rightarrow> string \<Rightarrow> bool) \<Rightarrow> fw_filter \<Rightarrow> database \<Rightarrow> (string \<times> 'x) list \<Rightarrow> ((string \<times> 'x) \<times> string) list" where
  "join_firmware rel q_filter db rows =
     concat (map (\<lambda>(u, x). map (\<lambda>(fw, _). ((u, x), fw)) (filter (\<lambda>(fw, _). rel fw u) (filtered_fw q_filter db))) rows)"

definition in_file_table :: "database \<Rightarrow> (string \<times> 'x) list \<Rightarrow> (string \<times> 'x) list" where
  "in_file_table db = filter (\<lambda>(u, _). map_of (file_object_table db) u \<noteq> None)"

text \<open>\<open>FileObjectEntry.root_firmware.any(uid=FirmwareEntry.uid)\<close>\<close>

definition has_root_fw :: "database \<Rightarrow> string \<Rightarrow> string \<Rightarrow> bool" where
  "has_root_fw db fw u \<longleftrightarrow> (fw, u) \<in> set (fw_files_table db)"

definition join_fw_or_fo ::
  "bool \<Rightarrow> fw_filter \<Rightarrow> database \<Rightarrow> (string \<times> 'x) list \<Rightarrow> ((string \<times> 'x) \<times> string) list" where
  "join_fw_or_fo is_fw q_filter db rows =
     (if is_fw then join_firmware (\<lambda>fw u. fw = u) q_filter db rows
      else join_firmware (has_root_fw db) q_filter db (in_file_table db rows))"

definition join_all ::
  "fw_filter \<Rightarrow> database \<Rightarrow> (string \<times> 'x) list \<Rightarrow> ((string \<times> 'x) \<times> string) list" where
  "join_all q_filter db rows =
     join_firmware (\<lambda>fw u. has_root_fw db fw u \<or> fw = u) q_filter db (in_file_table db rows)"

definition filter_is_not_empty :: "fw_filter \<Rightarrow> bool" where
  "filter_is_not_empty query_filter \<longleftrightarrow> query_filter \<noteq> []"

text \<open>The queries that join only if there is a filter\<close>

definition filtered_rows ::
  "(fw_filter \<Rightarrow> database \<Rightarrow> (string \<times> 'x) list \<Rightarrow> ((string \<times> 'x) \<times> string) list) \<Rightarrow>
   fw_filter \<Rightarrow> database \<Rightarrow> (string \<times> 'x) list \<Rightarrow> (string \<times> 'x) list" where
  "filtered_rows join q_filter db rows =
     (if filter_is_not_empty q_filter then map fst (join q_filter db rows) else rows)"

section \<open>Grouping and sorting\<close>

text \<open>\<open>GROUP BY\<close> with a count, and \<open>Counter(xs).items()\<close>: every value once, with its number of occurrences\<close>

definition group_counts :: "'v list \<Rightarrow> ('v \<times> nat) list" where
  "group_counts xs = map (\<lambda>v. (v, count_list xs v)) (remdups xs)"

text \<open>
  The sort key of a value: a dictionary is ordered by its count only, the tuple \<open>(e[1],)\<close> being
  smaller than \<open>(e[1], e[0])\<close>.
\<close>

fun value_key :: "pyval \<Rightarrow> string list" where
  "value_key (PStr s) = [s]"
| "value_key (PList vs) = List.map_filter (\<lambda>v. case v of PStr s \<Rightarrow> Some s | _ \<Rightarrow> None) vs"
| "value_key _ = []"

definition sort_values :: "(pyval \<times> nat) list \<Rightarrow> (pyval \<times> nat) list" where
  "sort_values query_result = sort_key (\<lambda>(v, n). (n, value_key v)) query_result"

definition sort_tuples :: "stats \<Rightarrow> stats" where
  "sort_tuples query_result = sort_key (\<lambda>(v, n). (n, v)) query_result"

definition count_occurrences :: "string list \<Rightarrow> stats" where
  "count_occurrences result_list = sort_tuples (group_counts result_list)"

definition stats_avg :: "real list \<Rightarrow> real" where
  "stats_avg vs = (if length vs = 0 then 0 else sum_list vs / real (length vs))"

section \<open>The queries\<close>

text \<open>\<open>_get_aggregate\<close>: the rows over which the aggregate runs; the aggregate of no row is \<open>None\<close>, or 0 for a count.\<close>

definition aggregate_rows :: "fw_filter \<Rightarrow> bool \<Rightarrow> database \<Rightarrow> file_object_entry list" where
  "aggregate_rows q_filter is_fw db =
     map (snd \<circ> fst) (join_firmware (if is_fw then (\<lambda>fw u. fw = u) else has_root_fw db) q_filter db (file_object_table db))"

definition get_count :: "fw_filter \<Rightarrow> bool \<Rightarrow> database \<Rightarrow> nat" where
  "get_count q_filter is_fw db = length (aggregate_rows q_filter is_fw db)"

definition sum_of_sizes :: "file_object_entry list \<Rightarrow> int" where
  "sum_of_sizes es = sum_list (List.map_filter e_size es)"

definition get_sum :: "fw_filter \<Rightarrow> bool \<Rightarrow> database \<Rightarrow> int" where
  "get_sum q_filter is_fw db = sum_of_sizes (aggregate_rows q_filter is_fw db)"

definition get_avg :: "fw_filter \<Rightarrow> bool \<Rightarrow> database \<Rightarrow> real" where
  "get_avg q_filter is_fw db = stats_avg (map real_of_int (List.map_filter e_size (aggregate_rows q_filter is_fw db)))"

definition get_fo_count :: "database \<Rightarrow> nat" where
  "get_fo_count db = length (file_object_table db)"

definition get_cumulated_fo_size :: "database \<Rightarrow> int" where
  "get_cumulated_fo_size db = sum_of_sizes (map snd (file_object_table db))"

definition count_distinct_values :: "(firmware_entry \<Rightarrow> string option) \<Rightarrow> fw_filter \<Rightarrow> database \<Rightarrow> stats" where
  "count_distinct_values key q_filter db =
     sort_tuples (group_counts (List.map_filter (key \<circ> snd) (filtered_fw q_filter db)))"

text \<open>\<open>AnalysisEntry.result[key]\<close> for a key that holds text\<close>

definition text_field :: "string \<Rightarrow> analysis_entry \<Rightarrow> string option" where
  "text_field k a = (case json_field (ae_result a) k of PStr s \<Rightarrow> Some s | _ \<Rightarrow> None)"

definition count_distinct_in_analysis :: "string \<Rightarrow> string \<Rightarrow> bool \<Rightarrow> fw_filter \<Rightarrow> database \<Rightarrow> stats" where
  "count_distinct_in_analysis key plugin is_fw q_filter db =
     sort_tuples (group_counts (List.map_filter (text_field key \<circ> snd \<circ> fst)
       (join_fw_or_fo is_fw q_filter db (analysis_rows plugin db))))"

text \<open>\<open>jsonb_array_elements\<close>: no row for a missing array, an error for a value that is no array\<close>

definition array_elements :: "string \<Rightarrow> analysis_entry \<Rightarrow> pyval list result" where
  "array_elements k a = (case json_field (ae_result a) k of
       PNone \<Rightarrow> Inr []
     | PList vs \<Rightarrow> Inr vs
     | _ \<Rightarrow> Inl DbInterfaceError)"

definition count_array_elements ::
  "string \<Rightarrow> string \<Rightarrow> fw_filter \<Rightarrow> database \<Rightarrow> (pyval \<times> nat) list result" where
  "count_array_elements key plugin q_filter db =
     bindE (mapE (array_elements key \<circ> snd) (filtered_rows (join_fw_or_fo False) q_filter db (analysis_rows plugin db)))
       (\<lambda>vss. Inr (group_counts (concat vss)))"

definition count_distinct_values_in_array ::
  "string \<Rightarrow> string \<Rightarrow> fw_filter \<Rightarrow> database \<Rightarrow> (pyval \<times> nat) list result" where
  "count_distinct_values_in_array key plugin q_filter db =
     bindE (count_array_elements key plugin q_filter db) (\<lambda>res. Inr (sort_values res))"

text \<open>\<open>unnest(AnalysisEntry.summary)\<close>\<close>

fun unnest_summary :: "pyval \<Rightarrow> string list" where
  "unnest_summary (PList vs) = map str_of_py vs"
| "unnest_summary _ = []"

definition summary_rows :: "string \<Rightarrow> database \<Rightarrow> (string \<times> string) list" where
  "summary_rows plugin db = concat (map (\<lambda>(u, a). map (Pair u) (unnest_summary (ae_summary a))) (analysis_rows plugin db))"

definition count_values_in_summary :: "string \<Rightarrow> fw_filter \<Rightarrow> bool \<Rightarrow> database \<Rightarrow> stats" where
  "count_values_in_summary plugin q_filter is_fw db =
     count_occurrences (map (snd \<circ> fst) (join_fw_or_fo is_fw q_filter db (summary_rows plugin db)))"

definition get_arch_stats :: "fw_filter \<Rightarrow> database \<Rightarrow> (string \<times> nat \<times> string) list" where
  "get_arch_stats q_filter db =
     map (\<lambda>((arch, fw), n). (arch, n, fw)) (group_counts (map (\<lambda>((_, arch), fw). (arch, fw))
       (join_fw_or_fo False q_filter db (summary_rows ''cpu_architecture'' db))))"

text \<open>\<open>AnalysisEntry.summary.any(summary_key)\<close>\<close>

definition unpacker_rows :: "string \<Rightarrow> database \<Rightarrow> (string \<times> analysis_entry) list" where
  "unpacker_rows summary_key db =
     filter (\<lambda>(_, a). summary_key \<in> set (unnest_summary (ae_summary a))) (analysis_rows ''unpacker'' db)"

text \<open>The query groups also the rows without a MIME type (\<open>NULL\<close>, of which it counts none).\<close>

definition get_unpacking_file_types :: "string \<Rightarrow> fw_filter \<Rightarrow> database \<Rightarrow> (string option \<times> nat) list" where
  "get_unpacking_file_types summary_key q_filter db =
     (let mimes = map (text_field ''mime'' \<circ> snd) (filtered_rows join_all q_filter db
            (concat (map (\<lambda>(u, _). filter (\<lambda>(v, _). v = u) (analysis_rows ''file_type'' db)) (unpacker_rows summary_key db))))
      in (if None \<in> set mimes then [(None, 0)] else []) @
         map (\<lambda>(v, n). (Some v, n)) (sort_tuples (group_counts (List.map_filter id mimes))))"

text \<open>\<open>float(x)\<close> and \<open>int(x)\<close> on a JSON number\<close>

fun py_float :: "pyval \<Rightarrow> real result" where
  "py_float (PInt i) = Inr (of_int i)"
| "py_float (PFloat x) = Inr x"
| "py_float _ = Inl TypeError"

definition py_int :: "pyval \<Rightarrow> int result" where
  "py_int v = bindE (py_float v) (\<lambda>x. Inr (if 0 \<le> x then \<lfloor>x\<rfloor> else \<lceil>x\<rceil>))"

definition get_unpacking_entropy :: "string \<Rightarrow> fw_filter \<Rightarrow> database \<Rightarrow> real result" where
  "get_unpacking_entropy summary_key q_filter db =
     bindE (mapE (\<lambda>(_, a). py_float (json_field (ae_result a) ''entropy''))
       (filtered_rows join_all q_filter db (unpacker_rows summary_key db))) (\<lambda>es. Inr (stats_avg es))"

definition get_used_unpackers :: "fw_filter \<Rightarrow> database \<Rightarrow> stats result" where
  "get_used_unpackers q_filter db =
     bindE (foldE (\<lambda>(_, a) plugins. bindE (py_int (json_field (ae_result a) ''number_of_unpacked_files'')) (\<lambda>n.
         if n > 0 then (case text_field ''plugin_used'' a of
             None \<Rightarrow> Inl TypeError
           | Some p \<Rightarrow> Inr (plugins @ [p]))
         else Inr plugins))
       (filtered_rows join_all q_filter db (analysis_rows ''unpacker'' db)) []) (\<lambda>plugins. Inr (count_occurrences plugins))"

definition get_regex_mime_match_count :: "(string \<Rightarrow> string \<Rightarrow> bool) \<Rightarrow> string \<Rightarrow> fw_filter \<Rightarrow> database \<Rightarrow> nat" where
  "get_regex_mime_match_count regexp_match regex q_filter db =
     length (filter (\<lambda>(_, a). case text_field ''full'' a of None \<Rightarrow> False | Some s \<Rightarrow> regexp_match regex s)
       (filtered_rows (join_fw_or_fo False) q_filter db (analysis_rows ''file_type'' db)))"

definition get_release_date_stats :: "fw_filter \<Rightarrow> database \<Rightarrow> (nat \<times> nat \<times> nat) list" where
  "get_release_date_stats q_filter db =
     map (\<lambda>((year, month), n). (year, month, n))
       (group_counts (map (\<lambda>(_, e). case e_release_date e of (y, m, _) \<Rightarrow> (y, m)) (filtered_fw q_filter db)))"

definition get_software_components :: "fw_filter \<Rightarrow> database \<Rightarrow> stats result" where
  "get_software_components q_filter db =
     bindE (count_array_elements ''software_components'' ''software_components'' q_filter db) (\<lambda>rows.
       bindE (foldE (\<lambda>(software_dict, n) res. bindE (subscript software_dict ''name'') (\<lambda>name. case name of
           PStr s \<Rightarrow> Inr (dict_modify s 0 (\<lambda>m. m + n) res)
         | _ \<Rightarrow> Inl TypeError)) rows []) (\<lambda>res. Inr (sort_tuples res)))"

section \<open>Writing and reading the statistics\<close>

text \<open>
  The handler catches \<open>SQLAlchemyError\<close>, but the session has already turned it into an error of the
  database interface, which therefore reaches the caller.
\<close>

definition update_statistic :: "(pydict \<Rightarrow> pydict result) \<Rightarrow> string \<Rightarrow> pydict \<Rightarrow> database \<Rightarrow> database result" where
  "update_statistic flush identifier content_dict db =
     bindE (flush content_dict) (\<lambda>data. Inr (db\<lparr>stats_table := AList.update identifier data (stats_table db)\<rparr>))"

definition stats_entry_to_dict :: "string \<Rightarrow> pydict \<Rightarrow> pydict" where
  "stats_entry_to_dict name data = fold (\<lambda>(k, v). AList.update k v) data [(''_id'', PStr name)]"

definition get_statistic :: "database \<Rightarrow> string \<Rightarrow> pydict option" where
  "get_statistic db identifier = map_option (stats_entry_to_dict identifier) (map_of (stats_table db) identifier)"

definition get_stats_list :: "database \<Rightarrow> string list \<Rightarrow> pydict list" where
  "get_stats_list db identifiers =
     map (\<lambda>(name, data). stats_entry_to_dict name data) (filter (\<lambda>(name, _). name \<in> set identifiers) (stats_table db))"

section \<open>Release dates over time\<close>

text \<open>\<open>_build_time_dict\<close>: a dictionary of the years with a dictionary of the months\<close>

type_synonym time_dict = "(nat \<times> (nat \<times> nat) list) list"

text \<open>The range of months of the year \<open>y\<close>, and \<open>time_dict[year].setdefault(month, 0)\<close> for each of them\<close>

definition fill_year :: "nat \<times> nat \<Rightarrow> nat \<times> nat \<Rightarrow> nat \<Rightarrow> (nat \<times> nat) list \<Rightarrow> (nat \<times> nat) list" where
  "fill_year first final y months =
     (let min_month = (if y = fst first then snd first else 1);
          max_month = (if y = fst final then snd final else 12)
      in fold (\<lambda>m. dict_modify m 0 (\<lambda>n. n)) [min_month..<Suc max_month] months)"

definition fill_in_time_gaps :: "time_dict \<Rightarrow> time_dict" where
  "fill_in_time_gaps time_dict =
     (if time_dict = [] then time_dict
      else
        let months_of = (\<lambda>y. fst ` set (case map_of time_dict y of None \<Rightarrow> [] | Some ms \<Rightarrow> ms));
            start_year = Min (fst ` set time_dict);
            start_month = Min (months_of start_year);
            end_year = Max (fst ` set time_dict);
            end_month = Max (months_of end_year)
        in fold (\<lambda>y. dict_modify y [] (fill_year (start_year, start_month) (end_year, end_month) y))
             [start_year..<Suc end_year] time_dict)"

definition build_time_dict :: "(nat \<times> nat \<times> nat) list \<Rightarrow> time_dict" where
  "build_time_dict release_date_stats =
     fill_in_time_gaps (fold (\<lambda>(y, m, n) d. if y > 1970 then dict_modify y [] (AList.update m n) d else d) release_date_stats [])"

text \<open>\<open>datetime(1900, month, 1).strftime('%B')\<close>\<close>

definition month_names :: "string list" where
  "month_names = [''January'', ''February'', ''March'', ''April'', ''May'', ''June'', ''July'', ''August'',
     ''September'', ''October'', ''November'', ''December'']"

definition get_month_name :: "nat \<Rightarrow> string result" where
  "get_month_name month_int = (if 1 \<le> month_int \<and> month_int \<le> 12 then Inr (month_names ! (month_int - 1)) else Inl ValueError)"

text \<open>The years and, within a year, the months in ascending order\<close>

definition time_entries :: "time_dict \<Rightarrow> (nat \<times> nat \<times> nat) list" where
  "time_entries time_dict =
     concat (map (\<lambda>(y, ms). map (\<lambda>(m, n). (y, m, n)) (sort_key fst ms)) (sort_key fst time_dict))"

definition build_stats_entry_from_date_query :: "(nat \<times> nat \<times> nat) list \<Rightarrow> stats result" where
  "build_stats_entry_from_date_query release_date_stats =
     mapE (\<lambda>(year, month, n). bindE (get_month_name month) (\<lambda>name. Inr (name @ '' '' @ nat_str year, n)))
       (time_entries (build_time_dict release_date_stats))"

section \<open>The updater\<close>

text \<open>\<open>self.match\<close> and the clock are arguments.\<close>

definition stats_value :: "stats \<Rightarrow> pyval" where
  "stats_value st = PList (map (\<lambda>(v, n). PTuple [PStr v, PInt (int n)]) st)"

definition get_general_stats :: "timestamp \<Rightarrow> timestamp \<Rightarrow> fw_filter \<Rightarrow> database \<Rightarrow> pydict" where
  "get_general_stats start_time now match db =
     [(''number_of_firmwares'', PInt (int (get_count match True db))),
      (''total_firmware_size'', PInt (get_sum match True db)),
      (''average_firmware_size'', PFloat (get_avg match True db)),
      (''number_of_unique_files'', PInt (int (get_fo_count db))),
      (''total_file_size'', PInt (get_cumulated_fo_size db)),
      (''creation_time'', PFloat now),
      (''average_file_size'', if get_fo_count db > 0
         then PFloat (of_int (get_cumulated_fo_size db) / real (get_fo_count db)) else PInt 0),
      (''benchmark'', PFloat (now - start_time))]"

definition filter_results :: "stats \<Rightarrow> stats" where
  "filter_results st = filter (\<lambda>(v, _). v \<notin> {''not available'', ''clean''}) st"

text \<open>\<open>round(x, 5)\<close>: the nearest multiple, the even one of two\<close>

definition round_half_even :: "real \<Rightarrow> int" where
  "round_half_even x = (let k = \<lfloor>x\<rfloor>; d = x - of_int k
     in if d < 1 / 2 then k else if d > 1 / 2 then k + 1 else if even k then k else k + 1)"

definition round5 :: "real \<Rightarrow> real" where
  "round5 x = of_int (round_half_even (x * 10 ^ 5)) / 10 ^ 5"

text \<open>\<open>count_dict\<close>: a later item that contains the keyword replaces an earlier one.\<close>

definition keyword_counts :: "string list \<Rightarrow> stats \<Rightarrow> stats" where
  "keyword_counts keywords st =
     fold (\<lambda>keyword d. fold (\<lambda>(summary_item, n) d.
         if substring_of (py_lower keyword) (py_lower summary_item) then AList.update keyword n d else d) st d) keywords []"

text \<open>
  A division by zero cannot occur: the counts of a query are positive. It would be \<open>count / 0 = 0\<close> here.
\<close>

definition get_relative_stats :: "string list \<Rightarrow> stats \<Rightarrow> (string \<times> nat \<times> real) list" where
  "get_relative_stats keywords st =
     (let count_dict = keyword_counts keywords st;
          total = sum_list (map snd count_dict)
      in map (\<lambda>(label, n). (label, n, round5 (real n / real total))) count_dict)"

definition relative_value :: "(string \<times> nat \<times> real) list \<Rightarrow> pyval" where
  "relative_value st = PList (map (\<lambda>(v, n, x). PTuple [PStr v, PInt (int n), PFloat x]) st)"

definition mitigation_keywords :: "string list list" where
  "mitigation_keywords =
     [[''NX enabled'', ''NX disabled''], [''Canary enabled'', ''Canary disabled''],
      [''RELRO fully enabled'', ''RELRO partially enabled'', ''RELRO disabled''],
      [''PIE enabled'', ''PIE/DSO present'', ''PIE disabled'', ''PIE - invalid ELF file''],
      [''FORTIFY_SOURCE enabled'', ''FORTIFY_SOURCE disabled'']]"

definition get_exploit_mitigations_stats :: "fw_filter \<Rightarrow> database \<Rightarrow> pydict" where
  "get_exploit_mitigations_stats match db =
     (let res = count_values_in_summary ''exploit_mitigations'' match False db
      in [(''exploit_mitigations'', relative_value (concat (map (\<lambda>ks. get_relative_stats ks res) mitigation_keywords)))])"

definition get_known_vulnerabilities_stats :: "fw_filter \<Rightarrow> database \<Rightarrow> pydict" where
  "get_known_vulnerabilities_stats match db =
     [(''known_vulnerabilities'', stats_value (filter_results (count_values_in_summary ''known_vulnerabilities'' match False db)))]"

definition get_crypto_material_stats :: "fw_filter \<Rightarrow> database \<Rightarrow> pydict" where
  "get_crypto_material_stats match db =
     [(''crypto_material'', stats_value (count_values_in_summary ''crypto_material'' match False db))]"

definition get_firmware_meta_stats :: "fw_filter \<Rightarrow> database \<Rightarrow> pydict" where
  "get_firmware_meta_stats match db =
     [(''vendor'', stats_value (count_distinct_values e_vendor match db)),
      (''device_class'', stats_value (count_distinct_values e_device_class match db))]"

definition get_file_type_stats :: "fw_filter \<Rightarrow> database \<Rightarrow> pydict" where
  "get_file_type_stats match db =
     map (\<lambda>(label, is_fw). (label, stats_value (count_distinct_in_analysis ''mime'' ''file_type'' is_fw match db)))
       [(''file_types'', False), (''firmware_container'', True)]"

definition get_ratio :: "stats \<Rightarrow> stats \<Rightarrow> string list \<Rightarrow> real" where
  "get_ratio fo_stats firmware_stats keywords =
     (let num = (\<lambda>k. sum_list (map (\<lambda>st. case map_of st k of None \<Rightarrow> 0 | Some n \<Rightarrow> n) [fo_stats, firmware_stats]));
          total = sum_list (map num keywords)
      in if total = 0 then 0 else real (num (hd keywords)) / real total)"

definition opt_stats_value :: "(string option \<times> nat) list \<Rightarrow> pyval" where
  "opt_stats_value st = PList (map (\<lambda>(v, n). PTuple [opt_val v, PInt (int n)]) st)"

definition get_unpacking_stats :: "fw_filter \<Rightarrow> database \<Rightarrow> pydict result" where
  "get_unpacking_stats match db =
     (let fo_packing_stats = count_values_in_summary ''unpacker'' match False db;
          firmware_packing_stats = count_values_in_summary ''unpacker'' match True db
      in bindE (get_used_unpackers match db) (\<lambda>used.
           bindE (get_unpacking_entropy ''packed'' match db) (\<lambda>packed.
             bindE (get_unpacking_entropy ''unpacked'' match db) (\<lambda>unpacked.
               Inr [(''used_unpackers'', stats_value used),
                    (''packed_file_types'', opt_stats_value (get_unpacking_file_types ''packed'' match db)),
                    (''data_loss_file_types'', opt_stats_value (get_unpacking_file_types ''data lost'' match db)),
                    (''overall_unpack_ratio'', PFloat (get_ratio fo_packing_stats firmware_packing_stats [''unpacked'', ''packed''])),
                    (''overall_data_loss_ratio'',
                      PFloat (get_ratio fo_packing_stats firmware_packing_stats [''data lost'', ''no data lost''])),
                    (''average_packed_entropy'', PFloat packed), (''average_unpacked_entropy'', PFloat unpacked)]))))"

definition find_most_frequent_architecture :: "(string \<times> nat) list \<Rightarrow> string" where
  "find_most_frequent_architecture arch_stats = fst (hd (sort_key (\<lambda>(_, n). - int n) arch_stats))"

definition shorten_architecture_string :: "string \<Rightarrow> string" where
  "shorten_architecture_string arch_string =
     (let string_parts = take 2 (py_split (CHR '','') arch_string)
      in if length string_parts > 1 then py_join '','' string_parts
         else take (length arch_string - 4) arch_string)"

definition arch_stats_by_fw :: "(string \<times> nat \<times> string) list \<Rightarrow> (string \<times> (string \<times> nat) list) list" where
  "arch_stats_by_fw rows = fold (\<lambda>(arch, n, fw). dict_modify fw [] (\<lambda>xs. xs @ [(arch, n)])) rows []"

definition get_architecture_stats :: "fw_filter \<Rightarrow> database \<Rightarrow> pydict" where
  "get_architecture_stats match db =
     [(''cpu_architecture'', stats_value (count_occurrences
        (map (\<lambda>(_, arch_count_list). shorten_architecture_string (find_most_frequent_architecture arch_count_list))
          (arch_stats_by_fw (get_arch_stats match db)))))]"

definition executable_queries :: "(string \<times> string) list" where
  "executable_queries =
     [(''big endian'', ''^ELF.*MSB.*executable''), (''little endian'', ''^ELF.*LSB.*executable''),
      (''stripped'', ''^ELF.*executable.*, stripped''), (''not stripped'', ''^ELF.*executable.*, not stripped''),
      (''32-bit'', ''^ELF 32-bit.*executable''), (''64-bit'', ''^ELF 64-bit.*executable''),
      (''dynamically linked'', ''^ELF.*executable.*dynamically linked''),
      (''statically linked'', ''^ELF.*executable.*statically linked''),
      (''section info missing'', ''^ELF.*executable.*section header'')]"

text \<open>No filter is passed to the queries.\<close>

definition get_executable_stats :: "(string \<Rightarrow> string \<Rightarrow> bool) \<Rightarrow> fw_filter \<Rightarrow> database \<Rightarrow> pydict" where
  "get_executable_stats regexp_match match db =
     (let total = get_regex_mime_match_count regexp_match ''^ELF.*executable'' [] db
      in [(''executable_stats'', PList (map (\<lambda>(label, query_match).
            let n = get_regex_mime_match_count regexp_match query_match [] db
            in PTuple [PStr label, PInt (int n), PFloat (real n / real (if total \<noteq> 0 then total else 1)), PStr query_match])
          executable_queries))])"

text \<open>\<open>_remove_location_info\<close>: only the address is kept.\<close>

definition without_location :: "pyval \<Rightarrow> pyval result" where
  "without_location ip = (case ip of
       PList (x # _) \<Rightarrow> Inr x
     | PList [] \<Rightarrow> Inl IndexError
     | PDict _ \<Rightarrow> subscript ip ''address''
     | _ \<Rightarrow> Inr ip)"

definition remove_location_info :: "(pyval \<times> nat) list \<Rightarrow> (pyval \<times> nat) list result" where
  "remove_location_info st = mapE (\<lambda>(ip, n). bindE (without_location ip) (\<lambda>a. Inr (a, n))) st"

definition value_stats :: "(pyval \<times> nat) list \<Rightarrow> pyval" where
  "value_stats st = PList (map (\<lambda>(v, n). PTuple [v, PInt (int n)]) st)"

definition get_ip_stats :: "fw_filter \<Rightarrow> database \<Rightarrow> pydict result" where
  "get_ip_stats match db =
     (let query = (\<lambda>key. count_distinct_values_in_array key ''ip_and_uri_finder'' match db)
      in bindE (query ''ips_v4'') (\<lambda>v4. bindE (query ''ips_v6'') (\<lambda>v6. bindE (query ''uris'') (\<lambda>uris.
           bindE (remove_location_info v4) (\<lambda>v4'. bindE (remove_location_info v6) (\<lambda>v6'.
             Inr [(''ips_v4'', value_stats v4'), (''ips_v6'', value_stats v6'), (''uris'', value_stats uris)]))))))"

definition get_time_stats :: "fw_filter \<Rightarrow> database \<Rightarrow> pydict result" where
  "get_time_stats match db =
     bindE (build_stats_entry_from_date_query (get_release_date_stats match db)) (\<lambda>st.
       Inr [(''date_histogram_data'', stats_value st)])"

definition get_software_components_stats :: "fw_filter \<Rightarrow> database \<Rightarrow> pydict result" where
  "get_software_components_stats match db =
     bindE (get_software_components match db) (\<lambda>st. Inr [(''software_components'', stats_value st)])"

text \<open>The statistics in the order in which \<open>update_all_stats\<close> computes them\<close>

definition all_stats ::
  "(string \<Rightarrow> string \<Rightarrow> bool) \<Rightarrow> timestamp \<Rightarrow> timestamp \<Rightarrow> fw_filter \<Rightarrow> (string \<times> (database \<Rightarrow> pydict result)) list" where
  "all_stats regexp_match start_time now match =
     [(''firmware_meta'', \<lambda>db. Inr (get_firmware_meta_stats match db)),
      (''file_type'', \<lambda>db. Inr (get_file_type_stats match db)),
      (''crypto_material'', \<lambda>db. Inr (get_crypto_material_stats match db)),
      (''unpacking'', get_unpacking_stats match),
      (''architecture'', \<lambda>db. Inr (get_architecture_stats match db)),
      (''ips_and_uris'', get_ip_stats match),
      (''release_date'', get_time_stats match),
      (''exploit_mitigations'', \<lambda>db. Inr (get_exploit_mitigations_stats match db)),
      (''known_vulnerabilities'', \<lambda>db. Inr (get_known_vulnerabilities_stats match db)),
      (''software_components'', get_software_components_stats match),
      (''elf_executable'', \<lambda>db. Inr (get_executable_stats regexp_match match db)),
      (''general'', \<lambda>db. Inr (get_general_stats start_time now match db))]"

definition update_all_stats ::
  "(string \<Rightarrow> string \<Rightarrow> bool) \<Rightarrow> (pydict \<Rightarrow> pydict result) \<Rightarrow> timestamp \<Rightarrow> timestamp \<Rightarrow> fw_filter \<Rightarrow>
   database \<Rightarrow> database result" where
  "update_all_stats regexp_match flush start_time now match =
     foldE (\<lambda>(identifier, get) db. bindE (get db) (\<lambda>content. update_statistic flush identifier content db))
       (all_stats regexp_match start_time now match)"

section \<open>The pages\<close>

text \<open>\<open>apply_filters_to_query(request, '{}')\<close>, with \<open>request.args.get\<close> as argument\<close>

definition stats_filter :: "(string \<Rightarrow> string option) \<Rightarrow> fw_filter" where
  "stats_filter args = List.map_filter (\<lambda>k. case args k of
       None \<Rightarrow> None
     | Some v \<Rightarrow> if v \<noteq> [] then Some (k, v) else None) [''device_class'', ''vendor'']"

definition page_keys :: "(string \<times> string) list" where
  "page_keys = [(''general_stats'', ''general''), (''firmware_meta_stats'', ''firmware_meta''),
     (''file_type_stats'', ''file_type''), (''crypto_material_stats'', ''crypto_material''),
     (''unpacker_stats'', ''unpacking''), (''ip_and_uri_stats'', ''ips_and_uris''),
     (''architecture_stats'', ''architecture''), (''release_date_stats'', ''release_date''),
     (''exploit_mitigations_stats'', ''exploit_mitigations''),
     (''known_vulnerabilities_stats'', ''known_vulnerabilities''), (''software_stats'', ''software_components''),
     (''elf_executable_stats'', ''elf_executable'')]"

definition opt_dict :: "pydict option \<Rightarrow> pyval" where
  "opt_dict d = (case d of None \<Rightarrow> PNone | Some x \<Rightarrow> PDict x)"

definition get_stats_from_db :: "database \<Rightarrow> pydict" where
  "get_stats_from_db db = map (\<lambda>(k, name). (k, opt_dict (get_statistic db name))) page_keys"

definition live_keys :: "(string \<times> string) list" where
  "live_keys = [(''firmware_meta_stats'', ''firmware_meta''), (''file_type_stats'', ''file_type''),
     (''crypto_material_stats'', ''crypto_material''), (''unpacker_stats'', ''unpacking''),
     (''ip_and_uri_stats'', ''ips_and_uris''), (''architecture_stats'', ''architecture''),
     (''release_date_stats'', ''release_date''), (''general_stats'', ''general''),
     (''exploit_mitigations_stats'', ''exploit_mitigations''),
     (''known_vulnerabilities_stats'', ''known_vulnerabilities''), (''software_stats'', ''software_components''),
     (''elf_executable_stats'', ''elf_executable'')]"

definition get_live_stats ::
  "(string \<Rightarrow> string \<Rightarrow> bool) \<Rightarrow> timestamp \<Rightarrow> timestamp \<Rightarrow> fw_filter \<Rightarrow> database \<Rightarrow> pydict result" where
  "get_live_stats regexp_match start_time now filter_query db =
     mapE (\<lambda>(k, name). case map_of (all_stats regexp_match start_time now filter_query) name of
         None \<Rightarrow> Inl AttributeError
       | Some get \<Rightarrow> bindE (get db) (\<lambda>content. Inr (k, PDict content))) live_keys"

definition show_statistics ::
  "(string \<Rightarrow> string \<Rightarrow> bool) \<Rightarrow> timestamp \<Rightarrow> timestamp \<Rightarrow> (string \<Rightarrow> string option) \<Rightarrow> database \<Rightarrow>
   (pydict \<times> string list \<times> string list) result" where
  "show_statistics regexp_match start_time now args db =
     (let filter_query = stats_filter args
      in bindE (if filter_query = [] then Inr (get_stats_from_db db)
                else get_live_stats regexp_match start_time now filter_query db) (\<lambda>st.
           Inr (st, get_device_class_list db, get_vendor_list db)))"

definition rest_STATISTICS :: "string list" where
  "rest_STATISTICS = [''architecture'', ''crypto_material'', ''elf_executable'', ''exploit_mitigations'',
     ''file_type'', ''firmware_meta'', ''general'', ''ips_and_uris'', ''known_vulnerabilities'',
     ''release_date'', ''software_components'', ''unpacking'']"

definition delete_id_and_check_empty_stat :: "(string \<times> pydict option) list \<Rightarrow> (string \<times> pydict) list" where
  "delete_id_and_check_empty_stat stats_dict =
     map (\<lambda>(stat, d). (stat, case d of None \<Rightarrow> [] | Some x \<Rightarrow> AList.delete ''_id'' x)) stats_dict"

definition rest_get_all_statistics :: "database \<Rightarrow> (string \<times> pydict) list" where
  "rest_get_all_statistics db = delete_id_and_check_empty_stat (map (\<lambda>stat. (stat, get_statistic db stat)) rest_STATISTICS)"

text \<open>An unknown name is answered with an error message (\<open>Inl\<close>).\<close>

definition rest_get_statistic :: "database \<Rightarrow> string \<Rightarrow> string + (string \<times> pydict) list" where
  "rest_get_statistic db stat_name =
     (let statistic_dict = delete_id_and_check_empty_stat [(stat_name, get_statistic db stat_name)]
      in if stat_name \<notin> set rest_STATISTICS
         then Inl (''A statistic with the ID '' @ stat_name @ '' does not exist'')
         else Inr statistic_dict)"

section \<open>Counting\<close>

lemma group_counts_lookup:
  "map_of (group_counts xs) v = (if v \<in> set xs then Some (count_list xs v) else None)"
  by (simp add: group_counts_def map_of_map_restrict restrict_map_def)

lemma group_counts_keys [simp]: "map fst (group_counts xs) = remdups xs"
  by (simp add: group_counts_def comp_def)

lemma count_list_remdups_sum: "sum_list (map (count_list xs) (remdups xs)) = length xs"
proof -
  have "sum_list (map (count_list xs) (remdups xs)) = sum (count_list xs) (set xs)"
    by (simp add: sum_list_distinct_conv_sum_set)
  then show ?thesis
    by (simp add: sum_count_set)
qed

text \<open>
  What a query promises: every value of the rows once, with the number of rows that have it, in
  ascending order of the numbers, then of the values.
\<close>

definition counts_of :: "('v :: linorder) list \<Rightarrow> ('v \<times> nat) list \<Rightarrow> bool" where
  "counts_of xs st \<longleftrightarrow> distinct (map fst st) \<and>
     (\<forall>v n. (v, n) \<in> set st \<longleftrightarrow> v \<in> set xs \<and> n = count_list xs v) \<and>
     sum_list (map snd st) = length xs \<and> sorted (map (\<lambda>(v, n). (n, v)) st)"

lemma sort_tuples_counts: "counts_of xs (sort_tuples (group_counts xs))"
proof -
  let ?st = "sort_tuples (group_counts xs)"
  have m: "mset ?st = mset (group_counts xs)"
    by (simp add: sort_tuples_def)
  then have mm: "mset (map f ?st) = mset (map f (group_counts xs))" for f :: "string \<times> nat \<Rightarrow> 'b"
    by simp
  have "distinct (map fst ?st)"
    using mset_eq_imp_distinct_iff [OF mm [of fst]] by simp
  moreover have "sum_list (map snd ?st) = length xs"
    using mm [of snd] sum_mset_sum_list [of "map snd ?st"] sum_mset_sum_list [of "map snd (group_counts xs)"]
      count_list_remdups_sum [of xs] by (simp add: group_counts_def comp_def)
  moreover have "(v, n) \<in> set ?st \<longleftrightarrow> v \<in> set xs \<and> n = count_list xs v" for v n
    by (auto simp: sort_tuples_def group_counts_def)
  moreover have "sorted (map (\<lambda>(v, n). (n, v)) ?st)"
    by (simp add: sort_tuples_def)
  ultimately show ?thesis
    by (simp add: counts_of_def)
qed

lemma count_occurrences_counts: "counts_of xs (count_occurrences xs)"
  by (simp add: count_occurrences_def sort_tuples_counts)

text \<open>A row appears once for each firmware that matches the filter and has the file.\<close>

lemma join_firmware_rows:
  "((u, x), fw) \<in> set (join_firmware rel q db rows) \<longleftrightarrow>
     (u, x) \<in> set rows \<and> rel fw u \<and> (\<exists>e. (fw, e) \<in> set (firmware_table db) \<and> fw_matches q e)"
  by (force simp: join_firmware_def filtered_fw_def)

text \<open>A filter gives what the query without filter gives on a database with the matching firmware only.\<close>

definition only_matching :: "fw_filter \<Rightarrow> database \<Rightarrow> database" where
  "only_matching q db = db\<lparr>firmware_table := filtered_fw q db\<rparr>"

lemma fw_matches_Nil [simp]: "fw_matches [] e"
  by (simp add: fw_matches_def)

lemma filtered_fw_only_matching: "filtered_fw [] (only_matching q db) = filtered_fw q db"
  by (simp add: only_matching_def filtered_fw_def)

lemma join_only_matching:
  "join_firmware rel q db rows = join_firmware rel [] (only_matching q db) rows"
  by (simp add: join_firmware_def filtered_fw_only_matching)

lemma join_fw_or_fo_only_matching:
  "join_fw_or_fo is_fw q db rows = join_fw_or_fo is_fw [] (only_matching q db) rows"
  unfolding join_fw_or_fo_def join_only_matching [of _ q db]
  by (simp add: only_matching_def in_file_table_def has_root_fw_def [abs_def])

lemma filtered_queries:
  "count_values_in_summary plugin q is_fw db = count_values_in_summary plugin [] is_fw (only_matching q db)"
  "count_distinct_values key q db = count_distinct_values key [] (only_matching q db)"
  "count_distinct_in_analysis k plugin is_fw q db = count_distinct_in_analysis k plugin is_fw [] (only_matching q db)"
  "get_arch_stats q db = get_arch_stats [] (only_matching q db)"
  "get_release_date_stats q db = get_release_date_stats [] (only_matching q db)"
proof -
  have rows: "analysis_rows p (only_matching q db) = analysis_rows p db"
    "summary_rows p (only_matching q db) = summary_rows p db" for p
    by (simp_all add: analysis_rows_def summary_rows_def only_matching_def)
  show "count_values_in_summary plugin q is_fw db = count_values_in_summary plugin [] is_fw (only_matching q db)"
    "count_distinct_in_analysis k plugin is_fw q db = count_distinct_in_analysis k plugin is_fw [] (only_matching q db)"
    "get_arch_stats q db = get_arch_stats [] (only_matching q db)"
    by (simp_all add: count_values_in_summary_def count_distinct_in_analysis_def get_arch_stats_def rows
        join_fw_or_fo_only_matching [of _ q db])
  show "count_distinct_values key q db = count_distinct_values key [] (only_matching q db)"
    "get_release_date_stats q db = get_release_date_stats [] (only_matching q db)"
    by (simp_all add: count_distinct_values_def get_release_date_stats_def filtered_fw_only_matching)
qed

section \<open>The histogram of release dates\<close>

lemma fold_dict_modify_lookup:
  "distinct ks \<Longrightarrow> map_of (fold (\<lambda>k. dict_modify k v0 (f k)) ks d) k =
     (if k \<in> set ks then Some (f k (case map_of d k of None \<Rightarrow> v0 | Some v \<Rightarrow> v)) else map_of d k)"
  by (induction ks arbitrary: d) (auto simp: map_of_dict_modify)

lemma distinct_keys_dict_modify [simp]: "distinct (map fst d) \<Longrightarrow> distinct (map fst (dict_modify k v0 f d))"
  by (simp add: dict_modify_def)

lemma distinct_keys_fold_modify: "distinct (map fst d) \<Longrightarrow> distinct (map fst (fold (\<lambda>k. dict_modify k v0 (f k)) ks d))"
  by (induction ks arbitrary: d) simp_all

text \<open>The count of a month in the dictionary\<close>

definition month_count :: "time_dict \<Rightarrow> nat \<times> nat \<Rightarrow> nat option" where
  "month_count d = (\<lambda>(y, m). case map_of d y of None \<Rightarrow> None | Some ms \<Rightarrow> map_of ms m)"

definition time_dict_ok :: "time_dict \<Rightarrow> bool" where
  "time_dict_ok d \<longleftrightarrow> distinct (map fst d) \<and> (\<forall>(y, ms)\<in>set d. distinct (map fst ms) \<and> ms \<noteq> [])"

lemma time_dict_put:
  assumes "time_dict_ok d"
  shows "time_dict_ok (dict_modify y [] (AList.update m n) d)"
    and "month_count (dict_modify y [] (AList.update m n) d) = (month_count d)((y, m) \<mapsto> n)"
proof -
  define ms where "ms = (case map_of d y of None \<Rightarrow> [] | Some ms \<Rightarrow> ms)"
  have "distinct (map fst ms)"
    using assms by (auto simp: ms_def time_dict_ok_def split: option.splits dest: map_of_SomeD)
  moreover have "AList.update m n ms \<noteq> []"
    by (cases ms) auto
  ultimately have "\<forall>(y, ms)\<in>insert (y, AList.update m n ms) (set d). distinct (map fst ms) \<and> ms \<noteq> []"
    using assms unfolding time_dict_ok_def by (simp del: update_nonempty)
  moreover have "set (AList.update y (AList.update m n ms) d) \<subseteq> insert (y, AList.update m n ms) (set d)"
    by (rule set_update_subset)
  ultimately have "\<forall>(y, ms)\<in>set (AList.update y (AList.update m n ms) d). distinct (map fst ms) \<and> ms \<noteq> []"
    by blast
  then have "time_dict_ok (AList.update y (AList.update m n ms) d)"
    using assms unfolding time_dict_ok_def by (intro conjI distinct_keys_update) simp_all
  then show "time_dict_ok (dict_modify y [] (AList.update m n) d)"
    by (simp add: dict_modify_def ms_def)
  show "month_count (dict_modify y [] (AList.update m n) d) = (month_count d)((y, m) \<mapsto> n)"
    by (auto simp: month_count_def map_of_dict_modify fun_eq_iff split: option.splits)
qed

definition raw_time_dict :: "(nat \<times> nat \<times> nat) list \<Rightarrow> time_dict" where
  "raw_time_dict rows = fold (\<lambda>(y, m, n) d. if y > 1970 then dict_modify y [] (AList.update m n) d else d) rows []"

definition month_rows :: "(nat \<times> nat \<times> nat) list \<Rightarrow> ((nat \<times> nat) \<times> nat) list" where
  "month_rows rows = map (\<lambda>(y, m, n). ((y, m), n)) (filter (\<lambda>(y, _, _). y > 1970) rows)"

lemma raw_time_dict_spec:
  assumes "distinct (map fst (month_rows rows))"
  shows "time_dict_ok (raw_time_dict rows)" "month_count (raw_time_dict rows) = map_of (month_rows rows)"
proof -
  have "time_dict_ok (raw_time_dict rows) \<and> month_count (raw_time_dict rows) = map_of (rev (month_rows rows))"
  proof (induction rows rule: rev_induct)
    case Nil
    then show ?case
      by (simp add: raw_time_dict_def month_rows_def time_dict_ok_def month_count_def fun_eq_iff)
  next
    case (snoc row rows)
    obtain y m n where "row = (y, m, n)"
      by (cases row)
    then show ?case
      using snoc time_dict_put [of "raw_time_dict rows" y m n] by (auto simp: raw_time_dict_def month_rows_def)
  qed
  moreover have "map_of (rev (month_rows rows)) = map_of (month_rows rows)"
    using assms by (metis distinct_rev map_of_eqI map_of_inject_set rev_map set_rev)
  ultimately show "time_dict_ok (raw_time_dict rows)" "month_count (raw_time_dict rows) = map_of (month_rows rows)"
    by simp_all
qed

text \<open>The entries are those of the dictionary, in ascending order.\<close>

lemma sorted_wrt_year_months:
  assumes "sorted_wrt (<) (map fst d)" "\<forall>(y, ms)\<in>set d. sorted_wrt (<) (map fst ms)"
  shows "sorted_wrt (<) (map (\<lambda>(y, m, _). (y, m)) (concat (map (\<lambda>(y, ms). map (\<lambda>(m, n). (y, m, n)) ms) d :: (nat \<times> nat \<times> nat) list list)))"
  using assms
proof (induction d)
  case (Cons x d)
  obtain y ms where x: "x = (y, ms)"
    by (cases x)
  have "sorted_wrt (<) (map (\<lambda>z. (y, fst z)) ms)"
    using Cons.prems(2) by (simp add: x sorted_wrt_map case_prod_beta)
  then show ?case
    using Cons by (auto simp: x sorted_wrt_append comp_def case_prod_beta)
qed simp

lemma sort_key_fst_distinct: "distinct (map fst d) \<Longrightarrow> sorted_wrt (<) (map fst (sort_key fst d))"
  for d :: "('k :: linorder \<times> 'v) list"
proof -
  assume "distinct (map fst d)"
  moreover have "mset (map fst (sort_key fst d)) = mset (map fst d)"
    by simp
  ultimately have "distinct (map fst (sort_key fst d))"
    using mset_eq_imp_distinct_iff by blast
  then show ?thesis
    by (simp add: strict_sorted_iff)
qed

lemma time_entries_spec:
  assumes "distinct (map fst d)" "\<forall>(y, ms)\<in>set d. distinct (map fst ms)"
  shows "(y, m, n) \<in> set (time_entries d) \<longleftrightarrow> month_count d (y, m) = Some n"
    and "sorted_wrt (<) (map (\<lambda>(y, m, _). (y, m)) (time_entries d))"
proof -
  have "(y, m, n) \<in> set (time_entries d) \<longleftrightarrow> (\<exists>ms. (y, ms) \<in> set d \<and> (m, n) \<in> set ms)"
    by (force simp: time_entries_def)
  also have "\<dots> \<longleftrightarrow> (\<exists>ms. map_of d y = Some ms \<and> (m, n) \<in> set ms)"
    using assms(1) by (auto simp: map_of_is_SomeI dest: map_of_SomeD)
  also have "\<dots> \<longleftrightarrow> (\<exists>ms. map_of d y = Some ms \<and> map_of ms m = Some n)"
  proof -
    have "distinct (map fst ms)" if "map_of d y = Some ms" for ms
      using assms(2) map_of_SomeD [OF that] by fastforce
    then show ?thesis
      by (auto simp: map_of_is_SomeI dest: map_of_SomeD)
  qed
  finally show "(y, m, n) \<in> set (time_entries d) \<longleftrightarrow> month_count d (y, m) = Some n"
    by (auto simp: month_count_def split: option.splits)
  let ?d = "map (\<lambda>(y, ms). (y, sort_key fst ms)) (sort_key fst d)"
  have "map fst ?d = map fst (sort_key fst d)"
    by (simp add: comp_def case_prod_beta)
  then have "sorted_wrt (<) (map fst ?d)"
    using sort_key_fst_distinct [OF assms(1)] by (simp only:)
  moreover have "\<forall>(y, ms)\<in>set ?d. sorted_wrt (<) (map fst ms)"
    using assms(2) sort_key_fst_distinct by fastforce
  ultimately show "sorted_wrt (<) (map (\<lambda>(y, m, _). (y, m)) (time_entries d))"
    using sorted_wrt_year_months [of ?d] by (simp add: time_entries_def comp_def split_def)
qed

lemma fold_range_lookup:
  "map_of (fold (\<lambda>m. dict_modify m 0 (\<lambda>n. n)) [a..<Suc b] ms) m =
     (if a \<le> m \<and> m \<le> b then Some (case map_of ms m of None \<Rightarrow> 0 | Some n \<Rightarrow> n) else map_of ms m)"
  by (simp add: fold_dict_modify_lookup less_Suc_eq_le del: upt_Suc)

lemma fill_year_lookup:
  "map_of (fill_year first final y ms) m =
     (if (if y = fst first then snd first else 1) \<le> m \<and> m \<le> (if y = fst final then snd final else 12)
      then Some (case map_of ms m of None \<Rightarrow> 0 | Some n \<Rightarrow> n) else map_of ms m)"
  by (simp only: fill_year_def Let_def fold_range_lookup)

lemma fill_year_distinct: "distinct (map fst ms) \<Longrightarrow> distinct (map fst (fill_year first final y ms))"
  by (simp add: fill_year_def Let_def distinct_keys_fold_modify del: upt_Suc)


lemma lexicographic_Min:
  fixes K :: "(nat \<times> nat) set"
  assumes "finite K" "K \<noteq> {}"
  shows "(Min (fst ` K), Min {m. (Min (fst ` K), m) \<in> K}) = Min K"
    and "(Max (fst ` K), Max {m. (Max (fst ` K), m) \<in> K}) = Max K"
proof -
  have fin: "finite {m. (y, m) \<in> K}" for y
    by (rule finite_subset [of _ "snd ` K"]) (use assms(1) in force)+
  have mem: "(y, Min {m. (y, m) \<in> K}) \<in> K" "(y, Max {m. (y, m) \<in> K}) \<in> K" if "y \<in> fst ` K" for y
  proof -
    have "{m. (y, m) \<in> K} \<noteq> {}"
      using that by auto
    then show "(y, Min {m. (y, m) \<in> K}) \<in> K" "(y, Max {m. (y, m) \<in> K}) \<in> K"
      using Min_in [OF fin] Max_in [OF fin] by blast+
  qed
  have years: "Min (fst ` K) \<in> fst ` K" "Max (fst ` K) \<in> fst ` K"
    using assms by simp_all
  have months: "Min {m. (y, m) \<in> K} \<le> m" "m \<le> Max {m. (y, m) \<in> K}" if "(y, m) \<in> K" for y m
    using that Min_le [OF fin] Max_ge [OF fin] by simp_all
  have ends: "Min (fst ` K) \<le> y" "y \<le> Max (fst ` K)" if "(y, m) \<in> K" for y m
    using that assms(1) by (force intro: Min_le Max_ge)+
  have lower: "(Min (fst ` K), Min {m. (Min (fst ` K), m) \<in> K}) \<le> (y, m)" if "(y, m) \<in> K" for y m
    using ends(1) [OF that] months(1) [OF that] by (cases "Min (fst ` K) = y") (simp_all add: less_eq_prod_def)
  have upper: "(y, m) \<le> (Max (fst ` K), Max {m. (Max (fst ` K), m) \<in> K})" if "(y, m) \<in> K" for y m
    using ends(2) [OF that] months(2) [OF that] by (cases "Max (fst ` K) = y") (simp_all add: less_eq_prod_def)
  show "(Min (fst ` K), Min {m. (Min (fst ` K), m) \<in> K}) = Min K"
    by (rule Min_eqI [symmetric, OF assms(1) _ mem(1) [OF years(1)]]) (use lower in auto)
  show "(Max (fst ` K), Max {m. (Max (fst ` K), m) \<in> K}) = Max K"
    by (rule Max_eqI [symmetric, OF assms(1) _ mem(2) [OF years(2)]]) (use upper in auto)
qed

lemma month_count_dom:
  assumes "time_dict_ok d"
  shows "fst ` set d = fst ` dom (month_count d)" "finite (dom (month_count d))"
    and "fst ` set (case map_of d y of None \<Rightarrow> [] | Some ms \<Rightarrow> ms) = {m. (y, m) \<in> dom (month_count d)}"
proof -
  have "\<exists>m. (y, m) \<in> dom (month_count d)" if key: "y \<in> fst ` set d" for y
  proof -
    obtain ms where ms: "map_of d y = Some ms"
      using key by (cases "map_of d y") (auto simp: map_of_eq_None_iff)
    then obtain m n ms' where "ms = (m, n) # ms'"
      using assms map_of_SomeD [OF ms] by (cases ms) (auto simp: time_dict_ok_def)
    then show ?thesis
      using ms by (auto simp: month_count_def)
  qed
  moreover have known: "\<exists>ms. (y, ms) \<in> set d \<and> m \<in> fst ` set ms" if "(y, m) \<in> dom (month_count d)" for y m
  proof -
    obtain ms n where "map_of d y = Some ms" "map_of ms m = Some n"
      using \<open>(y, m) \<in> dom (month_count d)\<close> by (auto simp: month_count_def split: option.splits)
    then show ?thesis
      using map_of_SomeD by (metis fst_conv imageI)
  qed
  ultimately have "y \<in> fst ` set d \<longleftrightarrow> (\<exists>m. (y, m) \<in> dom (month_count d))" for y
    by (metis fst_conv imageI)
  moreover have "y \<in> fst ` S \<longleftrightarrow> (\<exists>m. (y, m) \<in> S)" for y and S :: "(nat \<times> nat) set"
    by force
  ultimately show "fst ` set d = fst ` dom (month_count d)"
    by (simp only: set_eq_iff simp_thms)
  have "dom (month_count d) \<subseteq> (\<Union>(y, ms)\<in>set d. Pair y ` fst ` set ms)"
    using known by fastforce
  then show "finite (dom (month_count d))"
    by (rule finite_subset) auto
  show "fst ` set (case map_of d y of None \<Rightarrow> [] | Some ms \<Rightarrow> ms) = {m. (y, m) \<in> dom (month_count d)}"
    by (cases "map_of d y") (simp_all add: month_count_def dom_def dom_map_of_conv_image_fst [symmetric])
qed

text \<open>Filling the gaps: every month from the first to the last, and no other\<close>

lemma fill_in_time_gaps_spec:
  assumes ok: "time_dict_ok d" and ne: "d \<noteq> []"
    and valid: "\<And>y m. (y, m) \<in> dom (month_count d) \<Longrightarrow> 1 \<le> m \<and> m \<le> 12"
  defines "K \<equiv> dom (month_count d)"
  shows "distinct (map fst (fill_in_time_gaps d))" "\<forall>(y, ms)\<in>set (fill_in_time_gaps d). distinct (map fst ms)"
    and "month_count (fill_in_time_gaps d) (y, m) = (if Min K \<le> (y, m) \<and> (y, m) \<le> Max K \<and> 1 \<le> m \<and> m \<le> 12
      then Some (case month_count d (y, m) of None \<Rightarrow> 0 | Some n \<Rightarrow> n) else None)"
proof -
  note K = month_count_dom [OF ok, folded K_def]
  have neK: "K \<noteq> {}"
    using K(1) ne by auto
  note ends = lexicographic_Min [OF K(2) neK]
  define f where "f = (\<lambda>y. fill_year (Min K) (Max K) y)"
  have fill: "fill_in_time_gaps d = fold (\<lambda>y. dict_modify y [] (f y)) [fst (Min K)..<Suc (fst (Max K))] d"
    using ne unfolding fill_in_time_gaps_def Let_def K(3) K(1) f_def ends [symmetric] by simp
  show "distinct (map fst (fill_in_time_gaps d))"
    unfolding fill using ok by (intro distinct_keys_fold_modify) (simp add: time_dict_ok_def)
  have lookup: "map_of (fill_in_time_gaps d) y = (if fst (Min K) \<le> y \<and> y \<le> fst (Max K)
      then Some (f y (case map_of d y of None \<Rightarrow> [] | Some ms \<Rightarrow> ms)) else map_of d y)" for y
    unfolding fill by (simp add: fold_dict_modify_lookup less_Suc_eq_le del: upt_Suc)
  have years: "fst (Min K) \<le> y \<and> y \<le> fst (Max K)" if "y \<in> fst ` K" for y
    using that K(2) neK Min_le [of "fst ` K" y] Max_ge [of "fst ` K" y] ends by (metis finite_imageI fst_conv)
  have inner: "distinct (map fst ms)" if "map_of (fill_in_time_gaps d) y = Some ms" for y ms
  proof -
    have "distinct (map fst (case map_of d y of None \<Rightarrow> [] | Some ms \<Rightarrow> ms))"
      using ok by (auto simp: time_dict_ok_def split: option.splits dest: map_of_SomeD)
    then show ?thesis
      using that by (auto simp: lookup f_def fill_year_distinct split: if_splits)
  qed
  then show "\<forall>(y, ms)\<in>set (fill_in_time_gaps d). distinct (map fst ms)"
    using \<open>distinct (map fst (fill_in_time_gaps d))\<close> by (auto simp: map_of_is_SomeI)
  show "month_count (fill_in_time_gaps d) (y, m) = (if Min K \<le> (y, m) \<and> (y, m) \<le> Max K \<and> 1 \<le> m \<and> m \<le> 12
      then Some (case month_count d (y, m) of None \<Rightarrow> 0 | Some n \<Rightarrow> n) else None)"
  proof -
    have known: "Min K \<le> (y, m) \<and> (y, m) \<le> Max K \<and> 1 \<le> m \<and> m \<le> 12" if "month_count d (y, m) \<noteq> None"
    proof -
      have "(y, m) \<in> K"
        using that by (auto simp: K_def)
      then show ?thesis
        using Min_le [OF K(2)] Max_ge [OF K(2)] valid unfolding K_def by blast
    qed
    have bounds: "1 \<le> snd (Min K)" "snd (Max K) \<le> 12"
      using valid [of "fst (Min K)" "snd (Min K)"] valid [of "fst (Max K)" "snd (Max K)"] Min_in [OF K(2) neK]
        Max_in [OF K(2) neK] by (simp_all add: K_def)
    show ?thesis
    proof (cases "fst (Min K) \<le> y \<and> y \<le> fst (Max K)")
      case True
      let ?lo = "if y = fst (Min K) then snd (Min K) else 1"
      let ?hi = "if y = fst (Max K) then snd (Max K) else 12"
      have range: "?lo \<le> m \<and> m \<le> ?hi \<longleftrightarrow> Min K \<le> (y, m) \<and> (y, m) \<le> Max K \<and> 1 \<le> m \<and> m \<le> 12"
        using True bounds by (auto simp: less_eq_prod_def)
      have "map_of (case map_of d y of None \<Rightarrow> [] | Some ms \<Rightarrow> ms) m = month_count d (y, m)"
        by (simp add: month_count_def split: option.splits)
      then have "month_count (fill_in_time_gaps d) (y, m) =
          (if ?lo \<le> m \<and> m \<le> ?hi then Some (case month_count d (y, m) of None \<Rightarrow> 0 | Some n \<Rightarrow> n) else month_count d (y, m))"
        using True by (simp only: month_count_def [of "fill_in_time_gaps d"] lookup f_def fill_year_lookup if_True simp_thms
            prod.case option.case)
      moreover have "month_count d (y, m) = None" if "\<not> (?lo \<le> m \<and> m \<le> ?hi)"
        using that known unfolding range by blast
      ultimately show ?thesis
        unfolding range by auto
    next
      case False
      then have out: "\<not> (Min K \<le> (y, m) \<and> (y, m) \<le> Max K)"
        by (auto simp: less_eq_prod_def)
      moreover have "month_count (fill_in_time_gaps d) (y, m) = month_count d (y, m)"
        using False by (simp only: month_count_def lookup if_False prod.case)
      moreover have "month_count d (y, m) = None"
        using known out by blast
      ultimately show ?thesis
        by auto
    qed
  qed
qed

text \<open>The months in which the firmware that matches the filter was released\<close>

definition release_months :: "fw_filter \<Rightarrow> database \<Rightarrow> (nat \<times> nat) list" where
  "release_months q db = map (\<lambda>(_, e). case e_release_date e of (y, m, _) \<Rightarrow> (y, m)) (filtered_fw q db)"

lemma month_rows_release:
  "month_rows (get_release_date_stats q db) = filter (\<lambda>((y, _), _). y > 1970) (group_counts (release_months q db))"
  by (simp add: month_rows_def get_release_date_stats_def release_months_def filter_map comp_def split_def)

lemma map_of_filter_fst:
  "map_of (filter (\<lambda>x. P (fst x)) d) k = (if P k then map_of d k else None)"
  by (induction d) auto

lemma month_rows_lookup:
  "map_of (month_rows (get_release_date_stats q db)) (y, m) =
     (if y > 1970 \<and> (y, m) \<in> set (release_months q db) then Some (count_list (release_months q db) (y, m)) else None)"
  using map_of_filter_fst [of "\<lambda>k. fst k > 1970" "group_counts (release_months q db)" "(y, m)"]
  by (simp add: month_rows_release group_counts_lookup split_def)

lemma time_entries_release:
  fixes q db
  defines "D \<equiv> {(y, m) \<in> set (release_months q db). y > 1970}"
  assumes valid: "\<forall>p\<in>set (release_months q db). 1 \<le> snd p \<and> snd p \<le> 12"
  shows "sorted_wrt (<) (map (\<lambda>(y, m, _). (y, m)) (time_entries (build_time_dict (get_release_date_stats q db))))"
    and "(y, m, n) \<in> set (time_entries (build_time_dict (get_release_date_stats q db))) \<longleftrightarrow>
       D \<noteq> {} \<and> Min D \<le> (y, m) \<and> (y, m) \<le> Max D \<and> 1 \<le> m \<and> m \<le> 12 \<and> n = count_list (release_months q db) (y, m)"
proof -
  let ?rows = "get_release_date_stats q db"
  have dist: "distinct (map fst (month_rows ?rows))"
    by (simp add: month_rows_release distinct_map_filter)
  note raw = raw_time_dict_spec [OF dist]
  have dom: "dom (month_count (raw_time_dict ?rows)) = D"
    by (auto simp: raw(2) month_rows_lookup D_def split: if_splits)
  have bld: "build_time_dict ?rows = fill_in_time_gaps (raw_time_dict ?rows)"
    by (simp add: build_time_dict_def raw_time_dict_def)
  show "sorted_wrt (<) (map (\<lambda>(y, m, _). (y, m)) (time_entries (build_time_dict ?rows)))" (is ?sorted)
    and "(y, m, n) \<in> set (time_entries (build_time_dict ?rows)) \<longleftrightarrow>
       D \<noteq> {} \<and> Min D \<le> (y, m) \<and> (y, m) \<le> Max D \<and> 1 \<le> m \<and> m \<le> 12 \<and> n = count_list (release_months q db) (y, m)" (is ?mem)
  proof -
    have "?sorted \<and> ?mem"
    proof (cases "raw_time_dict ?rows = []")
      case True
      then have "D = {}"
        using dom by (auto simp: month_count_def)
      then show ?thesis
        by (simp add: bld True fill_in_time_gaps_def time_entries_def)
    next
      case False
      have "D \<noteq> {}"
        using month_count_dom(1) [OF raw(1)] False dom by auto
      have v: "1 \<le> m \<and> m \<le> 12" if "(y, m) \<in> dom (month_count (raw_time_dict ?rows))" for y m
        using that valid unfolding dom D_def by auto
      note fill = fill_in_time_gaps_spec [OF raw(1) False v, unfolded dom]
      have "finite D"
        by (rule finite_subset [of _ "set (release_months q db)"]) (auto simp: D_def)
      then have "Min D \<in> D"
        using \<open>D \<noteq> {}\<close> by (rule Min_in)
      then have late: "y > 1970" if "Min D \<le> (y, m)"
        using that by (auto simp: D_def less_eq_prod_def)
      have "(case month_count (raw_time_dict ?rows) (y, m) of None \<Rightarrow> 0 | Some n \<Rightarrow> n) = count_list (release_months q db) (y, m)"
        if "y > 1970"
        using that by (simp add: raw(2) month_rows_lookup count_list_0_iff)
      then have "month_count (build_time_dict ?rows) (y, m) = Some n \<longleftrightarrow>
          Min D \<le> (y, m) \<and> (y, m) \<le> Max D \<and> 1 \<le> m \<and> m \<le> 12 \<and> n = count_list (release_months q db) (y, m)"
        using late fill(3) [where y = y and m = m] unfolding bld by auto
      then show ?thesis
        using time_entries_spec [OF fill(1,2), folded bld] \<open>D \<noteq> {}\<close> by simp
    qed
    then show ?sorted ?mem
      by simp_all
  qed
qed

text \<open>
  C38. The histogram of release dates has one entry for each month from the first to the last in which a
  matching firmware (released after 1970) was released, in chronological order and without gaps, with
  the number of firmware images released in this month.
\<close>

theorem date_histogram_correct:
  assumes "\<forall>(fw, e)\<in>set (firmware_table db). fst (snd (e_release_date e)) \<in> {1..12}"
  shows "\<exists>es. build_stats_entry_from_date_query (get_release_date_stats q db) =
       Inr (map (\<lambda>(y, m, n). (month_names ! (m - 1) @ '' '' @ nat_str y, n)) es) \<and>
     sorted_wrt (<) (map (\<lambda>(y, m, _). (y, m)) es) \<and>
     (\<forall>y m n. (y, m, n) \<in> set es \<longleftrightarrow>
        (let D = {(y, m) \<in> set (release_months q db). y > 1970}
         in D \<noteq> {} \<and> Min D \<le> (y, m) \<and> (y, m) \<le> Max D \<and> 1 \<le> m \<and> m \<le> 12 \<and>
            n = count_list (release_months q db) (y, m)))"
proof -
  have valid: "\<forall>p\<in>set (release_months q db). 1 \<le> snd p \<and> snd p \<le> 12"
    using assms by (fastforce simp: release_months_def filtered_fw_def split_def)
  let ?es = "time_entries (build_time_dict (get_release_date_stats q db))"
  note entries = time_entries_release [OF valid]
  have "mapE (\<lambda>(year, month, n). bindE (get_month_name month) (\<lambda>name. Inr (name @ '' '' @ nat_str year, n))) ?es =
      Inr (map (\<lambda>(y, m, n). (month_names ! (m - 1) @ '' '' @ nat_str y, n)) ?es)"
    by (rule mapE_all_Inr) (auto simp: get_month_name_def entries(2))
  then show ?thesis
    using entries unfolding build_stats_entry_from_date_query_def Let_def by blast
qed

section \<open>Storing the statistics\<close>

named_theorems stats_frame \<open>the queries do not read the stored statistics\<close>

lemma tables_frame [stats_frame]:
  "filtered_fw q (db\<lparr>stats_table := t\<rparr>) = filtered_fw q db"
  "analysis_rows p (db\<lparr>stats_table := t\<rparr>) = analysis_rows p db"
  "in_file_table (db\<lparr>stats_table := t\<rparr>) = in_file_table db"
  "has_root_fw (db\<lparr>stats_table := t\<rparr>) = has_root_fw db"
  by (simp_all add: filtered_fw_def analysis_rows_def in_file_table_def has_root_fw_def [abs_def])

lemma rows_frame [stats_frame]:
  "join_firmware rel q (db\<lparr>stats_table := t\<rparr>) rows = join_firmware rel q db rows"
  "summary_rows p (db\<lparr>stats_table := t\<rparr>) = summary_rows p db"
  "unpacker_rows k (db\<lparr>stats_table := t\<rparr>) = unpacker_rows k db"
  by (simp_all add: join_firmware_def summary_rows_def unpacker_rows_def stats_frame)

lemma join_frame [stats_frame]:
  "join_fw_or_fo is_fw q (db\<lparr>stats_table := t\<rparr>) rows = join_fw_or_fo is_fw q db rows"
  "join_all q (db\<lparr>stats_table := t\<rparr>) rows = join_all q db rows"
  by (simp_all add: join_fw_or_fo_def join_all_def stats_frame)

lemma filtered_rows_frame [stats_frame]:
  "filtered_rows (join_fw_or_fo is_fw) q (db\<lparr>stats_table := t\<rparr>) rows = filtered_rows (join_fw_or_fo is_fw) q db rows"
  "filtered_rows join_all q (db\<lparr>stats_table := t\<rparr>) rows = filtered_rows join_all q db rows"
  by (simp_all add: filtered_rows_def stats_frame)

lemma aggregate_frame [stats_frame]: "aggregate_rows q is_fw (db\<lparr>stats_table := t\<rparr>) = aggregate_rows q is_fw db"
  by (simp add: aggregate_rows_def stats_frame)

lemma query_frame [stats_frame]:
  "count_distinct_values key q (db\<lparr>stats_table := t\<rparr>) = count_distinct_values key q db"
  "count_distinct_in_analysis k p is_fw q (db\<lparr>stats_table := t\<rparr>) = count_distinct_in_analysis k p is_fw q db"
  "count_array_elements k p q (db\<lparr>stats_table := t\<rparr>) = count_array_elements k p q db"
  "count_values_in_summary p q is_fw (db\<lparr>stats_table := t\<rparr>) = count_values_in_summary p q is_fw db"
  "get_arch_stats q (db\<lparr>stats_table := t\<rparr>) = get_arch_stats q db"
  "get_unpacking_file_types k q (db\<lparr>stats_table := t\<rparr>) = get_unpacking_file_types k q db"
  "get_unpacking_entropy k q (db\<lparr>stats_table := t\<rparr>) = get_unpacking_entropy k q db"
  "get_used_unpackers q (db\<lparr>stats_table := t\<rparr>) = get_used_unpackers q db"
  "get_regex_mime_match_count rx r q (db\<lparr>stats_table := t\<rparr>) = get_regex_mime_match_count rx r q db"
  "get_release_date_stats q (db\<lparr>stats_table := t\<rparr>) = get_release_date_stats q db"
  by (simp_all add: count_distinct_values_def count_distinct_in_analysis_def count_array_elements_def
      count_values_in_summary_def get_arch_stats_def get_unpacking_file_types_def get_unpacking_entropy_def
      get_used_unpackers_def get_regex_mime_match_count_def get_release_date_stats_def stats_frame)

lemma all_stats_frame:
  assumes "(name, get) \<in> set (all_stats rx start now match)"
  shows "get (db\<lparr>stats_table := t\<rparr>) = get db"
proof -
  have "get_fo_count (db\<lparr>stats_table := t\<rparr>) = get_fo_count db"
    "get_cumulated_fo_size (db\<lparr>stats_table := t\<rparr>) = get_cumulated_fo_size db"
    "get_software_components match (db\<lparr>stats_table := t\<rparr>) = get_software_components match db"
    "count_distinct_values_in_array k p match (db\<lparr>stats_table := t\<rparr>) = count_distinct_values_in_array k p match db"
    "get_count match b (db\<lparr>stats_table := t\<rparr>) = get_count match b db"
    "get_sum match b (db\<lparr>stats_table := t\<rparr>) = get_sum match b db"
    "get_avg match b (db\<lparr>stats_table := t\<rparr>) = get_avg match b db" for k p b
    by (simp_all add: get_fo_count_def get_cumulated_fo_size_def get_software_components_def
        count_distinct_values_in_array_def get_count_def get_sum_def get_avg_def stats_frame)
  then show ?thesis
    using assms unfolding all_stats_def
    by (auto simp: get_firmware_meta_stats_def get_file_type_stats_def get_crypto_material_stats_def
        get_unpacking_stats_def get_architecture_stats_def get_ip_stats_def get_time_stats_def
        get_exploit_mitigations_stats_def get_known_vulnerabilities_stats_def get_software_components_stats_def
        get_executable_stats_def get_general_stats_def stats_frame)
qed

lemma update_loop_spec:
  assumes "foldE (\<lambda>(name, get) db. bindE (get db) (\<lambda>content. update_statistic flush name content db)) xs db = Inr db'"
    and "\<forall>x\<in>set xs. \<forall>t. snd x (db\<lparr>stats_table := t\<rparr>) = snd x db" "distinct (map fst xs)"
  shows "\<exists>t. db' = db\<lparr>stats_table := t\<rparr> \<and>
     (\<forall>(name, get)\<in>set xs. \<exists>content data. get db = Inr content \<and> flush content = Inr data \<and> map_of t name = Some data) \<and>
     (\<forall>name. name \<notin> fst ` set xs \<longrightarrow> map_of t name = map_of (stats_table db) name)"
  using assms
proof (induction xs arbitrary: db)
  case Nil
  then show ?case
    by (intro exI [of _ "stats_table db"]) simp
next
  case (Cons x xs)
  obtain name get where x: "x = (name, get)"
    by (cases x)
  obtain content data where c: "get db = Inr content" "flush content = Inr data"
    using Cons.prems(1) by (auto simp: x update_statistic_def result_simps)
  define t1 where "t1 = AList.update name data (stats_table db)"
  have frame: "g (db\<lparr>stats_table := t\<rparr>) = g db" if "(n, g) \<in> set (x # xs)" for n g t
    using Cons.prems(2) that by fastforce
  have step: "foldE (\<lambda>(name, get) db. bindE (get db) (\<lambda>content. update_statistic flush name content db)) xs (db\<lparr>stats_table := t1\<rparr>) = Inr db'"
    using Cons.prems(1) c by (simp add: x update_statistic_def t1_def)
  have "\<forall>x\<in>set xs. \<forall>t. snd x (db\<lparr>stats_table := t1\<rparr>\<lparr>stats_table := t\<rparr>) = snd x (db\<lparr>stats_table := t1\<rparr>)"
    using Cons.prems(2) by simp
  from Cons.IH [OF step this] obtain t where t: "db' = db\<lparr>stats_table := t1\<rparr>\<lparr>stats_table := t\<rparr>"
    "\<forall>(n, g)\<in>set xs. \<exists>content data. g (db\<lparr>stats_table := t1\<rparr>) = Inr content \<and> flush content = Inr data \<and> map_of t n = Some data"
    "\<forall>n. n \<notin> fst ` set xs \<longrightarrow> map_of t n = map_of (stats_table (db\<lparr>stats_table := t1\<rparr>)) n"
    using Cons.prems(3) unfolding list.map distinct.simps by blast
  have "map_of t name = Some data"
    using t(3) Cons.prems(3) by (simp add: x t1_def)
  then have "\<forall>(n, g)\<in>set (x # xs). \<exists>content data. g db = Inr content \<and> flush content = Inr data \<and> map_of t n = Some data"
  proof -
    have "\<exists>content data. g db = Inr content \<and> flush content = Inr data \<and> map_of t n = Some data" if "(n, g) \<in> set xs" for n g
      using bspec [OF t(2) that] frame [of n g t1] that by simp
    then show ?thesis
      using c \<open>map_of t name = Some data\<close> by (auto simp: x)
  qed
  then show ?case
    using t(1,3) by (intro exI [of _ t]) (auto simp: x t1_def)
qed

text \<open>
  A column of type JSONB holds JSON: tuples become lists, and the keys of an object have no order. What the
  database makes of a dictionary it accepts: the same keys with the same documents.
\<close>

fun json_form :: "pyval \<Rightarrow> pyval" where
  "json_form (PTuple vs) = PList (map json_form vs)"
| "json_form (PList vs) = PList (map json_form vs)"
| "json_form (PDict d) = PDict (map (\<lambda>(k, v). (k, json_form v)) d)"
| "json_form v = v"

definition same_content :: "pydict \<Rightarrow> (string \<Rightarrow> pyval option) \<Rightarrow> bool" where
  "same_content content data \<longleftrightarrow> (\<forall>k. case map_of content k of
       None \<Rightarrow> data k = None
     | Some v \<Rightarrow> (\<exists>w. data k = Some w \<and> same_document (json_form v) w))"

definition stats_flush_law :: "(pydict \<Rightarrow> pydict result) \<Rightarrow> bool" where
  "stats_flush_law flush \<longleftrightarrow> (\<forall>c d. distinct (map fst c) \<longrightarrow> flush c = Inr d \<longrightarrow>
     distinct (map fst d) \<and> same_content c (map_of d))"

text \<open>
  What the pages show of the content of a category: the REST resources give the stored dictionary, the other
  pages the same with the name of the category as \<open>_id\<close>.
\<close>

definition read_back :: "string \<Rightarrow> pydict \<Rightarrow> pydict \<Rightarrow> bool" where
  "read_back name content d \<longleftrightarrow> map_of d ''_id'' = Some (PStr name) \<and> same_content content ((map_of d)(''_id'' := None))"

definition stored_content :: "string \<Rightarrow> pydict \<Rightarrow> database \<Rightarrow> bool" where
  "stored_content name content db \<longleftrightarrow>
     (\<exists>d. get_statistic db name = Some d \<and> read_back name content d) \<and>
     (\<exists>d. rest_get_statistic db name = Inr [(name, d)] \<and> (name, d) \<in> set (rest_get_all_statistics db) \<and>
        same_content content (map_of d)) \<and>
     (\<forall>k. (k, name) \<in> set page_keys \<longrightarrow> (\<exists>d. map_of (get_stats_from_db db) k = Some (PDict d) \<and> read_back name content d))"

lemma stats_entry_lookup:
  assumes "distinct (map fst data)"
  shows "map_of (stats_entry_to_dict name data) k = (case map_of data k of
      Some v \<Rightarrow> Some v | None \<Rightarrow> if k = ''_id'' then Some (PStr name) else None)"
proof -
  have "map_of (fold (\<lambda>(k, v). AList.update k v) data d) k = (case map_of data k of Some v \<Rightarrow> Some v | None \<Rightarrow> map_of d k)" for d
    using assms
  proof (induction data arbitrary: d)
    case (Cons x data)
    then show ?case
      by (cases x) (auto simp: update_conv split: option.splits simp flip: map_of_eq_None_iff)
  qed simp
  then show ?thesis
    by (auto simp: stats_entry_to_dict_def split: option.splits)
qed

lemma page_keys_distinct: "distinct (map fst page_keys)"
  by code_simp

lemma stored_contentI:
  assumes "map_of (stats_table db) name = Some data" "name \<in> set rest_STATISTICS"
    and "same_content content (map_of data)" "distinct (map fst data)" "map_of content ''_id'' = None"
  shows "stored_content name content db"
proof -
  let ?d = "stats_entry_to_dict name data"
  have get: "get_statistic db name = Some ?d"
    using assms(1) by (simp add: get_statistic_def)
  have id: "map_of data ''_id'' = None"
    using assms(3,5) by (auto simp: same_content_def dest!: spec [of _ "''_id''"])
  have rest: "map_of (AList.delete ''_id'' ?d) = map_of data" "(map_of ?d)(''_id'' := None) = map_of data"
    using id by (auto simp: fun_eq_iff delete_conv stats_entry_lookup [OF assms(4)] split: option.splits)
  have read: "read_back name content ?d"
    using assms(3) rest(2) by (simp add: read_back_def stats_entry_lookup [OF assms(4)] id)
  have "map_of (get_stats_from_db db) k = Some (PDict ?d)" if "(k, name) \<in> set page_keys" for k
  proof (rule map_of_is_SomeI)
    show "distinct (map fst (get_stats_from_db db))"
      using page_keys_distinct by (simp add: get_stats_from_db_def comp_def split_def)
    show "(k, PDict ?d) \<in> set (get_stats_from_db db)"
      using that get by (force simp: get_stats_from_db_def opt_dict_def)
  qed
  then show ?thesis
    using get read rest(1) assms(2,3) unfolding stored_content_def
    by (force simp: rest_get_statistic_def rest_get_all_statistics_def delete_id_and_check_empty_stat_def image_iff)
qed

text \<open>The contents are dictionaries without the key \<open>_id\<close>.\<close>

lemma content_keys:
  assumes "(name, get) \<in> set (all_stats rx start now match)" "get db = Inr content"
  shows "distinct (map fst content)" "map_of content ''_id'' = None"
  using assms
  by (auto simp: all_stats_def get_firmware_meta_stats_def get_file_type_stats_def get_crypto_material_stats_def
      get_unpacking_stats_def get_architecture_stats_def get_ip_stats_def get_time_stats_def
      get_exploit_mitigations_stats_def get_known_vulnerabilities_stats_def get_software_components_stats_def
      get_executable_stats_def get_general_stats_def Let_def result_simps)

lemma all_stats_names: "set (map fst (all_stats rx start now match)) = set rest_STATISTICS" "distinct (map fst (all_stats rx start now match))"
  by (auto simp: all_stats_def rest_STATISTICS_def)

lemma live_keys_ok: "distinct (map fst live_keys)" "snd ` set live_keys = set rest_STATISTICS" "set page_keys = set live_keys"
  by code_simp+

lemma live_stats_return:
  assumes "\<forall>name\<in>set rest_STATISTICS. \<exists>get. map_of (all_stats rx start now match) name = Some get \<and> get db = Inr (content name)"
  shows "get_live_stats rx start now match db = Inr (map (\<lambda>(k, name). (k, PDict (content name))) live_keys)"
  unfolding get_live_stats_def
proof (rule mapE_all_Inr)
  fix z
  assume z: "z \<in> set live_keys"
  then have "snd z \<in> set rest_STATISTICS"
    using live_keys_ok(2) by blast
  then show "(case z of (k, name) \<Rightarrow> case map_of (all_stats rx start now match) name of None \<Rightarrow> Inl AttributeError
       | Some get \<Rightarrow> bindE (get db) (\<lambda>content. Inr (k, PDict content))) = Inr (case z of (k, name) \<Rightarrow> (k, PDict (content name)))"
    using assms by (cases z) auto
qed

text \<open>
  C37. After the update every category that the REST interface offers is stored: the REST resources and the
  statistics page give back exactly the items of the content computed from the database before the update,
  although the categories are stored one after the other, and nothing else in the database has changed (tuples
  come back as lists, and the database may reorder keys). The statistics page with the same filter applied
  live, before the update, shows the very same contents.
\<close>

theorem statistics_roundtrip:
  assumes "update_all_stats regexp_match flush start_time now match db = Inr db'" "stats_flush_law flush"
  shows "\<exists>t content. db' = db\<lparr>stats_table := t\<rparr> \<and>
     (\<forall>name\<in>set rest_STATISTICS. \<exists>get. map_of (all_stats regexp_match start_time now match) name = Some get \<and>
        get db = Inr (content name) \<and> stored_content name (content name) db') \<and>
     get_live_stats regexp_match start_time now match db = Inr (map (\<lambda>(k, name). (k, PDict (content name))) live_keys)"
proof -
  let ?stats = "all_stats regexp_match start_time now match"
  note names = all_stats_names [of regexp_match start_time now match]
  have frame: "\<forall>x\<in>set ?stats. \<forall>t. snd x (db\<lparr>stats_table := t\<rparr>) = snd x db"
    using all_stats_frame [of "fst x" "snd x" for x] by simp
  obtain t where t: "db' = db\<lparr>stats_table := t\<rparr>"
    "\<forall>(name, get)\<in>set ?stats. \<exists>content data. get db = Inr content \<and> flush content = Inr data \<and> map_of t name = Some data"
    using update_loop_spec [OF assms(1) [unfolded update_all_stats_def] frame names(2)] by blast
  have "\<exists>content get. map_of ?stats name = Some get \<and> get db = Inr content \<and> stored_content name content db'"
    if name: "name \<in> set rest_STATISTICS" for name
  proof -
    have "name \<in> fst ` set ?stats"
      using name names(1) by simp
    then obtain get where get: "(name, get) \<in> set ?stats"
      by force
    then obtain content data where c: "get db = Inr content" "flush content = Inr data" "map_of (stats_table db') name = Some data"
      using bspec [OF t(2) get] t(1) by auto
    note keys = content_keys [OF get c(1)]
    have "distinct (map fst data)" "same_content content (map_of data)"
      using assms(2) keys(1) c(2) by (simp_all add: stats_flush_law_def)
    then have "stored_content name content db'"
      using stored_contentI [OF c(3) name _ _ keys(2)] by blast
    moreover have "map_of ?stats name = Some get"
      using names(2) get by (rule map_of_is_SomeI)
    ultimately show ?thesis
      using c(1) by blast
  qed
  then obtain content where content: "\<forall>name\<in>set rest_STATISTICS. \<exists>get. map_of ?stats name = Some get \<and>
      get db = Inr (content name) \<and> stored_content name (content name) db'"
    by metis
  moreover have "get_live_stats regexp_match start_time now match db = Inr (map (\<lambda>(k, name). (k, PDict (content name))) live_keys)"
    using content by (intro live_stats_return) blast
  ultimately show ?thesis
    using t(1) by blast
qed

section \<open>Relative shares\<close>

lemma keyword_counts_positive:
  assumes "\<forall>z\<in>set st. snd z > 0"
  shows "\<forall>z\<in>set (keyword_counts ks st). snd z > 0"
proof -
  define inner :: "string \<Rightarrow> stats \<Rightarrow> stats \<Rightarrow> stats" where "inner = (\<lambda>keyword. fold (\<lambda>(summary_item, n) d.
     if substring_of (py_lower keyword) (py_lower summary_item) then AList.update keyword n d else d))"
  have step: "\<forall>z\<in>set (inner k xs d). snd z > 0" if "\<forall>z\<in>set d. snd z > 0" "\<forall>z\<in>set xs. snd z > 0" for k d xs
    using that
  proof (induction xs arbitrary: d)
    case (Cons x xs)
    obtain v n where x: "x = (v, n)"
      by (cases x)
    have "\<forall>z\<in>insert (k, n) (set d). snd z > 0"
      using Cons.prems by (simp add: x)
    then have "\<forall>z\<in>set (AList.update k n d). snd z > 0"
      using set_update_subset [of k n d] by (meson subsetD)
    then have up: "\<forall>z\<in>set (if substring_of (py_lower k) (py_lower v) then AList.update k n d else d). snd z > 0"
      using Cons.prems(1) by (cases "substring_of (py_lower k) (py_lower v)") simp_all
    have rest: "\<forall>z\<in>set xs. snd z > 0"
      using Cons.prems(2) by simp
    have step: "inner k (x # xs) d = inner k xs (if substring_of (py_lower k) (py_lower v) then AList.update k n d else d)"
      by (simp add: inner_def x)
    show ?case
      unfolding step by (rule Cons.IH [OF up rest])
  qed (simp add: inner_def)
  have all: "\<forall>z\<in>set (fold (\<lambda>k. inner k st) ks d). snd z > 0" if "\<forall>z\<in>set d. snd z > 0" for d
    using that
  proof (induction ks arbitrary: d)
    case (Cons k ks)
    show ?case
      using Cons.IH [OF step [OF Cons.prems assms]] by simp
  qed simp
  have "keyword_counts ks st = fold (\<lambda>k. inner k st) ks []"
    unfolding keyword_counts_def inner_def ..
  then show ?thesis
    using all [of "[]"] by simp
qed

text \<open>The division is by a positive number, and the shares (before rounding) add up to one.\<close>

lemma relative_shares:
  assumes "\<forall>z\<in>set st. snd z > 0" "keyword_counts ks st \<noteq> []"
  shows "0 < sum_list (map snd (keyword_counts ks st))"
    and "sum_list (map (\<lambda>(_, n). real n / real (sum_list (map snd (keyword_counts ks st)))) (keyword_counts ks st)) = 1"
proof -
  let ?d = "keyword_counts ks st"
  obtain v n d where d: "?d = (v, n) # d"
    using assms(2) by (cases ?d) auto
  then show pos: "0 < sum_list (map snd ?d)"
    using keyword_counts_positive [OF assms(1), of ks] by simp
  have "sum_list (map (\<lambda>(_, n). real n / c) xs) = real (sum_list (map snd xs)) / c" for c and xs :: stats
    by (induction xs) (auto simp: add_divide_distrib)
  moreover have "real (sum_list (map snd ?d)) \<noteq> 0"
    using pos by linarith
  ultimately show "sum_list (map (\<lambda>(_, n). real n / real (sum_list (map snd ?d))) ?d) = 1"
    by (metis divide_self)
qed

lemma get_ratio_bounds: "ks \<noteq> [] \<Longrightarrow> 0 \<le> get_ratio fo fw ks \<and> get_ratio fo fw ks \<le> 1"
  by (cases ks) (auto simp: get_ratio_def Let_def divide_le_eq_1)

text \<open>Of several architectures with the same number of files the first is taken; no other has more.\<close>

lemma most_frequent_architecture:
  assumes "st \<noteq> []"
  shows "\<exists>n. (find_most_frequent_architecture st, n) \<in> set st \<and> (\<forall>(a, m)\<in>set st. m \<le> n)"
proof -
  let ?s = "sort_key (\<lambda>(_, n). - int n) st"
  obtain a n rest where s: "?s = (a, n) # rest"
    using assms by (metis length_0_conv length_sort neq_Nil_conv surj_pair)
  have "sorted (map (\<lambda>(_, n). - int n) ?s)"
    by simp
  then have "\<forall>x\<in>set ?s. snd x \<le> n"
    unfolding s by auto
  then have "\<forall>x\<in>set st. snd x \<le> n"
    by simp
  moreover have "(a, n) \<in> set ?s"
    unfolding s by simp
  then have "(a, n) \<in> set st"
    by simp
  then have "(find_most_frequent_architecture st, n) \<in> set st"
    unfolding find_most_frequent_architecture_def s by simp
  ultimately show ?thesis
    by (auto simp: split_def)
qed

section \<open>Witnesses\<close>

definition released :: "date \<Rightarrow> firmware_entry" where
  "released rd = \<lparr>e_submission_date = 0, e_release_date = rd, e_version = None, e_vendor = Some ''v'',
     e_device_name = None, e_device_class = Some ''c'', e_device_part = [], e_firmware_tags = []\<rparr>"

definition histogram_db :: database where
  "histogram_db = empty_database\<lparr>firmware_table := [(''f1'', released (2020, 12, 24)), (''f2'', released (2021, 2, 1)),
     (''f3'', released (1970, 1, 1)), (''f4'', released (2021, 2, 28))]\<rparr>"

lemma histogram_months: "release_months [] histogram_db = [(2020, 12), (2021, 2), (1970, 1), (2021, 2)]"
  by code_simp

theorem date_histogram_witness:
  "\<exists>st. build_stats_entry_from_date_query (get_release_date_stats [] histogram_db) = Inr st \<and>
     (''January 2021'', 0) \<in> set st \<and> (''February 2021'', 2) \<in> set st"
proof -
  have "{(y, m). (y, m) \<in> set [(2020, 12), (2021, 2), (1970, 1), (2021, 2)] \<and> 1970 < y} = {(2020, 12), (2021 :: nat, 2 :: nat)}"
    by auto
  moreover have "\<forall>(fw, e)\<in>set (firmware_table histogram_db). fst (snd (e_release_date e)) \<in> {1..12}"
    by (simp add: histogram_db_def released_def)
  moreover have "nat_str 2021 = ''2021''"
    by (simp add: nat_str.simps)
  ultimately obtain es where es: "build_stats_entry_from_date_query (get_release_date_stats [] histogram_db) =
       Inr (map (\<lambda>(y, m, n). (month_names ! (m - 1) @ '' '' @ nat_str y, n)) es)"
    "(2021, 1, 0) \<in> set es" "(2021, 2, 2) \<in> set es"
    using date_histogram_correct [of histogram_db "[]"] unfolding histogram_months by (force simp: less_eq_prod_def)
  show ?thesis
    using es(1) imageI [OF es(2), of "\<lambda>(y, m, n). (month_names ! (m - 1) @ '' '' @ nat_str y, n)"]
      imageI [OF es(3), of "\<lambda>(y, m, n). (month_names ! (m - 1) @ '' '' @ nat_str y, n)"] \<open>nat_str 2021 = ''2021''\<close>
    by (simp add: month_names_def)
qed

lemma example_stats_return:
  assumes "(name, get) \<in> set (all_stats (\<lambda>_ _. False) 0 1 [])"
  shows "\<exists>content. get empty_database = Inr content"
proof -
  have rows: "analysis_rows p empty_database = []" "filtered_fw [] empty_database = []"
    "unpacker_rows k empty_database = []" for p k
    by (simp_all add: analysis_rows_def filtered_fw_def unpacker_rows_def empty_database_def map_filter_simps)
  have "\<exists>x. get_unpacking_stats [] empty_database = Inr x" "\<exists>x. get_ip_stats [] empty_database = Inr x"
    "\<exists>x. get_time_stats [] empty_database = Inr x" "\<exists>x. get_software_components_stats [] empty_database = Inr x"
    by (simp_all add: get_unpacking_stats_def get_used_unpackers_def get_unpacking_entropy_def get_ip_stats_def
        count_distinct_values_in_array_def count_array_elements_def get_time_stats_def build_stats_entry_from_date_query_def
        get_release_date_stats_def build_time_dict_def fill_in_time_gaps_def time_entries_def
        get_software_components_stats_def get_software_components_def filtered_rows_def filter_is_not_empty_def rows
        group_counts_def sort_values_def remove_location_info_def Let_def)
  then show ?thesis
    using assms by (auto simp: all_stats_def)
qed

text \<open>A database that writes tuples as lists and gives the keys back in another order\<close>

definition example_stats_flush :: "pydict \<Rightarrow> pydict result" where
  "example_stats_flush c = Inr (rev (map (\<lambda>(k, v). (k, json_form v)) c))"

lemma example_stats_flush_law: "stats_flush_law example_stats_flush"
  unfolding stats_flush_law_def
proof (intro allI impI)
  fix c d
  assume c: "distinct (map fst c)" "example_stats_flush c = Inr d"
  have d: "d = rev (map (\<lambda>(k, v). (k, json_form v)) c)"
    using c(2) by (simp add: example_stats_flush_def)
  have dist: "distinct (map fst (map (\<lambda>(k, v). (k, json_form v)) c))"
    using c(1) by (simp add: comp_def split_def)
  then have "map_of d = map_of (map (\<lambda>(k, v). (k, json_form v)) c)"
    unfolding d by (subst map_of_inject_set) (simp_all add: rev_map [symmetric] del: map_map)
  then have "map_of d k = map_option json_form (map_of c k)" for k
    by (simp add: map_of_map)
  then show "distinct (map fst d) \<and> same_content c (map_of d)"
    using dist by (auto simp: d same_content_def same_document_def rev_map [symmetric] split: option.splits simp del: map_map)
qed

lemma example_update: "\<exists>db'. update_all_stats (\<lambda>_ _. False) example_stats_flush 0 1 [] empty_database = Inr db'"
proof -
  let ?stats = "all_stats (\<lambda>_ _. False) 0 1 []"
  have "\<exists>db'. foldE (\<lambda>(name, get) db. bindE (get db) (\<lambda>content. update_statistic example_stats_flush name content db)) ?stats empty_database = Inr db' \<and>
      (\<exists>t. db' = empty_database\<lparr>stats_table := t\<rparr>)"
  proof (rule foldE_total)
    show "\<exists>t. empty_database = empty_database\<lparr>stats_table := t\<rparr>"
      by (intro exI [of _ "[]"]) (simp add: empty_database_def)
    fix x and db :: database
    assume x: "x \<in> set ?stats" and "\<exists>t. db = empty_database\<lparr>stats_table := t\<rparr>"
    then obtain t where t: "db = empty_database\<lparr>stats_table := t\<rparr>"
      by blast
    obtain name get where ng: "x = (name, get)"
      by (cases x)
    obtain content where "get db = Inr content"
      using example_stats_return [of name get] all_stats_frame [where name = name and get = get and db = empty_database and t = t] x
      unfolding ng t by metis
    then show "\<exists>b'. (case x of (name, get) \<Rightarrow> \<lambda>db. bindE (get db) (\<lambda>content. update_statistic example_stats_flush name content db)) db = Inr b' \<and>
        (\<exists>t. b' = empty_database\<lparr>stats_table := t\<rparr>)"
      by (auto simp: ng t update_statistic_def example_stats_flush_def)
  qed
  then show ?thesis
    by (auto simp: update_all_stats_def)
qed

theorem statistics_roundtrip_witness:
  "\<exists>db' content. update_all_stats (\<lambda>_ _. False) example_stats_flush 0 1 [] empty_database = Inr db' \<and>
     stored_content ''architecture'' content db' \<and> map_of content ''cpu_architecture'' = Some (PList [])"
proof -
  obtain db' where db': "update_all_stats (\<lambda>_ _. False) example_stats_flush 0 1 [] empty_database = Inr db'"
    using example_update by blast
  have name: "''architecture'' \<in> set rest_STATISTICS"
    by (simp add: rest_STATISTICS_def)
  obtain content get where content: "map_of (all_stats (\<lambda>_ _. False) 0 1 []) ''architecture'' = Some get"
    "get empty_database = Inr content" "stored_content ''architecture'' content db'"
    using statistics_roundtrip [OF db' example_stats_flush_law] name by blast
  have "content = get_architecture_stats [] empty_database"
    using content(1,2) by (simp add: all_stats_def) auto
  also have "\<dots> = [(''cpu_architecture'', PList [])]"
    by code_simp
  finally show ?thesis
    using db' content(3) by (intro exI [of _ db'] exI [of _ content]) simp
qed

text \<open>The statistics of executables do not depend on the filter.\<close>

lemma executable_stats_unfiltered: "get_executable_stats rx match db = get_executable_stats rx [] db"
  by (simp add: get_executable_stats_def)

text \<open>A failed write of one category ends the update; the categories after it are not stored.\<close>

lemma failed_update_is_not_caught:
  assumes "flush (get_firmware_meta_stats match db) = Inl e"
  shows "update_all_stats rx flush start now match db = Inl e"
  by (simp add: update_all_stats_def all_stats_def update_statistic_def assms)

end
