(* ===== verification/Json.thy ===== *)
theory Json
  imports Query_Conversion
begin

text \<open>
  \<open>json.loads\<close>, the inverse of \<open>json_dumps\<close> of \<open>Query_Conversion\<close>: searches travel as text in the address of
  a page. A syntax error is \<open>JSONDecodeError\<close>, a kind of \<open>ValueError\<close>. The number that the text of a floating
  point number denotes is the parameter \<open>str_flt\<close>. Characters are those up to U+00FF; the words
  \<open>NaN\<close> and \<open>Infinity\<close>, which Python accepts although they are not JSON, are left out. The
  parser is bounded by fuel, which \<open>json_loads\<close> derives from the length of the text; it is shown to be enough.
\<close>

section \<open>The parser\<close>

definition json_space :: "char \<Rightarrow> bool" where
  "json_space c \<longleftrightarrow> c \<in> {CHR '' '', CHR 0x09, CHR 0x0A, CHR 0x0D}"

abbreviation skip_space :: "string \<Rightarrow> string" where
  "skip_space \<equiv> dropWhile json_space"

definition hex_value :: "char \<Rightarrow> nat option" where
  "hex_value c = (let n = of_char c :: nat in
     if 48 \<le> n \<and> n \<le> 57 then Some (n - 48)
     else if 97 \<le> n \<and> n \<le> 102 then Some (n - 87)
     else if 65 \<le> n \<and> n \<le> 70 then Some (n - 55) else None)"

definition hex4_value :: "char \<Rightarrow> char \<Rightarrow> char \<Rightarrow> char \<Rightarrow> nat option" where
  "hex4_value a b c d = (case (hex_value a, hex_value b, hex_value c, hex_value d) of
       (Some w, Some x, Some y, Some z) \<Rightarrow> Some (((16 * w + x) * 16 + y) * 16 + z)
     | _ \<Rightarrow> None)"

definition json_escape :: "char \<Rightarrow> char option" where
  "json_escape c = map_of [(CHR 0x22, CHR 0x22), (CHR 0x5C, CHR 0x5C), (CHR ''/'', CHR ''/''),
     (CHR ''b'', CHR 0x08), (CHR ''f'', CHR 0x0C), (CHR ''n'', CHR 0x0A), (CHR ''r'', CHR 0x0D), (CHR ''t'', CHR 0x09)] c"

text \<open>The characters up to the closing quotation mark, and the rest\<close>

definition cons_char :: "char \<Rightarrow> (string \<times> string) result \<Rightarrow> (string \<times> string) result" where
  "cons_char c r = bindE r (\<lambda>(s, rest). Inr (c # s, rest))"

fun json_chars :: "string \<Rightarrow> (string \<times> string) result" where
  "json_chars [] = Inl ValueError"
| "json_chars [c] = (if c = CHR 0x22 then Inr ([], []) else Inl ValueError)"
| "json_chars (c # e # s) =
     (if c = CHR 0x22 then Inr ([], e # s)
      else if c = CHR 0x5C then
        (if e = CHR ''u'' then (case s of
             w # x # y # z # s' \<Rightarrow> (case hex4_value w x y z of
                 None \<Rightarrow> Inl ValueError
               | Some n \<Rightarrow> if n < 256 then cons_char (char_of n) (json_chars (drop 4 s)) else Inl ValueError)
           | _ \<Rightarrow> Inl ValueError)
         else (case json_escape e of None \<Rightarrow> Inl ValueError | Some k \<Rightarrow> cons_char k (json_chars s)))
      else if (of_char c :: nat) < 32 then Inl ValueError
      else cons_char c (json_chars (e # s)))"

text \<open>\<^verbatim>\<open>(-?(?:0|[1-9][0-9]*))(\.[0-9]+)?([eE][-+]?[0-9]+)?\<close>\<close>

definition take_fraction :: "string \<Rightarrow> string" where
  "take_fraction s = (case s of
       p # ds \<Rightarrow> if p = CHR ''.'' then (let d = takeWhile is_digit_char ds in if d \<noteq> [] then p # d else []) else []
     | [] \<Rightarrow> [])"

definition take_exponent :: "string \<Rightarrow> string" where
  "take_exponent s = (case s of
       p # r \<Rightarrow> if p = CHR ''e'' \<or> p = CHR ''E'' then
           (let sign = (case r of q # _ \<Rightarrow> if q = CHR ''+'' \<or> q = CHR ''-'' then [q] else [] | [] \<Rightarrow> []);
                d = takeWhile is_digit_char (drop (length sign) r)
            in if d \<noteq> [] then p # sign @ d else [])
         else []
     | [] \<Rightarrow> [])"

definition int_digits :: "string \<Rightarrow> string" where
  "int_digits s = (let d = takeWhile is_digit_char s in if starts_with ''0'' d then ''0'' else d)"

definition take_int :: "string \<Rightarrow> string" where
  "take_int s = (case s of
       [] \<Rightarrow> []
     | c # r \<Rightarrow> if c = CHR ''-'' then (let d = int_digits r in if d = [] then [] else c # d) else int_digits s)"

definition int_of_text :: "string \<Rightarrow> int" where
  "int_of_text t = (case t of
       [] \<Rightarrow> 0
     | c # r \<Rightarrow> if c = CHR ''-'' then - int (digits_nat r) else int (digits_nat t))"

definition json_number :: "(string \<Rightarrow> real) \<Rightarrow> string \<Rightarrow> (pyval \<times> string) result" where
  "json_number str_flt s =
     (let i = take_int s;
          fraction = take_fraction (drop (length i) s);
          exponent = take_exponent (drop (length i + length fraction) s)
      in if i = [] then Inl ValueError
         else Inr (if fraction = [] \<and> exponent = [] then PInt (int_of_text i) else PFloat (str_flt (i @ fraction @ exponent)),
           drop (length i + length fraction + length exponent) s))"

definition json_word :: "string \<Rightarrow> (pyval \<times> string) option" where
  "json_word s = (if starts_with ''null'' s then Some (PNone, drop 4 s)
     else if starts_with ''true'' s then Some (PBool True, drop 4 s)
     else if starts_with ''false'' s then Some (PBool False, drop 5 s) else None)"

text \<open>
  A value at the start of the text; the elements of a list after \<open>[\<close> and the items of a dictionary after \<open>{\<close>,
  of which there is at least one. A repeated key keeps its place and the last value. \<open>None\<close>: the fuel is used up.
\<close>

fun json_value :: "(string \<Rightarrow> real) \<Rightarrow> nat \<Rightarrow> string \<Rightarrow> (pyval \<times> string) result option" and
  json_list :: "(string \<Rightarrow> real) \<Rightarrow> nat \<Rightarrow> pyval list \<Rightarrow> string \<Rightarrow> (pyval \<times> string) result option" and
  json_dict :: "(string \<Rightarrow> real) \<Rightarrow> nat \<Rightarrow> pydict \<Rightarrow> string \<Rightarrow> (pyval \<times> string) result option" where
  "json_value str_flt 0 s = None"
| "json_value str_flt (Suc fuel) s = (case s of
       [] \<Rightarrow> Some (Inl ValueError)
     | c # r \<Rightarrow>
         if c = CHR 0x22 then Some (bindE (json_chars r) (\<lambda>(t, rest). Inr (PStr t, rest)))
         else if c = CHR ''['' then
           (let r' = skip_space r in if starts_with '']'' r' then Some (Inr (PList [], tl r')) else json_list str_flt fuel [] r')
         else if c = CHR ''{'' then
           (let r' = skip_space r in if starts_with ''}'' r' then Some (Inr (PDict [], tl r')) else json_dict str_flt fuel [] r')
         else (case json_word s of Some w \<Rightarrow> Some (Inr w) | None \<Rightarrow> Some (json_number str_flt s)))"
| "json_list str_flt 0 acc s = None"
| "json_list str_flt (Suc fuel) acc s = (case json_value str_flt fuel s of
       None \<Rightarrow> None
     | Some (Inl e) \<Rightarrow> Some (Inl e)
     | Some (Inr (v, rest)) \<Rightarrow> (case skip_space rest of
           [] \<Rightarrow> Some (Inl ValueError)
         | c # r \<Rightarrow>
             if c = CHR '']'' then Some (Inr (PList (acc @ [v]), r))
             else if c = CHR '','' then json_list str_flt fuel (acc @ [v]) (skip_space r)
             else Some (Inl ValueError)))"
| "json_dict str_flt 0 acc s = None"
| "json_dict str_flt (Suc fuel) acc s = (case s of
       [] \<Rightarrow> Some (Inl ValueError)
     | q # r \<Rightarrow>
         if q \<noteq> CHR 0x22 then Some (Inl ValueError)
         else (case json_chars r of
             Inl e \<Rightarrow> Some (Inl e)
           | Inr (k, r1) \<Rightarrow> (case skip_space r1 of
                 [] \<Rightarrow> Some (Inl ValueError)
               | c # r2 \<Rightarrow>
                   if c \<noteq> CHR '':'' then Some (Inl ValueError)
                   else (case json_value str_flt fuel (skip_space r2) of
                       None \<Rightarrow> None
                     | Some (Inl e) \<Rightarrow> Some (Inl e)
                     | Some (Inr (v, rest)) \<Rightarrow> (case skip_space rest of
                           [] \<Rightarrow> Some (Inl ValueError)
                         | c # r3 \<Rightarrow>
                             if c = CHR ''}'' then Some (Inr (PDict (AList.update k v acc), r3))
                             else if c = CHR '','' then json_dict str_flt fuel (AList.update k v acc) (skip_space r3)
                             else Some (Inl ValueError))))))"

definition json_loads :: "(string \<Rightarrow> real) \<Rightarrow> string \<Rightarrow> pyval result" where
  "json_loads str_flt s = (case json_value str_flt (2 * length s + 2) (skip_space s) of
       None \<Rightarrow> Inl RuntimeError
     | Some (Inl e) \<Rightarrow> Inl e
     | Some (Inr (v, rest)) \<Rightarrow> if skip_space rest = [] then Inr v else Inl ValueError)"

section \<open>The parser always returns\<close>

lemma json_chars_shorter: "json_chars s = Inr (t, rest) \<Longrightarrow> length rest < length s"
  by (induction s arbitrary: t rule: json_chars.induct)
    (force simp: cons_char_def result_simps split: if_splits list.splits option.splits)+

lemma json_word_shorter: "json_word s = Some (v, rest) \<Longrightarrow> length rest < length s"
  by (auto simp: json_word_def starts_with_iff split: if_splits)

lemma json_number_shorter:
  assumes "json_number f s = Inr (v, rest)"
  shows "length rest < length s"
proof -
  have "take_int s \<noteq> []" "\<exists>k. rest = drop (length (take_int s) + k) s"
    using assms by (auto simp: json_number_def Let_def add.assoc split: if_split_asm intro: exI [of _ 0])
  moreover have "s \<noteq> []" if "take_int s \<noteq> []"
    using that by (auto simp: take_int_def)
  ultimately show ?thesis
    by (cases s) auto
qed

lemma skip_space_length: "length (skip_space s) \<le> length s"
  by (rule length_dropWhile_le)

lemma skip_space_Cons: "skip_space s = c # r \<Longrightarrow> length r < length s"
  using skip_space_length [of s] by simp

lemma json_shorter:
  "json_value f n s = Some (Inr (v, rest)) \<Longrightarrow> length rest < length s"
  "json_list f n acc s = Some (Inr (v, rest)) \<Longrightarrow> length rest < length s"
  "json_dict f n d s = Some (Inr (v, rest)) \<Longrightarrow> length rest < length s"
proof (induction n arbitrary: s v rest acc d)
  case (Suc n)
  {
    case 1
    then obtain c r where s: "s = c # r"
      by (cases s) auto
    have r: "length (tl (skip_space r)) \<le> length r" "length (skip_space r) \<le> length r"
      using skip_space_length [of r] by simp_all
    show ?case
      using 1 Suc.IH(2,3) [of _ "skip_space r"] r json_chars_shorter [of r]
        json_word_shorter [of s] json_number_shorter [of f s]
      by (fastforce simp: s Let_def result_simps split: if_splits option.splits)
  next
    case 2
    then obtain w r c r2 where v: "json_value f n s = Some (Inr (w, r))" "skip_space r = c # r2"
      by (auto split: option.splits sum.splits list.splits)
    have "length r < length s" "length r2 < length r"
      using Suc.IH(1) [OF v(1)] skip_space_Cons [OF v(2)] by simp_all
    moreover have "rest = r2 \<or> json_list f n (acc @ [w]) (skip_space r2) = Some (Inr (v, rest))"
      using 2 v by (auto split: if_splits)
    ultimately show ?case
      using Suc.IH(2) [of _ "skip_space r2" v rest] skip_space_length [of r2] by fastforce
  next
    case 3
    then obtain q r k r1 c r2 w r3 c2 r4 where d: "s = q # r" "json_chars r = Inr (k, r1)" "skip_space r1 = c # r2"
      "json_value f n (skip_space r2) = Some (Inr (w, r3))" "skip_space r3 = c2 # r4"
      by (auto split: option.splits sum.splits list.splits if_splits)
    have "length r4 < length s"
      using json_chars_shorter [OF d(2)] skip_space_Cons [OF d(3)] Suc.IH(1) [OF d(4)] skip_space_Cons [OF d(5)]
        skip_space_length [of r2] d(1) by simp
    moreover have "rest = r4 \<or> json_dict f n (AList.update k w d) (skip_space r4) = Some (Inr (v, rest))"
      using 3 d by (auto split: if_splits)
    ultimately show ?case
      using Suc.IH(3) [of _ "skip_space r4" v rest] skip_space_length [of r4] by fastforce
  }
qed simp_all

lemma json_total:
  "2 * length s + 1 \<le> n \<Longrightarrow> json_value f n s \<noteq> None"
  "2 * length s + 2 \<le> n \<Longrightarrow> json_list f n acc s \<noteq> None"
  "2 * length s + 2 \<le> n \<Longrightarrow> json_dict f n d s \<noteq> None"
proof (induction n arbitrary: s acc d)
  case (Suc n)
  {
    case 1
    show ?case
    proof (cases s)
      case (Cons c r)
      then have "2 * length (skip_space r) + 2 \<le> n"
        using 1 skip_space_length [of r] by simp
      then show ?thesis
        using Suc.IH(2,3) [of "skip_space r"] Cons by (auto simp: Let_def split: option.splits)
    qed simp
  next
    case 2
    have val: "json_value f n s \<noteq> None"
      using 2 Suc.IH(1) [of s] by simp
    have "json_list f n (acc @ [v]) (skip_space r2) \<noteq> None"
      if "json_value f n s = Some (Inr (v, r))" "skip_space r = c # r2" for v r c r2
      using 2 Suc.IH(2) [of "skip_space r2"] json_shorter(1) [OF that(1)] skip_space_Cons [OF that(2)]
        skip_space_length [of r2] by simp
    then show ?case
      using val by (auto split: option.splits sum.splits list.splits)
  next
    case 3
    have val: "json_value f n (skip_space r2) \<noteq> None"
      and cont: "json_value f n (skip_space r2) = Some (Inr (v, r3)) \<Longrightarrow> skip_space r3 = c2 # r4 \<Longrightarrow>
        json_dict f n (AList.update k v d) (skip_space r4) \<noteq> None"
      if "s = q # r" "json_chars r = Inr (k, r1)" "skip_space r1 = c # r2" for q r k r1 c r2 v r3 c2 r4
    proof -
      have len: "length (skip_space r2) < length s"
        using that(1) json_chars_shorter [OF that(2)] skip_space_Cons [OF that(3)] skip_space_length [of r2] by simp
      then show "json_value f n (skip_space r2) \<noteq> None"
        using 3 Suc.IH(1) [of "skip_space r2"] by simp
      show "json_dict f n (AList.update k v d) (skip_space r4) \<noteq> None"
        if "json_value f n (skip_space r2) = Some (Inr (v, r3))" "skip_space r3 = c2 # r4"
        using 3 len Suc.IH(3) [of "skip_space r4"] json_shorter(1) [OF that(1)] skip_space_Cons [OF that(2)]
          skip_space_length [of r4] by simp
    qed
    show ?case
      using val cont by (fastforce split: option.splits sum.splits list.splits)
  }
qed simp_all

text \<open>The fuel is enough for every text.\<close>

lemma json_loads_fuel: "\<exists>r. json_value f (2 * length s + 2) (skip_space s) = Some r"
  using json_total(1) [of "skip_space s" "2 * length s + 2" f] skip_space_length [of s] by auto

section \<open>Reading what was written\<close>

lemma hex_value_digit: "n < 16 \<Longrightarrow> hex_value (hex_digit n) = Some n"
proof -
  assume "n < 16"
  then have "n \<in> set [0..<16]"
    by simp
  moreover have "list_all (\<lambda>n. hex_value (hex_digit n) = Some n) [0..<16]"
    by code_simp
  ultimately show ?thesis
    by (auto simp: list_all_iff)
qed

lemma hex_digit_mod [simp]: "hex_digit (n mod 16) = hex_digit n"
  by (simp add: hex_digit_def)

lemma of_char_controls:
  "(of_char c = (10 :: nat)) = (c = CHR 0x0A)" "(of_char c = (13 :: nat)) = (c = CHR 0x0D)"
  "(of_char c = (9 :: nat)) = (c = CHR 0x09)" "(of_char c = (12 :: nat)) = (c = CHR 0x0C)" "(of_char c = (8 :: nat)) = (c = CHR 0x08)"
  using of_char_eq_iff [of c "CHR 0x0A", where 'a = nat] of_char_eq_iff [of c "CHR 0x0D", where 'a = nat]
    of_char_eq_iff [of c "CHR 0x09", where 'a = nat] of_char_eq_iff [of c "CHR 0x0C", where 'a = nat]
    of_char_eq_iff [of c "CHR 0x08", where 'a = nat] by simp_all

lemma hex4_of_byte: "n < 256 \<Longrightarrow> hex4_value CHR ''0'' CHR ''0'' (hex_digit (n div 16)) (hex_digit n) = Some n"
proof -
  assume "n < 256"
  then have "hex_value (hex_digit (n div 16)) = Some (n div 16)" "hex_value (hex_digit (n mod 16)) = Some (n mod 16)"
    by (intro hex_value_digit; simp)+
  moreover have "hex_value CHR ''0'' = Some 0"
    by code_simp
  ultimately show ?thesis
    by (simp add: hex4_value_def)
qed

lemma json_chars_char:
  assumes "t \<noteq> []"
  shows "json_chars (json_char c @ t) = cons_char c (json_chars t)"
proof -
  obtain e s where t: "t = e # s"
    using assms by (cases t) auto
  let ?n = "of_char c :: nat"
  let ?special = "{CHR 0x22, CHR 0x5C, CHR 0x0A, CHR 0x0D, CHR 0x09, CHR 0x0C, CHR 0x08}"
  consider (special) "c \<in> ?special" | (hex) "c \<notin> ?special" "?n < 32 \<or> 126 < ?n" | (plain) "c \<notin> ?special" "\<not> (?n < 32 \<or> 126 < ?n)"
    by blast
  then show ?thesis
  proof cases
    case special
    then show ?thesis
      by (auto simp: json_char_def json_escape_def t)
  next
    case hex
    have n: "?n < 256"
      by simp
    have "json_char c = [CHR 0x5C, CHR ''u'', CHR ''0'', CHR ''0'', hex_digit (?n div 16), hex_digit ?n]"
      using hex by (simp add: json_char_def Let_def of_char_controls)
    then show ?thesis
      using hex4_of_byte [OF n] by (simp add: t)
  next
    case plain
    then have "json_char c = [c]"
      by (simp add: json_char_def Let_def of_char_controls)
    then show ?thesis
      using plain by (simp add: t)
  qed
qed

lemma json_chars_roundtrip: "json_chars (concat (map json_char s) @ CHR 0x22 # rest) = Inr (s, rest)"
proof (induction s)
  case Nil
  show ?case
    by (cases rest) simp_all
next
  case (Cons c s)
  then show ?case
    by (simp add: json_chars_char cons_char_def)
qed

lemma nat_str_last_digit: "digits_nat (s @ [c]) = 10 * digits_nat s + (of_char c - 48)"
  by (simp add: digits_nat_def)

lemma digit_value: "d < 10 \<Longrightarrow> of_char (''0123456789'' ! d) - 48 = d"
proof -
  assume "d < 10"
  then have "d \<in> set [0..<10]"
    by simp
  moreover have "list_all (\<lambda>d. of_char (''0123456789'' ! d) - 48 = d) [0..<10]"
    by code_simp
  ultimately show ?thesis
    by (auto simp: list_all_iff)
qed

lemma digits_nat_str: "digits_nat (nat_str n) = n"
proof (induction n rule: nat_str.induct)
  case (1 n)
  show ?case
  proof (cases "n < 10")
    case True
    then show ?thesis
      using nat_str_last_digit [of "[]"] digit_value [of n] by (simp add: nat_str.simps [of n] digits_nat_def)
  next
    case False
    then show ?thesis
      using 1 digit_value [of "n mod 10"] by (simp add: nat_str.simps [of n] nat_str_last_digit)
  qed
qed

lemma nat_str_no_leading_zero: "starts_with ''0'' (nat_str n) \<Longrightarrow> nat_str n = ''0''"
proof (induction n rule: nat_str.induct)
  case (1 n)
  show ?case
  proof (cases "n < 10")
    case True
    then show ?thesis
      using 1(2) by (simp add: nat_str.simps [of n])
  next
    case False
    have "nat_str (n div 10) \<noteq> []"
      using nat_str_digits by blast
    then have "starts_with ''0'' (nat_str (n div 10))"
      using 1(2) False by (cases "nat_str (n div 10)") (simp_all add: nat_str.simps [of n])
    then have "nat_str (n div 10) = ''0''"
      using 1(1) False by blast
    then have "n div 10 = 0"
      using digits_nat_str [of "n div 10"] by (simp add: digits_nat_def)
    then show ?thesis
      using False by simp
  qed
qed

text \<open>What may follow a value inside of a text\<close>

definition ends_value :: "string \<Rightarrow> bool" where
  "ends_value rest \<longleftrightarrow> rest = [] \<or> hd rest \<in> {CHR '','', CHR '']'', CHR ''}''}"

lemma takeWhile_nat_str:
  assumes "ends_value rest"
  shows "takeWhile is_digit_char (nat_str n @ rest) = nat_str n"
proof -
  have "takeWhile is_digit_char (nat_str n @ rest) = nat_str n @ takeWhile is_digit_char rest"
    using nat_str_digits [of n] by (intro takeWhile_append2) (simp add: list_all_iff)
  moreover have "takeWhile is_digit_char rest = []"
    using assms by (cases rest) (auto simp: ends_value_def is_digit_char_def)
  ultimately show ?thesis
    by simp
qed

lemma int_digits_nat_str: "ends_value rest \<Longrightarrow> int_digits (nat_str n @ rest) = nat_str n"
  using nat_str_no_leading_zero [of n] by (auto simp: int_digits_def takeWhile_nat_str Let_def)

lemma nat_str_hd: "nat_str n = c # r \<Longrightarrow> is_digit_char c"
  using nat_str_digits [of n] by simp

lemma take_int_str:
  assumes "ends_value rest"
  shows "take_int (int_str i @ rest) = int_str i" "int_of_text (int_str i) = i"
proof -
  obtain c r where c: "nat_str (nat \<bar>i\<bar>) = c # r" "is_digit_char c"
    using nat_str_digits [of "nat \<bar>i\<bar>"] nat_str_hd by (metis neq_Nil_conv)
  have nm: "c \<noteq> CHR ''-''"
    using c(2) by (auto simp: is_digit_char_def)
  have "int_digits (nat_str (nat \<bar>i\<bar>) @ rest) = nat_str (nat \<bar>i\<bar>)"
    by (rule int_digits_nat_str [OF assms])
  then show "take_int (int_str i @ rest) = int_str i"
    using c(1) nm by (auto simp: take_int_def int_str_def)
  show "int_of_text (int_str i) = i"
    using c(1) nm digits_nat_str [of "nat \<bar>i\<bar>"] by (auto simp: int_of_text_def int_str_def)
qed

lemma json_number_int:
  assumes "ends_value rest"
  shows "json_number f (int_str i @ rest) = Inr (PInt i, rest)"
proof -
  have "int_str i \<noteq> []"
    using nat_str_digits [of "nat \<bar>i\<bar>"] by (simp add: int_str_def)
  moreover have "take_fraction rest = []" "take_exponent rest = []"
    using assms by (auto simp: take_fraction_def take_exponent_def ends_value_def split: list.splits)
  ultimately show ?thesis
    using take_int_str [OF assms] by (simp add: json_number_def)
qed

text \<open>The text \<open>t\<close> is read as the value \<open>v\<close>.\<close>

definition reads :: "(string \<Rightarrow> real) \<Rightarrow> pyval \<Rightarrow> string \<Rightarrow> bool" where
  "reads f v t \<longleftrightarrow> t \<noteq> [] \<and> \<not> json_space (hd t) \<and> hd t \<notin> {CHR '']'', CHR ''}''} \<and>
     (\<forall>n rest. 2 * length t + 1 \<le> n \<longrightarrow> ends_value rest \<longrightarrow> json_value f n (t @ rest) = Some (Inr (v, rest)))"

lemma readsI:
  assumes "t = c # r" "\<not> json_space c" "c \<notin> {CHR '']'', CHR ''}''}"
    and "\<And>n rest. 2 * length t \<le> n \<Longrightarrow> ends_value rest \<Longrightarrow> json_value f (Suc n) (t @ rest) = Some (Inr (v, rest))"
  shows "reads f v t"
  unfolding reads_def
proof (intro conjI allI impI)
  fix n rest
  assume n: "2 * length t + 1 \<le> n" and rest: "ends_value rest"
  obtain m where "n = Suc m"
    using n by (cases n) auto
  then show "json_value f n (t @ rest) = Some (Inr (v, rest))"
    using assms(4) [of m rest] n rest by simp
qed (use assms(1-3) in simp_all)

lemma skip_space_text: "t \<noteq> [] \<Longrightarrow> \<not> json_space (hd t) \<Longrightarrow> skip_space (t @ rest) = t @ rest"
  by (cases t) simp_all

lemma ends_value_no_space: "ends_value rest \<Longrightarrow> skip_space rest = rest"
  by (cases rest) (auto simp: ends_value_def json_space_def)

lemma json_list_reads:
  assumes "list_all2 (reads f) vs ts" "vs \<noteq> []" "2 * length (py_join '', '' ts) + 3 \<le> n"
  shows "json_list f n acc (py_join '', '' ts @ CHR '']'' # rest) = Some (Inr (PList (acc @ vs), rest))"
  using assms
proof (induction vs arbitrary: ts n acc)
  case (Cons v vs)
  obtain t ts' where ts: "ts = t # ts'" "reads f v t" "list_all2 (reads f) vs ts'"
    using Cons.prems(1) by (auto simp: list_all2_Cons1)
  obtain m where m: "n = Suc m"
    using Cons.prems(3) by (cases n) auto
  show ?case
  proof (cases "vs = []")
    case True
    then have "ts' = []"
      using ts(3) by simp
    have "json_value f m (t @ CHR '']'' # rest) = Some (Inr (v, CHR '']'' # rest))"
      using ts(2) Cons.prems(3) by (simp add: reads_def m ts(1) \<open>ts' = []\<close> ends_value_def)
    then show ?thesis
      by (simp add: m ts(1) \<open>ts' = []\<close> True json_space_def)
  next
    case False
    then have ne: "ts' \<noteq> []"
      using ts(3) by auto
    have join: "py_join '', '' ts = t @ '', '' @ py_join '', '' ts'"
      unfolding ts(1) by (rule py_join_Cons [OF ne])
    have len: "2 * length (py_join '', '' ts') + 3 \<le> m" "2 * length t + 1 \<le> m"
      using Cons.prems(3) by (simp_all add: join m)
    obtain t2 ts2 where t2: "ts' = t2 # ts2"
      using ne by (cases ts') auto
    have "t2 \<noteq> []" "\<not> json_space (hd t2)"
      using ts(3) t2 by (auto simp: reads_def list_all2_Cons2)
    moreover have "\<exists>r. py_join '', '' ts' = t2 @ r"
      unfolding t2 by (cases ts2) auto
    ultimately have "skip_space (py_join '', '' ts' @ CHR '']'' # rest) = py_join '', '' ts' @ CHR '']'' # rest"
      using skip_space_text [of t2] by auto
    moreover have "json_value f m (t @ '', '' @ py_join '', '' ts' @ CHR '']'' # rest) =
        Some (Inr (v, '', '' @ py_join '', '' ts' @ CHR '']'' # rest))"
      using ts(2) len(2) by (simp add: reads_def ends_value_def)
    ultimately show ?thesis
      using Cons.IH [OF ts(3) False len(1), of "acc @ [v]"] by (simp add: m join json_space_def)
  qed
qed simp

lemma json_string_hd: "json_string s = CHR 0x22 # (concat (map json_char s) @ [CHR 0x22])"
  by (simp add: json_string_def)

lemma update_fresh: "k \<notin> fst ` set d \<Longrightarrow> AList.update k v d = d @ [(k, v)]"
  by (induction d) auto

lemma json_dict_reads:
  assumes "list_all2 (\<lambda>(k, v) x. \<exists>t. x = json_string k @ '': '' @ t \<and> reads f v t) d ts" "d \<noteq> []"
    "distinct (map fst d)" "fst ` set d \<inter> fst ` set acc = {}" "2 * length (py_join '', '' ts) + 3 \<le> n"
  shows "json_dict f n acc (py_join '', '' ts @ CHR ''}'' # rest) = Some (Inr (PDict (acc @ d), rest))"
  using assms
proof (induction d arbitrary: ts n acc)
  case (Cons x d)
  obtain k v where x: "x = (k, v)"
    by (cases x)
  obtain t ts' where ts: "ts = (json_string k @ '': '' @ t) # ts'" "reads f v t"
    "list_all2 (\<lambda>(k, v) x. \<exists>t. x = json_string k @ '': '' @ t \<and> reads f v t) d ts'"
    using Cons.prems(1) by (auto simp: list_all2_Cons1 x)
  obtain m where m: "n = Suc m"
    using Cons.prems(5) by (cases n) auto
  have upd: "AList.update k v acc = acc @ [(k, v)]"
    using Cons.prems(4) by (intro update_fresh) (simp add: x)
  have t: "t \<noteq> []" "\<not> json_space (hd t)"
    using ts(2) by (simp_all add: reads_def)
  have key: "json_chars (concat (map json_char k) @ CHR 0x22 # u) = Inr (k, u)" for u
    by (rule json_chars_roundtrip)
  show ?case
  proof (cases "d = []")
    case True
    then have ts': "ts' = []"
      using ts(3) by simp
    have "json_value f m (t @ CHR ''}'' # rest) = Some (Inr (v, CHR ''}'' # rest))"
      using ts(2) Cons.prems(5) by (simp add: reads_def m ts(1) ts' ends_value_def json_string_def)
    then show ?thesis
      using skip_space_text [OF t, of "CHR ''}'' # rest"]
      by (simp add: m ts(1) ts' True x upd json_string_hd key json_space_def)
  next
    case False
    then have ne: "ts' \<noteq> []"
      using ts(3) by auto
    let ?more = "py_join '', '' ts' @ CHR ''}'' # rest"
    have join: "py_join '', '' ts = json_string k @ '': '' @ t @ '', '' @ py_join '', '' ts'"
      unfolding ts(1) using py_join_Cons [OF ne] by simp
    have len: "2 * length (py_join '', '' ts') + 3 \<le> m" "2 * length t + 1 \<le> m"
      using Cons.prems(5) by (simp_all add: join m json_string_def)
    obtain x2 ts2 where x2: "ts' = x2 # ts2"
      using ne by (cases ts') auto
    have "\<exists>r. x2 = CHR 0x22 # r"
      using ts(3) x2 by (auto simp: list_all2_Cons2 json_string_def)
    moreover have "\<exists>r. py_join '', '' ts' = x2 @ r"
      unfolding x2 by (cases ts2) auto
    ultimately have "skip_space ?more = ?more"
      by (auto simp: json_space_def)
    moreover have "json_value f m (t @ '', '' @ ?more) = Some (Inr (v, '', '' @ ?more))"
      using ts(2) len(2) by (simp add: reads_def ends_value_def)
    moreover have "json_dict f m (acc @ [(k, v)]) ?more = Some (Inr (PDict ((acc @ [(k, v)]) @ d), rest))"
      using Cons.prems(3,4) by (intro Cons.IH [OF ts(3) False _ _ len(1)]) (auto simp: x)
    ultimately show ?thesis
      using skip_space_text [OF t, of "'', '' @ ?more"]
      by (simp add: m join x upd json_string_hd key json_space_def)
  qed
qed simp

text \<open>The values that come back: no tuples, byte strings or floating point numbers, and dictionaries with distinct keys\<close>

fun loadable :: "pyval \<Rightarrow> bool" where
  "loadable PNone = True"
| "loadable (PBool b) = True"
| "loadable (PInt i) = True"
| "loadable (PStr s) = True"
| "loadable (PList vs) = list_all loadable vs"
| "loadable (PDict d) = (distinct (map fst d) \<and> list_all (\<lambda>(k, v). loadable v) d)"
| "loadable _ = False"

abbreviation dumped :: "(real \<Rightarrow> string) \<Rightarrow> (string \<Rightarrow> real) \<Rightarrow> pyval \<Rightarrow> bool" where
  "dumped flt f v \<equiv> \<exists>t. json_dumps flt v = Inr t \<and> reads f v t"

lemma reads_int: "reads f (PInt i) (int_str i)"
proof -
  obtain c r where c: "int_str i = c # r"
    using nat_str_digits [of "nat \<bar>i\<bar>"] by (cases "int_str i") (auto simp: int_str_def)
  have "is_digit_char c \<or> c = CHR ''-''"
    using c nat_str_digits [of "nat \<bar>i\<bar>"] by (auto simp: int_str_def Cons_eq_append_conv split: if_splits)
  then have ok: "c \<noteq> CHR 0x22" "c \<noteq> CHR ''[''" "c \<noteq> CHR ''{''" "c \<noteq> CHR ''n''" "c \<noteq> CHR ''t''" "c \<noteq> CHR ''f''"
    "\<not> json_space c" "c \<notin> {CHR '']'', CHR ''}''}"
    by (auto simp: json_space_def is_digit_char_def)
  have "json_word (int_str i @ rest) = None" for rest
    using ok by (simp add: c json_word_def starts_with_iff)
  then show ?thesis
    using ok json_number_int [of _ f i] by (intro readsI [OF c]) (simp_all add: c)
qed

lemma reads_string: "reads f (PStr s) (json_string s)"
  by (rule readsI [OF json_string_hd]) (simp_all add: json_string_hd json_space_def json_chars_roundtrip result_simps)

lemma reads_words: "reads f PNone ''null''" "reads f (PBool True) ''true''" "reads f (PBool False) ''false''"
  by (rule readsI [OF refl]; simp add: json_space_def json_word_def starts_with_iff)+

lemma elements_dumped: "\<forall>v \<in> set vs. dumped flt f v \<Longrightarrow> \<exists>ts. json_elements flt vs = Inr ts \<and> list_all2 (reads f) vs ts"
  by (induction vs) (auto simp: result_simps)

lemma items_dumped: "\<forall>(k, v) \<in> set d. dumped flt f v \<Longrightarrow>
   \<exists>ts. json_items flt d = Inr ts \<and> list_all2 (\<lambda>(k, v) x. \<exists>t. x = json_string k @ '': '' @ t \<and> reads f v t) d ts"
  by (induction d) (auto simp: result_simps)

lemma reads_list:
  assumes "list_all2 (reads f) vs ts"
  shows "reads f (PList vs) (''['' @ py_join '', '' ts @ '']'')"
proof (rule readsI)
  fix n rest
  assume n: "2 * length (''['' @ py_join '', '' ts @ '']'') \<le> n" "ends_value rest"
  show "json_value f (Suc n) ((''['' @ py_join '', '' ts @ '']'') @ rest) = Some (Inr (PList vs, rest))"
  proof (cases vs)
    case Nil
    then show ?thesis
      using assms by (simp add: json_space_def starts_with_iff)
  next
    case (Cons v vs')
    then obtain t ts' where ts: "ts = t # ts'" "reads f v t"
      using assms by (auto simp: list_all2_Cons1)
    then obtain c r where t: "t = c # r" "\<not> json_space c" "c \<noteq> CHR '']''"
      by (cases t) (auto simp: reads_def)
    obtain r' where "py_join '', '' ts = c # r'"
      using ts(1) t(1) by (cases ts') auto
    then show ?thesis
      using json_list_reads [OF assms, of n "[]" rest] n(1) Cons t by (simp add: starts_with_iff)
  qed
qed (auto simp: json_space_def)

lemma reads_dict:
  assumes "list_all2 (\<lambda>(k, v) x. \<exists>t. x = json_string k @ '': '' @ t \<and> reads f v t) d ts" "distinct (map fst d)"
  shows "reads f (PDict d) (''{'' @ py_join '', '' ts @ ''}'')"
proof (rule readsI)
  fix n rest
  assume n: "2 * length (''{'' @ py_join '', '' ts @ ''}'') \<le> n" "ends_value rest"
  show "json_value f (Suc n) ((''{'' @ py_join '', '' ts @ ''}'') @ rest) = Some (Inr (PDict d, rest))"
  proof (cases d)
    case Nil
    then show ?thesis
      using assms by (simp add: json_space_def starts_with_iff)
  next
    case (Cons x d')
    then obtain x' ts' where ts: "ts = x' # ts'" "\<exists>r. x' = CHR 0x22 # r"
      using assms(1) by (auto simp: list_all2_Cons1 json_string_def)
    obtain r' where "py_join '', '' ts = CHR 0x22 # r'"
      using ts by (cases ts') auto
    then show ?thesis
      using json_dict_reads [OF assms(1) _ assms(2), of "[]" n rest] n(1) Cons by (simp add: starts_with_iff json_space_def)
  qed
qed (auto simp: json_space_def)

lemma json_dumped: "loadable v \<Longrightarrow> dumped flt f v"
proof (induction v)
  case PNone
  show ?case
    using reads_words(1) by simp
next
  case (PBool b)
  show ?case
    using reads_words(2,3) by (cases b) simp_all
next
  case (PList vs)
  have "\<forall>v \<in> set vs. dumped flt f v"
    using PList by (auto simp: list_all_iff)
  then show ?case
    using elements_dumped [of vs flt f] reads_list [of f vs] by (auto simp: result_simps)
next
  case (PDict d)
  have "\<forall>(k, v) \<in> set d. dumped flt f v"
    using PDict by (fastforce simp: list_all_iff)
  then show ?case
    using items_dumped [of d flt f] reads_dict [of f d] PDict.prems by (auto simp: result_simps)
qed (auto simp: reads_int reads_string)

lemma json_loads_reads:
  assumes "reads f v t"
  shows "json_loads f t = Inr v"
proof -
  have "2 * length t + 1 \<le> n \<Longrightarrow> ends_value rest \<Longrightarrow> json_value f n (t @ rest) = Some (Inr (v, rest))" for n rest
    using assms unfolding reads_def by blast
  from this [of "2 * length t + 2" "[]"] have "json_value f (2 * length t + 2) t = Some (Inr (v, []))"
    by (simp add: ends_value_def del: json_value.simps)
  moreover have "skip_space t = t"
    using skip_space_text [of t "[]"] assms by (simp add: reads_def)
  ultimately show ?thesis
    unfolding json_loads_def by (simp del: json_value.simps)
qed

lemma json_roundtrip:
  assumes "loadable v"
  shows "\<exists>t. json_dumps flt v = Inr t \<and> json_loads f t = Inr v"
  using json_dumped [OF assms] json_loads_reads by blast

text \<open>
  What the pages of the web interface rely on when they pass a value on as text: it can be written, and reading gives
  it back.
\<close>

locale text_codec =
  fixes encode :: "'a \<Rightarrow> 'e + string"
    and decode :: "string \<Rightarrow> 'e + 'a"
    and ok :: "'a \<Rightarrow> bool"
  assumes returns: "ok v \<Longrightarrow> \<exists>t. encode v = Inr t"
    and read_back: "ok v \<Longrightarrow> encode v = Inr t \<Longrightarrow> decode t = Inr v"
begin

lemma roundtrip: "ok v \<Longrightarrow> \<exists>t. encode v = Inr t \<and> decode t = Inr v"
  using returns read_back by blast

lemma different_texts: "ok v \<Longrightarrow> ok w \<Longrightarrow> encode v = encode w \<Longrightarrow> v = w"
  by (metis roundtrip sum.inject(2))

end

interpretation json: text_codec "json_dumps flt" "json_loads f" loadable for flt f
proof
  show "\<exists>t. json_dumps flt v = Inr t" if "loadable v" for v
    using json_roundtrip [OF that] by blast
  show "json_loads f t = Inr v" if "loadable v" "json_dumps flt v = Inr t" for v t
    using json_roundtrip [OF that(1), of flt f] that(2) by simp
qed

end
