(* ===== verification/Search_Routes.thy ===== *)
theory Search_Routes
  imports Json Frontend_Database Upload
begin

text \<open>
  The search pages, \<^verbatim>\<open>src/src/web_interface/components/database_routes.py\<close>, with
  \<^verbatim>\<open>src/src/web_interface/pagination.py\<close>, the GraphQL search of \<^verbatim>\<open>src/src/storage/graphql/interface.py\<close> and the
  filters of \<^verbatim>\<open>src/src/helperFunctions/web_interface.py\<close>. A search is started by a form, travels as JSON text in the
  address of the page \<open>browse_database\<close>, and is shown page by page. \<open>args\<close> are the parameters of the address;
  \<open>url_for\<close>, which quotes them, and Flask, which reads them back, are taken to keep them. The GraphQL server, the
  operators of the database and the text of floating point numbers are parameters. A rendered template is a value
  with the data it is given; flashed messages are part of it. Log messages and the access control are left out.
\<close>

section \<open>pagination.py\<close>

type_synonym url_args = "(string \<times> string) list"

text \<open>\<open>int(text)\<close>: white space around it, a sign, and digits with single underscores between them\<close>

definition py_strip :: "string \<Rightarrow> string" where
  "py_strip s = rev (dropWhile is_space (rev (dropWhile is_space s)))"

definition int_sign :: "string \<Rightarrow> bool \<times> string" where
  "int_sign s = (case s of
       [] \<Rightarrow> (False, [])
     | c # r \<Rightarrow> if c = CHR ''-'' then (True, r) else if c = CHR ''+'' then (False, r) else (False, s))"

definition int_from_text :: "string \<Rightarrow> int result" where
  "int_from_text t = (case int_sign (py_strip t) of (negative, digits) \<Rightarrow>
     let groups = py_split (CHR ''_'') digits; n = int (digits_nat (concat groups))
     in if list_all (\<lambda>g. g \<noteq> [] \<and> list_all is_digit_char g) groups then Inr (if negative then - n else n) else Inl ValueError)"

definition extract_pagination_from_request :: "int \<Rightarrow> url_args \<Rightarrow> (int \<times> int \<times> int) result" where
  "extract_pagination_from_request results_per_page args =
     bindE (case map_of args ''page'' of None \<Rightarrow> Inr 1 | Some t \<Rightarrow> int_from_text t) (\<lambda>page.
     bindE (case map_of args ''per_page'' of
         None \<Rightarrow> Inr results_per_page
       | Some t \<Rightarrow> if t = [] then Inr results_per_page else int_from_text t) (\<lambda>per_page.
       Inr (page, per_page, (page - 1) * per_page)))"

section \<open>The search of a page\<close>

datatype target_type = Target_yara | Target_file | Target_firmware | Target_graphql | Target_inverted

record search_parameters =
  sp_query :: pyval
  sp_only_firmware :: bool
  sp_inverted :: bool
  sp_search_target :: target_type
  sp_query_title :: pyval
  sp_yara_match_data :: "pyval option"

definition apply_filter :: "url_args \<Rightarrow> string \<Rightarrow> pyval \<Rightarrow> pyval result" where
  "apply_filter args k query = (case map_of args k of
       None \<Rightarrow> Inr query
     | Some v \<Rightarrow>
         if v = [] then Inr query
         else (case query of PDict d \<Rightarrow> Inr (PDict (AList.update k (PStr v) d)) | _ \<Rightarrow> Inl AttributeError))"

definition apply_filters_to_query :: "(string \<Rightarrow> real) \<Rightarrow> url_args \<Rightarrow> string \<Rightarrow> pyval result" where
  "apply_filters_to_query str_flt args query =
     bindE (json_loads str_flt query) (foldE (apply_filter args) [''device_class'', ''vendor''])"

text \<open>
  \<^verbatim>\<open>datetime.strptime(text, '%B %Y')\<close> with the English names of the months; there is no year 0. The text of the month
  is \<^verbatim>\<open>strftime('%Y-%m')\<close>, which does not fill up years before 1000 (with the C library of Linux).
\<close>

definition full_month_names :: "string list" where
  "full_month_names = [''january'', ''february'', ''march'', ''april'', ''may'', ''june'', ''july'', ''august'', ''september'',
     ''october'', ''november'', ''december'']"

definition parse_month_and_year :: "string \<Rightarrow> (nat \<times> nat) option" where
  "parse_month_and_year s = (case filter (\<lambda>(name, _). starts_with name (py_lower s)) (zip full_month_names [1..<13]) of
       [] \<Rightarrow> None
     | (name, m) # _ \<Rightarrow>
         (let r = drop (length name) s; y = dropWhile is_space r
          in if r \<noteq> y \<and> length y = 4 \<and> list_all is_digit_char y \<and> digits_nat y \<noteq> 0 then Some (digits_nat y, m) else None))"

definition month_text :: "nat \<times> nat \<Rightarrow> string" where
  "month_text = (\<lambda>(y, m). nat_str y @ ''-'' @ (if m < 10 then ''0'' else []) @ nat_str m)"

definition add_date_to_query :: "pyval \<Rightarrow> string \<Rightarrow> pyval" where
  "add_date_to_query query date = (case parse_month_and_year (filter (\<lambda>c. c \<noteq> CHR 0x27) date) of
       None \<Rightarrow> query
     | Some month \<Rightarrow> (case query of
           PDict d \<Rightarrow> PDict (AList.update ''release_date'' (PDict [(''$regex'', PStr (month_text month))]) d)
         | _ \<Rightarrow> query))"

definition regular_query :: "(string \<Rightarrow> real) \<Rightarrow> url_args \<Rightarrow> string \<Rightarrow> pyval result" where
  "regular_query str_flt args query_str =
     bindE (apply_filters_to_query str_flt args query_str) (\<lambda>query. Inr (case map_of args ''date'' of
         None \<Rightarrow> query
       | Some date \<Rightarrow> if date = [] then query else add_date_to_query query date))"

text \<open>A UID that is not in the cache has no attribute \<open>query\<close>.\<close>

definition cached_query :: "(string \<Rightarrow> real) \<Rightarrow> database \<Rightarrow> string \<Rightarrow> (pyval \<times> string \<times> pyval) result" where
  "cached_query str_flt db query_str = (case get_query_from_cache db query_str of
       None \<Rightarrow> Inl AttributeError
     | Some c \<Rightarrow> bindE (json_loads str_flt (sc_query c)) (\<lambda>query. Inr (query, sc_yara_rule c, sc_match_data c)))"

definition flag :: "url_args \<Rightarrow> string \<Rightarrow> bool" where
  "flag args k \<longleftrightarrow> map_of args k = Some ''True''"

definition get_search_parameters :: "(string \<Rightarrow> real) \<Rightarrow> database \<Rightarrow> url_args \<Rightarrow> string \<Rightarrow> search_parameters result" where
  "get_search_parameters str_flt db args default_query =
     (let query_str = (case map_of args ''query'' of None \<Rightarrow> default_query | Some t \<Rightarrow> t);
          graphql = flag args ''graphql''; only_firmware = flag args ''only_firmwares''; inverted = flag args ''inverted''
      in bindE (if graphql then json_loads str_flt query_str else Inr PNone) (\<lambda>_.
         bindE (if is_uid (PStr query_str)
            then bindE (cached_query str_flt db query_str) (\<lambda>(query, rule, match_data). Inr (query, rule, Some match_data))
            else bindE (regular_query str_flt args query_str) (\<lambda>query. Inr (query, [], None)))
           (\<lambda>(query, query_title, yara_match_data). Inr
             \<lparr>sp_query = query, sp_only_firmware = only_firmware, sp_inverted = inverted,
              sp_search_target = (if query_title \<noteq> [] then Target_yara else if graphql then Target_graphql
                else if \<not> only_firmware then Target_file else if \<not> inverted then Target_firmware else Target_inverted),
              sp_query_title = (if query_title \<noteq> [] then PStr query_title else query),
              sp_yara_match_data = yara_match_data\<rparr>)))"

section \<open>The GraphQL search\<close>

definition FO_QUERY :: string where
  "FO_QUERY = concat (map (\<lambda>line. line @ [newline]) [[],
     ''query file_object($where: file_object_bool_exp, $limit: Int, $offset: Int) {'',
     ''  file_object_aggregate(where: $where) {'',
     ''    aggregate {'',
     ''      totalCount: count'',
     ''    }'',
     ''  }'',
     ''  file_object(where: $where, limit: $limit, offset: $offset) {'',
     ''    uid'',
     ''  }'',
     ''}''])"

definition FW_QUERY :: string where
  "FW_QUERY = concat (map (\<lambda>line. line @ [newline]) [[],
     ''query firmware($where: firmware_bool_exp, $limit: Int, $offset: Int) {'',
     ''  firmware_aggregate(where: $where) {'',
     ''    aggregate {'',
     ''      totalCount: count'',
     ''    }'',
     ''  }'',
     ''  firmware(where: $where, limit: $limit, offset: $offset, order_by: {vendor: asc}) {'',
     ''    uid'',
     ''  }'',
     ''}''])"

definition ANALYSIS_QUERY :: string where
  "ANALYSIS_QUERY = concat (map (\<lambda>line. line @ [newline]) [[],
     ''query analysis($where: analysis_bool_exp, $limit: Int, $offset: Int) {'',
     ''  analysis_aggregate(where: $where, distinct_on: uid) {'',
     ''    aggregate {'',
     ''      totalCount: count'',
     ''    }'',
     ''  }'',
     ''  analysis(where: $where, limit: $limit, offset: $offset, distinct_on: uid) {'',
     ''    uid'',
     ''  }'',
     ''}''])"

definition TABLE_TO_QUERY :: "(string \<times> string) list" where
  "TABLE_TO_QUERY = [(''file_object'', FO_QUERY), (''firmware'', FW_QUERY), (''analysis'', ANALYSIS_QUERY)]"

text \<open>
  The exceptions of a GraphQL search: those that \<open>browse_database\<close> handles, of which only a \<open>TransportQueryError\<close> has an
  attribute \<open>errors\<close>, and all others. The server is a function from a query and its variables to its response.
\<close>

datatype gql_error =
    GraphQLSearchError string
  | GraphQLSyntaxError
  | TransportQueryError "pyval list option"
  | OtherError py_error

type_synonym gql_client = "string \<Rightarrow> pydict \<Rightarrow> gql_error + pydict"

definition py_get :: "pyval \<Rightarrow> string \<Rightarrow> pyval \<Rightarrow> pyval result" where
  "py_get v k otherwise = (case v of
       PDict d \<Rightarrow> Inr (case map_of d k of None \<Rightarrow> otherwise | Some x \<Rightarrow> x)
     | _ \<Rightarrow> Inl AttributeError)"

definition other_error :: "'a result \<Rightarrow> gql_error + 'a" where
  "other_error r = (case r of Inl e \<Rightarrow> Inl (OtherError e) | Inr a \<Rightarrow> Inr a)"

definition table_query :: "pyval \<Rightarrow> (string \<times> string) result" where
  "table_query table = (case table of
       PStr t \<Rightarrow> bindE (dict_item TABLE_TO_QUERY t) (\<lambda>query. Inr (t, query))
     | PList _ \<Rightarrow> Inl TypeError
     | PDict _ \<Rightarrow> Inl TypeError
     | _ \<Rightarrow> Inl KeyError)"

definition total_count :: "string \<Rightarrow> pydict \<Rightarrow> pyval result" where
  "total_count table response =
     bindE (py_get (PDict response) (table @ ''_aggregate'') (PDict [])) (\<lambda>a.
     bindE (py_get a ''aggregate'' (PDict [])) (\<lambda>b. py_get b ''totalCount'' PNone))"

definition search_gql :: "gql_client \<Rightarrow> pyval \<Rightarrow> pyval \<Rightarrow> int option \<Rightarrow> int option \<Rightarrow> gql_error + (pyval list \<times> pyval)" where
  "search_gql execute where_dict table offset limit =
     (let variables = [(''where'', where_dict)] @ (case offset of None \<Rightarrow> [] | Some n \<Rightarrow> [(''offset'', PInt n)]) @
            (case limit of None \<Rightarrow> [] | Some n \<Rightarrow> [(''limit'', PInt n)])
      in bindE (other_error (table_query table)) (\<lambda>(t, query).
         if query = [] then Inl (GraphQLSearchError (''Unknown table '' @ t))
         else bindE (execute query variables) (\<lambda>response.
           bindE (other_error (total_count t response)) (\<lambda>total.
             if total = PNone then Inl (GraphQLSearchError ''Could not determine total result count.'')
             else other_error (bindE (py_get (PDict response) t (PDict [])) (\<lambda>found.
               bindE (py_iter found) (\<lambda>es. bindE (mapE (\<lambda>e. subscript e ''uid'') es) (\<lambda>uids. Inr (uids, total)))))))))"

text \<open>
  \<^verbatim>\<open>re.search(r"field '(.+)' not found in type: '(.+)'", error)\<close>: both groups are as long as possible and end before the
  end of the line.
\<close>

definition not_found_in_type :: string where
  "not_found_in_type = [CHR 0x27] @ '' not found in type: '' @ [CHR 0x27]"

definition greedy_until :: "string \<Rightarrow> string \<Rightarrow> nat list" where
  "greedy_until end_text s = filter (\<lambda>i. starts_with end_text (drop i s)) (rev [1..<Suc (length s)])"

definition match_wrong_table :: "string \<Rightarrow> (string \<times> string) option" where
  "match_wrong_table s =
     (let start = ''field '' @ [CHR 0x27]; line = takeWhile (\<lambda>c. c \<noteq> newline) (drop (length start) s)
      in if starts_with start s then
           (case concat (map (\<lambda>i. let r = drop (i + length not_found_in_type) line
                in map (\<lambda>j. (take i line, take j r)) (greedy_until [CHR 0x27] r)) (greedy_until not_found_in_type line)) of
              [] \<Rightarrow> None
            | m # _ \<Rightarrow> Some m)
         else None)"

fun search_wrong_table :: "string \<Rightarrow> (string \<times> string) option" where
  "search_wrong_table [] = None"
| "search_wrong_table (c # s) = (case match_wrong_table (c # s) of Some m \<Rightarrow> Some m | None \<Rightarrow> search_wrong_table s)"

text \<open>\<^verbatim>\<open>expression.replace('_bool_exp', '')\<close>\<close>

fun without_bool_exp :: "nat \<Rightarrow> string \<Rightarrow> string" where
  "without_bool_exp n [] = []"
| "without_bool_exp (Suc n) (c # s) = without_bool_exp n s"
| "without_bool_exp 0 (c # s) =
     (if starts_with ''_bool_exp'' (c # s) then without_bool_exp (length ''_bool_exp'' - 1) s else c # without_bool_exp 0 s)"

definition format_wrong_table_error :: "string \<Rightarrow> string" where
  "format_wrong_table_error error = (case search_wrong_table error of
       None \<Rightarrow> error
     | Some (field, expression) \<Rightarrow> ''Table '' @ [CHR 0x22] @ without_bool_exp 0 expression @ [CHR 0x22] @ '' has no field '' @
         [CHR 0x22] @ field @ [CHR 0x22] @ ''. Did you search in the wrong table?'')"

definition msgof :: "pyval \<Rightarrow> string result" where
  "msgof v = (case v of PStr t \<Rightarrow> Inr t | _ \<Rightarrow> Inl TypeError)"

text \<open>The message of a handled exception. An exception is no container: \<^verbatim>\<open>'...' in error\<close> is a \<open>TypeError\<close>.\<close>

definition gql_error_message :: "gql_error \<Rightarrow> string result" where
  "gql_error_message error =
     bindE (case error of
         TransportQueryError (Some (e # es)) \<Rightarrow>
           bindE (mapE (\<lambda>err. py_get err ''message'' PNone) (filter truthy (e # es))) (\<lambda>ms.
           bindE (mapE msgof ms) (\<lambda>ts. Inr (py_join '', '' ts)))
       | OtherError e \<Rightarrow> Inl e
       | _ \<Rightarrow> Inl TypeError) (\<lambda>msg.
       Inr (''Error during GraphQL search: '' @
         (if substring_of ''not found in type'' msg then format_wrong_table_error msg else msg)))"

section \<open>The page with the results\<close>

record search_env =
  se_plan :: query_plan
  se_ops :: operators
  se_flt :: "real \<Rightarrow> string"
  se_str_flt :: "string \<Rightarrow> real"
  se_execute :: gql_client
  se_results_per_page :: int

record browse_page =
  bp_firmware_list :: "meta_entry list"
  bp_page :: int
  bp_per_page :: int
  bp_total :: pyval
  bp_device_classes :: "string list"
  bp_vendors :: "string list"
  bp_current_class :: string
  bp_current_vendor :: string
  bp_search_parameters :: search_parameters

text \<open>
  The page with the results, the page with the message of a \<open>QueryConversionException\<close>, the page with the message
  \<open>Could not query database\<close>, and the form of the GraphQL search with a flashed message and the last query
\<close>

datatype search_response =
    BrowsePage browse_page
  | QueryErrorPage
  | DatabaseErrorPage
  | GraphqlForm string string

text \<open>
  PostgreSQL refuses a negative offset or limit when the query is executed. A search that is no dictionary fails
  while the query is built. The changed dictionary is returned as well.
\<close>

definition negative :: "int option \<Rightarrow> bool" where
  "negative n \<longleftrightarrow> (case n of None \<Rightarrow> False | Some i \<Rightarrow> i < 0)"

definition search_database ::
  "search_env \<Rightarrow> database \<Rightarrow> pyval \<Rightarrow> int option \<Rightarrow> int option \<Rightarrow> bool \<Rightarrow> bool \<Rightarrow> meta_entry list result \<times> pyval" where
  "search_database env db query skip limit only_firmwares inverted = (case query of
       PDict d \<Rightarrow>
         (case (if negative skip \<or> negative limit
            then (case run_generic_search_query (se_plan env (map_option nat skip) (map_option nat limit)) (se_ops env) (se_flt env) db d only_firmwares inverted of
                (r, d') \<Rightarrow> (bindE r (\<lambda>_. Inl SQLAlchemyError), d'))
            else generic_search_meta (se_plan env) (se_ops env) (se_flt env) db d (map_option nat skip) (map_option nat limit)
              only_firmwares inverted) of
          (r, d') \<Rightarrow> (bindE r (\<lambda>meta_list. Inr (sort_key (py_lower \<circ> me_hid) meta_list)), d'))
     | _ \<Rightarrow> (bindE (fst (build_query_from_dict (se_flt env) query False False)) (\<lambda>_. Inl AttributeError), query))"

definition total_matches :: "search_env \<Rightarrow> database \<Rightarrow> pyval \<Rightarrow> bool \<Rightarrow> bool \<Rightarrow> pyval result \<times> pyval" where
  "total_matches env db query only_firmwares inverted = (case query of
       PDict d \<Rightarrow> (case get_number_of_total_matches (se_ops env) (se_flt env) db d only_firmwares inverted of
           (r, d') \<Rightarrow> (bindE r (\<lambda>n. Inr (PInt (int n))), d'))
     | _ \<Rightarrow> (Inl AttributeError, query))"

text \<open>
  The second half of \<open>browse_database\<close>. The title of a search that is neither cached nor a GraphQL search is the
  dictionary itself, and changes with it.
\<close>

definition final_parameters :: "search_parameters \<Rightarrow> pyval \<Rightarrow> search_parameters" where
  "final_parameters p query =
     (if sp_search_target p \<in> {Target_yara, Target_graphql} then p\<lparr>sp_query := query\<rparr>
      else p\<lparr>sp_query := query, sp_query_title := query\<rparr>)"

definition browse_results ::
  "search_env \<Rightarrow> database \<Rightarrow> url_args \<Rightarrow> int \<Rightarrow> int \<Rightarrow> int option \<Rightarrow> int option \<Rightarrow> search_parameters \<Rightarrow> pyval \<Rightarrow>
   search_response result" where
  "browse_results env db args page per_page offset limit p given_total =
     (case search_database env db (sp_query p) offset limit (sp_only_firmware p) (sp_inverted p) of
        (Inl e, _) \<Rightarrow> Inr (if e = QueryConversionException then QueryErrorPage else DatabaseErrorPage)
      | (Inr firmware_list, query) \<Rightarrow>
          (case (if truthy given_total then (Inr given_total, query)
              else total_matches env db query (sp_only_firmware p) (sp_inverted p)) of
           (r, query) \<Rightarrow> bindE r (\<lambda>total. Inr (BrowsePage
             \<lparr>bp_firmware_list = firmware_list, bp_page = page, bp_per_page = per_page, bp_total = total,
              bp_device_classes = get_device_class_list db, bp_vendors = get_vendor_list db,
              bp_current_class = fmt (map_of args ''device_class''), bp_current_vendor = fmt (map_of args ''vendor''),
              bp_search_parameters = final_parameters p query\<rparr>))))"

definition browse_database :: "search_env \<Rightarrow> database \<Rightarrow> url_args \<Rightarrow> string \<Rightarrow> search_response result" where
  "browse_database env db args default_query =
     bindE (extract_pagination_from_request (se_results_per_page env) args) (\<lambda>(page, per_page, _).
     bindE (get_search_parameters (se_str_flt env) db args default_query) (\<lambda>p.
       (let offset = Some (per_page * (page - 1)); limit = Some per_page
        in if sp_search_target p = Target_graphql then
             bindE (py_get (sp_query p) ''where'' (PDict [])) (\<lambda>where_dict.
             bindE (py_get (sp_query p) ''table'' PNone) (\<lambda>table.
             case search_gql (se_execute env) where_dict table offset limit of
               Inl error \<Rightarrow> bindE (gql_error_message error) (\<lambda>message.
                 bindE (json_dumps (se_flt env) where_dict) (\<lambda>last_query. Inr (GraphqlForm message last_query)))
             | Inr (matches, n) \<Rightarrow>
                 browse_results env db args page per_page None None
                   (p\<lparr>sp_query := PDict [(''uid'', PDict [(''$in'', PList matches)])]\<rparr>) n))
           else browse_results env db args page per_page offset limit p PNone)))"

text \<open>
  \<open>get_shared_session\<close>: the outermost session turns every error of the database into a \<open>DbInterfaceError\<close>.
\<close>

definition get_shared_session :: "'a result \<Rightarrow> 'a result" where
  "get_shared_session r = (case r of
       Inl e \<Rightarrow> Inl (if e \<in> {SQLAlchemyError, IntegrityError} then DbInterfaceError else e)
     | Inr a \<Rightarrow> Inr a)"

record history_page =
  hp_searches_list :: "(string \<times> string \<times> string list) list"
  hp_page :: int
  hp_per_page :: int
  hp_total :: nat

text \<open>The history of the binary searches; \<open>None\<close>: the page with the message \<open>Could not query database\<close>\<close>

definition browse_searches :: "search_env \<Rightarrow> database \<Rightarrow> url_args \<Rightarrow> history_page option result" where
  "browse_searches env db args =
     bindE (extract_pagination_from_request (se_results_per_page env) args) (\<lambda>(page, per_page, offset).
     case get_shared_session
         (if offset < 0 \<or> per_page < 0 then Inl SQLAlchemyError
          else Inr (search_query_cache db (nat offset) (nat per_page), get_total_cached_query_count db)) of
       Inl e \<Rightarrow> if e \<in> {SQLAlchemyError, IntegrityError} then Inr None else Inl e
     | Inr (searches, n) \<Rightarrow>
         Inr (Some \<lparr>hp_searches_list = searches, hp_page = page, hp_per_page = per_page, hp_total = n\<rparr>))"

section \<open>Starting a search\<close>

definition add_choices :: "url_args \<Rightarrow> string \<Rightarrow> string \<Rightarrow> string \<Rightarrow> pydict \<Rightarrow> pydict" where
  "add_choices form k field operator query = (case map_of form k of
       None \<Rightarrow> query
     | Some v \<Rightarrow>
         if v = [] then query
         else AList.update field (PDict [(operator, PList (map (PStr \<circ> snd) (filter (\<lambda>(k', _). k' = k) form)))]) query)"

definition add_like :: "url_args \<Rightarrow> string \<Rightarrow> pydict \<Rightarrow> pydict result" where
  "add_like form k query = bindE (dict_item form k) (\<lambda>v.
     Inr (if v = [] then query else AList.update k (PDict [(''$like'', PStr v)]) query))"

definition hash_types :: "string list" where
  "hash_types = [''md5'', ''sha1'', ''sha256'', ''sha512'', ''ripemd160'', ''whirlpool'']"

definition add_hash_query_to_query :: "pydict \<Rightarrow> string \<Rightarrow> pydict" where
  "add_hash_query_to_query query v =
     AList.update ''$or'' (PDict (map (\<lambda>h. (''processed_analysis.file_hashes.'' @ h, PStr v)) hash_types)) query"

definition build_search_query :: "(real \<Rightarrow> string) \<Rightarrow> url_args \<Rightarrow> string result" where
  "build_search_query flt form =
     (let query = add_choices form ''vendor'' ''vendor'' ''$in'' (add_choices form ''device_class'' ''device_class'' ''$in'' [])
      in bindE (foldE (add_like form) [''file_name'', ''device_name'', ''version'', ''release_date''] query) (\<lambda>query.
         bindE (dict_item form ''hash_value'') (\<lambda>hash_value.
           let query = (if hash_value = [] then query else add_hash_query_to_query query hash_value)
           in json_dumps flt (PDict (add_choices form ''tags'' ''firmware_tags'' ''$overlap'' query)))))"

text \<open>A redirection to \<open>browse_database\<close> is given by the parameters of the address.\<close>

definition start_basic_search :: "(real \<Rightarrow> string) \<Rightarrow> url_args \<Rightarrow> url_args result" where
  "start_basic_search flt form = bindE (build_search_query flt form) (\<lambda>query. Inr [(''query'', query)])"

definition bool_text :: "bool \<Rightarrow> string" where
  "bool_text b = (if b then ''True'' else ''False'')"

text \<open>The form is shown again with the error, which is \<open>None\<close> if the search has the wrong type.\<close>

datatype advanced_search = AdvancedForm "py_error option" | AdvancedSearch url_args

definition start_advanced_search :: "(real \<Rightarrow> string) \<Rightarrow> (string \<Rightarrow> real) \<Rightarrow> url_args \<Rightarrow> advanced_search" where
  "start_advanced_search flt str_flt form =
     (case bindE (dict_item form ''advanced_search'') (json_loads str_flt) of
        Inl e \<Rightarrow> AdvancedForm (Some e)
      | Inr (PDict d) \<Rightarrow> (case json_dumps flt (PDict d) of
            Inl e \<Rightarrow> AdvancedForm (Some e)
          | Inr query \<Rightarrow> AdvancedSearch [(''query'', query), (''only_firmwares'', bool_text (map_of form ''only_firmwares'' \<noteq> None)),
              (''inverted'', bool_text (map_of form ''inverted'' \<noteq> None))])
      | Inr _ \<Rightarrow> AdvancedForm None)"




datatype graphql_post =
    GraphqlEmpty string
  | GraphqlDecodingError string
  | GraphqlIncomplete
  | GraphqlSearch url_args

text \<open>\<open>json.loads(None)\<close> is a \<open>TypeError\<close>.\<close>

definition post_graphql :: "(real \<Rightarrow> string) \<Rightarrow> (string \<Rightarrow> real) \<Rightarrow> url_args \<Rightarrow> graphql_post result" where
  "post_graphql flt str_flt form = (case map_of form ''textarea'' of
       None \<Rightarrow> Inl TypeError
     | Some where_str \<Rightarrow> (case json_loads str_flt where_str of
           Inl ValueError \<Rightarrow> Inr (if where_str = [] then GraphqlEmpty where_str else GraphqlDecodingError where_str)
         | Inl e \<Rightarrow> Inl e
         | Inr where_dict \<Rightarrow>
             (let table = map_of form ''tableSelect''
              in if where_str = [] \<and> table \<in> {None, Some []} then Inr GraphqlIncomplete
                 else bindE (json_dumps flt (PDict [(''where'', where_dict),
                       (''table'', case table of None \<Rightarrow> PNone | Some t \<Rightarrow> PStr t)])) (\<lambda>query.
                   Inr (GraphqlSearch [(''query'', query), (''graphql'', ''True'')])))))"

definition show_basic_search :: "database \<Rightarrow> string list \<times> string list \<times> string list" where
  "show_basic_search db = (get_device_class_list db, get_vendor_list db, get_tag_list db)"

text \<open>
  \<open>proxy_graphql\<close> hands a request on to the GraphQL server (\<open>send\<close> with method, headers, data and cookies) and its
  response back: content, status and headers. The headers of a request are collected in a dictionary.
\<close>

definition excluded_headers :: "string list" where
  "excluded_headers = [''connection'', ''content-encoding'', ''content-length'', ''keep-alive'', ''proxy-authenticate'',
     ''proxy-authorization'', ''te'', ''trailers'', ''transfer-encoding'', ''upgrade'']"

definition proxy_headers :: "url_args \<Rightarrow> url_args" where
  "proxy_headers headers = AList.update ''X-Hasura-Role'' ''ro_user''
     (fold (\<lambda>(k, v). AList.update k v) (filter (\<lambda>(k, _). k \<notin> {''Host'', ''Authorization''}) headers) [])"

definition proxy_graphql ::
  "(string \<Rightarrow> url_args \<Rightarrow> string \<Rightarrow> url_args \<Rightarrow> string \<times> int \<times> url_args) \<Rightarrow> string \<Rightarrow> url_args \<Rightarrow> string \<Rightarrow> url_args \<Rightarrow>
   string \<times> int \<times> url_args" where
  "proxy_graphql send method headers data cookies =
     (case send method (proxy_headers headers) data cookies of (content, status, response_headers) \<Rightarrow>
        (content, status, fold (\<lambda>(k, v). AList.update k v)
           (filter (\<lambda>(k, _). py_lower k \<notin> set excluded_headers) response_headers) []))"

section \<open>The binary search\<close>




text \<open>The items of the request: the rules from the file or the text, the UID, and whether only firmware is shown\<close>

definition textarea_rules :: "request \<Rightarrow> string option result" where
  "textarea_rules rq = bindE (form_item rq ''textarea'') (\<lambda>t.
     if t = [] then Inr None else bindE (make_bytes (Str t)) (\<lambda>b. Inr (Some b)))"

definition get_items_from_binary_search_request ::
  "(string \<Rightarrow> string) \<Rightarrow> request \<Rightarrow> (string option \<times> string option \<times> bool) result" where
  "get_items_from_binary_search_request escape rq =
     bindE (case rq_file rq of
         Some f \<Rightarrow> if up_filename f \<noteq> [] then Inr (snd (get_file_name_and_binary_from_request escape f))
           else textarea_rules rq
       | None \<Rightarrow> textarea_rules rq) (\<lambda>yara_rule_file.
     Inr (yara_rule_file,
       (case map_of (rq_form rq) ''firmware_uid'' of None \<Rightarrow> None | Some u \<Rightarrow> if u = [] then None else Some u),
       map_of (rq_form rq) ''only_firmware'' \<noteq> None))"

text \<open>
  The form with its error, or the redirection to the results of a request. The answer to the check of the rules may be
  missing when the time is over.
\<close>

datatype binary_search_error = FirmwareNotFound string | YaraRuleError "redis_value option" | NoRules

datatype binary_search_page =
    BinarySearchForm "binary_search_error option"
  | BinarySearchStarted url_args

text \<open>
  \<open>start_binary_search\<close> with the times of the two requests and what happens while the answer is awaited. The outer
  \<open>None\<close> is a request that never gets into its queue.
\<close>

definition start_binary_search ::
  "(string \<Rightarrow> string) \<Rightarrow> 's intercom_env \<Rightarrow> timestamp \<times> timestamp \<Rightarrow> ('s intercom_state \<Rightarrow> 's intercom_state) list \<Rightarrow>
   bool \<Rightarrow> request \<Rightarrow> 's intercom_state \<Rightarrow> (binary_search_page \<times> 's intercom_state) option result" where
  "start_binary_search escape env now sleeps is_post rq s =
     (if \<not> is_post then Inr (Some (BinarySearchForm None, s))
      else bindE (get_items_from_binary_search_request escape rq) (\<lambda>(yara_rule_file, firmware_uid, only_firmware).
        if (case firmware_uid of None \<Rightarrow> False | Some u \<Rightarrow> \<not> is_firmware (ic_db s) u)
        then Inr (Some (BinarySearchForm (Some (FirmwareNotFound (the firmware_uid))), s))
        else case yara_rule_file of
            None \<Rightarrow> Inr (Some (BinarySearchForm (Some NoRules), s))
          | Some rules \<Rightarrow> (case fe_get_yara_error env (fst now) (Bytes rules) sleeps s of
                None \<Rightarrow> Inr None
              | Some (Inl e, s1) \<Rightarrow> Inl e
              | Some (Inr yara_error, s1) \<Rightarrow>
                  if yara_error = Some (ResponseValue (ErrorTextResponse [])) then
                    Inr (map_option (\<lambda>(request_id, s2).
                      (BinarySearchStarted [(''request_id'', request_id), (''only_firmware'', bool_text only_firmware)], s2))
                      (add_binary_search_request env (snd now) rules firmware_uid s1))
                  else Inr (Some (BinarySearchForm (Some (YaraRuleError yara_error)), s1)))))"






definition set_ic_db :: "database \<Rightarrow> 's intercom_state \<Rightarrow> 's intercom_state" where
  "set_ic_db db = on_unpacking (\<lambda>v. v\<lparr>un_analysis := (un_analysis v)\<lparr>sdb := db\<rparr>\<rparr>)"


section \<open>Browsing the pages of a search\<close>

lemma nat_str_chars: "c \<in> set (nat_str n) \<Longrightarrow> is_digit_char c"
  using nat_str_digits [of n] by (auto simp: list_all_iff)

lemma digit_chars: "is_digit_char c \<Longrightarrow> \<not> is_space c \<and> c \<noteq> CHR ''-'' \<and> c \<noteq> CHR ''+'' \<and> c \<noteq> CHR ''_''"
  by (auto simp: is_digit_char_def is_space_def)

lemma dropWhile_none: "\<forall>c \<in> set s. \<not> P c \<Longrightarrow> dropWhile P s = s"
  by (cases s) auto

lemma int_from_nat_str [simp]: "int_from_text (nat_str n) = Inr (int n)"
proof -
  have d: "is_digit_char c" "\<not> is_space c" "c \<noteq> CHR ''-''" "c \<noteq> CHR ''+''" "c \<noteq> CHR ''_''" if "c \<in> set (nat_str n)" for c
    using nat_str_chars [OF that] digit_chars by auto
  have "py_strip (nat_str n) = nat_str n"
    using d(2) by (simp add: py_strip_def dropWhile_none)
  moreover have "int_sign (nat_str n) = (False, nat_str n)"
    using d(3,4) by (cases "nat_str n") (auto simp: int_sign_def)
  moreover have "py_split (CHR ''_'') (nat_str n) = [nat_str n]"
    using d(5) by (intro py_split_single) blast
  ultimately show ?thesis
    using nat_str_digits [of n] by (simp add: int_from_text_def digits_nat_str)
qed
















section \<open>The quick search\<close>









section \<open>The results of a binary search\<close>














lemma cache_keeps [simp]:
  "get_unpacker_name (db\<lparr>search_cache_table := c\<rparr>) = get_unpacker_name db"
  "get_hid_fo (db\<lparr>search_cache_table := c\<rparr>) u None = get_hid_fo db u None"
  "get_fo_root_hid (db\<lparr>search_cache_table := c\<rparr>) = get_fo_root_hid db"
  by (simp_all add: fun_eq_iff get_unpacker_name_def get_hid_fo_def get_vfps_def get_analysis_entry_def get_fo_root_hid_def
      split: list.split)

lemma cache_keeps_meta [simp]: "get_meta_for_entry (db\<lparr>search_cache_table := c\<rparr>) = get_meta_for_entry db"
proof -
  have "get_meta_for_fw (db\<lparr>search_cache_table := c\<rparr>) = get_meta_for_fw db"
    "get_meta_for_fo (db\<lparr>search_cache_table := c\<rparr>) = get_meta_for_fo db"
    by (simp_all add: fun_eq_iff get_meta_for_fw_def get_meta_for_fo_def)
  then show ?thesis
    by (simp add: fun_eq_iff get_meta_for_entry_def cong: option.case_cong if_cong search_row.case_cong)
qed

lemma ic_db_set [simp]: "ic_db (set_ic_db db s) = db"
  by (simp add: set_ic_db_def on_unpacking_def)



section \<open>The other searches\<close>

text \<open>
  The advanced search: what the user has written is searched for. The text in the address is not the one the user wrote,
  but is read as the same dictionary, if it has no floating point numbers.
\<close>

lemma advanced_search_kept:
  assumes "map_of form ''advanced_search'' = Some t" "json_loads f t = Inr (PDict d)" "loadable (PDict d)"
  shows "\<exists>a p. start_advanced_search flt f form = AdvancedSearch a \<and> get_search_parameters f db a q = Inr p \<and> sp_query p = PDict d \<and>
     sp_only_firmware p = (map_of form ''only_firmwares'' \<noteq> None) \<and> sp_inverted p = (map_of form ''inverted'' \<noteq> None)"
proof -
  obtain t' where t': "json_dumps flt (PDict d) = Inr t'" "json_loads f t' = Inr (PDict d)"
    using json.roundtrip [OF assms(3)] by blast
  obtain r where "t' = CHR ''{'' # r"
    using t'(1) by (auto simp: result_simps)
  then have "\<not> is_uid (PStr t')"
    by (simp add: is_uid_def is_hex_char_def)
  moreover have "start_advanced_search flt f form = AdvancedSearch [(''query'', t'),
      (''only_firmwares'', bool_text (map_of form ''only_firmwares'' \<noteq> None)), (''inverted'', bool_text (map_of form ''inverted'' \<noteq> None))]"
    using assms(1,2) t'(1) by (simp add: start_advanced_search_def dict_item_def)
  ultimately show ?thesis
    using t'(2)
    by (simp add: get_search_parameters_def flag_def bool_text_def regular_query_def apply_filters_to_query_def apply_filter_def)
qed

text \<open>
  Errors of a GraphQL search: the message of a \<open>GraphQLSearchError\<close> or a \<open>GraphQLSyntaxError\<close> is
  never shown, because \<^verbatim>\<open>in\<close> cannot be applied to an exception.
\<close>

lemma graphql_error_not_shown:
  assumes "search_gql (se_execute env) where_dict (PStr table) (Some (per_page * (page - 1))) (Some per_page) = Inl e"
    and "e \<in> {GraphQLSyntaxError, GraphQLSearchError m}"
    and "extract_pagination_from_request (se_results_per_page env) args = Inr (page, per_page, offset)"
    and "get_search_parameters (se_str_flt env) db args q = Inr p" "sp_search_target p = Target_graphql"
      "sp_query p = PDict [(''where'', where_dict), (''table'', PStr table)]"
  shows "browse_database env db args q = Inl TypeError"
  using assms by (auto simp: browse_database_def py_get_def gql_error_message_def Let_def)

text \<open>An unknown table is a \<open>KeyError\<close> and not the \<open>GraphQLSearchError\<close> that is meant to be raised.\<close>

lemma unknown_table_is_no_search_error:
  assumes "t \<notin> {''file_object'', ''firmware'', ''analysis''}"
  shows "search_gql execute where_dict (PStr t) offset limit = Inl (OtherError KeyError)"
    and "search_gql execute where_dict (PStr t) offset limit \<noteq> Inl (GraphQLSearchError m)"
  using assms by (auto simp: search_gql_def table_query_def dict_item_def TABLE_TO_QUERY_def other_error_def)

text \<open>
  The history of searches means to show a message when the database cannot be queried; the session has turned the error
  into a \<open>DbInterfaceError\<close> before, so it is never shown.
\<close>

lemma history_error_not_caught:
  "browse_searches env db args \<noteq> Inr None"
  "extract_pagination_from_request (se_results_per_page env) args = Inr (page, per_page, offset) \<Longrightarrow> offset < 0 \<Longrightarrow>
   browse_searches env db args = Inl DbInterfaceError"
  by (auto simp: browse_searches_def get_shared_session_def result_simps split: sum.splits if_splits)

text \<open>
  Whatever headers a user sends to the proxy, the server is asked in the role of a user who can only read, and neither the
  credentials nor the host are handed on.
\<close>

lemma fold_update_keys: "fst ` set (fold (\<lambda>(k, v). AList.update k v) xs d) = fst ` set xs \<union> fst ` set d"
  by (induction xs arbitrary: d) (auto simp: dom_update image_iff split: prod.splits)

lemma proxy_headers_safe:
  "map_of (proxy_headers headers) ''X-Hasura-Role'' = Some ''ro_user''"
  "map_of (proxy_headers headers) ''Host'' = None" "map_of (proxy_headers headers) ''Authorization'' = None"
  by (auto simp: proxy_headers_def map_of_update map_of_eq_None_iff fold_update_keys)

text \<open>The hash of a form with a hash replaces all other criteria: a dictionary with \<open>$or\<close> has no other conditions.\<close>

lemma hash_search_ignores_other_fields:
  "build_query_from_dict flt (PDict (add_hash_query_to_query query v)) False False =
     (case build_query_from_dict flt (PDict (map (\<lambda>h. (''processed_analysis.file_hashes.'' @ h, PStr v)) hash_types)) False True of
        (r, sub) \<Rightarrow> (r, PDict (AList.update ''$or'' sub (add_hash_query_to_query query v))))"
  by (subst build_query_from_dict.simps) (simp add: add_hash_query_to_query_def map_of_update)

section \<open>Witnesses\<close>










end
