(* ===== verification/Spec2Isabelle.thy ===== *)
theory Spec2Isabelle
  imports Upload Dependency_Graph Cve_Lookup Process_Supervision File_Coverage Statistics Search_Routes
begin

text \<open>
  FACT core: a model of the Firmware Analysis and Comparison Tool.

  FACT unpacks uploaded firmware images recursively, runs analysis plugins on every extracted file in
  an order that respects the plugins' dependencies, stores the results in a relational database and
  serves them to a web front end. The back end consists of schedulers (separate processes connected
  by queues), the plugin runners, a database layer and a file storage.

  Theories, in the order in which they build on each other, and the code they model (below
  \<open>src/src\<close>):

  \<^item> \<open>Prelude\<close>: the result type for exceptions (\<open>py_error + 'a\<close>), Python values, dictionaries as
    association lists, and the lemmas on them that all components share.
  \<^item> \<open>Dependencies\<close>: the locale \<open>dependency_scheduler\<close>, the contract of a loop that orders plugins by
    dependencies; interpreted on the model of the analysis task scheduler.
  \<^item> \<open>Plugin_Base\<close> (\<open>analysis/plugin/plugin.py\<close>), \<open>Helpers\<close> (\<open>helperFunctions\<close>), \<open>Objects\<close>
    (\<open>objects/file.py\<close>, \<open>objects/firmware.py\<close>): metadata of plugins, pure helpers, the data objects.
  \<^item> \<open>Task_Scheduler\<close> (\<open>scheduler/task_scheduler.py\<close>): dependency closure, dependency preserving
    shuffle, scheduling, rescheduling after a failure.
  \<^item> \<open>Analysis_Status\<close> (\<open>scheduler/analysis_status.py\<close>): the messages and the worker that track the
    progress of every firmware.
  \<^item> \<open>Entry_Conversion\<close> (\<open>storage/entry_conversion.py\<close>), \<open>Database\<close> (\<open>storage/schema.py\<close>,
    \<open>storage/db_interface_common.py\<close>), \<open>Database_Backend\<close> (the interfaces that write): the tables as
    lists of rows, the queries as functions on them, every write as a function that either commits or
    leaves the database unchanged.
  \<^item> \<open>File_Storage\<close> (\<open>storage/fsorganizer.py\<close>, \<open>storage/unpacking_locks.py\<close>).
  \<^item> \<open>Plugin_Runner\<close> (\<open>scheduler/analysis/plugin.py\<close>, \<open>statistic/analysis_stats.py\<close>).
  \<^item> \<open>Analysis_Scheduler\<close> (\<open>scheduler/analysis/scheduler.py\<close>): the composition of all of the above;
    the processes are the steps of \<open>sched_step\<close>.
  \<^item> \<open>Unpacker\<close> (\<open>unpacker\<close>) and \<open>Unpacking_Scheduler\<close> (\<open>scheduler/unpacking_scheduler.py\<close>): extraction of a
    file in its container, and the threads and bookkeeping around it; every unpacked file goes to the analysis
    scheduler, whose state is part of the state here.
  \<^item> \<open>Process_Supervision\<close> (\<open>helperFunctions/process.py\<close> and the methods \<open>check_exceptions\<close>): failed workers
    of the schedulers are reported or restarted.
  \<^item> \<open>Comparison_Plugins\<close> and \<open>Comparison\<close> (\<open>compare\<close>, \<open>storage/db_interface_comparison.py\<close>,
    \<open>scheduler/comparison_scheduler.py\<close>): order of the comparison plugins, running them, storing the results;
    \<open>File_Coverage\<close> (\<open>plugins/compare/file_coverage\<close>, \<open>plugins/compare/software\<close>): two of these plugins.
  \<^item> \<open>Redis_Interface\<close> (\<open>storage/redis_interface.py\<close>), \<open>Yara_Search\<close> (\<open>helperFunctions/yara_binary_search.py\<close>)
    and \<open>Intercom\<close> (\<open>intercom\<close>, \<open>storage/binary_service.py\<close>, \<open>storage/redis_status_interface.py\<close>): the requests of
    the front end, the listeners of the back end and their responses.
  \<^item> \<open>Upload\<close> (\<open>helperFunctions/task_conversion.py\<close>, parts of \<open>web_interface/components\<close> and \<open>web_interface/rest\<close>):
    a request becomes a firmware object in the queue of the back end.
  \<^item> \<open>File_Tree\<close> and \<open>Jstree\<close> (\<open>web_interface/file_tree\<close>, parts of \<open>web_interface/components/ajax_routes.py\<close>):
    the layers of the file tree and the data of the tree widget.
  \<^item> \<open>Query_Conversion\<close> (\<open>storage/query_conversion.py\<close>), \<open>Frontend_Database\<close>
    (\<open>storage/db_interface_frontend.py\<close>) and \<open>Dependency_Graph\<close>
    (\<open>web_interface/components/dependency_graph.py\<close>): searching and reading for the web interface.
  \<^item> \<open>Json\<close> and \<open>Search_Routes\<close> (\<open>web_interface/components/database_routes.py\<close>, \<open>web_interface/pagination.py\<close>,
    \<open>storage/graphql/interface.py\<close>): the search forms, the JSON text of a search in the address of a page, the pages
    with the results, the binary search and the GraphQL search.
  \<^item> \<open>Statistics\<close> (\<open>storage/db_interface_stats.py\<close>, \<open>statistic\<close>, \<open>web_interface/components/statistic_routes.py\<close>,
    \<open>web_interface/rest/rest_statistics.py\<close>): computing, storing and reading the statistics.
  \<^item> \<open>Cve_Database\<close>, \<open>Busybox_Filter\<close> and \<open>Cve_Lookup\<close> (\<open>plugins/analysis/cve_lookup\<close>): an analysis plugin with
    a database of its own, from the feed of CVEs to the report.

  Interfaces: \<open>dependency_scheduler\<close> (\<open>Dependencies\<close>) is interpreted on the analysis task scheduler (\<open>ts\<close>) and
  on the order of the comparison plugins (\<open>cs\<close>); \<open>analysis_store\<close> on the database writes (\<open>db\<close>);
  \<open>message_queues\<close> on the queues in Redis (\<open>redis_queues\<close>), on which the intercom rests; \<open>overlay_store\<close> on the
  nodes of the file tree (\<open>tree\<close>); \<open>set_comparison\<close> on the files and on the software of the compared objects
  (\<open>files\<close>, \<open>software\<close>); \<open>text_codec\<close> on writing and reading JSON (\<open>json\<close>).

  What the lemmas show. Schedulers: every requested plugin and its dependencies run, in an order that respects the
  dependencies, once per file; the bookkeeping of analysis and unpacking agrees with the work that is left; a failed
  worker is noticed. Database: rows that are written are read back, deleting a firmware removes exactly what belonged
  to it, searches list every match once. Intercom: a request is answered with the response computed for it, and a
  deletion never removes a file that is being unpacked or that another firmware needs; an upload is stored and reaches
  the unpacker with its metadata. Web interface: a layer of the
  tree shows every path exactly once, the dependency graph has exactly the edges that links and libraries give; the
  pages of a search, from the form to the last page, show every match once, and so do those of a binary search;
  statistics are read as they were computed, and the histogram of release dates has no gaps. Comparison: the file
  coverage splits the files into common, exclusive and similar ones, and changed text files are paired by path. CVE
  lookup: the installed tables are those that the feed describes, and the report is the specified one.

  Bounds: the recursive database queries take fuel; the theorems about them show that any fuel above
  the depth of the inclusion relation is enough. The search along the dependencies of comparison plugins takes fuel,
  and one more than the number of plugins is shown to be enough. Drawing a free key for a chunk in Redis may never
  end, which is the result \<open>None\<close>; it ends if a draw gives a free key. The fuel of the JSON parser is derived from
  the length of the text and is shown to be enough. All other loops terminate by a measure.

  Not modelled: most web routes, templates and the command line programs (input and output only), the
  installation and migration scripts, Docker and PostgreSQL themselves, and the other analysis plugins, most of
  which call an external program and reformat its output.
\<close>

end
